(* ===== verification/Prelude.thy ===== *)
theory Prelude
  imports Main "HOL-Library.Char_ord" "HOL-Library.List_Lexorder"
begin

text \<open>
  Shared vocabulary of the development.

  \<^item> Exceptions. A Python exception is a value \<open>Exn c t\<close>: its class \<open>c\<close> and a tag \<open>t\<close> that names
    the raise site. The interpolated message text is not modelled. A fallible operation returns
    \<open>exn + 'a\<close> (\<open>Inl\<close> for a raise), and \<open>bindR\<close> sequences two of them, so that the first raise
    ends the computation as it does in the source.
  \<^item> Text. A Python \<open>str\<close> is a list of 8-bit characters read as the Latin-1 code points U+0000 to
    U+00FF, with the Python predicates \<open>isdecimal\<close>, \<open>isdigit\<close>, \<open>isalpha\<close>, \<open>isascii\<close>,
    \<open>isprintable\<close>, \<open>strip\<close>, \<open>upper\<close>, \<open>split\<close> and \<open>partition\<close> given by their tables on that range.
    (Two code points, U+00B5 and U+00FF, have an upper case outside the range; they are left as
    they are.)
  \<^item> Tables. A SQLite table or an ordered dictionary is a list of rows in insertion order, with
    lookup, insertion and update by key and their lemmas.
  \<^item> Invariants. The locale \<open>guarded_system\<close> lifts a one-step invariant to every reachable state, and
    \<open>refined_system\<close> a one-step simulation of an abstract system to every run.
\<close>

named_theorems res_simps \<open>rewriting of sequenced fallible computations\<close>
named_theorems py_text \<open>definitions of the Python text predicates\<close>

subsection \<open>Exceptions and results\<close>

datatype exc =
    ValueError | TypeError | RuntimeError | OverflowError | AssertionError | PermissionError
  | KeyError | IndexError | InvalidOperation
  | TradingPolicyError | TradingModeConfigError
  | ExecutionStoreError | ExecutionConflict
  | TradingControlError | ProviderRateLimitError
  | ClientAuthorizationError | TradeQueryError
  | OrderNotSentError | OrderOutcomeUnknownError | OrderReceiptUnreadableError
  | IdentityTokenValidationError
  | SqliteError | OSError | AttributeError

datatype exn = Exn (exn_class: exc) (exn_tag: string)

type_synonym 'a res = "exn + 'a"

abbreviation raise :: "exc \<Rightarrow> string \<Rightarrow> 'a res" where
  "raise c t \<equiv> Inl (Exn c t)"

abbreviation ok :: "unit res" where
  "ok \<equiv> Inr ()"

definition bindR :: "'a res \<Rightarrow> ('a \<Rightarrow> 'b res) \<Rightarrow> 'b res" where
  "bindR r f = (case r of Inl e \<Rightarrow> Inl e | Inr x \<Rightarrow> f x)"

text \<open>\<open>guardR c e\<close> is \<open>if c: raise e\<close>.\<close>

definition guardR :: "bool \<Rightarrow> exn \<Rightarrow> unit res" where
  "guardR c e = (if c then Inl e else Inr ())"

text \<open>\<open>for x in xs: f(x)\<close>, where \<open>f\<close> may raise.\<close>

fun forR :: "'a list \<Rightarrow> ('a \<Rightarrow> unit res) \<Rightarrow> unit res" where
  "forR [] f = Inr ()"
| "forR (x # xs) f = bindR (f x) (\<lambda>_. forR xs f)"

text \<open>\<open>[f(x) for x in xs]\<close>, where \<open>f\<close> may raise.\<close>

fun mapR :: "('a \<Rightarrow> 'b res) \<Rightarrow> 'a list \<Rightarrow> 'b list res" where
  "mapR f [] = Inr []"
| "mapR f (x # xs) = bindR (f x) (\<lambda>y. bindR (mapR f xs) (\<lambda>ys. Inr (y # ys)))"

lemma bindR_simps [simp]:
  "bindR (Inl e) f = Inl e" "bindR (Inr x) f = f x"
  by (simp_all add: bindR_def)

lemma bindR_Inr_iff [res_simps]: "bindR r f = Inr y \<longleftrightarrow> (\<exists>x. r = Inr x \<and> f x = Inr y)"
  by (cases r) simp_all

lemma bindR_Inl_iff [res_simps]:
  "bindR r f = Inl e \<longleftrightarrow> r = Inl e \<or> (\<exists>x. r = Inr x \<and> f x = Inl e)"
  by (cases r) simp_all

lemma bindR_cong [fundef_cong]:
  "r = r' \<Longrightarrow> (\<And>x. r' = Inr x \<Longrightarrow> f x = f' x) \<Longrightarrow> bindR r f = bindR r' f'"
  by (cases r') simp_all

lemma guardR_Inr_iff [res_simps]: "guardR c e = Inr u \<longleftrightarrow> \<not> c"
  by (simp add: guardR_def)

lemma guardR_Inl_iff [res_simps]: "guardR c e = Inl e' \<longleftrightarrow> c \<and> e' = e"
  by (auto simp: guardR_def)

lemma guardR_simps [simp]: "guardR True e = Inl e" "guardR False e = Inr ()"
  by (simp_all add: guardR_def)

lemma forR_Inr_iff [res_simps]: "forR xs f = Inr u \<longleftrightarrow> (\<forall>x \<in> set xs. f x = Inr ())"
  by (induction xs) (auto simp: res_simps)

lemma forR_Inl_D: "forR xs f = Inl e \<Longrightarrow> \<exists>x \<in> set xs. f x = Inl e"
  by (induction xs) (auto simp: res_simps)

lemma forR_cong [fundef_cong]:
  "xs = ys \<Longrightarrow> (\<And>x. x \<in> set ys \<Longrightarrow> f x = g x) \<Longrightarrow> forR xs f = forR ys g"
  by (induction ys arbitrary: xs) (auto intro: bindR_cong)

lemma mapR_Inr_iff [res_simps]:
  "mapR f xs = Inr ys \<longleftrightarrow> list_all2 (\<lambda>x y. f x = Inr y) xs ys"
proof (induction xs arbitrary: ys)
  case Nil
  then show ?case by auto
next
  case (Cons x xs)
  then show ?case by (cases ys) (auto simp: res_simps)
qed

lemma mapR_Inl_D: "mapR f xs = Inl e \<Longrightarrow> \<exists>x \<in> set xs. f x = Inl e"
  by (induction xs) (auto simp: res_simps)

text \<open>\<open>isinstance(exc, C)\<close> for the class hierarchy of the repository and the built-in classes.\<close>

fun superclass :: "exc \<Rightarrow> exc option" where
  "superclass TradingPolicyError = Some RuntimeError"
| "superclass TradingModeConfigError = Some ValueError"
| "superclass ExecutionStoreError = Some RuntimeError"
| "superclass ExecutionConflict = Some ValueError"
| "superclass TradingControlError = Some RuntimeError"
| "superclass ProviderRateLimitError = Some RuntimeError"
| "superclass ClientAuthorizationError = Some PermissionError"
| "superclass TradeQueryError = Some RuntimeError"
| "superclass OrderNotSentError = Some RuntimeError"
| "superclass OrderOutcomeUnknownError = Some RuntimeError"
| "superclass OrderReceiptUnreadableError = Some RuntimeError"
| "superclass IdentityTokenValidationError = Some ValueError"
| "superclass _ = None"

definition instance_of :: "exn \<Rightarrow> exc \<Rightarrow> bool" where
  "instance_of e c \<longleftrightarrow> exn_class e = c \<or> superclass (exn_class e) = Some c"

subsection \<open>Python text\<close>

definition ord_of :: "char \<Rightarrow> nat" where
  "ord_of c = of_char c"

definition space_char :: "char \<Rightarrow> bool" where [py_text]:
  "space_char c = (let n = ord_of c in
     9 \<le> n \<and> n \<le> 13 \<or> 28 \<le> n \<and> n \<le> 32 \<or> n = 133 \<or> n = 160)"

definition decimal_char :: "char \<Rightarrow> bool" where [py_text]:
  "decimal_char c = (48 \<le> ord_of c \<and> ord_of c \<le> 57)"

definition digit_char :: "char \<Rightarrow> bool" where [py_text]:
  "digit_char c = (decimal_char c \<or> ord_of c = 178 \<or> ord_of c = 179 \<or> ord_of c = 185)"

definition alpha_char :: "char \<Rightarrow> bool" where [py_text]:
  "alpha_char c = (let n = ord_of c in
     65 \<le> n \<and> n \<le> 90 \<or> 97 \<le> n \<and> n \<le> 122 \<or> n = 170 \<or> n = 181 \<or> n = 186
     \<or> 192 \<le> n \<and> n \<noteq> 215 \<and> n \<noteq> 247)"

definition printable_char :: "char \<Rightarrow> bool" where [py_text]:
  "printable_char c = (let n = ord_of c in 32 \<le> n \<and> n \<le> 126 \<or> 161 \<le> n \<and> n \<noteq> 173)"

definition upper_char :: "char \<Rightarrow> string" where [py_text]:
  "upper_char c = (let n = ord_of c in
     if 97 \<le> n \<and> n \<le> 122 \<or> 224 \<le> n \<and> n \<le> 254 \<and> n \<noteq> 247 then [char_of (n - 32)]
     else if n = 223 then ''SS'' else [c])"

definition lower_char :: "char \<Rightarrow> char" where [py_text]:
  "lower_char c = (let n = ord_of c in
     if 65 \<le> n \<and> n \<le> 90 \<or> 192 \<le> n \<and> n \<le> 222 \<and> n \<noteq> 215 then char_of (n + 32) else c)"

definition isascii :: "string \<Rightarrow> bool" where [py_text]:
  "isascii s = list_all (\<lambda>c. ord_of c < 128) s"

definition isdecimal :: "string \<Rightarrow> bool" where [py_text]:
  "isdecimal s = (s \<noteq> [] \<and> list_all decimal_char s)"

definition isdigit :: "string \<Rightarrow> bool" where [py_text]:
  "isdigit s = (s \<noteq> [] \<and> list_all digit_char s)"

definition isalpha :: "string \<Rightarrow> bool" where [py_text]:
  "isalpha s = (s \<noteq> [] \<and> list_all alpha_char s)"

definition isprintable :: "string \<Rightarrow> bool" where [py_text]:
  "isprintable s = list_all printable_char s"

definition strip :: "string \<Rightarrow> string" where [py_text]:
  "strip s = rev (dropWhile space_char (rev (dropWhile space_char s)))"

definition upper :: "string \<Rightarrow> string" where [py_text]:
  "upper s = concat (map upper_char s)"

definition lower :: "string \<Rightarrow> string" where [py_text]:
  "lower s = map lower_char s"

text \<open>\<open>s.strip().upper()\<close>, the normalization the services apply to every enumerated argument.\<close>

definition norm_text :: "string \<Rightarrow> string" where [py_text]:
  "norm_text s = upper (strip s)"

text \<open>\<open>s.split(c)\<close> for a one-character separator: always at least one part.\<close>

fun split_on :: "char \<Rightarrow> string \<Rightarrow> string list" where
  "split_on c [] = [[]]"
| "split_on c (x # xs) =
     (if x = c then [] # split_on c xs
      else (case split_on c xs of [] \<Rightarrow> [[x]] | p # ps \<Rightarrow> (x # p) # ps))"

text \<open>\<open>s.partition(c)\<close>: head, whether the separator occurs, tail.\<close>

fun partition_at :: "char \<Rightarrow> string \<Rightarrow> string \<times> bool \<times> string" where
  "partition_at c [] = ([], False, [])"
| "partition_at c (x # xs) =
     (if x = c then ([], True, xs)
      else (case partition_at c xs of (h, f, t) \<Rightarrow> (x # h, f, t)))"

definition startswith :: "string \<Rightarrow> string \<Rightarrow> bool" where
  "startswith s p = (take (length p) s = p)"

text \<open>\<open>s.partition(sep)\<close> and \<open>s.rpartition(sep)\<close> for a longer separator; \<open>sep in s\<close>.\<close>

fun partition_text :: "string \<Rightarrow> string \<Rightarrow> string \<times> bool \<times> string" where
  "partition_text sep [] = ([], sep = [], [])"
| "partition_text sep (x # xs) =
     (if startswith (x # xs) sep then ([], True, drop (length sep) (x # xs))
      else (case partition_text sep xs of (h, f, t) \<Rightarrow> (x # h, f, t)))"

definition rpartition_text :: "string \<Rightarrow> string \<Rightarrow> string \<times> bool \<times> string" where
  "rpartition_text sep s =
     (case partition_text (rev sep) (rev s) of (h, f, t) \<Rightarrow>
        if f then (rev t, True, rev h) else ([], False, s))"

definition contains_text :: "string \<Rightarrow> string \<Rightarrow> bool" where
  "contains_text sep s = fst (snd (partition_text sep s))"

definition digit_val :: "char \<Rightarrow> int" where
  "digit_val c = int (ord_of c) - 48"

definition digits_val :: "string \<Rightarrow> int" where
  "digits_val s = foldl (\<lambda>n c. 10 * n + digit_val c) 0 s"

text \<open>\<open>int(s)\<close> of a run of decimal digits. Other digits (such as a superscript two) are not
  accepted by \<open>int\<close>, and CPython refuses more than 4300 digits.\<close>

definition int_of_text :: "string \<Rightarrow> int res" where
  "int_of_text s =
     (if \<not> isdecimal s \<or> length s > 4300 then raise ValueError ''int''
      else Inr (digits_val s))"

text \<open>\<open>str(n)\<close> of an integer.\<close>

function nat_text :: "int \<Rightarrow> string" where
  "nat_text n = (if n < 10 then [char_of (48 + nat n)]
     else nat_text (n div 10) @ [char_of (48 + nat (n mod 10))])"
  by pat_completeness auto
termination
  by (relation "measure nat") auto

declare nat_text.simps [simp del]

definition int_text :: "int \<Rightarrow> string" where
  "int_text i = (if i < 0 then CHR ''-'' # nat_text (- i) else nat_text i)"

text \<open>The decimal text of a number reads back as that number.\<close>

lemma ord_of_digit [simp]: "n < 10 \<Longrightarrow> ord_of (char_of (48 + n)) = 48 + n"
  by (simp add: ord_of_def)

lemma decimal_char_digit [simp]: "(n :: nat) < 10 \<Longrightarrow> decimal_char (char_of (48 + n))"
  by (simp add: decimal_char_def)

lemma digit_val_digit [simp]: "n < 10 \<Longrightarrow> digit_val (char_of (48 + n)) = int n"
  by (simp add: digit_val_def)

lemma nat_text_decimal: "isdecimal (nat_text n)"
proof (induction n rule: nat_text.induct)
  case (1 n)
  have *: "nat (n mod 10) < 10" by simp
  show ?case
    using 1 decimal_char_digit [OF *]
    by (subst nat_text.simps) (auto simp: isdecimal_def)
qed

lemma digits_val_snoc: "digits_val (s @ [c]) = 10 * digits_val s + digit_val c"
  by (simp add: digits_val_def)

lemma digits_val_nat_text [simp]: "0 \<le> n \<Longrightarrow> digits_val (nat_text n) = n"
proof (induction n rule: nat_text.induct)
  case (1 n)
  show ?case
  proof (cases "n < 10")
    case True
    with "1.prems" have "nat n < 10" by simp
    with True "1.prems" show ?thesis
      by (subst nat_text.simps) (simp add: digits_val_def)
  next
    case False
    have "nat (n mod 10) < 10" by simp
    with False 1 show ?thesis
      by (subst nat_text.simps) (simp add: digits_val_snoc)
  qed
qed

lemma digits_val_nonneg: "list_all decimal_char s \<Longrightarrow> 0 \<le> digits_val s"
  by (induction s rule: rev_induct)
    (auto simp: digits_val_snoc digits_val_def decimal_char_def digit_val_def)

lemma int_text_decimal: "0 \<le> n \<Longrightarrow> isdecimal (int_text n)"
  by (simp add: int_text_def nat_text_decimal)

lemma int_of_text_int_text:
  "0 \<le> n \<Longrightarrow> length (int_text n) \<le> 4300 \<Longrightarrow> int_of_text (int_text n) = Inr n"
  by (simp add: int_of_text_def int_text_def nat_text_decimal)

lemma isdecimal_not_minus: "isdecimal s \<Longrightarrow> hd s \<noteq> CHR ''-''"
  by (cases s) (auto simp: isdecimal_def decimal_char_def ord_of_def)

lemma isascii_decimal: "isdecimal s \<Longrightarrow> isascii s"
  by (auto simp: isdecimal_def isascii_def decimal_char_def list_all_iff)

subsection \<open>Tables of rows\<close>

text \<open>\<open>SELECT ... WHERE key = k\<close> on a keyed table, and \<open>UPDATE ... WHERE p\<close>.\<close>

definition find_row :: "('r \<Rightarrow> 'k) \<Rightarrow> 'k \<Rightarrow> 'r list \<Rightarrow> 'r option" where
  "find_row key k rows = find (\<lambda>r. key r = k) rows"

definition update_rows :: "('r \<Rightarrow> bool) \<Rightarrow> ('r \<Rightarrow> 'r) \<Rightarrow> 'r list \<Rightarrow> 'r list" where
  "update_rows p f rows = map (\<lambda>r. if p r then f r else r) rows"

lemma find_row_simps [simp]:
  "find_row key k [] = None"
  "find_row key k (r # rs) = (if key r = k then Some r else find_row key k rs)"
  by (simp_all add: find_row_def)

lemma find_row_append [simp]:
  "find_row key k (rs @ ss) =
     (case find_row key k rs of None \<Rightarrow> find_row key k ss | Some r \<Rightarrow> Some r)"
  by (induction rs) simp_all

lemma find_row_SomeD: "find_row key k rs = Some r \<Longrightarrow> r \<in> set rs \<and> key r = k"
  by (induction rs) (auto split: if_splits)

lemma find_row_None_iff: "find_row key k rs = None \<longleftrightarrow> k \<notin> key ` set rs"
  by (induction rs) auto

lemma find_row_distinct:
  "distinct (map key rs) \<Longrightarrow> r \<in> set rs \<Longrightarrow> find_row key (key r) rs = Some r"
  by (induction rs) auto

lemma update_rows_simps [simp]:
  "update_rows p f [] = []"
  "update_rows p f (r # rs) = (if p r then f r else r) # update_rows p f rs"
  "update_rows p f (rs @ ss) = update_rows p f rs @ update_rows p f ss"
  by (simp_all add: update_rows_def)

lemma length_update_rows [simp]: "length (update_rows p f rs) = length rs"
  by (simp add: update_rows_def)

lemma set_update_rows: "set (update_rows p f rs) = (\<lambda>r. if p r then f r else r) ` set rs"
  by (simp add: update_rows_def)

lemma update_rowsE:
  assumes "q \<in> set (update_rows p f rs)"
  obtains (hit) r where "r \<in> set rs" "p r" "q = f r" | (miss) "q \<in> set rs" "\<not> p q"
  using assms by (auto simp: update_rows_def split: if_splits)

lemma map_key_update_rows:
  "(\<And>r. key (f r) = key r) \<Longrightarrow> map key (update_rows p f rs) = map key rs"
  by (simp add: update_rows_def)

lemma find_row_update_rows:
  "(\<And>r. key (f r) = key r) \<Longrightarrow>
   find_row key k (update_rows p f rs) =
     map_option (\<lambda>r. if p r then f r else r) (find_row key k rs)"
  by (induction rs) auto

text \<open>\<open>INSERT OR IGNORE\<close> of one row, and of a list of rows.\<close>

definition insert_ignore :: "'a \<Rightarrow> 'a list \<Rightarrow> 'a list" where
  "insert_ignore x xs = (if x \<in> set xs then xs else xs @ [x])"

definition insert_all_ignore :: "'a list \<Rightarrow> 'a list \<Rightarrow> 'a list" where
  "insert_all_ignore ys xs = foldl (\<lambda>acc y. insert_ignore y acc) xs ys"

lemma set_insert_ignore [simp]: "set (insert_ignore x xs) = insert x (set xs)"
  by (auto simp: insert_ignore_def)

lemma distinct_insert_ignore [simp]: "distinct (insert_ignore x xs) = distinct xs"
  by (simp add: insert_ignore_def)

lemma set_insert_all_ignore [simp]: "set (insert_all_ignore ys xs) = set ys \<union> set xs"
  by (induction ys arbitrary: xs) (auto simp: insert_all_ignore_def)

lemma distinct_insert_all_ignore [simp]: "distinct (insert_all_ignore ys xs) = distinct xs"
  by (induction ys arbitrary: xs) (auto simp: insert_all_ignore_def)

lemma insert_ignore_nonempty [simp]: "insert_ignore x xs \<noteq> []"
  by (auto simp: insert_ignore_def)

text \<open>\<open>sorted({...})\<close> of a collection of values: ascending, without duplicates.\<close>

definition sorted_set :: "('a :: linorder) list \<Rightarrow> 'a list" where
  "sorted_set xs = sort (remdups xs)"

lemma sorted_set_props [simp]:
  "set (sorted_set xs) = set xs" "distinct (sorted_set xs)" "sorted (sorted_set xs)"
  by (simp_all add: sorted_set_def)

subsection \<open>Invariants of guarded systems\<close>

text \<open>
  A component is its start states, its steps and an invariant. The interface asks for the two
  one-step obligations and gives back the invariant of every run.
\<close>

locale guarded_system =
  fixes start :: "'s \<Rightarrow> bool"
    and step :: "'s \<Rightarrow> 's \<Rightarrow> bool"
    and invar :: "'s \<Rightarrow> bool"
  assumes start_invar: "start s \<Longrightarrow> invar s"
    and step_invar: "invar s \<Longrightarrow> step s t \<Longrightarrow> invar t"
begin

lemma run_invar: "step\<^sup>*\<^sup>* s t \<Longrightarrow> invar s \<Longrightarrow> invar t"
  by (induction rule: rtranclp_induct) (auto intro: step_invar)

lemma reachable_invar: "start s \<Longrightarrow> step\<^sup>*\<^sup>* s t \<Longrightarrow> invar t"
  by (blast intro: run_invar start_invar)

lemma run_stable:
  assumes stable: "\<And>s t. invar s \<Longrightarrow> step s t \<Longrightarrow> Q s \<Longrightarrow> Q t"
    and run: "step\<^sup>*\<^sup>* s t" and inv: "invar s" and q: "Q s"
  shows "Q t"
proof -
  from run have "invar t \<and> Q t"
  proof (induction rule: rtranclp_induct)
    case base
    from inv q show ?case by simp
  next
    case (step u v)
    then show ?case using stable step_invar by blast
  qed
  then show ?thesis by simp
qed

end

text \<open>A system that implements an abstract one: every step of the system is a number of steps of the
  abstract one on the abstraction of its states, so that every run is.\<close>

locale refined_system = guarded_system start step invar
  for start :: "'s \<Rightarrow> bool" and step :: "'s \<Rightarrow> 's \<Rightarrow> bool" and invar :: "'s \<Rightarrow> bool" +
  fixes abstraction :: "'s \<Rightarrow> 'a"
    and abstract_step :: "'a \<Rightarrow> 'a \<Rightarrow> bool"
  assumes simulates: "invar s \<Longrightarrow> step s t \<Longrightarrow> abstract_step\<^sup>*\<^sup>* (abstraction s) (abstraction t)"
begin

lemma run_refines:
  assumes "invar s" "step\<^sup>*\<^sup>* s t"
  shows "abstract_step\<^sup>*\<^sup>* (abstraction s) (abstraction t)"
  using assms(2)
proof (induction rule: rtranclp_induct)
  case (step t u)
  from simulates [OF run_invar [OF step.hyps(1) assms(1)] step.hyps(2)] step.IH show ?case by simp
qed simp

lemma reachable_refines: "start s \<Longrightarrow> step\<^sup>*\<^sup>* s t \<Longrightarrow> abstract_step\<^sup>*\<^sup>* (abstraction s) (abstraction t)"
  by (rule run_refines [OF start_invar])

end

end
