(* ===== verification/Py_Float.thy ===== *)
theory Py_Float
  imports Prelude Complex_Main "HOL-Library.Log_Nat"
begin

text \<open>
  Python numbers. A \<open>float\<close> is an IEEE-754 binary64 value: a finite value is the rational it
  denotes (the two zeros, which compare equal, are one value), besides the infinities and NaN. The comparison operators are Python's:
  every comparison with NaN is false. The product or sum of two floats is the exact one rounded to
  nearest, ties to even, with 53 significant bits, gradual underflow at \<open>2 ^ -1074\<close> and overflow to an infinity.
  A \<open>Decimal\<close> is a sign, a coefficient and a power of ten, kept exactly. Both are read from text by the grammar of \<open>float(s)\<close> and
  \<open>Decimal(s)\<close>. The theory proves that rounding is accurate to one part in \<open>2 ^ 53\<close> of the exact value
  in the normal range, which is what the guardrail theorems need.
\<close>

named_theorems py_num \<open>evaluation of Python numbers\<close>

subsection \<open>Floats\<close>

datatype pyfloat = Fin rat | PosInf | NegInf | NaN

instantiation pyfloat :: ord
begin

fun less_pyfloat :: "pyfloat \<Rightarrow> pyfloat \<Rightarrow> bool" where
  "less_pyfloat (Fin a) (Fin b) = (a < b)"
| "less_pyfloat NegInf (Fin b) = True"
| "less_pyfloat NegInf PosInf = True"
| "less_pyfloat (Fin a) PosInf = True"
| "less_pyfloat _ _ = False"

fun less_eq_pyfloat :: "pyfloat \<Rightarrow> pyfloat \<Rightarrow> bool" where
  "less_eq_pyfloat NaN _ = False"
| "less_eq_pyfloat _ NaN = False"
| "less_eq_pyfloat a b = (a < b \<or> a = b)"

instance ..

end

definition isfinite :: "pyfloat \<Rightarrow> bool" where [py_num]:
  "isfinite x = (case x of Fin _ \<Rightarrow> True | _ \<Rightarrow> False)"

definition pow2 :: "int \<Rightarrow> rat" where [py_num]:
  "pow2 k = (if 0 \<le> k then 2 ^ nat k else 1 / 2 ^ nat (- k))"

text \<open>The exponent of the leading bit of a positive rational.\<close>

definition lead :: "rat \<Rightarrow> int" where [py_num]:
  "lead x = (case quotient_of x of (p, q) \<Rightarrow>
     let k = bitlen p - bitlen q in if pow2 k \<le> x then k else k - 1)"

definition half_even :: "rat \<Rightarrow> int" where [py_num]:
  "half_even y = (let f = \<lfloor>y\<rfloor>; d = y - of_int f in
     if d < 1 / 2 then f else if 1 / 2 < d then f + 1 else if even f then f else f + 1)"

definition round_pos :: "rat \<Rightarrow> rat" where [py_num]:
  "round_pos x = (let e = max (lead x - 52) (- 1074) in of_int (half_even (x / pow2 e)) * pow2 e)"

definition round64 :: "rat \<Rightarrow> pyfloat" where [py_num]:
  "round64 x =
     (if x = 0 then Fin 0
      else let y = round_pos \<bar>x\<bar> in
        if pow2 1024 \<le> y then (if 0 < x then PosInf else NegInf)
        else Fin (if 0 < x then y else - y))"

definition fneg :: "pyfloat \<Rightarrow> bool" where [py_num]:
  "fneg x = (x < Fin 0)"

text \<open>The product of two floats. A product with a zero and an infinity is NaN.\<close>

definition fmul :: "pyfloat \<Rightarrow> pyfloat \<Rightarrow> pyfloat" where [py_num]:
  "fmul x y = (case (x, y) of
     (NaN, _) \<Rightarrow> NaN | (_, NaN) \<Rightarrow> NaN
   | (Fin a, Fin b) \<Rightarrow> round64 (a * b)
   | _ \<Rightarrow> if x = Fin 0 \<or> y = Fin 0 then NaN else if fneg x = fneg y then PosInf else NegInf)"

text \<open>The sum and difference of two floats. Opposite infinities give NaN.\<close>

definition fminus :: "pyfloat \<Rightarrow> pyfloat" where [py_num]:
  "fminus x = (case x of Fin a \<Rightarrow> Fin (- a) | PosInf \<Rightarrow> NegInf | NegInf \<Rightarrow> PosInf | NaN \<Rightarrow> NaN)"

definition fadd :: "pyfloat \<Rightarrow> pyfloat \<Rightarrow> pyfloat" where [py_num]:
  "fadd x y = (case (x, y) of
     (NaN, _) \<Rightarrow> NaN | (_, NaN) \<Rightarrow> NaN
   | (Fin a, Fin b) \<Rightarrow> round64 (a + b)
   | (Fin _, i) \<Rightarrow> i | (i, Fin _) \<Rightarrow> i
   | (i, j) \<Rightarrow> if i = j then i else NaN)"

definition fsub :: "pyfloat \<Rightarrow> pyfloat \<Rightarrow> pyfloat" where [py_num]:
  "fsub x y = fadd x (fminus y)"

text \<open>\<open>math.floor(x)\<close> and \<open>math.ceil(x)\<close>.\<close>

definition int_of_float :: "(rat \<Rightarrow> int) \<Rightarrow> pyfloat \<Rightarrow> int res" where [py_num]:
  "int_of_float f x = (case x of Fin a \<Rightarrow> Inr (f a)
     | NaN \<Rightarrow> raise ValueError ''cannot convert float NaN to integer''
     | _ \<Rightarrow> raise OverflowError ''cannot convert float infinity to integer'')"

text \<open>\<open>min(xs)\<close>.\<close>

fun py_min :: "pyfloat list \<Rightarrow> pyfloat" where
  "py_min [] = NaN"
| "py_min (x # xs) = foldl (\<lambda>m y. if y < m then y else m) x xs"

definition fabs :: "pyfloat \<Rightarrow> pyfloat" where [py_num]:
  "fabs x = (case x of Fin a \<Rightarrow> Fin \<bar>a\<bar> | NegInf \<Rightarrow> PosInf | y \<Rightarrow> y)"

text \<open>\<open>float(n)\<close> of an integer raises \<open>OverflowError\<close> when the rounded value is out of range; so
  does every mixed product of a float and an integer.\<close>

definition float_of_int :: "int \<Rightarrow> pyfloat res" where [py_num]:
  "float_of_int n = (case round64 (of_int n) of
     Fin a \<Rightarrow> Inr (Fin a) | _ \<Rightarrow> raise OverflowError ''int too large to convert to float'')"

text \<open>\<open>max(xs)\<close> of a non-empty list keeps the first of the values no later one exceeds.\<close>

fun py_max :: "pyfloat list \<Rightarrow> pyfloat" where
  "py_max [] = NaN"
| "py_max (x # xs) = foldl (\<lambda>m y. if y > m then y else m) x xs"

subsection \<open>Decimal text\<close>

datatype pydec = Dec (dneg: bool) (dcoef: int) (dexp: int) | DecInf bool | DecNaN

definition pow10 :: "int \<Rightarrow> rat" where [py_num]:
  "pow10 k = (if 0 \<le> k then 10 ^ nat k else 1 / 10 ^ nat (- k))"

fun dec_val :: "pydec \<Rightarrow> rat" where
  "dec_val (Dec n c e) = (if n then - 1 else 1) * of_int c * pow10 e"
| "dec_val _ = 0"

fun dec_finite :: "pydec \<Rightarrow> bool" where
  "dec_finite (Dec _ _ _) = True"
| "dec_finite _ = False"

definition sign_split :: "string \<Rightarrow> bool \<times> string" where
  "sign_split s = (case s of [] \<Rightarrow> (False, [])
     | c # cs \<Rightarrow> if c = CHR ''-'' then (True, cs) else if c = CHR ''+'' then (False, cs) else (False, s))"

text \<open>A numeral: sign, digits with an optional point, optional exponent.\<close>

definition parse_exponent :: "string \<Rightarrow> int option" where
  "parse_exponent s = (case s of [] \<Rightarrow> Some 0
     | c # cs \<Rightarrow>
        if c = CHR ''e'' \<or> c = CHR ''E'' then
          (case sign_split cs of (n, ds) \<Rightarrow>
             if isdecimal ds then Some ((if n then - 1 else 1) * digits_val ds) else None)
        else None)"

definition parse_num :: "string \<Rightarrow> pydec option" where
  "parse_num s = (case sign_split s of (n, r) \<Rightarrow>
     let ip = takeWhile decimal_char r; r1 = dropWhile decimal_char r;
         (fp, r2) = (case r1 of [] \<Rightarrow> ([], [])
            | c # cs \<Rightarrow> if c = CHR ''.'' then (takeWhile decimal_char cs, dropWhile decimal_char cs)
                       else ([], r1))
     in if ip = [] \<and> fp = [] then None
        else map_option (\<lambda>e. Dec n (digits_val (ip @ fp)) (e - int (length fp))) (parse_exponent r2))"

definition special_num :: "string \<Rightarrow> pydec option" where
  "special_num s = (case sign_split (lower s) of (n, r) \<Rightarrow>
     if r = ''inf'' \<or> r = ''infinity'' then Some (DecInf n)
     else if r = ''nan'' then Some DecNaN else None)"

text \<open>An underscore is accepted between two digits and has no meaning.\<close>

fun underscores_ok :: "bool \<Rightarrow> string \<Rightarrow> bool" where
  "underscores_ok prev [] = True"
| "underscores_ok prev (c # cs) =
     (if c = CHR ''_'' then prev \<and> (case cs of [] \<Rightarrow> False | d # _ \<Rightarrow> decimal_char d) \<and> underscores_ok False cs
      else underscores_ok (decimal_char c) cs)"

text \<open>\<open>float(s)\<close>; \<open>None\<close> is the \<open>ValueError\<close>.\<close>

definition float_of_text :: "string \<Rightarrow> pyfloat option" where
  "float_of_text raw = (let s = strip raw in
     case special_num s of
       Some (DecInf n) \<Rightarrow> Some (if n then NegInf else PosInf)
     | Some _ \<Rightarrow> Some NaN
     | None \<Rightarrow>
        if underscores_ok False s
        then map_option (\<lambda>d. round64 (dec_val d)) (parse_num (filter (\<lambda>c. c \<noteq> CHR ''_'') s))
        else None)"

text \<open>\<open>Decimal(s)\<close>; \<open>None\<close> is \<open>InvalidOperation\<close>. Underscores are dropped.\<close>

definition decimal_of_text :: "string \<Rightarrow> pydec option" where
  "decimal_of_text raw = (let s = filter (\<lambda>c. c \<noteq> CHR ''_'') (strip raw) in
     case special_num s of Some d \<Rightarrow> Some d | None \<Rightarrow> parse_num s)"

lemmas parse_defs =
  parse_num_def parse_exponent_def sign_split_def special_num_def float_of_text_def
  decimal_of_text_def

subsection \<open>Accuracy of rounding\<close>

lemma pow2_powi: "pow2 k = 2 powi k"
  by (simp add: pow2_def power_int_def inverse_eq_divide power_divide)

lemma pow2_pos [simp]: "0 < pow2 k"
  by (simp add: pow2_def)

lemma pow2_nz [simp]: "pow2 k \<noteq> 0"
  using pow2_pos [of k] by linarith

lemma pow2_add: "pow2 (a + b) = pow2 a * pow2 b"
  by (simp add: pow2_powi power_int_add)

lemma pow2_mono: "a \<le> b \<Longrightarrow> pow2 a \<le> pow2 b"
  by (simp add: pow2_powi power_int_increasing)

lemma pow2_Suc: "pow2 (k + 1) = 2 * pow2 k"
  by (simp add: pow2_add) (simp add: pow2_def)

lemma pow2_diff: "pow2 (a - b) = pow2 a / pow2 b"
  using pow2_add [of "a - b" b] by (simp add: field_simps)

lemma bitlen_pow2:
  assumes "0 < p"
  shows "pow2 (bitlen p - 1) \<le> of_int p" and "of_int p < pow2 (bitlen p)"
proof -
  from bitlen_bounds [OF assms]
  have lo: "2 ^ nat (bitlen p - 1) \<le> p" and hi: "p < 2 ^ nat (bitlen p)" by auto
  from assms have pos: "0 < bitlen p" using bitlen_nonneg [of p] bitlen_eq_zero_iff [of p] by linarith
  from lo have "of_int (2 ^ nat (bitlen p - 1)) \<le> (of_int p :: rat)"
    by (simp only: of_int_le_iff)
  with pos show "pow2 (bitlen p - 1) \<le> of_int p" by (simp add: pow2_def)
  from hi have "(of_int p :: rat) < of_int (2 ^ nat (bitlen p))"
    by (simp only: of_int_less_iff)
  with pos show "of_int p < pow2 (bitlen p)" by (simp add: pow2_def)
qed

lemma lead_bounds:
  assumes "0 < x"
  shows "pow2 (lead x) \<le> x \<and> x < pow2 (lead x + 1)"
proof -
  obtain p q where pq: "quotient_of x = (p, q)" by (cases "quotient_of x")
  from quotient_of_denom_pos [OF pq] have q: "0 < q" .
  from quotient_of_div [OF pq] have x: "x = of_int p / of_int q" .
  with assms q have p: "0 < p" by (simp add: zero_less_divide_iff)
  define k where "k = bitlen p - bitlen q"
  have q0: "0 < (of_int q :: rat)" using q by simp
  have "of_int p < pow2 (k + 1) * of_int q"
  proof -
    have "pow2 (k + 1) * pow2 (bitlen q - 1) = pow2 (bitlen p)"
      by (simp add: pow2_add [symmetric] k_def)
    moreover have "pow2 (k + 1) * pow2 (bitlen q - 1) \<le> pow2 (k + 1) * of_int q"
      using bitlen_pow2(1) [OF q] by (simp add: mult_left_mono less_imp_le)
    ultimately show ?thesis using bitlen_pow2(2) [OF p] by linarith
  qed
  then have hi: "x < pow2 (k + 1)" using q0 by (simp add: x pos_divide_less_eq)
  have "pow2 (k - 1) * of_int q < of_int p"
  proof -
    have "pow2 (k - 1) * pow2 (bitlen q) = pow2 (bitlen p - 1)"
      by (simp add: pow2_add [symmetric] k_def)
    moreover have "pow2 (k - 1) * of_int q < pow2 (k - 1) * pow2 (bitlen q)"
      using bitlen_pow2(2) [OF q] by simp
    ultimately show ?thesis using bitlen_pow2(1) [OF p] by linarith
  qed
  then have lo: "pow2 (k - 1) < x" using q0 by (simp add: x pos_less_divide_eq)
  show ?thesis
    using lo hi by (simp add: lead_def pq k_def [symmetric] Let_def)
qed

lemma half_even_error: "\<bar>of_int (half_even y) - y\<bar> \<le> 1 / 2"
  unfolding half_even_def Let_def by (auto simp: abs_if split: if_splits) linarith+

lemma round_pos_error: "\<bar>round_pos x - x\<bar> \<le> pow2 (max (lead x - 52) (- 1074)) / 2"
proof -
  define e where "e = max (lead x - 52) (- 1074)"
  have "round_pos x - x = (of_int (half_even (x / pow2 e)) - x / pow2 e) * pow2 e"
    by (simp add: round_pos_def e_def [symmetric] Let_def algebra_simps)
  then have "\<bar>round_pos x - x\<bar> = \<bar>of_int (half_even (x / pow2 e)) - x / pow2 e\<bar> * pow2 e"
    by (simp add: abs_mult abs_of_pos)
  also have "\<dots> \<le> (1 / 2) * pow2 e"
    by (rule mult_right_mono [OF half_even_error]) (simp add: less_imp_le)
  finally show ?thesis by (simp add: e_def)
qed

text \<open>In the normal range the relative error of rounding is at most \<open>2 ^ -53\<close>.\<close>

definition ulp :: rat where
  "ulp = 1 / 2 ^ 53"

lemma round_pos_relative:
  assumes "pow2 (- 1022) \<le> x"
  shows "\<bar>round_pos x - x\<bar> \<le> ulp * x"
proof -
  have x: "0 < x" using assms pow2_pos [of "- 1022"] by linarith
  from lead_bounds [OF x] assms have "pow2 (- 1022) < pow2 (lead x + 1)" by linarith
  then have "- 1022 < lead x + 1"
    using pow2_mono [of "lead x + 1" "- 1022"] by (meson leD leI)
  then have e: "max (lead x - 52) (- 1074) = lead x - 52" by simp
  have "\<bar>round_pos x - x\<bar> \<le> pow2 (lead x - 52) / 2"
    using round_pos_error [of x] by (simp only: e)
  also have "\<dots> = ulp * pow2 (lead x)"
    by (simp add: pow2_diff ulp_def) (simp add: pow2_def)
  also have "\<dots> \<le> ulp * x"
    using lead_bounds [OF x] by (simp add: ulp_def)
  finally show ?thesis .
qed

lemma round64_Fin_lower:
  assumes "round64 x = Fin v" and "pow2 (- 1022) \<le> x"
  shows "x * (1 - ulp) \<le> v"
proof -
  have "0 < x" using assms(2) pow2_pos [of "- 1022"] by linarith
  with assms(1) have "v = round_pos x" by (auto simp: round64_def Let_def split: if_splits)
  with round_pos_relative [OF assms(2)] show ?thesis
    by (auto simp: abs_if algebra_simps split: if_splits)
qed

lemma round_pos_nonneg: "0 \<le> x \<Longrightarrow> 0 \<le> round_pos x"
  unfolding round_pos_def half_even_def Let_def
  by (auto intro!: mult_nonneg_nonneg simp: less_imp_le)

lemma round64_0 [simp]: "round64 0 = Fin 0"
  by (simp add: round64_def)

lemma round64_pos: "0 < x \<Longrightarrow> round64 x = PosInf \<or> (\<exists>v. round64 x = Fin v \<and> 0 \<le> v)"
  using round_pos_nonneg [of x] by (auto simp: round64_def Let_def)

lemma fmul_pos:
  "0 < a \<Longrightarrow> 0 < b \<Longrightarrow> fmul (Fin a) (Fin b) = PosInf \<or> (\<exists>v. fmul (Fin a) (Fin b) = Fin v \<and> 0 \<le> v)"
  by (simp add: fmul_def round64_pos)

text \<open>Integers below \<open>2 ^ 53\<close> are represented exactly.\<close>

lemma half_even_int [simp]: "half_even (of_int n) = n"
  by (simp add: half_even_def)

lemma round64_int:
  assumes "0 < n" and "n < 2 ^ 53"
  shows "round64 (of_int n) = Fin (of_int n)"
proof -
  let ?x = "of_int n :: rat"
  define e where "e = max (lead ?x - 52) (- 1074)"
  have x: "0 < ?x" using assms(1) by simp
  have "?x < of_int (2 ^ 53)" using assms(2) by (simp only: of_int_less_iff)
  then have lt: "?x < pow2 53" by (simp add: pow2_def)
  with lead_bounds [OF x] have "pow2 (lead ?x) < pow2 53" by linarith
  then have "lead ?x < 53" using pow2_mono [of 53 "lead ?x"] by (meson leD leI)
  then have e: "e \<le> 0" by (simp add: e_def)
  have "?x / pow2 e = of_int (n * 2 ^ nat (- e))" using e by (auto simp: pow2_def)
  then have "round_pos ?x = of_int (n * 2 ^ nat (- e)) * pow2 e"
    by (simp only: round_pos_def e_def [symmetric] Let_def half_even_int)
  then have r: "round_pos ?x = ?x" using e by (auto simp: pow2_def)
  have "\<not> pow2 1024 \<le> ?x" using lt pow2_mono [of 53 1024] by linarith
  with assms(1) r show ?thesis by (simp add: round64_def Let_def)
qed

lemma round64_numeral [simp]:
  "(numeral k :: int) < 2 ^ 53 \<Longrightarrow> round64 (numeral k) = Fin (numeral k)"
  using round64_int [of "numeral k"] by simp

lemma round64_1 [simp]: "round64 1 = Fin 1"
  using round64_int [of 1] by simp

lemma not_NaN_cases: "\<not> x > c \<Longrightarrow> x \<noteq> NaN \<Longrightarrow> c \<noteq> NaN \<Longrightarrow> x \<le> (c :: pyfloat)"
  by (cases x; cases c) auto

lemma py_max_in: "xs \<noteq> [] \<Longrightarrow> py_max xs \<in> set xs"
proof -
  have "foldl (\<lambda>m y. if y > m then y else m) x ys \<in> insert x (set ys)" for x :: pyfloat and ys
    by (induction ys arbitrary: x) (auto split: if_splits)
  then show "xs \<noteq> [] \<Longrightarrow> py_max xs \<in> set xs" by (cases xs) auto
qed

lemma py_max_upper:
  assumes "x \<in> set xs" and "\<forall>y \<in> set xs. y \<noteq> NaN"
  shows "x \<le> py_max xs"
proof -
  have trans: "a \<le> b \<Longrightarrow> b \<le> c \<Longrightarrow> a \<le> c" for a b c :: pyfloat
    by (cases a; cases b; cases c) auto
  have less: "a < b \<Longrightarrow> a \<le> b" for a b :: pyfloat
    by (cases a; cases b) auto
  have refl: "a \<noteq> NaN \<Longrightarrow> a \<le> a" for a :: pyfloat by (cases a) auto
  have "\<forall>y \<in> insert m (set ys). y \<noteq> NaN \<Longrightarrow>
      \<forall>z \<in> insert m (set ys). z \<le> foldl (\<lambda>m y. if y > m then y else m) m ys" for m :: pyfloat and ys
  proof (induction ys arbitrary: m)
    case Nil
    then show ?case by (simp add: refl)
  next
    case (Cons y ys)
    define m' where "m' = (if y > m then y else m)"
    have "m \<le> m'" "y \<le> m'" "m' \<noteq> NaN"
      using Cons.prems less not_NaN_cases [of m y] by (auto simp: m'_def refl)
    moreover have "\<forall>z \<in> insert m' (set ys). z \<le> foldl (\<lambda>m y. if y > m then y else m) m' ys"
      using Cons.prems by (intro Cons.IH) (auto simp: m'_def)
    ultimately show ?case by (auto simp: m'_def [symmetric] intro: trans)
  qed
  with assms show ?thesis by (cases xs) auto
qed

subsection \<open>Rounding a given number\<close>

lemma lead_eqI:
  assumes "pow2 k \<le> x" "x < pow2 (k + 1)"
  shows "lead x = k"
proof -
  have "0 < x" using assms(1) pow2_pos [of k] by linarith
  note b = lead_bounds [OF this]
  have "\<not> lead x + 1 \<le> k" using pow2_mono [of "lead x + 1" k] b assms by linarith
  moreover have "\<not> k + 1 \<le> lead x" using pow2_mono [of "k + 1" "lead x"] b assms by linarith
  ultimately show ?thesis by linarith
qed

lemma half_even_eqI:
  assumes "of_int n - 1 / 2 < y" "y < of_int n + 1 / 2"
  shows "half_even y = n"
proof (cases "of_int n \<le> y")
  case True
  then have "\<lfloor>y\<rfloor> = n" using assms by (intro floor_unique) auto
  then show ?thesis using assms(2) by (simp add: half_even_def Let_def)
next
  case False
  then have "\<lfloor>y\<rfloor> = n - 1" using assms by (intro floor_unique) auto
  then show ?thesis using assms(1) by (simp add: half_even_def Let_def)
qed

text \<open>The float nearest to a number, from its binary exponent and its mantissa.\<close>

lemma round64_eqI:
  assumes "pow2 k \<le> x" "x < pow2 (k + 1)" "- 1022 \<le> k" "k < 1000" "n \<le> 2 ^ 53"
    and "of_int n - 1 / 2 < x / pow2 (k - 52)" "x / pow2 (k - 52) < of_int n + 1 / 2"
  shows "round64 x = Fin (of_int n * pow2 (k - 52))"
proof -
  have pos: "0 < x" using assms(1) pow2_pos [of k] by linarith
  have r: "round_pos x = of_int n * pow2 (k - 52)"
    using lead_eqI [OF assms(1,2)] half_even_eqI [OF assms(6,7)] assms(3) by (simp add: round_pos_def Let_def)
  have "of_int n * pow2 (k - 52) \<le> of_int (2 ^ 53) * pow2 (k - 52)"
    using assms(5) by (intro mult_right_mono) (auto simp: less_imp_le simp del: of_int_power of_int_numeral)
  also have "\<dots> = pow2 53 * pow2 (k - 52)" by (simp add: pow2_def)
  also have "\<dots> = pow2 (k + 1)" by (simp add: pow2_add [symmetric] add.commute)
  also have "\<dots> \<le> pow2 1000" using assms(4) by (intro pow2_mono) simp
  also have "\<dots> < pow2 1024" by (simp add: pow2_def)
  finally show ?thesis using pos r by (simp add: round64_def Let_def)
qed

end
