(* ===== verification/Py_Values.thy ===== *)
theory Py_Values
  imports Py_Float
begin

text \<open>
  Dynamically typed Python values, for the arguments that the services receive as \<open>object\<close> or
  \<open>Any\<close> and inspect with \<open>isinstance\<close>. A float carries its \<open>repr\<close> text, and a list, a dictionary or any
  other (hashable) object the text \<open>str\<close> gives for it, so that \<open>str(value)\<close> and \<open>Decimal(str(value))\<close> are
  computed from the value itself.
\<close>

datatype pyval =
    PNone
  | PBool bool
  | PInt int
  | PFloat pyfloat string
  | PStr string
  | PList "pyval list" string
  | PDict "(string \<times> pyval) list" string
  | PObj bool string  \<comment> \<open>any other object: its truth value and its text\<close>

fun py_str :: "pyval \<Rightarrow> string" where
  "py_str PNone = ''None''"
| "py_str (PBool b) = (if b then ''True'' else ''False'')"
| "py_str (PInt i) = int_text i"
| "py_str (PFloat _ t) = t"
| "py_str (PStr s) = s"
| "py_str (PList _ t) = t"
| "py_str (PDict _ t) = t"
| "py_str (PObj _ t) = t"

fun truthy :: "pyval \<Rightarrow> bool" where
  "truthy PNone = False"
| "truthy (PBool b) = b"
| "truthy (PInt i) = (i \<noteq> 0)"
| "truthy (PFloat f _) = (f \<noteq> Fin 0)"
| "truthy (PStr s) = (s \<noteq> [])"
| "truthy (PList l _) = (l \<noteq> [])"
| "truthy (PDict d _) = (d \<noteq> [])"
| "truthy (PObj b _) = b"

text \<open>\<open>value in frozenset\<close> hashes the value, which raises for a list or a dictionary.\<close>

definition in_text_set :: "pyval \<Rightarrow> string set \<Rightarrow> bool res" where
  "in_text_set v S = (case v of
     PStr s \<Rightarrow> Inr (s \<in> S)
   | PList _ _ \<Rightarrow> raise TypeError ''unhashable''
   | PDict _ _ \<Rightarrow> raise TypeError ''unhashable''
   | _ \<Rightarrow> Inr False)"

text \<open>\<open>d.get(k, default)\<close>.\<close>

definition dict_get :: "(string \<times> pyval) list \<Rightarrow> string \<Rightarrow> pyval \<Rightarrow> pyval" where
  "dict_get d k v = (case map_of d k of None \<Rightarrow> v | Some w \<Rightarrow> w)"

text \<open>\<open>value if value else other\<close>, that is \<open>value or other\<close>.\<close>

definition py_or :: "pyval \<Rightarrow> pyval \<Rightarrow> pyval" where
  "py_or v w = (if truthy v then v else w)"

text \<open>\<open>isinstance(value, (int, float)) and not isinstance(value, bool)\<close>, and \<open>float(value)\<close> of such
  a value.\<close>

fun is_number :: "pyval \<Rightarrow> bool" where
  "is_number (PInt _) = True"
| "is_number (PFloat _ _) = True"
| "is_number _ = False"

fun float_of_number :: "pyval \<Rightarrow> pyfloat res" where
  "float_of_number (PInt i) = float_of_int i"
| "float_of_number (PFloat f _) = Inr f"
| "float_of_number _ = raise TypeError ''float''"

text \<open>The decimal identifier an argument spells: \<open>str(v)\<close> is ASCII and decimal, and its value is
  positive. Used by every check that requires one exact positive identifier.\<close>

definition decimal_text :: "string \<Rightarrow> bool" where
  "decimal_text s = (isascii s \<and> isdecimal s)"

lemma decimal_text_iff: "decimal_text s \<longleftrightarrow> isdecimal s"
  by (auto simp: decimal_text_def isascii_decimal)

lemma decimal_text_int_text: "0 \<le> n \<Longrightarrow> decimal_text (int_text n)"
  by (simp add: decimal_text_iff int_text_decimal)

lemma int_text_neg_not_decimal: "n < 0 \<Longrightarrow> \<not> isdecimal (int_text n)"
  by (auto simp: int_text_def isdecimal_def decimal_char_def ord_of_def)

text \<open>\<open>json.dumps(value, allow_nan=False)\<close> raises \<open>ValueError\<close> on a non-finite float and \<open>TypeError\<close> on
  an object that is not JSON. The text it stores is read back by \<open>json.loads\<close> only, so the stored
  column is modelled by the value itself.\<close>

fun json_check :: "pyval \<Rightarrow> unit res" where
  "json_check (PFloat f _) = (if isfinite f then ok else raise ValueError ''out of range float'')"
| "json_check (PList l _) = forR l json_check"
| "json_check (PDict d _) = forR d (\<lambda>(_, v). json_check v)"
| "json_check (PObj _ _) = raise TypeError ''not JSON serializable''"
| "json_check _ = ok"

definition json_dumps :: "pyval \<Rightarrow> pyval res" where
  "json_dumps v = bindR (json_check v) (\<lambda>_. Inr v)"

type_synonym pydict = "(string \<times> pyval) list"

abbreviation as_dict :: "pydict \<Rightarrow> pyval" where
  "as_dict d \<equiv> PDict d []"

lemma json_dumps_Inr [simp]: "json_dumps v = Inr w \<longleftrightarrow> json_check v = ok \<and> w = v"
  by (auto simp: json_dumps_def res_simps)

end
