(* ===== verification/Client_Authorization.thy ===== *)
theory Client_Authorization
  imports Py_Values
begin

text \<open>
  \<open>client_authorization.py\<close>: per-request client grants, intersected with the server's policy. The
  context variable \<open>_client_grants\<close> is an explicit argument \<open>g :: client_grants option\<close>; \<open>None\<close> is the
  trusted process or the legacy full-policy credential. The theory shows that a restricted client
  reaches an account only through the permission of that account's environment, and that the tool
  table fails closed.
\<close>

definition CLIENT_PERMISSIONS :: "string set" where
  "CLIENT_PERMISSIONS = {''market_read'', ''real_read'', ''simulate_read'', ''real_write'',
     ''simulate_write'', ''gateway_control''}"

definition DEFAULT_RESTRICTED_PERMISSIONS :: "string set" where
  "DEFAULT_RESTRICTED_PERMISSIONS =
     {''market_read'', ''real_read'', ''simulate_read'', ''simulate_write''}"

record client_grants =
  permissions :: "string set"
  real_acc_ids :: "int set option"
  simulate_acc_ids :: "int set option"

text \<open>\<open>ClientGrants.__post_init__\<close>. The account collections arrive as Python values; a \<open>bool\<close>, a
  non-integer or a non-positive identifier is refused.\<close>

fun exact_positive :: "pyval \<Rightarrow> bool" where
  "exact_positive (PInt i) = (0 < i)"
| "exact_positive _ = False"

fun int_payload :: "pyval \<Rightarrow> int" where
  "int_payload (PInt i) = i"
| "int_payload _ = 0"

definition accounts_ok :: "pyval list option \<Rightarrow> bool" where
  "accounts_ok xs = (case xs of None \<Rightarrow> True | Some vs \<Rightarrow> list_all exact_positive vs)"

definition make_grants ::
    "string set \<Rightarrow> pyval list option \<Rightarrow> pyval list option \<Rightarrow> client_grants res" where
  "make_grants perms reals sims =
     (if \<not> perms \<subseteq> CLIENT_PERMISSIONS then raise ValueError ''unknown permission''
      else if \<not> accounts_ok reals then raise ValueError ''positive exact IDs''
      else if \<not> accounts_ok sims then raise ValueError ''positive exact IDs''
      else Inr \<lparr>permissions = perms,
                real_acc_ids = map_option (\<lambda>vs. int_payload ` set vs) reals,
                simulate_acc_ids = map_option (\<lambda>vs. int_payload ` set vs) sims\<rparr>)"

definition permission_allowed :: "client_grants option \<Rightarrow> string \<Rightarrow> bool" where
  "permission_allowed g p = (case g of None \<Rightarrow> True | Some gr \<Rightarrow> p \<in> permissions gr)"

definition check_permission :: "client_grants option \<Rightarrow> string \<Rightarrow> unit res" where
  "check_permission g p =
     (if \<not> permission_allowed g p then raise ClientAuthorizationError ''operation'' else ok)"

text \<open>The permission an environment asks for: \<open>environment.lower() + "_write"\<close> or \<open>"_read"\<close>.\<close>

definition env_permission :: "string \<Rightarrow> bool \<Rightarrow> string" where
  "env_permission env write = lower env @ (if write then ''_write'' else ''_read'')"

definition env_accounts :: "client_grants \<Rightarrow> string \<Rightarrow> int set option" where
  "env_accounts gr env = (if env = ''REAL'' then real_acc_ids gr else simulate_acc_ids gr)"

text \<open>\<open>account_access_allowed\<close>. The account is an \<open>int\<close> or a \<open>str\<close>; \<open>int(value)\<close> raises for a run of
  more than 4300 digits.\<close>

definition account_access_allowed ::
    "client_grants option \<Rightarrow> string \<Rightarrow> pyval \<Rightarrow> bool \<Rightarrow> bool res" where
  "account_access_allowed g trd_env acc_id write =
     (case g of None \<Rightarrow> Inr True
      | Some gr \<Rightarrow>
         let env = norm_text trd_env in
         if env \<notin> {''REAL'', ''SIMULATE''} then Inr False
         else if env_permission env write \<notin> permissions gr then Inr False
         else (case env_accounts gr env of None \<Rightarrow> Inr True
               | Some accs \<Rightarrow>
                  let v = py_str acc_id in
                  if isascii v \<and> isdecimal v then bindR (int_of_text v) (\<lambda>n. Inr (n \<in> accs))
                  else Inr False))"

definition check_account_access ::
    "client_grants option \<Rightarrow> string \<Rightarrow> pyval \<Rightarrow> bool \<Rightarrow> unit res" where
  "check_account_access g trd_env acc_id write =
     bindR (account_access_allowed g trd_env acc_id write) (\<lambda>b.
       if \<not> b then raise ClientAuthorizationError ''account'' else ok)"

text \<open>\<open>filter_readable_accounts\<close>: each account is its \<open>trd_env\<close> and \<open>acc_id\<close> with the rest of its record.\<close>

record account_row =
  row_trd_env :: string
  row_acc_id :: pyval

fun filter_readable_accounts :: "client_grants option \<Rightarrow> account_row list \<Rightarrow> account_row list res" where
  "filter_readable_accounts g [] = Inr []"
| "filter_readable_accounts g (a # as) =
     bindR (account_access_allowed g (row_trd_env a) (row_acc_id a) False) (\<lambda>b.
       bindR (filter_readable_accounts g as) (\<lambda>rest. Inr (if b then a # rest else rest)))"

definition client_authorization_status :: "client_grants option \<Rightarrow> bool \<times> string set" where
  "client_authorization_status g = (g \<noteq> None,
     case g of None \<Rightarrow> CLIENT_PERMISSIONS | Some gr \<Rightarrow> permissions gr)"

subsection \<open>Tool classes\<close>

definition MARKET_TOOLS :: "string set" where
  "MARKET_TOOLS = {''get_market_snapshot_evidence'', ''get_instrument_facts'',
     ''get_history_kl_quota'', ''get_rehab'', ''get_corporate_actions_dividends'',
     ''get_earnings_calendar'', ''get_option_volatility'', ''get_stock_quote'',
     ''get_historical_klines'', ''get_historical_klines_page'', ''get_option_expiration_date'',
     ''get_option_chain'', ''get_market_snapshot'', ''get_order_book'', ''get_market_state'',
     ''get_trading_days'', ''get_subscriptions'', ''get_user_security_group'',
     ''get_user_security'', ''get_margin_ratio''}"

definition ACCOUNT_TOOLS :: "string set" where
  "ACCOUNT_TOOLS = {''get_account_summary'', ''get_assets'', ''get_positions'',
     ''get_max_tradable'', ''get_cash_flow'', ''get_trading_capabilities'', ''get_trade_events'',
     ''preview_order'', ''preview_combo_order'', ''get_orders'', ''get_deals'',
     ''get_history_orders'', ''get_history_deals'', ''get_order'', ''get_order_fees'',
     ''get_orders_page'', ''get_deals_page'', ''get_history_orders_page'',
     ''get_history_deals_page'', ''get_execution'', ''reconcile_execution''}"

definition MUTATION_TOOLS :: "string set" where
  "MUTATION_TOOLS = {''place_order'', ''place_combo_order'', ''modify_order'', ''cancel_order''}"

definition GATEWAY_TOOLS :: "string set" where
  "GATEWAY_TOOLS = {''unlock_trade'', ''lock_trade'', ''unsubscribe_market_data''}"

definition tool_visible :: "client_grants option \<Rightarrow> string \<Rightarrow> bool" where
  "tool_visible g name =
     (if g = None then True
      else if name = ''check_health'' then True
      else if name \<in> MARKET_TOOLS then permission_allowed g ''market_read''
      else if name \<in> GATEWAY_TOOLS then permission_allowed g ''gateway_control''
      else if name \<in> MUTATION_TOOLS \<or> name = ''prepare_trade_request''
        then permission_allowed g ''real_write'' \<or> permission_allowed g ''simulate_write''
      else if name \<in> ACCOUNT_TOOLS \<or> name \<in> {''get_accounts'', ''get_prepared_trade''}
        then permission_allowed g ''real_read'' \<or> permission_allowed g ''simulate_read''
      else False)"

text \<open>The tail of \<open>authorize_tool\<close>: environment, environment permission, then the named account.\<close>

definition authorize_scope ::
    "client_grants option \<Rightarrow> (string \<times> pyval) list \<Rightarrow> pyval \<Rightarrow> bool \<Rightarrow> unit res" where
  "authorize_scope g arguments default_environment write =
     (let env = norm_text (py_str (py_or (dict_get arguments ''trd_env'' default_environment) (PStr []))) in
      if env \<notin> {''REAL'', ''SIMULATE''} then raise ClientAuthorizationError ''environment''
      else bindR (check_permission g (env_permission env write)) (\<lambda>_.
        let account = dict_get arguments ''acc_id'' (PStr ''0'') in
        if py_str account \<noteq> ''0'' then check_account_access g env account write else ok))"

definition authorize_tool ::
    "client_grants option \<Rightarrow> string \<Rightarrow> (string \<times> pyval) list \<Rightarrow> pyval \<Rightarrow> unit res" where
  "authorize_tool g name arguments default_environment =
     (if g = None then ok
      else if name \<in> MARKET_TOOLS then check_permission g ''market_read''
      else if name \<in> GATEWAY_TOOLS then check_permission g ''gateway_control''
      else if name = ''get_accounts'' then
        (let environment = dict_get arguments ''trd_env'' PNone in
         if environment \<noteq> PNone then
           (let normalized = norm_text (py_str environment) in
            if normalized \<notin> {''REAL'', ''SIMULATE''}
            then raise ClientAuthorizationError ''no authorized scope''
            else check_permission g (env_permission normalized False))
         else if \<not> permission_allowed g ''real_read'' \<and> \<not> permission_allowed g ''simulate_read''
         then raise ClientAuthorizationError ''cannot read trading accounts''
         else ok)
      else if name \<in> {''check_health'', ''get_prepared_trade''} then ok
      else if name = ''prepare_trade_request'' then
        bindR (in_text_set (dict_get arguments ''method'' PNone) MUTATION_TOOLS) (\<lambda>known.
          if \<not> known then raise ClientAuthorizationError ''cannot prepare''
          else (case dict_get arguments ''parameters'' PNone of
                  PDict d _ \<Rightarrow> authorize_scope g d default_environment True
                | _ \<Rightarrow> raise ClientAuthorizationError ''no authorized scope''))
      else if name \<notin> MUTATION_TOOLS \<and> name \<notin> ACCOUNT_TOOLS
        then raise ClientAuthorizationError ''no grant''
      else authorize_scope g arguments default_environment (name \<in> MUTATION_TOOLS))"

subsection \<open>Journal evidence\<close>

type_synonym journal_health = "(string \<times> pyval) list"

definition visible_journal_health ::
    "client_grants option \<Rightarrow> journal_health \<Rightarrow> string \<Rightarrow> journal_health" where
  "visible_journal_health g health trd_env =
     (case g of None \<Rightarrow> health
      | Some gr \<Rightarrow>
         let env = norm_text trd_env in
         if env_permission env False \<notin> permissions gr then [(''state'', PStr ''NOT_AUTHORIZED'')]
         else (case env_accounts gr env of None \<Rightarrow> health
               | Some _ \<Rightarrow>
                  filter (\<lambda>(k, _). k \<in> {''state'', ''admission_epoch'', ''blocking_reasons''}) health
                  @ [(''details'', PStr ''ACCOUNT_SCOPED_DETAILS_OMITTED'')]))"

definition guidance :: string where
  "guidance = ''; automatic recovery or healthy storage restart is required;''"

definition visible_journal_error ::
    "client_grants option \<Rightarrow> string option \<Rightarrow> string \<Rightarrow> string option" where
  "visible_journal_error g error trd_env =
     (case (g, error) of
        (None, _) \<Rightarrow> error
      | (_, None) \<Rightarrow> error
      | (Some gr, Some text) \<Rightarrow>
         if text = [] then error
         else let env = norm_text trd_env in
           if env_accounts gr env = None \<and> env_permission env False \<in> permissions gr then error
           else (case partition_text '': pending operations '' text of (prefix, marker, details) \<Rightarrow>
             if \<not> marker \<or> \<not> contains_text (env @ '' execution '') prefix then error
             else (case rpartition_text guidance details of (_, separator, following) \<Rightarrow>
               if separator then Some (prefix @ '': '' @ drop 2 guidance @ following)
               else Some (prefix @ '': automatic recovery or healthy storage restart is required; ''
                 @ ''see check_health/get_execution. No order was sent''))))"

subsection \<open>Lemmas\<close>

lemma lower_env: "lower ''REAL'' = ''real''" "lower ''SIMULATE'' = ''simulate''"
  by code_simp+

lemma env_permission_simps [simp]:
  "env_permission ''REAL'' w = (if w then ''real_write'' else ''real_read'')"
  "env_permission ''SIMULATE'' w = (if w then ''simulate_write'' else ''simulate_read'')"
  by (simp_all add: env_permission_def lower_env)

lemma permission_allowed_Some [simp]: "permission_allowed (Some gr) p = (p \<in> permissions gr)"
  by (simp add: permission_allowed_def)

lemma check_permission_ok [simp]:
  "check_permission g p = Inr u \<longleftrightarrow> permission_allowed g p"
  by (simp add: check_permission_def)

lemmas tool_classes =
  MARKET_TOOLS_def ACCOUNT_TOOLS_def MUTATION_TOOLS_def GATEWAY_TOOLS_def

text \<open>Access to an account that is allowed comes with the environment's permission and, when the
  grant lists accounts, with the exact account.\<close>

lemma account_access_allowedD:
  assumes "account_access_allowed (Some gr) env acc w = Inr True"
  shows "norm_text env \<in> {''REAL'', ''SIMULATE''}"
    and "env_permission (norm_text env) w \<in> permissions gr"
    and "env_accounts gr (norm_text env) = Some accs \<Longrightarrow> \<exists>n \<in> accs. int_of_text (py_str acc) = Inr n"
  using assms
  by (auto simp: account_access_allowed_def Let_def res_simps split: if_splits option.splits)

lemma check_account_access_ok [simp]:
  "check_account_access g env acc w = Inr u \<longleftrightarrow> account_access_allowed g env acc w = Inr True"
  by (auto simp: check_account_access_def res_simps)

text \<open>The environment an argument dictionary names, as \<open>authorize_tool\<close> reads it.\<close>

definition named_environment :: "(string \<times> pyval) list \<Rightarrow> pyval \<Rightarrow> string" where
  "named_environment args dflt =
     norm_text (py_str (py_or (dict_get args ''trd_env'' dflt) (PStr [])))"

definition named_account :: "(string \<times> pyval) list \<Rightarrow> pyval" where
  "named_account args = dict_get args ''acc_id'' (PStr ''0'')"

lemma authorize_scope_ok_iff:
  "authorize_scope (Some gr) args dflt w = Inr u \<longleftrightarrow>
     named_environment args dflt \<in> {''REAL'', ''SIMULATE''}
     \<and> env_permission (named_environment args dflt) w \<in> permissions gr
     \<and> (py_str (named_account args) \<noteq> ''0'' \<longrightarrow>
          account_access_allowed (Some gr) (named_environment args dflt) (named_account args) w = Inr True)"
  by (auto simp: authorize_scope_def named_environment_def named_account_def Let_def res_simps
      split: if_splits)

lemma norm_text_env [simp]: "norm_text ''REAL'' = ''REAL''" "norm_text ''SIMULATE'' = ''SIMULATE''"
  by (simp_all add: py_text ord_of_def)

lemma not_in_tool_classes:
  "name \<in> MUTATION_TOOLS \<Longrightarrow> name \<notin> MARKET_TOOLS \<and> name \<notin> GATEWAY_TOOLS
     \<and> name \<notin> {''get_accounts'', ''check_health'', ''get_prepared_trade'', ''prepare_trade_request''}"
  by (auto simp: tool_classes)

lemma authorize_mutation_eq:
  assumes "name \<in> MUTATION_TOOLS"
  shows "authorize_tool (Some gr) name args dflt = authorize_scope (Some gr) args dflt True"
  using assms not_in_tool_classes [OF assms] by (simp add: authorize_tool_def)

subsection \<open>Properties\<close>

text \<open>C24. An order mutation that a restricted client is authorized for names REAL or SIMULATE, the
  client holds the write permission of exactly that environment, and when the request names an
  account other than \<open>0\<close> and the grant lists accounts, that account is one of them. An account that is
  omitted, or \<open>0\<close>, passes here: it stands for the account the service resolves, and the resolution checks it.\<close>

theorem authorize_mutation_scope:
  assumes "name \<in> MUTATION_TOOLS"
    and "authorize_tool (Some gr) name args dflt = ok"
  shows "\<exists>env \<in> {''REAL'', ''SIMULATE''}. named_environment args dflt = env
      \<and> env_permission env True \<in> permissions gr
      \<and> (py_str (named_account args) \<noteq> ''0'' \<longrightarrow> (\<forall>accs. env_accounts gr env = Some accs \<longrightarrow>
           (\<exists>n \<in> accs. int_of_text (py_str (named_account args)) = Inr n)))"
proof -
  from assms(2) have ok: "authorize_scope (Some gr) args dflt True = ok"
    by (simp add: authorize_mutation_eq [OF assms(1)])
  define env where "env = named_environment args dflt"
  from ok have env: "env \<in> {''REAL'', ''SIMULATE''}"
    and perm: "env_permission env True \<in> permissions gr"
    and acc: "py_str (named_account args) \<noteq> ''0'' \<Longrightarrow>
       account_access_allowed (Some gr) env (named_account args) True = Inr True"
    by (auto simp: authorize_scope_ok_iff env_def)
  have "norm_text env = env" using env by auto
  with account_access_allowedD(3) [OF acc]
  have "py_str (named_account args) \<noteq> ''0'' \<longrightarrow> (\<forall>accs. env_accounts gr env = Some accs \<longrightarrow>
       (\<exists>n \<in> accs. int_of_text (py_str (named_account args)) = Inr n))" by auto
  with env perm show ?thesis by (auto simp: env_def)
qed

theorem authorize_mutation_scope_witness:
  "''place_order'' \<in> MUTATION_TOOLS
   \<and> authorize_tool (Some \<lparr>permissions = {''simulate_write''}, real_acc_ids = None,
        simulate_acc_ids = Some {7}\<rparr>) ''place_order''
        [(''trd_env'', PStr '' simulate''), (''acc_id'', PStr ''7'')] PNone = ok
   \<and> (\<exists>env \<in> {''REAL'', ''SIMULATE''}. named_environment
        [(''trd_env'', PStr '' simulate''), (''acc_id'', PStr ''7'')] PNone = env)"
proof -
  have h1: "''place_order'' \<in> MUTATION_TOOLS" by (simp add: MUTATION_TOOLS_def)
  have h2: "authorize_tool (Some \<lparr>permissions = {''simulate_write''}, real_acc_ids = None,
        simulate_acc_ids = Some {7}\<rparr>) ''place_order''
        [(''trd_env'', PStr '' simulate''), (''acc_id'', PStr ''7'')] PNone = ok"
    by code_simp
  from authorize_mutation_scope [OF h1 h2] h1 h2 show ?thesis by auto
qed

text \<open>A client without the REAL write permission is refused every order mutation and every
  preparation of one that resolves to the REAL environment, whatever the arguments.\<close>

theorem no_real_write_without_permission:
  assumes "''real_write'' \<notin> permissions gr"
    and "name \<in> MUTATION_TOOLS"
    and "named_environment args dflt = ''REAL''"
  shows "authorize_tool (Some gr) name args dflt \<noteq> ok
    \<and> authorize_tool (Some gr) ''prepare_trade_request''
        [(''method'', PStr name), (''parameters'', PDict args t)] dflt \<noteq> ok"
proof -
  have refused: "authorize_scope (Some gr) args dflt True \<noteq> ok"
    using assms by (auto simp: authorize_scope_ok_iff)
  then have "authorize_tool (Some gr) ''prepare_trade_request''
        [(''method'', PStr name), (''parameters'', PDict args t)] dflt \<noteq> ok"
    using assms(2) by (simp add: authorize_tool_def tool_classes dict_get_def in_text_set_def)
  with refused show ?thesis using assms(2) by (simp add: authorize_mutation_eq)
qed

theorem no_real_write_without_permission_witness:
  "authorize_tool (Some \<lparr>permissions = DEFAULT_RESTRICTED_PERMISSIONS, real_acc_ids = None,
      simulate_acc_ids = None\<rparr>) ''cancel_order'' [(''trd_env'', PStr ''REAL'')] PNone \<noteq> ok"
proof -
  have h1: "''real_write'' \<notin> permissions \<lparr>permissions = DEFAULT_RESTRICTED_PERMISSIONS,
      real_acc_ids = None, simulate_acc_ids = None\<rparr>"
    by (simp add: DEFAULT_RESTRICTED_PERMISSIONS_def)
  have h2: "''cancel_order'' \<in> MUTATION_TOOLS" by (simp add: MUTATION_TOOLS_def)
  have h3: "named_environment [(''trd_env'', PStr ''REAL'')] PNone = ''REAL''" by code_simp
  from no_real_write_without_permission [OF h1 h2 h3] show ?thesis by simp
qed

text \<open>The tool table fails closed and agrees with the catalogue: a tool outside every class is
  refused, and a tool the client cannot see is refused (the stored-intent reader, which enforces its
  own scope, apart).\<close>

theorem hidden_tools_refused:
  assumes "\<not> tool_visible (Some gr) name" and "name \<noteq> ''get_prepared_trade''"
  shows "authorize_tool (Some gr) name args dflt \<noteq> ok"
proof
  assume ok: "authorize_tool (Some gr) name args dflt = ok"
  have scope: "\<lbrakk>authorize_scope (Some gr) a dflt w = ok\<rbrakk> \<Longrightarrow>
      (if w then ''real_write'' else ''real_read'') \<in> permissions gr
      \<or> (if w then ''simulate_write'' else ''simulate_read'') \<in> permissions gr" for a w
    by (cases w) (auto simp: authorize_scope_ok_iff)
  consider "name \<in> MARKET_TOOLS \<union> GATEWAY_TOOLS \<union> {''get_accounts'', ''check_health''}"
    | "name = ''prepare_trade_request''"
    | "name \<in> MUTATION_TOOLS" | "name \<in> ACCOUNT_TOOLS"
    using ok assms by (auto simp: authorize_tool_def split: if_splits)
  then show False
  proof cases
    case 1
    with ok assms show ?thesis
      by (auto simp: authorize_tool_def tool_visible_def Let_def tool_classes split: if_splits)
  next
    case 2
    with ok have "\<exists>d. authorize_scope (Some gr) d dflt True = ok"
      by (auto simp: authorize_tool_def tool_classes res_simps split: if_splits pyval.splits)
    with scope [where w = True] 2 assms show ?thesis
      by (auto simp: tool_visible_def tool_classes)
  next
    case 3
    with ok scope [of args True] assms not_in_tool_classes [OF 3] show ?thesis
      by (simp add: authorize_mutation_eq tool_visible_def)
  next
    case 4
    then have other: "name \<notin> MARKET_TOOLS \<union> GATEWAY_TOOLS \<union> MUTATION_TOOLS
       \<union> {''get_accounts'', ''check_health'', ''prepare_trade_request''}"
      by (auto simp: tool_classes)
    with 4 ok assms(2) have "authorize_scope (Some gr) args dflt False = ok"
      by (simp add: authorize_tool_def)
    with scope [of args False] other 4 assms show ?thesis
      by (simp add: tool_visible_def)
  qed
qed

theorem hidden_tools_refused_witness:
  "authorize_tool (Some \<lparr>permissions = {''market_read''}, real_acc_ids = None,
      simulate_acc_ids = None\<rparr>) ''get_orders'' [(''trd_env'', PStr ''REAL'')] PNone \<noteq> ok"
proof -
  have h1: "\<not> tool_visible (Some \<lparr>permissions = {''market_read''}, real_acc_ids = None,
      simulate_acc_ids = None\<rparr>) ''get_orders''" by code_simp
  have h2: "''get_orders'' \<noteq> ''get_prepared_trade''" by simp
  from hidden_tools_refused [OF h1 h2] show ?thesis .
qed

text \<open>Grants that construct hold known permissions and positive account identifiers only.\<close>

theorem make_grants_wellformed:
  assumes "make_grants perms reals sims = Inr gr"
  shows "permissions gr \<subseteq> CLIENT_PERMISSIONS
    \<and> (\<forall>env accs. env_accounts gr env = Some accs \<longrightarrow> (\<forall>n \<in> accs. 0 < n))"
proof -
  have pos: "list_all exact_positive vs \<Longrightarrow> v \<in> set vs \<Longrightarrow> 0 < int_payload v" for vs v
    by (auto simp: list_all_iff elim!: exact_positive.elims dest!: bspec)
  show ?thesis
    using assms
    by (auto simp: make_grants_def accounts_ok_def env_accounts_def
        split: if_splits option.splits intro: pos)
qed

theorem make_grants_wellformed_witness:
  "\<exists>gr. make_grants {''real_read''} (Some [PInt 5]) None = Inr gr
     \<and> permissions gr \<subseteq> CLIENT_PERMISSIONS"
proof -
  have h: "make_grants {''real_read''} (Some [PInt 5]) None
      = Inr \<lparr>permissions = {''real_read''}, real_acc_ids = Some {5}, simulate_acc_ids = None\<rparr>"
    by (simp add: make_grants_def accounts_ok_def CLIENT_PERMISSIONS_def)
  from make_grants_wellformed [OF h] h show ?thesis by blast
qed

text \<open>A client whose grant lists accounts sees no journal evidence beyond readiness: neither
  operation identifiers nor recovery updates pass the filter.\<close>

theorem account_scoped_health_withholds:
  assumes "env_accounts gr (norm_text env) \<noteq> None"
  shows "fst ` set (visible_journal_health (Some gr) health env)
    \<subseteq> {''state'', ''admission_epoch'', ''blocking_reasons'', ''details''}"
  using assms by (auto simp: visible_journal_health_def Let_def split: option.splits)

theorem account_scoped_health_withholds_witness:
  "''pending_operation_ids'' \<notin> fst ` set (visible_journal_health
     (Some \<lparr>permissions = {''simulate_read''}, real_acc_ids = None, simulate_acc_ids = Some {7}\<rparr>)
     [(''state'', PStr ''READY''), (''pending_operation_ids'', PList [PStr ''op''] ''[]'')] ''SIMULATE'')"
proof -
  have h: "env_accounts \<lparr>permissions = {''simulate_read''}, real_acc_ids = None,
      simulate_acc_ids = Some {7}\<rparr> (norm_text ''SIMULATE'') \<noteq> None"
    by (simp add: env_accounts_def)
  from account_scoped_health_withholds [OF h] show ?thesis by fastforce
qed

end
