(* ===== verification/Validation.thy ===== *)
theory Validation
  imports Py_Values
begin

text \<open>
  \<open>services/validation.py\<close>: the input checks shared by the broker services. Dates are
  \<open>(year, month, day)\<close> triples with their proleptic Gregorian ordinal; numeric arguments are
  \<open>pyval\<close>, with \<open>PNone\<close> for an argument that was not supplied.
\<close>

subsection \<open>Dates\<close>

type_synonym date = "int \<times> int \<times> int"

definition leap_year :: "int \<Rightarrow> bool" where
  "leap_year y = (y mod 4 = 0 \<and> (y mod 100 \<noteq> 0 \<or> y mod 400 = 0))"

definition days_in_month :: "int \<Rightarrow> int \<Rightarrow> int" where
  "days_in_month y m =
     (if m = 2 then (if leap_year y then 29 else 28) else if m \<in> {4, 6, 9, 11} then 30 else 31)"

definition days_before_month :: "int \<Rightarrow> int \<Rightarrow> int" where
  "days_before_month y m = sum_list (map (days_in_month y) [1..m - 1])"

definition toordinal :: "date \<Rightarrow> int" where
  "toordinal dt = (case dt of (y, m, d) \<Rightarrow>
     let p = y - 1 in p * 365 + p div 4 - p div 100 + p div 400 + days_before_month y m + d)"

definition date_less :: "date \<Rightarrow> date \<Rightarrow> bool" where
  "date_less a b = (case (a, b) of ((y, m, d), (y', m', d')) \<Rightarrow>
     y < y' \<or> y = y' \<and> (m < m' \<or> m = m' \<and> d < d'))"

definition valid_date :: "date \<Rightarrow> bool" where
  "valid_date dt = (case dt of (y, m, d) \<Rightarrow>
     1 \<le> y \<and> 1 \<le> m \<and> m \<le> 12 \<and> 1 \<le> d \<and> d \<le> days_in_month y m)"

text \<open>The fields of \<open>datetime.strptime(s, "%Y-%m-%d")\<close>: four digits for the year, one or two for
  the month and the day; the day may be one digit after a space.\<close>

definition month_field :: "string \<Rightarrow> bool" where
  "month_field s = (isdecimal s \<and> length s \<le> 2 \<and> 1 \<le> digits_val s \<and> digits_val s \<le> 12)"

definition day_field :: "string \<Rightarrow> string option" where
  "day_field s = (let t = (if length s = 2 \<and> hd s = CHR '' '' then tl s else s) in
     if isdecimal t \<and> length t \<le> 2 \<and> 1 \<le> digits_val t \<and> digits_val t \<le> 31 then Some t else None)"

definition strptime_date :: "string \<Rightarrow> date option" where
  "strptime_date s = (case split_on CHR ''-'' s of
     [y, m, d] \<Rightarrow>
       (if isdecimal y \<and> length y = 4 \<and> month_field m then
          (case day_field d of None \<Rightarrow> None
           | Some d' \<Rightarrow>
              let dt = (digits_val y, digits_val m, digits_val d') in
              if valid_date dt then Some dt else None)
        else None)
   | _ \<Rightarrow> None)"

definition parse_date :: "pyval \<Rightarrow> date res" where
  "parse_date value = (case value of
     PStr s \<Rightarrow> (case strptime_date (strip s) of
        None \<Rightarrow> raise ValueError ''date format'' | Some dt \<Rightarrow> Inr dt)
   | _ \<Rightarrow> raise ValueError ''date string'')"

definition optional_date :: "pyval \<Rightarrow> date option res" where
  "optional_date v = (if v = PNone then Inr None else bindR (parse_date v) (\<lambda>dt. Inr (Some dt)))"

text \<open>The order and the span of a range with both ends.\<close>

definition check_range :: "date option \<Rightarrow> date option \<Rightarrow> int option \<Rightarrow> unit res" where
  "check_range parsed_start parsed_end max_span_days =
     (case (parsed_start, parsed_end) of
        (Some a, Some b) \<Rightarrow>
          if date_less b a then raise ValueError ''range is empty''
          else (case max_span_days of
                  Some n \<Rightarrow>
                    if toordinal b - toordinal a > n then raise ValueError ''range too long'' else ok
                | None \<Rightarrow> ok)
      | _ \<Rightarrow> ok)"

definition validate_date_range ::
    "pyval \<Rightarrow> pyval \<Rightarrow> int option \<Rightarrow> (date option \<times> date option) res" where
  "validate_date_range start stop max_span_days =
     bindR (optional_date start) (\<lambda>parsed_start.
     bindR (optional_date stop) (\<lambda>parsed_end.
     bindR (check_range parsed_start parsed_end max_span_days) (\<lambda>_.
       Inr (parsed_start, parsed_end))))"

definition validate_choice :: "pyval \<Rightarrow> string list \<Rightarrow> string res" where
  "validate_choice value allowed = (case value of
     PStr s \<Rightarrow> (if norm_text s \<notin> set allowed then raise ValueError ''choice'' else Inr (norm_text s))
   | _ \<Rightarrow> raise ValueError ''choice type'')"

subsection \<open>Order values\<close>

definition FIXED_LIMIT_TYPES :: "string set" where
  "FIXED_LIMIT_TYPES = {''NORMAL'', ''ABSOLUTE_LIMIT'', ''SPECIAL_LIMIT'', ''SPECIAL_LIMIT_ALL'',
     ''AUCTION_LIMIT'', ''STOP_LIMIT'', ''LIMIT_IF_TOUCHED''}"

definition NO_FIXED_LIMIT_TYPES :: "string set" where
  "NO_FIXED_LIMIT_TYPES = {''MARKET'', ''AUCTION'', ''STOP'', ''MARKET_IF_TOUCHED'',
     ''TRAILING_STOP'', ''TRAILING_STOP_LIMIT''}"

definition STOP_ORDER_TYPES :: "string set" where
  "STOP_ORDER_TYPES = {''STOP'', ''STOP_LIMIT'', ''MARKET_IF_TOUCHED'', ''LIMIT_IF_TOUCHED''}"

definition TRAILING_ORDER_TYPES :: "string set" where
  "TRAILING_ORDER_TYPES = {''TRAILING_STOP'', ''TRAILING_STOP_LIMIT''}"

definition finite_non_negative :: "pyval \<Rightarrow> pyfloat res" where
  "finite_non_negative value =
     (if \<not> is_number value then raise ValueError ''must be a number''
      else bindR (float_of_number value) (\<lambda>number.
        if \<not> isfinite number then raise ValueError ''must be finite''
        else if number < Fin 0 then raise ValueError ''must not be negative''
        else Inr number))"

fun positive_int :: "pyval \<Rightarrow> unit res" where
  "positive_int (PInt q) = (if q \<le> 0 then raise ValueError ''qty must be greater than 0'' else ok)"
| "positive_int _ = raise ValueError ''qty must be a positive integer''"

definition optional_number :: "pyval \<Rightarrow> pyfloat option res" where
  "optional_number v =
     (if v = PNone then Inr None else bindR (finite_non_negative v) (\<lambda>x. Inr (Some x)))"

definition check_combo_price :: "pyval \<Rightarrow> unit res" where
  "check_combo_price v =
     (if v = PNone then ok
      else if \<not> is_number v then raise ValueError ''price must be a number''
      else bindR (float_of_number v) (\<lambda>x.
        if \<not> isfinite x then raise ValueError ''price must be finite'' else ok))"

definition check_limit_price :: "string \<Rightarrow> pyfloat option \<Rightarrow> unit res" where
  "check_limit_price requested_type checked_price =
     (case checked_price of
        Some p \<Rightarrow>
          if requested_type \<in> FIXED_LIMIT_TYPES \<and> p \<le> Fin 0
          then raise ValueError ''limit price'' else ok
      | None \<Rightarrow> ok)"

definition validate_order_values ::
    "string \<Rightarrow> pyval \<Rightarrow> pyval \<Rightarrow> pyval \<Rightarrow> pyval \<Rightarrow> pyval \<Rightarrow> pyval \<Rightarrow> unit res" where
  "validate_order_values order_type qty price aux_price trail_value trail_spread combo_price =
     (let requested_type = norm_text order_type in
      bindR (if qty \<noteq> PNone then positive_int qty else ok) (\<lambda>_.
      bindR (optional_number price) (\<lambda>checked_price.
      bindR (optional_number aux_price) (\<lambda>_.
      bindR (optional_number trail_value) (\<lambda>_.
      bindR (optional_number trail_spread) (\<lambda>_.
      bindR (check_combo_price combo_price) (\<lambda>_.
        check_limit_price requested_type checked_price)))))))"

definition validate_required_order_fields ::
    "string \<Rightarrow> pyval \<Rightarrow> pyval \<Rightarrow> pyval \<Rightarrow> unit res" where
  "validate_required_order_fields order_type aux_price trail_type trail_value =
     (let requested_type = norm_text order_type in
      if requested_type \<in> STOP_ORDER_TYPES \<and> aux_price = PNone
      then raise ValueError ''aux_price is required''
      else if requested_type \<in> TRAILING_ORDER_TYPES \<and> (trail_type = PNone \<or> trail_value = PNone)
      then raise ValueError ''trail_type and trail_value are required''
      else ok)"

text \<open>The parameter dictionary of one order request. \<open>params["k"]\<close> raises \<open>KeyError\<close> when \<open>k\<close> is
  missing, \<open>params.get("k")\<close> gives \<open>None\<close>.\<close>

definition dict_item :: "(string \<times> pyval) list \<Rightarrow> string \<Rightarrow> pyval res" where
  "dict_item d k = (case map_of d k of None \<Rightarrow> raise KeyError k | Some v \<Rightarrow> Inr v)"

abbreviation opt_get :: "(string \<times> pyval) list \<Rightarrow> string \<Rightarrow> pyval" where
  "opt_get d k \<equiv> dict_get d k PNone"

definition validate_single_order_request :: "(string \<times> pyval) list \<Rightarrow> unit res" where
  "validate_single_order_request params =
     bindR (dict_item params ''order_type'') (\<lambda>order_type.
     bindR (dict_item params ''qty'') (\<lambda>qty.
     bindR (dict_item params ''price'') (\<lambda>price.
     bindR (validate_order_values (py_str order_type) qty price (opt_get params ''aux_price'')
        (opt_get params ''trail_value'') (opt_get params ''trail_spread'') PNone) (\<lambda>_.
       validate_required_order_fields (py_str order_type) (opt_get params ''aux_price'')
         (opt_get params ''trail_type'') (opt_get params ''trail_value'')))))"

text \<open>\<open>isinstance(v, str) and v.isascii() and v.isdecimal() and int(v) > 0\<close>, where \<open>int\<close> may raise.\<close>

definition positive_decimal_id :: "pyval \<Rightarrow> bool res" where
  "positive_decimal_id v = (case v of
     PStr s \<Rightarrow> if isascii s \<and> isdecimal s then bindR (int_of_text s) (\<lambda>n. Inr (0 < n)) else Inr False
   | _ \<Rightarrow> Inr False)"

definition MODIFY_OPS :: "string set" where
  "MODIFY_OPS = {''NORMAL'', ''CANCEL'', ''DISABLE'', ''ENABLE'', ''DELETE''}"

fun is_str :: "pyval \<Rightarrow> bool" where
  "is_str (PStr _) = True"
| "is_str _ = False"

definition validate_real_request :: "string \<Rightarrow> (string \<times> pyval) list \<Rightarrow> unit res" where
  "validate_real_request method params =
     (if method = ''place_order'' then
        bindR (dict_item params ''price'') (\<lambda>price.
          if is_str price then raise ValueError ''REAL price must be numeric''
          else validate_single_order_request params)
      else if method = ''place_combo_order'' then
        bindR (dict_item params ''order_type'') (\<lambda>order_type.
        bindR (dict_item params ''qty'') (\<lambda>qty.
        bindR (dict_item params ''price'') (\<lambda>price.
          validate_order_values (py_str order_type) qty PNone PNone PNone PNone price)))
      else if method = ''modify_order'' \<or> method = ''cancel_order'' then
        bindR (positive_decimal_id (opt_get params ''order_id'')) (\<lambda>good.
          if \<not> good then raise ValueError ''one positive decimal order ID''
          else if method = ''cancel_order'' then ok
          else bindR (dict_item params ''modify_order_op'') (\<lambda>op.
            let requested = norm_text (py_str op) in
            if requested \<notin> MODIFY_OPS then raise ValueError ''unsupported modification''
            else validate_order_values []
              (if requested \<in> {''NORMAL'', ''ENABLE''} then opt_get params ''qty'' else PNone)
              (opt_get params ''price'') PNone PNone PNone PNone))
      else ok)"

subsection \<open>Lemmas\<close>

text \<open>The days before the first of January of a year, and of a month.\<close>

definition year_start :: "int \<Rightarrow> int" where
  "year_start y = (let p = y - 1 in p * 365 + p div 4 - p div 100 + p div 400)"

lemma div_step: "0 < k \<Longrightarrow> (n :: int) div k = (n - 1) div k + (if n mod k = 0 then 1 else 0)"
proof -
  assume k: "0 < k"
  show ?thesis
  proof (cases "n mod k = 0")
    case True
    then obtain q where q: "n = k * q" by auto
    have "(k * q - 1) div k = q - 1"
      using k by (simp add: int_div_pos_eq [of _ k "q - 1" "k - 1"] algebra_simps)
    with True q k show ?thesis by simp
  next
    case False
    have "0 \<le> n mod k" "n mod k < k" using k by simp_all
    with False have "(n - 1) div k = n div k"
      by (intro int_div_pos_eq [of _ k _ "n mod k - 1"]) (auto simp: algebra_simps)
    with False show ?thesis by simp
  qed
qed

lemma year_start_Suc: "year_start (y + 1) = year_start y + 365 + (if leap_year y then 1 else 0)"
proof -
  have imp: "y mod 100 = 0 \<Longrightarrow> y mod 4 = 0" "y mod 400 = 0 \<Longrightarrow> y mod 100 = 0"
    by presburger+
  have step: "y div k - (y - 1) div k = (if y mod k = 0 then 1 else 0)" if "0 < k" for k
    using div_step [OF that, of y] by linarith
  have "year_start (y + 1) - year_start y = 365 + (y div 4 - (y - 1) div 4)
      - (y div 100 - (y - 1) div 100) + (y div 400 - (y - 1) div 400)"
    by (simp add: year_start_def Let_def)
  also have "\<dots> = 365 + (if leap_year y then 1 else 0)"
    unfolding step [of 4, simplified] step [of 100, simplified] step [of 400, simplified] leap_year_def
    using imp by (simp only: split: if_split) auto
  finally show ?thesis by linarith
qed

lemma year_start_mono: "y \<le> y' \<Longrightarrow> year_start y \<le> year_start y'"
proof (induction "nat (y' - y)" arbitrary: y')
  case 0
  then show ?case by simp
next
  case (Suc n)
  then have "year_start y \<le> year_start (y' - 1)" by auto
  with year_start_Suc [of "y' - 1"] show ?case by auto
qed

lemma year_start_less: "y < y' \<Longrightarrow> year_start y + 365 + (if leap_year y then 1 else 0) \<le> year_start y'"
  using year_start_mono [of "y + 1" y'] by (simp add: year_start_Suc)

lemma days_in_month_pos: "1 \<le> days_in_month y m"
  by (simp add: days_in_month_def)

lemma days_before_Suc:
  assumes "1 \<le> m"
  shows "days_before_month y (m + 1) = days_before_month y m + days_in_month y m"
proof -
  from assms have "[1..m + 1 - 1] = [1..m - 1] @ [m]" using upto_rec2 [of 1 m] by simp
  then show ?thesis by (simp only: days_before_month_def map_append sum_list_append) simp
qed

lemma days_before_less:
  assumes "1 \<le> m" and "m < m'"
  shows "days_before_month y m + days_in_month y m \<le> days_before_month y m'"
  using assms(2)
proof (induction "nat (m' - m)" arbitrary: m')
  case 0
  then show ?case by simp
next
  case (Suc n)
  show ?case
  proof (cases "m' = m + 1")
    case True
    then show ?thesis using assms(1) by (simp add: days_before_Suc)
  next
    case False
    with Suc have "days_before_month y m + days_in_month y m \<le> days_before_month y (m' - 1)" by auto
    with days_before_Suc [of "m' - 1" y] days_in_month_pos [of y "m' - 1"] assms(1) Suc.prems
    show ?thesis by simp
  qed
qed

lemma days_in_year: "days_before_month y 13 = 365 + (if leap_year y then 1 else 0)"
  by (simp add: days_before_month_def days_in_month_def upto.simps)

text \<open>The ordinal of a date is strictly monotone, so the span of an ordered range is never negative.\<close>

lemma toordinal_strict_mono:
  assumes "valid_date a" and "valid_date b" and "date_less a b"
  shows "toordinal a < toordinal b"
proof -
  obtain y m d y' m' d' where ab: "a = (y, m, d)" "b = (y', m', d')" by (cases a; cases b) auto
  have d: "1 \<le> m" "m \<le> 12" "d \<le> days_in_month y m" "1 \<le> m'" "1 \<le> d'"
    using assms(1,2) by (auto simp: ab valid_date_def)
  have ord: "toordinal (y, m, d) = year_start y + days_before_month y m + d" for y m d
    by (simp add: toordinal_def year_start_def Let_def)
  consider "y < y'" | "y = y'" "m < m'" | "y = y'" "m = m'" "d < d'"
    using assms(3) by (auto simp: ab date_less_def)
  then show ?thesis
  proof cases
    case 1
    have "days_before_month y m + days_in_month y m \<le> days_before_month y 13"
      using days_before_less [of m 13 y] d by simp
    moreover have "0 \<le> days_before_month y' m'"
    proof (cases "m' = 1")
      case True
      then show ?thesis by (simp add: days_before_month_def)
    next
      case False
      with days_before_less [of 1 m' y'] d days_in_month_pos [of y' 1] show ?thesis
        by (simp add: days_before_month_def)
    qed
    ultimately show ?thesis
      using year_start_less [OF 1] d by (simp add: ab ord days_in_year)
  next
    case 2
    with days_before_less [OF d(1), of m' y] d show ?thesis by (simp add: ab ord)
  next
    case 3
    then show ?thesis by (simp add: ab ord)
  qed
qed

lemma strptime_valid: "strptime_date s = Some dt \<Longrightarrow> valid_date dt"
  by (auto simp: strptime_date_def Let_def split: list.splits option.splits if_splits)

lemma optional_date_valid: "optional_date v = Inr (Some dt) \<Longrightarrow> valid_date dt"
  by (auto simp: optional_date_def parse_date_def res_simps dest: strptime_valid
      split: if_splits pyval.splits option.splits)

lemma finite_non_negative_ok:
  "finite_non_negative v = Inr x \<Longrightarrow> is_number v \<and> (\<exists>r. x = Fin r \<and> 0 \<le> r)"
  by (auto simp: finite_non_negative_def isfinite_def res_simps split: if_splits pyfloat.splits)

lemma optional_number_ok:
  "optional_number v = Inr o1 \<Longrightarrow>
     (v = PNone \<and> o1 = None) \<or> (\<exists>r. finite_non_negative v = Inr (Fin r) \<and> o1 = Some (Fin r) \<and> 0 \<le> r)"
  using finite_non_negative_ok [of v]
  by (auto simp: optional_number_def res_simps split: if_splits)

lemma check_limit_price_ok:
  "check_limit_price t p = Inr u \<longleftrightarrow> (\<forall>x. p = Some x \<longrightarrow> t \<in> FIXED_LIMIT_TYPES \<longrightarrow> \<not> x \<le> Fin 0)"
  by (auto simp: check_limit_price_def split: option.splits)

lemma check_range_ok:
  "check_range (Some a) (Some b) (Some n) = Inr u \<longleftrightarrow>
     \<not> date_less b a \<and> toordinal b - toordinal a \<le> n"
  by (auto simp: check_range_def)

lemma positive_int_ok: "positive_int v = Inr u \<longleftrightarrow> (\<exists>q. v = PInt q \<and> 0 < q)"
  by (cases v) auto

subsection \<open>Properties\<close>

text \<open>Order values that pass carry a positive integer quantity, finite non-negative prices,
  triggers and trail values, and a strictly positive price when the order type is a fixed limit:
  no NaN, infinity, boolean or negative number reaches the valuation.\<close>

theorem accepted_order_values:
  assumes "validate_order_values order_type qty price aux tv ts combo = ok"
  shows "(qty = PNone \<or> (\<exists>q. qty = PInt q \<and> 0 < q))
    \<and> (\<forall>v \<in> {price, aux, tv, ts}. v = PNone \<or> (\<exists>r. finite_non_negative v = Inr (Fin r) \<and> 0 \<le> r))
    \<and> (norm_text order_type \<in> FIXED_LIMIT_TYPES \<longrightarrow> price \<noteq> PNone \<longrightarrow>
         (\<exists>r. finite_non_negative price = Inr (Fin r) \<and> 0 < r))"
proof -
  from assms obtain p a t u where
      q: "qty \<noteq> PNone \<Longrightarrow> positive_int qty = ok"
    and p: "optional_number price = Inr p" and a: "optional_number aux = Inr a"
    and t: "optional_number tv = Inr t" and u: "optional_number ts = Inr u"
    and lim: "\<And>x. p = Some x \<Longrightarrow> norm_text order_type \<in> FIXED_LIMIT_TYPES \<Longrightarrow> \<not> x \<le> Fin 0"
    by (auto simp: validate_order_values_def Let_def res_simps check_limit_price_ok split: if_splits)
  have "norm_text order_type \<in> FIXED_LIMIT_TYPES \<longrightarrow> price \<noteq> PNone \<longrightarrow>
         (\<exists>r. finite_non_negative price = Inr (Fin r) \<and> 0 < r)"
    using optional_number_ok [OF p] lim by force
  moreover have "\<forall>v \<in> {price, aux, tv, ts}.
      v = PNone \<or> (\<exists>r. finite_non_negative v = Inr (Fin r) \<and> 0 \<le> r)"
    using optional_number_ok [OF p] optional_number_ok [OF a] optional_number_ok [OF t]
      optional_number_ok [OF u] by auto
  moreover have "qty = PNone \<or> (\<exists>q. qty = PInt q \<and> 0 < q)"
    using q positive_int_ok [of qty] by blast
  ultimately show ?thesis by blast
qed

theorem accepted_order_values_witness:
  "validate_order_values ''normal'' (PInt 10) (PFloat (Fin 5) ''5.0'') PNone PNone PNone PNone = ok
   \<and> (\<exists>r. finite_non_negative (PFloat (Fin 5) ''5.0'') = Inr (Fin r) \<and> 0 < r)"
proof -
  have h: "validate_order_values ''normal'' (PInt 10) (PFloat (Fin 5) ''5.0'') PNone PNone PNone PNone = ok"
    by code_simp
  have "norm_text ''normal'' \<in> FIXED_LIMIT_TYPES" by code_simp
  with accepted_order_values [OF h] h show ?thesis by auto
qed

text \<open>A date range that is accepted consists of calendar dates in order, its span in days is
  non-negative, zero only for one day, and never above the provider's limit: an over-long range is refused, not truncated.\<close>

theorem accepted_date_range:
  assumes "validate_date_range start stop (Some n) = Inr (Some a, Some b)"
  shows "valid_date a \<and> valid_date b \<and> \<not> date_less b a
    \<and> 0 \<le> toordinal b - toordinal a \<and> toordinal b - toordinal a \<le> n
    \<and> (toordinal b = toordinal a \<longrightarrow> a = b)"
proof -
  from assms have va: "valid_date a" and vb: "valid_date b"
    and ord: "\<not> date_less b a" and len: "toordinal b - toordinal a \<le> n"
    by (auto simp: validate_date_range_def res_simps check_range_ok dest: optional_date_valid)
  have tri: "a = b \<or> date_less a b" using ord by (cases a; cases b) (auto simp: date_less_def)
  then have "0 \<le> toordinal b - toordinal a \<and> (toordinal b = toordinal a \<longrightarrow> a = b)"
    using toordinal_strict_mono [OF va vb] by auto
  with va vb ord len show ?thesis by blast
qed

theorem accepted_date_range_witness:
  "validate_date_range (PStr ''2024-02-28'') (PStr ''2024-03-01'') (Some 29)
      = Inr (Some (2024, 2, 28), Some (2024, 3, 1))
   \<and> toordinal (2024, 3, 1) - toordinal (2024, 2, 28) \<le> 29"
proof -
  have h: "validate_date_range (PStr ''2024-02-28'') (PStr ''2024-03-01'') (Some 29)
      = Inr (Some (2024, 2, 28), Some (2024, 3, 1))" by code_simp
  from accepted_date_range [OF h] h show ?thesis by blast
qed

text \<open>A REAL modification or cancellation passes local validation only if it names one order by
  the decimal text of a positive integer, and a modification names one of the five documented operations.\<close>

theorem accepted_real_mutation:
  assumes "method = ''modify_order'' \<or> method = ''cancel_order''"
    and "validate_real_request method params = ok"
  shows "(\<exists>s n. opt_get params ''order_id'' = PStr s \<and> int_of_text s = Inr n \<and> 0 < n)
    \<and> (method = ''modify_order'' \<longrightarrow>
        (\<exists>op. map_of params ''modify_order_op'' = Some op \<and> norm_text (py_str op) \<in> MODIFY_OPS))"
  using assms
  by (auto simp: validate_real_request_def positive_decimal_id_def dict_item_def res_simps Let_def
      split: if_splits pyval.splits option.splits)

theorem accepted_real_mutation_witness:
  "validate_real_request ''cancel_order'' [(''order_id'', PStr ''42'')] = ok
   \<and> (\<exists>s n. opt_get [(''order_id'', PStr ''42'')] ''order_id'' = PStr s \<and> int_of_text s = Inr n \<and> 0 < n)"
proof -
  have h: "validate_real_request ''cancel_order'' [(''order_id'', PStr ''42'')] = ok" by code_simp
  from accepted_real_mutation [OF _ h] h show ?thesis by blast
qed

end
