(* ===== verification/Trading_Policy.thy ===== *)
theory Trading_Policy
  imports Validation
begin

text \<open>
  \<open>services/trading_policy.py\<close>: which writes a deployment may issue, and the quantity and notional
  guardrails of an order. The policy, the order facts and the instrument facts are records with the
  fields of the source's frozen dataclasses; a mapping from currency to cap is an association list
  in insertion order. Monetary arithmetic is the float arithmetic of \<open>Py_Float\<close>, the estimate used
  for daily budgets the exact decimal arithmetic. The theory shows that a policy that constructs
  has only usable limits, that a passing assessment respects every configured limit, and how far
  rounding can let the exact value exceed a cap.
\<close>

subsection \<open>Configuration\<close>

datatype trading_mode = READ_ONLY | SIMULATE | REAL

fun mode_value :: "trading_mode \<Rightarrow> string" where
  "mode_value READ_ONLY = ''READ_ONLY''"
| "mode_value SIMULATE = ''SIMULATE''"
| "mode_value REAL = ''REAL''"

fun writable_environments :: "trading_mode \<Rightarrow> string set" where
  "writable_environments READ_ONLY = {}"
| "writable_environments SIMULATE = {''SIMULATE''}"
| "writable_environments REAL = {''SIMULATE'', ''REAL''}"

type_synonym caps = "(string \<times> pyfloat) list"

definition require_positive_finite :: "pyfloat \<Rightarrow> pyfloat res" where
  "require_positive_finite number =
     (if \<not> isfinite number \<or> number \<le> Fin 0 then raise TradingModeConfigError ''positive finite''
      else Inr number)"

definition currency_code :: "string \<Rightarrow> bool" where
  "currency_code c = (length c = 3 \<and> isalpha c)"

fun parse_caps_entries :: "string list \<Rightarrow> caps \<Rightarrow> caps res" where
  "parse_caps_entries [] caps = Inr caps"
| "parse_caps_entries (chunk # chunks) caps =
     (let entry = strip chunk in
      if entry = [] then parse_caps_entries chunks caps
      else case partition_at CHR '':'' entry of (head, separator, amount) \<Rightarrow>
        let currency = norm_text head in
        if \<not> separator then raise TradingModeConfigError ''entry has no currency''
        else if \<not> currency_code currency then raise TradingModeConfigError ''currency code''
        else if currency \<in> fst ` set caps then raise TradingModeConfigError ''duplicate currency''
        else (case float_of_text (strip amount) of
                None \<Rightarrow> raise TradingModeConfigError ''not a number''
              | Some parsed \<Rightarrow>
                  bindR (require_positive_finite parsed) (\<lambda>n.
                    parse_caps_entries chunks (caps @ [(currency, n)]))))"

definition parse_notional_caps :: "string \<Rightarrow> caps res" where
  "parse_notional_caps raw =
     bindR (parse_caps_entries (split_on CHR '','' raw) []) (\<lambda>caps.
       if caps = [] then raise TradingModeConfigError ''holds no cap'' else Inr caps)"

fun parse_acc_entries :: "string list \<Rightarrow> int set \<Rightarrow> int set res" where
  "parse_acc_entries [] ids = Inr ids"
| "parse_acc_entries (chunk # chunks) ids =
     (let entry = strip chunk in
      if entry = [] then parse_acc_entries chunks ids
      else if \<not> isdigit entry then raise TradingModeConfigError ''account identifier''
      else bindR (int_of_text entry) (\<lambda>n. parse_acc_entries chunks (insert n ids)))"

definition parse_real_acc_ids :: "string \<Rightarrow> int set res" where
  "parse_real_acc_ids raw =
     bindR (parse_acc_entries (split_on CHR '','' raw) {}) (\<lambda>ids.
       if ids = {} then raise TradingModeConfigError ''names no account'' else Inr ids)"

definition VERIFIED_MARKET_CURRENCIES :: "(string \<times> string) list" where
  "VERIFIED_MARKET_CURRENCIES = [(''US'', ''USD'')]"

definition currency_for_code :: "string \<Rightarrow> string option" where
  "currency_for_code code =
     (if code = [] \<or> CHR ''.'' \<notin> set code then None
      else map_of VERIFIED_MARKET_CURRENCIES (norm_text (fst (partition_at CHR ''.'' code))))"

record trading_policy =
  mode :: trading_mode
  max_order_qty :: "pyfloat option"
  max_order_notional :: caps
  real_acc_ids :: "int set"
  symbol_allowlist :: "string set"
  max_daily_notional :: caps
  require_approval :: bool

text \<open>\<open>TradingPolicy.__post_init__\<close>: every limit is validated however the policy was built, and the
  currency keys are normalized.\<close>

fun validate_caps :: "caps \<Rightarrow> caps \<Rightarrow> caps res" where
  "validate_caps [] validated = Inr validated"
| "validate_caps ((currency, amount) # rest) validated =
     (let code = norm_text currency in
      if \<not> currency_code code then raise TradingModeConfigError ''currency code''
      else if code \<in> fst ` set validated then raise TradingModeConfigError ''duplicate currency''
      else bindR (require_positive_finite amount) (\<lambda>n. validate_caps rest (validated @ [(code, n)])))"

fun validate_daily_caps :: "caps \<Rightarrow> caps \<Rightarrow> caps res" where
  "validate_daily_caps [] daily = Inr daily"
| "validate_daily_caps ((currency, amount) # rest) daily =
     (let code = norm_text currency in
      if \<not> currency_code code \<or> \<not> isascii code \<or> code \<in> fst ` set daily
      then raise TradingModeConfigError ''invalid currency''
      else bindR (require_positive_finite amount) (\<lambda>n. validate_daily_caps rest (daily @ [(code, n)])))"

definition exact_market_code :: "string \<Rightarrow> bool" where
  "exact_market_code code =
     (isascii code \<and> code = strip code
      \<and> (case partition_at CHR ''.'' code of (market, dot, symbol) \<Rightarrow>
           dot \<and> market \<noteq> [] \<and> symbol \<noteq> [])
      \<and> list_all (\<lambda>c. \<not> space_char c) code)"

definition make_policy ::
    "trading_mode \<Rightarrow> pyfloat option \<Rightarrow> caps \<Rightarrow> int set \<Rightarrow> string set \<Rightarrow> caps \<Rightarrow> bool \<Rightarrow> trading_policy res" where
  "make_policy md qty notional accs symbols daily approval =
     bindR (case qty of None \<Rightarrow> Inr None
            | Some q \<Rightarrow> bindR (require_positive_finite q) (\<lambda>_. Inr (Some q))) (\<lambda>max_qty.
     bindR (validate_caps notional []) (\<lambda>validated.
     bindR (validate_daily_caps daily []) (\<lambda>validated_daily.
       if \<exists>code \<in> symbols. \<not> exact_market_code code
       then raise TradingModeConfigError ''use exact market codes''
       else Inr \<lparr>mode = md, max_order_qty = max_qty, max_order_notional = validated,
                 real_acc_ids = accs, symbol_allowlist = symbols,
                 max_daily_notional = validated_daily, require_approval = approval\<rparr>)))"

definition notional_cap_configured :: "trading_policy \<Rightarrow> bool" where
  "notional_cap_configured p = (max_order_notional p \<noteq> [])"

subsection \<open>Reading the environment\<close>

type_synonym env = "string \<rightharpoonup> string"

definition env_mode :: "env \<Rightarrow> trading_mode res" where
  "env_mode env = (case env ''MOOMOO_TRADING_MODE'' of
     None \<Rightarrow> Inr READ_ONLY
   | Some raw \<Rightarrow>
      if strip raw = [] then Inr READ_ONLY
      else let candidate = norm_text raw in
        if candidate = ''READ_ONLY'' then Inr READ_ONLY
        else if candidate = ''SIMULATE'' then Inr SIMULATE
        else if candidate = ''REAL'' then Inr REAL
        else raise TradingModeConfigError ''not a trading mode'')"

definition env_max_qty :: "env \<Rightarrow> pyfloat option res" where
  "env_max_qty env = (case env ''MOOMOO_MAX_ORDER_QTY'' of
     None \<Rightarrow> Inr None
   | Some raw \<Rightarrow>
      if strip raw = [] then Inr None
      else (case float_of_text (strip raw) of
              None \<Rightarrow> raise TradingModeConfigError ''positive number''
            | Some q \<Rightarrow> bindR (require_positive_finite q) (\<lambda>_. Inr (Some q))))"

text \<open>\<open>(env.get(V) or "USD:500").strip() or "USD:500"\<close>.\<close>

definition env_notional_text :: "env \<Rightarrow> string" where
  "env_notional_text env =
     (let raw = (case env ''MOOMOO_MAX_ORDER_NOTIONAL_BY_CURRENCY'' of
                   None \<Rightarrow> ''USD:500'' | Some t \<Rightarrow> if t = [] then ''USD:500'' else t)
      in if strip raw = [] then ''USD:500'' else strip raw)"

definition env_notional :: "env \<Rightarrow> caps res" where
  "env_notional env =
     (if upper (env_notional_text env) \<noteq> ''NONE'' then parse_notional_caps (env_notional_text env)
      else Inr [])"

definition env_real_accounts :: "env \<Rightarrow> trading_mode \<Rightarrow> int set res" where
  "env_real_accounts env md =
     (let raw = strip (case env ''MOOMOO_REAL_ACC_IDS'' of None \<Rightarrow> [] | Some t \<Rightarrow> t) in
      if md = REAL then
        (if raw = [] then raise TradingModeConfigError ''accounts required'' else parse_real_acc_ids raw)
      else Inr {})"

definition env_symbols :: "env \<Rightarrow> string set res" where
  "env_symbols env = (case env ''MOOMOO_SYMBOL_ALLOWLIST'' of
     None \<Rightarrow> Inr {}
   | Some raw \<Rightarrow>
      let parts = map strip (split_on CHR '','' raw) in
      if parts = [] \<or> [] \<in> set parts then raise TradingModeConfigError ''must not be empty''
      else Inr (set parts))"

definition env_daily :: "env \<Rightarrow> caps res" where
  "env_daily env = (case env ''MOOMOO_MAX_DAILY_NOTIONAL_BY_CURRENCY'' of
     None \<Rightarrow> Inr [] | Some raw \<Rightarrow> parse_notional_caps raw)"

definition env_approval :: "env \<Rightarrow> bool res" where
  "env_approval env =
     (let approval = strip (case env ''MOOMOO_REQUIRE_TRADE_APPROVAL'' of None \<Rightarrow> ''0'' | Some t \<Rightarrow> t) in
      if approval \<notin> {''0'', ''1''} then raise TradingModeConfigError ''must be 0 or 1''
      else Inr (approval = ''1''))"

definition from_env :: "env \<Rightarrow> trading_policy res" where
  "from_env env =
     bindR (env_mode env) (\<lambda>md.
     bindR (env_max_qty env) (\<lambda>qty.
     bindR (env_notional env) (\<lambda>notional.
     bindR (env_real_accounts env md) (\<lambda>accs.
     bindR (env_symbols env) (\<lambda>symbols.
     bindR (env_daily env) (\<lambda>daily.
     bindR (env_approval env) (\<lambda>approval.
       make_policy md qty notional accs symbols daily approval)))))))"

subsection \<open>Facts of an order\<close>

record instrument_facts =
  code :: string
  classification :: "string option"
  monetary_multiplier :: "pyfloat option"
  contract_size :: "pyfloat option"
  last_price :: "pyfloat option"
  bid_price :: "pyfloat option"
  ask_price :: "pyfloat option"
  currency :: "string option"
  lot_size :: "pyfloat option"

definition market_reference :: "instrument_facts \<Rightarrow> pyfloat option" where
  "market_reference i =
     (let candidates = List.map_filter (\<lambda>x. x) [last_price i, bid_price i, ask_price i] in
      if candidates = [] then None else Some (py_max candidates))"

record leg_facts =
  instrument :: instrument_facts
  qty_ratio :: int

record order_facts =
  order_type :: string
  trd_side :: string
  qty :: int
  legs :: "leg_facts list"
  price :: "pyfloat option"
  aux_price :: "pyfloat option"
  is_combo :: bool

definition largest_leg_qty :: "order_facts \<Rightarrow> int" where
  "largest_leg_qty f =
     (let ratios = (if legs f = [] then [1] else map qty_ratio (legs f)) in
      qty f * foldl max (hd ratios) (tl ratios))"

subsection \<open>Authorization of writes\<close>

definition check_write :: "trading_policy \<Rightarrow> string \<Rightarrow> unit res" where
  "check_write p trd_env =
     (let requested = norm_text trd_env in
      if requested \<in> writable_environments (mode p) then ok
      else if mode p = READ_ONLY then raise TradingPolicyError ''read-only''
      else if requested \<in> {''REAL'', ''SIMULATE''} then raise TradingPolicyError ''mode does not permit''
      else raise TradingPolicyError ''not a recognized environment'')"

definition check_unlock :: "trading_policy \<Rightarrow> unit res" where
  "check_unlock p = (if mode p = REAL then ok else raise TradingPolicyError ''unlock not permitted'')"

subsection \<open>Valuation\<close>

definition EQUITY_CLASSIFICATIONS :: "string set" where
  "EQUITY_CLASSIFICATIONS = {''STOCK'', ''ETF''}"

definition OPTION_CLASSIFICATION :: string where
  "OPTION_CLASSIFICATION = ''DRVT''"

definition instrument_currency :: "instrument_facts \<Rightarrow> string res" where
  "instrument_currency i =
     (case (case currency i of Some c \<Rightarrow> if c = [] then currency_for_code (code i) else Some c
            | None \<Rightarrow> currency_for_code (code i)) of
        None \<Rightarrow> raise TradingPolicyError ''currency''
      | Some c \<Rightarrow> Inr c)"

definition monetary_multiplier_of :: "instrument_facts \<Rightarrow> pyfloat res" where
  "monetary_multiplier_of i = (case classification i of
     None \<Rightarrow> raise TradingPolicyError ''classification''
   | Some c \<Rightarrow>
      if c \<in> EQUITY_CLASSIFICATIONS then Inr (Fin 1)
      else if c = OPTION_CLASSIFICATION then
        (case monetary_multiplier i of
           None \<Rightarrow> raise TradingPolicyError ''multiplier'' | Some k \<Rightarrow> Inr k)
      else raise TradingPolicyError ''unsupported classification'')"

definition require_market_reference :: "pyfloat option \<Rightarrow> pyfloat res" where
  "require_market_reference r =
     (case r of None \<Rightarrow> raise TradingPolicyError ''no usable market price'' | Some x \<Rightarrow> Inr x)"

definition positive_candidate :: "pyfloat option \<Rightarrow> pyfloat list" where
  "positive_candidate c = (case c of Some x \<Rightarrow> if x > Fin 0 then [x] else [] | None \<Rightarrow> [])"

text \<open>\<open>_reference_price\<close>; the caller has established that the order has a leg.\<close>

definition reference_price :: "order_facts \<Rightarrow> pyfloat res" where
  "reference_price f = (case legs f of [] \<Rightarrow> raise IndexError ''legs''
     | leg # _ \<Rightarrow>
        let ot = norm_text (order_type f); side = norm_text (trd_side f);
            ref = market_reference (instrument leg) in
        if ot \<in> FIXED_LIMIT_TYPES then
          (case price f of None \<Rightarrow> raise TradingPolicyError ''limit price''
           | Some p \<Rightarrow>
              if p \<le> Fin 0 then raise TradingPolicyError ''limit price''
              else if side = ''BUY'' then Inr p
              else bindR (require_market_reference ref) (\<lambda>m. Inr (py_max [p, m])))
        else if ot \<in> NO_FIXED_LIMIT_TYPES then
          bindR (require_market_reference ref) (\<lambda>m.
            Inr (py_max ([m] @ positive_candidate (aux_price f) @ positive_candidate (price f))))
        else raise TradingPolicyError ''unclassified order type'')"

text \<open>\<open>x * qty * multiplier\<close> on floats, the integer quantity converted first.\<close>

definition float_notional :: "pyfloat \<Rightarrow> int \<Rightarrow> pyfloat \<Rightarrow> pyfloat res" where
  "float_notional x q k = bindR (float_of_int q) (\<lambda>qf. Inr (fmul (fmul x qf) k))"

definition assess_single_leg :: "order_facts \<Rightarrow> (pyfloat \<times> string \<times> string) res" where
  "assess_single_leg f = (case legs f of
     [] \<Rightarrow> raise TradingPolicyError ''no instrument facts''
   | leg # _ \<Rightarrow>
      bindR (instrument_currency (instrument leg)) (\<lambda>cur.
      bindR (monetary_multiplier_of (instrument leg)) (\<lambda>k.
      bindR (reference_price f) (\<lambda>r.
      bindR (float_notional r (qty f) k) (\<lambda>v.
        Inr (v, cur, ''order notional''))))))"

definition combo_leg_facts :: "leg_facts \<Rightarrow> (string \<times> pyfloat \<times> pyfloat option) res" where
  "combo_leg_facts leg = (let i = instrument leg in
     if classification i \<noteq> Some OPTION_CLASSIFICATION then raise TradingPolicyError ''combo leg''
     else bindR (instrument_currency i) (\<lambda>cur.
          bindR (monetary_multiplier_of i) (\<lambda>k. Inr (cur, k, contract_size i))))"

text \<open>More than one contract size is refused; composing that message sorts the sizes, which raises
  \<open>TypeError\<close> instead when one of them is missing.\<close>

definition refuse_contract_sizes :: "pyfloat option list \<Rightarrow> 'a res" where
  "refuse_contract_sizes sizes =
     (if None \<in> set sizes then raise TypeError ''None is not orderable''
      else raise TradingPolicyError ''contract sizes'')"

definition assess_combo_premium :: "order_facts \<Rightarrow> (pyfloat \<times> string \<times> string) res" where
  "assess_combo_premium f =
     (if norm_text (order_type f) \<notin> FIXED_LIMIT_TYPES then raise TradingPolicyError ''combo order type''
      else if legs f = [] then raise TradingPolicyError ''no instrument facts''
      else case price f of None \<Rightarrow> raise TradingPolicyError ''net price''
      | Some net \<Rightarrow>
        bindR (mapR combo_leg_facts (legs f)) (\<lambda>facts.
          let currencies = remdups (map fst facts);
              multipliers = remdups (map (\<lambda>x. fst (snd x)) facts);
              sizes = remdups (map (\<lambda>x. snd (snd x)) facts) in
          if length currencies > 1 then raise TradingPolicyError ''currencies''
          else if length multipliers > 1 then raise TradingPolicyError ''multipliers''
          else if length sizes > 1 then refuse_contract_sizes sizes
          else bindR (float_notional (fabs net) (qty f) (hd multipliers)) (\<lambda>v.
            Inr (v, hd currencies, ''package premium''))))"

text \<open>A comparison of an integer with a float is exact.\<close>

fun int_exceeds :: "int \<Rightarrow> pyfloat \<Rightarrow> bool" where
  "int_exceeds n (Fin r) = (r < of_int n)"
| "int_exceeds n NegInf = True"
| "int_exceeds n _ = False"

definition assess_value :: "order_facts \<Rightarrow> (pyfloat \<times> string \<times> string) res" where
  "assess_value f = (if is_combo f then assess_combo_premium f else assess_single_leg f)"

definition check_notional :: "trading_policy \<Rightarrow> order_facts \<Rightarrow> unit res" where
  "check_notional p f =
     bindR (assess_value f) (\<lambda>(value, cur, _).
       case map_of (max_order_notional p) cur of
         None \<Rightarrow> raise TradingPolicyError ''uncapped currency''
       | Some cap \<Rightarrow> if value > cap then raise TradingPolicyError ''notional'' else ok)"

definition assess_order :: "trading_policy \<Rightarrow> order_facts \<Rightarrow> unit res" where
  "assess_order p f =
     bindR (if symbol_allowlist p \<noteq> {} then
              forR (legs f) (\<lambda>leg. guardR (code (instrument leg) \<notin> symbol_allowlist p)
                (Exn TradingPolicyError ''symbol allowlist''))
            else ok) (\<lambda>_.
     bindR (case max_order_qty p of None \<Rightarrow> ok
            | Some q \<Rightarrow> guardR (int_exceeds (largest_leg_qty f) q) (Exn TradingPolicyError ''quantity'')) (\<lambda>_.
       if \<not> notional_cap_configured p then ok else check_notional p f))"

subsection \<open>The exact estimate\<close>

text \<open>Products of decimals in a context wide enough for every digit. An infinite factor and a zero
  one signal \<open>InvalidOperation\<close>.\<close>

fun dec_zero :: "pydec \<Rightarrow> bool" where
  "dec_zero (Dec _ c _) = (c = 0)"
| "dec_zero _ = False"

fun dec_mul :: "pydec \<Rightarrow> pydec \<Rightarrow> pydec res" where
  "dec_mul (Dec n c e) (Dec n' c' e') = Inr (Dec (n \<noteq> n') (c * c') (e + e'))"
| "dec_mul DecNaN _ = Inr DecNaN"
| "dec_mul _ DecNaN = Inr DecNaN"
| "dec_mul (DecInf n) (DecInf n') = Inr (DecInf (n \<noteq> n'))"
| "dec_mul (DecInf n) (Dec n' c e) = (if c = 0 then raise InvalidOperation ''0 * Infinity'' else Inr (DecInf (n \<noteq> n')))"
| "dec_mul (Dec n' c e) (DecInf n) = (if c = 0 then raise InvalidOperation ''0 * Infinity'' else Inr (DecInf (n \<noteq> n')))"

fun dec_abs :: "pydec \<Rightarrow> pydec" where
  "dec_abs (Dec _ c e) = Dec False c e"
| "dec_abs (DecInf _) = DecInf False"
| "dec_abs DecNaN = DecNaN"

definition dec_of_int :: "int \<Rightarrow> pydec" where
  "dec_of_int n = Dec (n < 0) \<bar>n\<bar> 0"

text \<open>\<open>estimate_order\<close>. The argument \<open>D\<close> is \<open>Decimal(str(x))\<close> of a float: the decimal its shortest
  \<open>repr\<close> spells. The result is the amount, its currency and its label.\<close>

definition estimate_price ::
    "(pyfloat \<Rightarrow> pydec) \<Rightarrow> order_facts \<Rightarrow> (pydec \<times> pyfloat \<times> string \<times> string) res" where
  "estimate_price D f =
     (if is_combo f then
        bindR (assess_combo_premium f) (\<lambda>(_, cur, label).
          case (legs f, price f) of
            (leg # _, Some net) \<Rightarrow>
              bindR (monetary_multiplier_of (instrument leg)) (\<lambda>k.
                Inr (dec_abs (D net), k, cur, label))
          | _ \<Rightarrow> raise IndexError ''legs'')
      else case legs f of [] \<Rightarrow> raise IndexError ''legs''
      | leg # _ \<Rightarrow>
        bindR (instrument_currency (instrument leg)) (\<lambda>cur.
        bindR (monetary_multiplier_of (instrument leg)) (\<lambda>k.
        bindR (reference_price f) (\<lambda>r.
          Inr (D r, k, cur, ''submission notional'')))))"

definition estimate_order ::
    "(pyfloat \<Rightarrow> pydec) \<Rightarrow> order_facts \<Rightarrow> (pydec \<times> string \<times> string) res" where
  "estimate_order D f =
     bindR (estimate_price D f) (\<lambda>(pr, k, cur, label).
     bindR (dec_mul pr (dec_of_int (qty f))) (\<lambda>a.
     bindR (dec_mul a (D k)) (\<lambda>value.
       if \<not> dec_finite value \<or> dec_val value < 0 then raise TradingPolicyError ''valuation is invalid''
       else Inr (value, cur, label))))"

subsection \<open>Well-formed policies\<close>

definition limit_ok :: "pyfloat \<Rightarrow> bool" where
  "limit_ok x \<longleftrightarrow> (\<exists>r. x = Fin r \<and> 0 < r)"

definition caps_ok :: "caps \<Rightarrow> bool" where
  "caps_ok cs \<longleftrightarrow> (\<forall>(c, x) \<in> set cs. currency_code c \<and> limit_ok x) \<and> distinct (map fst cs)"

definition policy_ok :: "trading_policy \<Rightarrow> bool" where
  "policy_ok p \<longleftrightarrow> (\<forall>q. max_order_qty p = Some q \<longrightarrow> limit_ok q)
     \<and> caps_ok (max_order_notional p) \<and> caps_ok (max_daily_notional p)
     \<and> (\<forall>c \<in> symbol_allowlist p. exact_market_code c)"

lemma require_positive_finite_ok:
  "require_positive_finite x = Inr y \<longleftrightarrow> y = x \<and> limit_ok x"
  by (cases x) (auto simp: require_positive_finite_def isfinite_def limit_ok_def)

lemma caps_ok_snoc:
  "caps_ok (cs @ [(c, x)]) \<longleftrightarrow> caps_ok cs \<and> currency_code c \<and> limit_ok x \<and> c \<notin> fst ` set cs"
  by (auto simp: caps_ok_def)

lemma validate_caps_ok: "validate_caps cs vs = Inr out \<Longrightarrow> caps_ok vs \<Longrightarrow> caps_ok out"
  by (induction cs vs rule: validate_caps.induct)
    (auto simp: Let_def res_simps require_positive_finite_ok caps_ok_snoc split: if_splits)

lemma validate_daily_caps_ok: "validate_daily_caps cs vs = Inr out \<Longrightarrow> caps_ok vs \<Longrightarrow> caps_ok out"
  by (induction cs vs rule: validate_daily_caps.induct)
    (auto simp: Let_def res_simps require_positive_finite_ok caps_ok_snoc split: if_splits)

lemma parse_caps_entries_ok: "parse_caps_entries cs vs = Inr out \<Longrightarrow> caps_ok vs \<Longrightarrow> caps_ok out"
  by (induction cs vs rule: parse_caps_entries.induct)
    (auto simp: Let_def res_simps require_positive_finite_ok caps_ok_snoc
      split: if_splits prod.splits option.splits)

lemma caps_ok_Nil [simp]: "caps_ok []"
  by (simp add: caps_ok_def)

lemma make_policy_fields:
  assumes "make_policy md q notional accs symbols daily approval = Inr p"
  shows "policy_ok p" and "mode p = md" and "real_acc_ids p = accs"
    and "validate_caps notional [] = Inr (max_order_notional p)"
  using assms
  by (auto simp: make_policy_def res_simps policy_ok_def require_positive_finite_ok
      dest: validate_caps_ok validate_daily_caps_ok split: option.splits if_splits)

lemma parse_acc_entries_mono: "parse_acc_entries cs ids = Inr out \<Longrightarrow> ids \<subseteq> out"
  by (induction cs ids rule: parse_acc_entries.induct)
    (auto simp: Let_def res_simps split: if_splits)

lemma env_real_accounts_ok:
  "env_real_accounts env md = Inr accs \<Longrightarrow> (md = REAL \<longleftrightarrow> accs \<noteq> {})"
  by (auto simp: env_real_accounts_def parse_real_acc_ids_def Let_def res_simps split: if_splits)

lemma default_cap: "parse_notional_caps ''USD:500'' = Inr [(''USD'', Fin 500)]"
  by code_simp

lemma validate_default_cap: "validate_caps [(''USD'', Fin 500)] [] = Inr [(''USD'', Fin 500)]"
  by code_simp

lemma env_notional_default:
  "env ''MOOMOO_MAX_ORDER_NOTIONAL_BY_CURRENCY'' = None \<Longrightarrow> env_notional env = Inr [(''USD'', Fin 500)]"
proof -
  assume "env ''MOOMOO_MAX_ORDER_NOTIONAL_BY_CURRENCY'' = None"
  moreover have "strip ''USD:500'' = ''USD:500''" "upper ''USD:500'' \<noteq> ''NONE''" by code_simp+
  ultimately show ?thesis by (simp add: env_notional_def env_notional_text_def default_cap)
qed

lemma env_mode_REAL:
  "env_mode env = Inr REAL \<longleftrightarrow>
     (\<exists>raw. env ''MOOMOO_TRADING_MODE'' = Some raw \<and> norm_text raw = ''REAL'')"
proof -
  have "strip raw = [] \<Longrightarrow> norm_text raw \<noteq> ''REAL''" for raw
    by (simp add: norm_text_def upper_def)
  then show ?thesis by (auto simp: env_mode_def Let_def split: option.splits)
qed

subsection \<open>Valuation never yields NaN\<close>

text \<open>The adapter that builds instrument facts keeps positive finite prices and multipliers only;
  the order validator keeps a positive quantity and finite prices.\<close>

definition instrument_ok :: "instrument_facts \<Rightarrow> bool" where
  "instrument_ok i \<longleftrightarrow> (\<forall>x. Some x \<in> {last_price i, bid_price i, ask_price i, monetary_multiplier i}
     \<longrightarrow> limit_ok x)"

definition facts_ok :: "order_facts \<Rightarrow> bool" where
  "facts_ok f \<longleftrightarrow> 0 < qty f \<and> (\<forall>leg \<in> set (legs f). instrument_ok (instrument leg))
     \<and> (\<forall>x. price f = Some x \<longrightarrow> isfinite x) \<and> (\<forall>x. aux_price f = Some x \<longrightarrow> isfinite x)"

definition sound_value :: "pyfloat \<Rightarrow> bool" where
  "sound_value x \<longleftrightarrow> x = PosInf \<or> (\<exists>r. x = Fin r \<and> 0 \<le> r)"

lemma fmul_sound: "sound_value x \<Longrightarrow> limit_ok k \<Longrightarrow> sound_value (fmul x k)"
proof -
  assume x: "sound_value x" and k: "limit_ok k"
  from k obtain b where b: "k = Fin b" "0 < b" by (auto simp: limit_ok_def)
  from x consider "x = PosInf" | r where "x = Fin r" "0 \<le> r" by (auto simp: sound_value_def)
  then show ?thesis
  proof cases
    case 1
    with b show ?thesis by (simp add: fmul_def fneg_def sound_value_def)
  next
    case (2 r)
    have "r = 0 \<or> 0 < r" using 2 by auto
    with 2 b round64_pos [of "r * b"] show ?thesis
      by (auto simp: fmul_def sound_value_def)
  qed
qed

lemma float_of_int_pos:
  assumes "float_of_int n = Inr x" and "0 < n"
  shows "\<exists>r. x = Fin r \<and> of_int n * (1 - ulp) \<le> r \<and> 0 < r"
proof -
  from assms(1) obtain r where r: "round64 (of_int n) = Fin r" "x = Fin r"
    by (auto simp: float_of_int_def split: pyfloat.splits)
  have one: "(1 :: rat) \<le> of_int n" using assms(2) by simp
  have "pow2 (- 1022) \<le> 1" by (simp add: pow2_def)
  with one have "pow2 (- 1022) \<le> of_int n" by linarith
  from round64_Fin_lower [OF r(1) this] have low: "of_int n * (1 - ulp) \<le> r" .
  have "0 < of_int n * (1 - ulp)" using assms(2) by (simp add: ulp_def)
  with low r show ?thesis by auto
qed

lemma float_notional_sound:
  assumes "float_notional x n k = Inr v" and "0 < n" and "limit_ok k" and "sound_value x"
  shows "sound_value v"
proof -
  from assms(1) obtain q where q: "float_of_int n = Inr q" and v: "v = fmul (fmul x q) k"
    by (auto simp: float_notional_def res_simps)
  from float_of_int_pos [OF q assms(2)] have "limit_ok q" by (auto simp: limit_ok_def)
  with assms(3,4) v show ?thesis by (simp add: fmul_sound)
qed

lemma instrument_ok_reference:
  assumes "instrument_ok i" and "market_reference i = Some m"
  shows "limit_ok m"
proof -
  let ?c = "List.map_filter (\<lambda>x. x) [last_price i, bid_price i, ask_price i]"
  have "set ?c \<subseteq> {x. limit_ok x}"
    using assms(1) by (auto simp: instrument_ok_def map_filter_def split: if_splits option.splits)
  moreover have "m = py_max ?c" "?c \<noteq> []"
    using assms(2) by (auto simp: market_reference_def Let_def split: if_splits)
  ultimately show ?thesis using py_max_in [of ?c] by auto
qed

lemma positive_candidate_ok: "(\<And>x. c = Some x \<Longrightarrow> isfinite x) \<Longrightarrow> \<forall>x \<in> set (positive_candidate c). limit_ok x"
  by (auto simp: positive_candidate_def limit_ok_def isfinite_def split: option.splits pyfloat.splits)

lemma py_max_limit_ok: "xs \<noteq> [] \<Longrightarrow> \<forall>x \<in> set xs. limit_ok x \<Longrightarrow> limit_ok (py_max xs)"
  using py_max_in by blast

lemma finite_positive_limit: "isfinite x \<Longrightarrow> \<not> x \<le> Fin 0 \<Longrightarrow> limit_ok x"
  by (cases x) (auto simp: isfinite_def limit_ok_def)

lemma reference_price_ok:
  assumes "reference_price f = Inr r" and "facts_ok f"
  shows "limit_ok r"
proof -
  from assms(1) obtain leg rest where legs: "legs f = leg # rest"
    by (auto simp: reference_price_def split: list.splits)
  let ?m = "market_reference (instrument leg)"
  have i: "instrument_ok (instrument leg)" using assms(2) legs by (simp add: facts_ok_def)
  have m: "require_market_reference ?m = Inr x \<Longrightarrow> limit_ok x" for x
    using instrument_ok_reference [OF i]
    by (auto simp: require_market_reference_def split: option.splits)
  have p: "price f = Some x \<Longrightarrow> isfinite x" and a: "aux_price f = Some x \<Longrightarrow> isfinite x" for x
    using assms(2) by (auto simp: facts_ok_def)
  have cand: "limit_ok x \<Longrightarrow>
      limit_ok (py_max ([x] @ positive_candidate (aux_price f) @ positive_candidate (price f)))" for x
    using positive_candidate_ok [OF a] positive_candidate_ok [OF p] by (intro py_max_limit_ok) auto
  show ?thesis
  proof (cases "norm_text (order_type f) \<in> FIXED_LIMIT_TYPES")
    case True
    with assms(1) legs obtain x where x: "price f = Some x" "\<not> x \<le> Fin 0"
      and r: "r = x \<or> (\<exists>y. require_market_reference ?m = Inr y \<and> r = py_max [x, y])"
      by (auto simp: reference_price_def Let_def res_simps simp del: py_max.simps
          split: option.splits if_splits)
    have lx: "limit_ok x" using x p by (auto intro: finite_positive_limit)
    from r show ?thesis
    proof
      assume "r = x"
      with lx show ?thesis by simp
    next
      assume "\<exists>y. require_market_reference ?m = Inr y \<and> r = py_max [x, y]"
      then obtain y where y: "require_market_reference ?m = Inr y" "r = py_max [x, y]" by blast
      have "limit_ok (py_max [x, y])" using lx m [OF y(1)] by (intro py_max_limit_ok) auto
      with y(2) show ?thesis by simp
    qed
  next
    case False
    with assms(1) legs obtain y where "require_market_reference ?m = Inr y"
      "r = py_max ([y] @ positive_candidate (aux_price f) @ positive_candidate (price f))"
      by (auto simp: reference_price_def Let_def res_simps simp del: py_max.simps split: if_splits)
    with m cand show ?thesis by blast
  qed
qed

lemma multiplier_ok:
  "monetary_multiplier_of i = Inr k \<Longrightarrow> instrument_ok i \<Longrightarrow> limit_ok k"
  by (auto simp: monetary_multiplier_of_def instrument_ok_def limit_ok_def
      split: option.splits if_splits)

lemma assess_single_leg_sound:
  assumes "assess_single_leg f = Inr (v, cur, l)" and "facts_ok f"
  shows "sound_value v"
proof -
  from assms(1) obtain leg rest k r where legs: "legs f = leg # rest"
    and k: "monetary_multiplier_of (instrument leg) = Inr k" and r: "reference_price f = Inr r"
    and v: "float_notional r (qty f) k = Inr v"
    by (auto simp: assess_single_leg_def res_simps split: list.splits)
  have "instrument_ok (instrument leg)" "0 < qty f" using assms(2) legs by (auto simp: facts_ok_def)
  with multiplier_ok [OF k] reference_price_ok [OF r assms(2)] float_notional_sound [OF v]
  show ?thesis by (auto simp: sound_value_def limit_ok_def intro: less_imp_le)
qed

lemma assess_combo_sound:
  assumes "assess_combo_premium f = Inr (v, cur, l)" and "facts_ok f"
  shows "sound_value v"
proof -
  from assms(1) obtain net facts where net: "price f = Some net" and ne: "legs f \<noteq> []"
    and facts: "mapR combo_leg_facts (legs f) = Inr facts"
    and v: "float_notional (fabs net) (qty f) (hd (remdups (map (\<lambda>x. fst (snd x)) facts))) = Inr v"
    by (auto simp: assess_combo_premium_def refuse_contract_sizes_def res_simps Let_def
        split: if_splits option.splits)
  have all2: "list_all2 (\<lambda>leg x. combo_leg_facts leg = Inr x) (legs f) facts"
    using facts by (simp add: res_simps)
  have ks: "\<forall>k \<in> set (map (\<lambda>x. fst (snd x)) facts). limit_ok k"
  proof
    fix k assume "k \<in> set (map (\<lambda>x. fst (snd x)) facts)"
    then obtain x where x: "x \<in> set facts" "k = fst (snd x)" by auto
    then obtain j where j: "j < length facts" "x = facts ! j" by (auto simp: in_set_conv_nth)
    with all2 have leg: "combo_leg_facts (legs f ! j) = Inr x" "legs f ! j \<in> set (legs f)"
      by (auto simp: list_all2_conv_all_nth)
    with assms(2) have "instrument_ok (instrument (legs f ! j))" by (simp add: facts_ok_def)
    moreover have "monetary_multiplier_of (instrument (legs f ! j)) = Inr k"
      using leg(1) x by (auto simp: combo_leg_facts_def Let_def res_simps split: if_splits)
    ultimately show "limit_ok k" by (auto intro: multiplier_ok)
  qed
  have "facts \<noteq> []" using all2 ne by auto
  then have hd: "hd (remdups (map (\<lambda>x. fst (snd x)) facts)) \<in> set (map (\<lambda>x. fst (snd x)) facts)"
    by (metis list.set_sel(1) map_is_Nil_conv remdups_eq_nil_iff set_remdups)
  have "sound_value (fabs net)" using assms(2) net
    by (auto simp: facts_ok_def fabs_def sound_value_def isfinite_def split: pyfloat.splits)
  with hd ks assms(2) float_notional_sound [OF v] show ?thesis by (auto simp: facts_ok_def)
qed

lemma assess_value_sound: "assess_value f = Inr (v, cur, l) \<Longrightarrow> facts_ok f \<Longrightarrow> sound_value v"
  by (auto simp: assess_value_def intro: assess_single_leg_sound assess_combo_sound split: if_splits)

lemma map_of_caps_ok: "caps_ok cs \<Longrightarrow> map_of cs c = Some x \<Longrightarrow> limit_ok x"
  by (auto simp: caps_ok_def dest: map_of_SomeD)

text \<open>The value that passed the comparison, and the cap it passed.\<close>

lemma check_notional_ok:
  assumes "check_notional p f = Inr u" and "caps_ok (max_order_notional p)" and "facts_ok f"
  shows "\<exists>v cur l cap. assess_value f = Inr (Fin v, cur, l)
     \<and> map_of (max_order_notional p) cur = Some (Fin cap) \<and> v \<le> cap"
proof -
  from assms(1) obtain v cur l cap where v: "assess_value f = Inr (v, cur, l)"
    and cap: "map_of (max_order_notional p) cur = Some cap" and le: "\<not> v > cap"
    by (auto simp: check_notional_def res_simps split: option.splits if_splits)
  from map_of_caps_ok [OF assms(2) cap] obtain c where c: "cap = Fin c" by (auto simp: limit_ok_def)
  from assess_value_sound [OF v assms(3)] le c obtain w where "v = Fin w" "w \<le> c"
    by (auto simp: sound_value_def)
  with v cap c show ?thesis by blast
qed

subsection \<open>How far rounding can go\<close>

text \<open>The exact notional behind a float notional, in the normal range: three roundings, of the
  quantity and of the two products, each lose at most one part in \<open>2 ^ 53\<close>.\<close>

lemma ulp_bounds: "0 < ulp" "ulp \<le> 1 / 2"
  by (simp_all add: ulp_def)

lemma float_notional_lower:
  assumes v: "float_notional (Fin r) n (Fin k) = Inr (Fin v)"
    and n: "0 < n" and r: "pow2 (- 1000) \<le> r" and k: "pow2 (- 10) \<le> k"
  shows "r * of_int n * k * (1 - ulp) ^ 3 \<le> v"
proof -
  have r0: "0 < r" and k0: "0 < k"
    using r k pow2_pos [of "- 1000"] pow2_pos [of "- 10"] by linarith+
  from v obtain q where q: "float_of_int n = Inr q" and v': "fmul (fmul (Fin r) q) (Fin k) = Fin v"
    by (auto simp: float_notional_def res_simps)
  from float_of_int_pos [OF q n] obtain m where m: "q = Fin m" "of_int n * (1 - ulp) \<le> m" "0 < m"
    by blast
  have "1 * (1 / 2) \<le> of_int n * (1 - ulp)"
    using n ulp_bounds by (intro mult_mono) auto
  then have half: "1 / 2 \<le> m" using m(2) by linarith
  have pw: "pow2 (- 1001) \<le> r * m"
    using mult_mono [OF r half] r0 by (simp add: pow2_def)
  obtain w where w: "fmul (Fin r) (Fin m) = Fin w" "fmul (Fin w) (Fin k) = Fin v"
    using v' m(1) k0 by (cases "fmul (Fin r) (Fin m)") (auto simp: fmul_def fneg_def)
  have low1: "r * m * (1 - ulp) \<le> w"
    using w(1) pw pow2_mono [of "- 1022" "- 1001"]
    by (intro round64_Fin_lower) (auto simp: fmul_def)
  have "pow2 (- 1001) * (1 / 2) \<le> r * m * (1 - ulp)"
    using pw ulp_bounds mult_pos_pos [OF r0 m(3)] by (intro mult_mono) auto
  then have "pow2 (- 1002) \<le> w" using low1 by (simp add: pow2_def)
  then have "pow2 (- 1002) * pow2 (- 10) \<le> w * k"
    using k pow2_pos [of "- 1002"] pow2_pos [of "- 10"] by (intro mult_mono) linarith+
  then have "pow2 (- 1022) \<le> w * k"
    using pow2_mono [of "- 1022" "- 1012"] by (simp add: pow2_add [symmetric])
  then have low2: "w * k * (1 - ulp) \<le> v"
    using w(2) by (intro round64_Fin_lower) (auto simp: fmul_def)
  have "r * (of_int n * (1 - ulp)) * (1 - ulp) \<le> r * m * (1 - ulp)"
    using m(2) r0 ulp_bounds by (intro mult_right_mono mult_left_mono) auto
  then have "r * (of_int n * (1 - ulp)) * (1 - ulp) \<le> w" using low1 by linarith
  then have "r * (of_int n * (1 - ulp)) * (1 - ulp) * k * (1 - ulp) \<le> w * k * (1 - ulp)"
    using k0 ulp_bounds by (intro mult_right_mono) auto
  with low2 show ?thesis by (simp add: power3_eq_cube algebra_simps)
qed

subsection \<open>Properties\<close>

text \<open>Writes are authorized exactly in the environments of the configured mode: nothing in
  READ_ONLY, REAL only in REAL mode, and an unknown environment never. Every refusal is a
  \<open>TradingPolicyError\<close>, and unlocking follows the same rule as REAL writes.\<close>

theorem check_write_exact:
  "(check_write p env = ok \<longleftrightarrow>
      (mode p = REAL \<and> norm_text env \<in> {''REAL'', ''SIMULATE''})
      \<or> (mode p = SIMULATE \<and> norm_text env = ''SIMULATE''))
   \<and> (\<forall>e. check_write p env = Inl e \<longrightarrow> exn_class e = TradingPolicyError)
   \<and> (check_unlock p = ok \<longleftrightarrow> check_write p ''REAL'' = ok)"
proof -
  have real: "norm_text ''REAL'' = ''REAL''" by code_simp
  show ?thesis
    by (cases "mode p") (auto simp: check_write_def check_unlock_def Let_def real)
qed

theorem check_write_exact_witness:
  "check_write \<lparr>mode = SIMULATE, max_order_qty = None, max_order_notional = [], real_acc_ids = {},
     symbol_allowlist = {}, max_daily_notional = [], require_approval = False\<rparr> '' simulate '' = ok"
proof -
  have "norm_text '' simulate '' = ''SIMULATE''" by code_simp
  then show ?thesis
    using check_write_exact [of "\<lparr>mode = SIMULATE, max_order_qty = None, max_order_notional = [],
      real_acc_ids = {}, symbol_allowlist = {}, max_daily_notional = [], require_approval = False\<rparr>"
      "'' simulate ''"] by simp
qed

text \<open>A policy read from the environment has only finite positive limits under three-letter
  currency keys without repetition (so no NaN can switch a limit off); REAL mode is reached only by
  naming it, exactly REAL mode has accounts to write to, and without an explicit setting orders are
  capped at 500 USD.\<close>

theorem from_env_wellformed:
  assumes "from_env env = Inr p"
  shows "policy_ok p
    \<and> (mode p = REAL \<longleftrightarrow> (\<exists>raw. env ''MOOMOO_TRADING_MODE'' = Some raw \<and> norm_text raw = ''REAL''))
    \<and> (mode p = REAL \<longleftrightarrow> real_acc_ids p \<noteq> {})
    \<and> (env ''MOOMOO_MAX_ORDER_NOTIONAL_BY_CURRENCY'' = None \<longrightarrow>
         max_order_notional p = [(''USD'', Fin 500)])"
proof -
  from assms obtain md q notional accs symbols daily approval where
      md: "env_mode env = Inr md" and notional: "env_notional env = Inr notional"
    and accs: "env_real_accounts env md = Inr accs"
    and mk: "make_policy md q notional accs symbols daily approval = Inr p"
    by (auto simp: from_env_def res_simps)
  note fields = make_policy_fields [OF mk]
  have "mode p = REAL \<longleftrightarrow> (\<exists>raw. env ''MOOMOO_TRADING_MODE'' = Some raw \<and> norm_text raw = ''REAL'')"
    using md fields(2) env_mode_REAL [of env] by auto
  moreover have "mode p = REAL \<longleftrightarrow> real_acc_ids p \<noteq> {}"
    using env_real_accounts_ok [OF accs] fields(2,3) by simp
  moreover have "env ''MOOMOO_MAX_ORDER_NOTIONAL_BY_CURRENCY'' = None \<Longrightarrow>
      max_order_notional p = [(''USD'', Fin 500)]"
    using env_notional_default [of env] notional fields(4) validate_default_cap by auto
  ultimately show ?thesis using fields(1) by blast
qed

theorem from_env_wellformed_witness:
  "\<exists>p. from_env Map.empty = Inr p \<and> policy_ok p \<and> mode p = READ_ONLY
     \<and> max_order_notional p = [(''USD'', Fin 500)]"
proof -
  let ?p = "\<lparr>mode = READ_ONLY, max_order_qty = None, max_order_notional = [(''USD'', Fin 500)],
     real_acc_ids = {}, symbol_allowlist = {}, max_daily_notional = [], require_approval = False\<rparr>"
  have "strip ''0'' = ''0''" by code_simp
  then have h: "from_env Map.empty = Inr ?p"
    by (simp add: from_env_def env_mode_def env_max_qty_def env_notional_default
        env_real_accounts_def env_symbols_def env_daily_def env_approval_def make_policy_def
        validate_default_cap del: validate_caps.simps)
  from from_env_wellformed [OF h] h show ?thesis by auto
qed

text \<open>The price a single-leg order is valued at never understates it: it is at least the limit price of
  a fixed-limit order, at least the market reference unless the order is a fixed-limit BUY, and at
  least the trigger and price of an order without a fixed limit.\<close>

theorem reference_price_conservative:
  assumes "reference_price f = Inr r" and "facts_ok f" and "legs f = leg # rest"
  shows "(norm_text (order_type f) \<in> FIXED_LIMIT_TYPES \<longrightarrow> (\<exists>p. price f = Some p \<and> p \<le> r))
    \<and> (norm_text (order_type f) \<notin> FIXED_LIMIT_TYPES \<or> norm_text (trd_side f) \<noteq> ''BUY'' \<longrightarrow>
         (\<exists>m. market_reference (instrument leg) = Some m \<and> m \<le> r))
    \<and> (norm_text (order_type f) \<notin> FIXED_LIMIT_TYPES \<longrightarrow>
         (\<forall>x. Fin 0 < x \<longrightarrow> x \<in> {y. price f = Some y \<or> aux_price f = Some y} \<longrightarrow> x \<le> r))"
proof -
  have i: "instrument_ok (instrument leg)" using assms(2,3) by (simp add: facts_ok_def)
  have mref: "require_market_reference (market_reference (instrument leg)) = Inr m \<Longrightarrow>
      market_reference (instrument leg) = Some m \<and> limit_ok m" for m
    using instrument_ok_reference [OF i]
    by (auto simp: require_market_reference_def split: option.splits)
  have nn: "limit_ok x \<Longrightarrow> x \<noteq> NaN" for x by (auto simp: limit_ok_def)
  have p: "price f = Some x \<Longrightarrow> isfinite x" and a: "aux_price f = Some x \<Longrightarrow> isfinite x" for x
    using assms(2) by (auto simp: facts_ok_def)
  note cands = positive_candidate_ok [of "aux_price f", OF a] positive_candidate_ok [of "price f", OF p]
  show ?thesis
  proof (cases "norm_text (order_type f) \<in> FIXED_LIMIT_TYPES")
    case True
    with assms(1,3) obtain x where x: "price f = Some x" "\<not> x \<le> Fin 0"
      and r: "norm_text (trd_side f) = ''BUY'' \<and> r = x \<or> norm_text (trd_side f) \<noteq> ''BUY'' \<and>
         (\<exists>y. require_market_reference (market_reference (instrument leg)) = Inr y \<and> r = py_max [x, y])"
      by (auto simp: reference_price_def Let_def res_simps simp del: py_max.simps
          split: option.splits if_splits)
    have lx: "limit_ok x" using x p by (auto intro: finite_positive_limit)
    then have "x \<le> x" by (auto simp: limit_ok_def)
    with r x lx mref nn py_max_upper [of x] py_max_upper show ?thesis
      using True by (fastforce simp del: py_max.simps)
  next
    case False
    with assms(1,3) obtain m where m: "require_market_reference (market_reference (instrument leg)) = Inr m"
      and r: "r = py_max ([m] @ positive_candidate (aux_price f) @ positive_candidate (price f))"
      by (auto simp: reference_price_def Let_def res_simps simp del: py_max.simps split: if_splits)
    have all: "\<forall>y \<in> set ([m] @ positive_candidate (aux_price f) @ positive_candidate (price f)). y \<noteq> NaN"
      using cands mref [OF m] nn by auto
    have up: "y \<in> set ([m] @ positive_candidate (aux_price f) @ positive_candidate (price f)) \<Longrightarrow> y \<le> r" for y
      using py_max_upper [OF _ all] r by blast
    have "Fin 0 < x \<Longrightarrow> price f = Some x \<or> aux_price f = Some x \<Longrightarrow> x \<le> r" for x
      by (rule up) (auto simp: positive_candidate_def)
    with False up [of m] mref [OF m] show ?thesis by auto
  qed
qed

text \<open>The bound on the largest leg bounds every leg, and the value that is compared with a cap, taken apart.\<close>

lemma largest_leg_bounds:
  assumes "leg \<in> set (legs f)" "0 < qty f"
  shows "qty f * qty_ratio leg \<le> largest_leg_qty f"
proof -
  have upper: "\<forall>y \<in> insert x (set ys). y \<le> foldl max x ys" for x :: int and ys
  proof (induction ys arbitrary: x)
    case (Cons y ys)
    show ?case using Cons.IH [of "max x y"] by auto
  qed simp
  obtain l ls where legs: "legs f = l # ls" using assms(1) by (cases "legs f") auto
  then have "qty_ratio leg \<in> insert (qty_ratio l) (set (map qty_ratio ls))" using assms(1) by auto
  then have "qty_ratio leg \<le> foldl max (qty_ratio l) (map qty_ratio ls)" using upper by blast
  then show ?thesis using assms(2) legs by (simp add: largest_leg_qty_def)
qed

lemma assess_single_leg_value:
  assumes "assess_single_leg f = Inr (v, cur, l)" "facts_ok f"
  obtains leg rest x k n where "legs f = leg # rest" "instrument_currency (instrument leg) = Inr cur"
    "monetary_multiplier_of (instrument leg) = Inr k" "float_of_int (qty f) = Inr n" "v = fmul (fmul x n) k"
    "reference_price f = Inr x"
  using assms by (auto simp: assess_single_leg_def float_notional_def res_simps split: list.splits)

lemma single_price_conservative:
  assumes "reference_price f = Inr x" "facts_ok f" "legs f = leg # rest"
  shows "(\<forall>y. price f = Some y \<longrightarrow> Fin 0 < y \<longrightarrow> y \<le> x)
    \<and> (norm_text (order_type f) \<in> FIXED_LIMIT_TYPES \<and> norm_text (trd_side f) = ''BUY''
       \<or> (\<exists>m. market_reference (instrument leg) = Some m \<and> m \<le> x))"
  using reference_price_conservative [OF assms] by (cases "norm_text (order_type f) \<in> FIXED_LIMIT_TYPES") auto

lemma one_of: "\<not> 1 < length (remdups xs) \<Longrightarrow> y \<in> set xs \<Longrightarrow> y = hd (remdups xs)"
  by (cases "remdups xs"; cases "tl (remdups xs)") (auto simp flip: set_remdups [of xs])

lemma assess_combo_value:
  assumes "assess_combo_premium f = Inr (v, cur, l)"
  obtains net k n where "price f = Some net" "legs f \<noteq> []" "float_of_int (qty f) = Inr n" "v = fmul (fmul (fabs net) n) k"
    "\<forall>leg \<in> set (legs f). instrument_currency (instrument leg) = Inr cur \<and> monetary_multiplier_of (instrument leg) = Inr k"
proof -
  obtain net facts where net: "price f = Some net" "legs f \<noteq> []"
    and facts: "mapR combo_leg_facts (legs f) = Inr facts"
    and one: "\<not> 1 < length (remdups (map fst facts))" "\<not> 1 < length (remdups (map (\<lambda>x. fst (snd x)) facts))"
    and cur: "cur = hd (remdups (map fst facts))"
    and v: "float_notional (fabs net) (qty f) (hd (remdups (map (\<lambda>x. fst (snd x)) facts))) = Inr v"
    using assms by (auto simp: assess_combo_premium_def refuse_contract_sizes_def res_simps Let_def split: if_splits option.splits)
  let ?k = "hd (remdups (map (\<lambda>x. fst (snd x)) facts))"
  have "instrument_currency (instrument leg) = Inr cur \<and> monetary_multiplier_of (instrument leg) = Inr ?k"
    if leg: "leg \<in> set (legs f)" for leg
  proof -
    obtain i where i: "i < length (legs f)" "leg = legs f ! i" using leg by (auto simp: in_set_conv_nth)
    with facts have "facts ! i \<in> set facts" "combo_leg_facts leg = Inr (facts ! i)"
      by (auto simp: res_simps list_all2_conv_all_nth)
    then obtain x where x: "x \<in> set facts" "combo_leg_facts leg = Inr x" by blast
    have "instrument_currency (instrument leg) = Inr (fst x)" "monetary_multiplier_of (instrument leg) = Inr (fst (snd x))"
      using x(2) by (auto simp: combo_leg_facts_def Let_def res_simps split: if_splits)
    moreover have "fst x = cur" "fst (snd x) = ?k"
      using one_of [OF one(1), of "fst x"] one_of [OF one(2), of "fst (snd x)"] x(1) by (auto simp: cur)
    ultimately show ?thesis by simp
  qed
  moreover obtain n where "float_of_int (qty f) = Inr n" "v = fmul (fmul (fabs net) n) ?k"
    using v by (auto simp: float_notional_def res_simps)
  ultimately show thesis using that net by blast
qed


definition example_instrument :: instrument_facts where
  "example_instrument = \<lparr>code = ''US.AAPL'', classification = Some ''STOCK'',
     monetary_multiplier = None, contract_size = None, last_price = Some (Fin 50),
     bid_price = None, ask_price = None, currency = None, lot_size = None\<rparr>"

definition example_order :: order_facts where
  "example_order = \<lparr>order_type = ''NORMAL'', trd_side = ''BUY'', qty = 10,
     legs = [\<lparr>instrument = example_instrument, qty_ratio = 1\<rparr>], price = Some (Fin 50),
     aux_price = None, is_combo = False\<rparr>"

definition example_policy :: trading_policy where
  "example_policy = \<lparr>mode = SIMULATE, max_order_qty = Some (Fin 100),
     max_order_notional = [(''USD'', Fin 500)], real_acc_ids = {}, symbol_allowlist = {''US.AAPL''},
     max_daily_notional = [], require_approval = False\<rparr>"

lemma example_facts_ok: "facts_ok example_order"
  by (auto simp: facts_ok_def example_order_def example_instrument_def instrument_ok_def limit_ok_def
      isfinite_def)

lemma example_policy_ok: "policy_ok example_policy"
proof -
  have "exact_market_code ''US.AAPL''" "currency_code ''USD''" by code_simp+
  then show ?thesis by (auto simp: policy_ok_def example_policy_def caps_ok_def limit_ok_def)
qed

lemma example_values:
  "norm_text ''NORMAL'' = ''NORMAL''" "norm_text ''BUY'' = ''BUY''"
  "currency_for_code ''US.AAPL'' = Some ''USD''"
  by code_simp+

lemma example_reference: "reference_price example_order = Inr (Fin 50)"
  by (simp add: reference_price_def example_order_def example_values FIXED_LIMIT_TYPES_def)

lemma example_value: "assess_value example_order = Inr (Fin 500, ''USD'', ''order notional'')"
proof -
  have "float_notional (Fin 50) 10 (Fin 1) = Inr (Fin 500)"
    by (simp add: float_notional_def float_of_int_def fmul_def)
  then show ?thesis
    using example_reference
    by (simp add: assess_value_def assess_single_leg_def example_order_def example_instrument_def
        instrument_currency_def monetary_multiplier_of_def EQUITY_CLASSIFICATIONS_def example_values)
qed

lemma example_passes: "assess_order example_policy example_order = ok"
proof -
  have "largest_leg_qty example_order = 10"
    by (simp add: largest_leg_qty_def example_order_def)
  then show ?thesis
    by (simp add: assess_order_def check_notional_def example_value notional_cap_configured_def)
      (simp add: example_policy_def example_order_def example_instrument_def)
qed


text \<open>Rounding cannot let an order slip far past its cap: a single-leg order that passes, with a
  reference price and a multiplier in the normal range, has an exact notional (reference price times
  quantity times multiplier over the rationals) below the cap divided by \<open>(1 - 2^-53)^3\<close>.\<close>

theorem exact_notional_bound:
  assumes "assess_order p f = ok" and "policy_ok p" and "facts_ok f" and "\<not> is_combo f"
    and "max_order_notional p \<noteq> []"
    and "legs f = leg # rest" and "reference_price f = Inr (Fin r)"
    and "monetary_multiplier_of (instrument leg) = Inr (Fin k)"
    and "pow2 (- 1000) \<le> r" and "pow2 (- 10) \<le> k"
  shows "\<exists>cur cap. map_of (max_order_notional p) cur = Some (Fin cap)
    \<and> r * of_int (qty f) * k * (1 - ulp) ^ 3 \<le> cap"
proof -
  have "check_notional p f = ok"
    using assms(1,5) by (auto simp: assess_order_def notional_cap_configured_def res_simps split: if_splits)
  then obtain v cur l cap where v: "assess_value f = Inr (Fin v, cur, l)"
    and cap: "map_of (max_order_notional p) cur = Some (Fin cap)" "v \<le> cap"
    using check_notional_ok [OF _ _ assms(3)] assms(2) unfolding policy_ok_def by blast
  have "float_notional (Fin r) (qty f) (Fin k) = Inr (Fin v)"
    using v assms(4,6,7,8) by (auto simp: assess_value_def assess_single_leg_def res_simps)
  then have "r * of_int (qty f) * k * (1 - ulp) ^ 3 \<le> v"
    using assms(3,9,10) by (intro float_notional_lower) (auto simp: facts_ok_def)
  with cap show ?thesis using order_trans by blast
qed

theorem exact_notional_bound_witness:
  "\<exists>cur cap. map_of (max_order_notional example_policy) cur = Some (Fin cap)
    \<and> 50 * of_int (qty example_order) * 1 * (1 - ulp) ^ 3 \<le> cap"
proof -
  note h1 = example_passes
  have h4: "\<not> is_combo example_order" by (simp add: example_order_def)
  have h5: "max_order_notional example_policy \<noteq> []" by (simp add: example_policy_def)
  have h6: "legs example_order = \<lparr>instrument = example_instrument, qty_ratio = 1\<rparr> # []"
    by (simp add: example_order_def)
  have h7: "reference_price example_order = Inr (Fin 50)" by (rule example_reference)
  have h8: "monetary_multiplier_of (instrument \<lparr>instrument = example_instrument, qty_ratio = 1\<rparr>) = Inr (Fin 1)"
    by code_simp
  have h9: "pow2 (- 1000) \<le> 50" "pow2 (- 10) \<le> 1"
    using pow2_mono [of "- 1000" 0] by (simp_all add: pow2_def)
  show ?thesis
    by (rule exact_notional_bound [OF h1 example_policy_ok example_facts_ok h4 h5 h6 h7 h8 h9])
qed

theorem reference_price_conservative_witness:
  "\<exists>p. price example_order = Some p \<and> p \<le> Fin 50"
proof -
  have h1: "reference_price example_order = Inr (Fin 50)" by (rule example_reference)
  have h3: "legs example_order = \<lparr>instrument = example_instrument, qty_ratio = 1\<rparr> # []"
    by (simp add: example_order_def)
  have "norm_text (order_type example_order) \<in> FIXED_LIMIT_TYPES" by code_simp
  with reference_price_conservative [OF h1 example_facts_ok h3] show ?thesis by blast
qed

text \<open>The budget estimate is exact: the amount charged for a single-leg order is the product of the
  decimal reference price, the quantity and the decimal multiplier, without rounding, and is never negative.\<close>

theorem estimate_order_exact:
  assumes "estimate_order D f = Inr (amount, cur, label)" and "\<not> is_combo f"
    and "legs f = leg # rest" and "reference_price f = Inr r"
    and "monetary_multiplier_of (instrument leg) = Inr k"
    and "dec_finite (D r)" and "dec_finite (D k)"
  shows "dec_val amount = dec_val (D r) * of_int (qty f) * dec_val (D k) \<and> 0 \<le> dec_val amount"
proof -
  have pow10: "pow10 (a + b) = pow10 a * pow10 b" for a b
    by (simp add: pow10_def power_add [symmetric] field_simps nat_add_distrib [symmetric]
        power_diff [symmetric]) (auto simp: field_simps power_add [symmetric] nat_add_distrib [symmetric]
        intro!: arg_cong [where f = "\<lambda>n. 10 ^ n"])
  obtain n c e where r: "D r = Dec n c e" using assms(6) by (cases "D r") auto
  obtain n' c' e' where k: "D k = Dec n' c' e'" using assms(7) by (cases "D k") auto
  have amount: "amount = Dec ((n \<noteq> (qty f < 0)) \<noteq> n') (c * \<bar>qty f\<bar> * c') (e + 0 + e')"
    and nonneg: "0 \<le> dec_val amount"
    using assms(1-5) by (auto simp: estimate_order_def estimate_price_def res_simps r k dec_of_int_def
        split: if_splits)
  have "dec_val amount = dec_val (D r) * of_int (qty f) * dec_val (D k)"
    by (cases n; cases n'; cases "qty f < 0") (simp_all add: amount r k pow10)
  with nonneg show ?thesis by blast
qed

theorem estimate_order_exact_witness:
  "dec_val (Dec False 500 0) = dec_val (Dec False 50 0) * of_int (qty example_order) * dec_val (Dec False 1 0)"
proof -
  let ?D = "\<lambda>x. if x = Fin 50 then Dec False 50 0 else Dec False 1 0"
  have h1: "estimate_order ?D example_order = Inr (Dec False 500 0, ''USD'', ''submission notional'')"
    by code_simp
  have h2: "\<not> is_combo example_order" by (simp add: example_order_def)
  have h3: "legs example_order = \<lparr>instrument = example_instrument, qty_ratio = 1\<rparr> # []"
    by (simp add: example_order_def)
  have h4: "reference_price example_order = Inr (Fin 50)" by (rule example_reference)
  have h5: "monetary_multiplier_of (instrument \<lparr>instrument = example_instrument, qty_ratio = 1\<rparr>) = Inr (Fin 1)"
    by code_simp
  have h6: "dec_finite (?D (Fin 50))" "dec_finite (?D (Fin 1))" by simp_all
  from estimate_order_exact [OF h1 h2 h3 h4 h5 h6] show ?thesis by simp
qed

text \<open>A combo of two options of which only one reports a contract size is refused with a \<open>TypeError\<close>
  from the composition of the message, not with the \<open>TradingPolicyError\<close> that the assessment
  documents for every refusal.\<close>

theorem missing_contract_size_type_error:
  "assess_order (example_policy\<lparr>symbol_allowlist := {}\<rparr>)
     (\<lparr>order_type = ''NORMAL'', trd_side = ''BUY'', qty = 1,
      legs = map (\<lambda>size. \<lparr>instrument = example_instrument\<lparr>classification := Some ''DRVT'',
        monetary_multiplier := Some (Fin 100), contract_size := size\<rparr>, qty_ratio = 1\<rparr>)
        [Some (Fin 100), None],
      price = Some (Fin 1), aux_price = None, is_combo = True\<rparr>)
   = raise TypeError ''None is not orderable''"
  by code_simp

text \<open>An account list holding a superscript digit raises the bare \<open>ValueError\<close> of \<open>int\<close>: the
  digit passes \<open>isdigit\<close>, and the documented \<open>TradingModeConfigError\<close> is not raised.\<close>

theorem superscript_account_value_error:
  "parse_real_acc_ids [char_of (178 :: nat)] = raise ValueError ''int''"
  by code_simp

end
