(* ===== verification/Execution_Store.thy ===== *)
theory Execution_Store
  imports Py_Values
begin

text \<open>
  \<open>services/execution_store.py\<close>: the durable journal of order mutations. A journal is its tables,
  lists of rows in \<open>rowid\<close> order; the store is a process that holds the journal lock, with the
  admission epoch, the reviewed flag and the sticky storage failure. Every method is a function of
  the store that returns its result and the store after it.

  SQLite is modelled by what the source uses of it: a transaction commits as a whole or leaves the
  tables unchanged, a violated constraint or a failing disk is an \<open>sqlite3.Error\<close>, which the
  connection turns into a sticky \<open>ExecutionStoreError\<close>. Whether the disk works is the argument \<open>io\<close>
  of each method; the clock, the fresh identifiers of \<open>uuid4\<close> and the SHA-256 digest are arguments
  too. JSON columns hold the value (\<open>Py_Values\<close>).
\<close>

subsection \<open>Tables\<close>

datatype op_state =
    ADMITTED | DISPATCHING | ACKNOWLEDGED | UNKNOWN_OUTCOME | REFUSED | RECONCILED | TERMINAL_ACCOUNTED

datatype op_kind = PLACE | PLACE_COMBO | MODIFY | CANCEL

record operation =
  operation_id :: string
  admission_epoch :: string
  account :: string
  kind :: op_kind
  canonical :: string
  fingerprint :: string
  request :: pydict
  state :: op_state
  disposition :: string
  merged_request :: "pydict option"
  receipt :: "pydict option"
  broker_order_id :: "string option"
  broker_status :: "string option"
  evidence :: "pyval option"
  error :: "string option"
  marker :: bool
  modification_observed :: bool
  created_at :: int
  updated_at :: int
  order_tag :: "string option"
  recovery_disposition :: "string option"
  next_recovery_at :: rat

record recovery_check =
  check_operation :: string
  started_at :: rat
  completed_at :: rat
  check_outcome :: string
  check_details :: pydict

record recovery_audit =
  audit_operation :: string
  operator_id :: string
  audit_resolution :: string
  audit_reason :: string
  evidence_reference :: string
  audit_facts :: pydict
  recovery_epoch :: string
  observed_state :: op_state
  previous_state :: op_state

record journal =
  epochs :: "string list"
  operations :: "operation list"
  reviews :: "(string \<times> string) list"
  audits :: "recovery_audit list"
  checks :: "recovery_check list"

record store =
  db :: journal
  environment :: string
  epoch :: string
  reviewed :: bool
  failed :: bool
  closed :: bool

definition ASSUMED_ABSENT :: string where
  "ASSUMED_ABSENT = ''ASSUMED_NOT_PLACED_AFTER_RETRIES''"

subsection \<open>Connections and transactions\<close>

text \<open>The body of a transaction: done with a result and new tables, ended by a Python exception, or
  by an \<open>sqlite3.Error\<close> such as a violated constraint.\<close>

datatype 'a body = Done 'a journal | Raised exn | SqlError

text \<open>\<open>_connection\<close>: refused when closed or failed; a storage error is recorded and raised.\<close>

definition connection :: "bool \<Rightarrow> store \<Rightarrow> unit res \<times> store" where
  "connection io s =
     (if closed s then (raise ExecutionStoreError ''closed'', s)
      else if failed s then (raise ExecutionStoreError ''STORAGE_FAILED'', s)
      else if \<not> io then (raise ExecutionStoreError ''STORAGE_FAILED'', s\<lparr>failed := True\<rparr>)
      else (ok, s))"

text \<open>\<open>_transaction\<close>: commit the body's tables, or roll back.\<close>

definition transaction :: "bool \<Rightarrow> store \<Rightarrow> (journal \<Rightarrow> 'a body) \<Rightarrow> 'a res \<times> store" where
  "transaction io s f =
     (case connection io s of
        (Inl e, s') \<Rightarrow> (Inl e, s')
      | (Inr _, s') \<Rightarrow>
         (case f (db s') of
            Done x d \<Rightarrow> (Inr x, s'\<lparr>db := d\<rparr>)
          | Raised e \<Rightarrow> (Inl e, s')
          | SqlError \<Rightarrow> (raise ExecutionStoreError ''STORAGE_FAILED'', s'\<lparr>failed := True\<rparr>)))"

definition close :: "store \<Rightarrow> store" where
  "close s = s\<lparr>closed := True\<rparr>"

subsection \<open>Rows\<close>

text \<open>The joined row that \<open>_row\<close> returns.\<close>

record row_view =
  row :: operation
  accounted_facts :: "pydict option"
  recovery_pending :: bool
  recovery_checks :: "recovery_check list"

definition row_of :: "journal \<Rightarrow> string \<Rightarrow> row_view option" where
  "row_of d oid = (case find_row operation_id oid (operations d) of
     None \<Rightarrow> None
   | Some r \<Rightarrow> Some
      \<lparr>row = r,
       accounted_facts = (case filter (\<lambda>a. audit_operation a = oid) (audits d) of
          [] \<Rightarrow> None | as \<Rightarrow> Some (audit_facts (last as))),
       recovery_pending = (\<exists>x \<in> set (reviews d). fst x = oid),
       recovery_checks = filter (\<lambda>c. check_operation c = oid) (checks d)\<rparr>)"

definition lookup :: "bool \<Rightarrow> store \<Rightarrow> string \<Rightarrow> row_view option res \<times> store" where
  "lookup io s oid = transaction io s (\<lambda>d. Done (row_of d oid) d)"

text \<open>\<open>int(request["order_id"]) == int(order_id)\<close> on decimal identifiers.\<close>

definition targets_order :: "string \<Rightarrow> operation \<Rightarrow> bool res" where
  "targets_order order_id r = (case map_of (request r) ''order_id'' of
     None \<Rightarrow> raise KeyError ''order_id''
   | Some v \<Rightarrow> bindR (int_of_text (py_str v)) (\<lambda>a. bindR (int_of_text order_id) (\<lambda>b. Inr (a = b))))"

fun filter_targets :: "string \<Rightarrow> row_view list \<Rightarrow> row_view list res" where
  "filter_targets order_id [] = Inr []"
| "filter_targets order_id (v # vs) =
     bindR (targets_order order_id (row v)) (\<lambda>b.
     bindR (filter_targets order_id vs) (\<lambda>rest. Inr (if b then v # rest else rest)))"

definition unobserved_modifications ::
    "bool \<Rightarrow> store \<Rightarrow> int \<Rightarrow> string \<Rightarrow> row_view list res \<times> store" where
  "unobserved_modifications io s acc order_id =
     transaction io s (\<lambda>d.
       let found = filter (\<lambda>r. account r = int_text acc \<and> kind r = MODIFY \<and> state r = ACKNOWLEDGED
                               \<and> \<not> modification_observed r) (operations d);
           rows = List.map_filter (\<lambda>r. row_of d (operation_id r)) found in
       case filter_targets order_id rows of Inl e \<Rightarrow> Raised e | Inr vs \<Rightarrow> Done vs d)"

subsection \<open>Admission, dispatch and outcome\<close>

definition new_operation ::
    "string \<Rightarrow> string \<Rightarrow> int \<Rightarrow> op_kind \<Rightarrow> string \<Rightarrow> string \<Rightarrow> pydict \<Rightarrow> string option \<Rightarrow> int \<Rightarrow> operation" where
  "new_operation oid ep acc k canon digest req tag now =
     \<lparr>operation_id = oid, admission_epoch = ep, account = int_text acc, kind = k, canonical = canon,
      fingerprint = digest, request = req, state = ADMITTED, disposition = ''PENDING_CHECKS'',
      merged_request = None, receipt = None, broker_order_id = None, broker_status = None,
      evidence = None, error = None, marker = False, modification_observed = False,
      created_at = now, updated_at = now, order_tag = tag, recovery_disposition = None,
      next_recovery_at = 0\<rparr>"

text \<open>The constraints of the insertion: the account is not 0, the epoch is known, the order tag is
  unique.\<close>

definition insertion_allowed :: "journal \<Rightarrow> operation \<Rightarrow> bool" where
  "insertion_allowed d r \<longleftrightarrow> account r \<noteq> ''0'' \<and> admission_epoch r \<in> set (epochs d)
     \<and> (order_tag r \<noteq> None \<longrightarrow> order_tag r \<notin> order_tag ` set (operations d))"

definition admit_body ::
    "(string \<Rightarrow> string) \<Rightarrow> store \<Rightarrow> string \<Rightarrow> string \<Rightarrow> int \<Rightarrow> op_kind \<Rightarrow> string \<Rightarrow> pydict \<Rightarrow> string \<Rightarrow> int
      \<Rightarrow> journal \<Rightarrow> (row_view \<times> bool) body" where
  "admit_body sha256 s oid ep acc k canon req uuid now d =
     (case row_of d oid of
        Some existing \<Rightarrow> Done (existing, False) d
      | None \<Rightarrow>
         if ep \<noteq> epoch s then Raised (Exn ExecutionConflict ''non-current-epoch token'')
         else if \<not> reviewed s \<or> reviews d \<noteq> [] then Raised (Exn ExecutionConflict ''review outstanding'')
         else (case json_check (as_dict req) of
                 Inl e \<Rightarrow> Raised e
               | Inr _ \<Rightarrow>
                  let r = new_operation oid ep acc k canon (sha256 canon) req
                            (if k \<in> {PLACE, PLACE_COMBO} then Some uuid else None) now;
                      d' = d\<lparr>operations := operations d @ [r]\<rparr> in
                  if \<not> insertion_allowed d r then SqlError
                  else (case row_of d' oid of
                          None \<Rightarrow> Raised (Exn AssertionError ''row'')
                        | Some v \<Rightarrow> Done (v, True) d')))"

definition admit ::
    "(string \<Rightarrow> string) \<Rightarrow> bool \<Rightarrow> store \<Rightarrow> string \<Rightarrow> string \<Rightarrow> int \<Rightarrow> op_kind \<Rightarrow> string \<Rightarrow> pydict \<Rightarrow> string \<Rightarrow> int
      \<Rightarrow> (row_view \<times> bool) res \<times> store" where
  "admit sha256 io s oid ep acc k canon req uuid now =
     transaction io s (admit_body sha256 s oid ep acc k canon req uuid now)"

definition dispatch_row :: "pydict \<Rightarrow> operation \<Rightarrow> operation" where
  "dispatch_row merged r =
     r\<lparr>state := DISPATCHING, disposition := ''IN_FLIGHT'', marker := True, merged_request := Some merged\<rparr>"

definition mark_dispatch_body :: "string \<Rightarrow> pydict \<Rightarrow> journal \<Rightarrow> unit body" where
  "mark_dispatch_body oid merged d =
     (case json_check (as_dict merged) of
        Inl e \<Rightarrow> Raised e
      | Inr _ \<Rightarrow>
         let hit = (\<lambda>r. operation_id r = oid \<and> state r = ADMITTED) in
         if length (filter hit (operations d)) \<noteq> 1
         then Raised (Exn ExecutionConflict ''not awaiting dispatch'')
         else Done () (d\<lparr>operations := update_rows hit (dispatch_row merged) (operations d)\<rparr>))"

definition mark_dispatch :: "bool \<Rightarrow> store \<Rightarrow> string \<Rightarrow> pydict \<Rightarrow> unit res \<times> store" where
  "mark_dispatch io s oid merged = transaction io s (mark_dispatch_body oid merged)"

text \<open>\<open>COALESCE(?, column)\<close>.\<close>

definition coalesce :: "'a option \<Rightarrow> 'a option \<Rightarrow> 'a option" where
  "coalesce x y = (case x of None \<Rightarrow> y | Some v \<Rightarrow> Some v)"

text \<open>\<open>str(receipt[key]) if receipt and receipt.get(key) else None\<close>.\<close>

definition receipt_text :: "pydict option \<Rightarrow> string \<Rightarrow> string option" where
  "receipt_text rc key = (case rc of None \<Rightarrow> None
     | Some d \<Rightarrow> (case map_of d key of None \<Rightarrow> None
        | Some v \<Rightarrow> if truthy v then Some (py_str v) else None))"

definition outcome_row ::
    "op_state \<Rightarrow> string \<Rightarrow> pydict option \<Rightarrow> string option \<Rightarrow> int \<Rightarrow> operation \<Rightarrow> operation" where
  "outcome_row st disp rc err now r =
     r\<lparr>state := st, disposition := disp, receipt := rc,
       broker_order_id := coalesce (receipt_text rc ''order_id'') (broker_order_id r),
       broker_status := coalesce (receipt_text rc ''order_status'') (broker_status r),
       error := err, updated_at := now\<rparr>"

definition observe_row :: "operation \<Rightarrow> operation" where
  "observe_row r = r\<lparr>modification_observed := True\<rparr>"

definition outcome_body ::
    "string \<Rightarrow> op_state \<Rightarrow> string \<Rightarrow> pydict option \<Rightarrow> string option \<Rightarrow> string option \<Rightarrow> string list \<Rightarrow> int
      \<Rightarrow> journal \<Rightarrow> unit body" where
  "outcome_body oid st disp rc err reason observed now d =
     (let ops = update_rows (\<lambda>r. operation_id r = oid) (outcome_row st disp rc err now) (operations d);
          reason' = (case reason of None \<Rightarrow> [] | Some t \<Rightarrow> t);
          known = oid \<in> operation_id ` set (operations d);
          revs = (if reason' \<noteq> [] then insert_ignore (oid, reason') (reviews d) else reviews d);
          ops' = (if st = ACKNOWLEDGED then
                    update_rows (\<lambda>r. operation_id r \<in> set observed \<and> kind r = MODIFY \<and> state r = ACKNOWLEDGED)
                      observe_row ops
                  else ops) in
      if reason' \<noteq> [] \<and> \<not> known then SqlError
      else Done () (d\<lparr>operations := ops', reviews := revs\<rparr>))"

definition outcome ::
    "bool \<Rightarrow> store \<Rightarrow> string \<Rightarrow> op_state \<Rightarrow> string \<Rightarrow> pydict option \<Rightarrow> string option \<Rightarrow> string option
      \<Rightarrow> string list \<Rightarrow> int \<Rightarrow> unit res \<times> store" where
  "outcome io s oid st disp rc err reason observed now =
     (case (case rc of None \<Rightarrow> ok | Some d \<Rightarrow> json_check (as_dict d)) of
        Inl e \<Rightarrow> (Inl e, s)
      | Inr _ \<Rightarrow> transaction io s (outcome_body oid st disp rc err reason observed now))"

subsection \<open>Recovery\<close>

definition awaiting_startup_review :: "operation \<Rightarrow> bool" where
  "awaiting_startup_review r \<longleftrightarrow>
     state r \<in> {ADMITTED, UNKNOWN_OUTCOME} \<and> recovery_disposition r = None"

definition add_startup_reviews :: "journal \<Rightarrow> journal" where
  "add_startup_reviews d = d\<lparr>reviews := insert_all_ignore
     (map (\<lambda>r. (operation_id r, ''STARTUP_REVIEW'')) (filter awaiting_startup_review (operations d)))
     (reviews d)\<rparr>"

definition recovery_due :: "journal \<Rightarrow> rat \<Rightarrow> operation \<Rightarrow> bool" where
  "recovery_due d due_at r \<longleftrightarrow> next_recovery_at r \<le> due_at
     \<and> (operation_id r \<in> fst ` set (reviews d) \<or> recovery_disposition r = Some ASSUMED_ABSENT)"

definition recovery_rows :: "bool \<Rightarrow> store \<Rightarrow> rat \<Rightarrow> row_view list res \<times> store" where
  "recovery_rows io s due_at =
     transaction io s (\<lambda>d. Done
       (List.map_filter (\<lambda>r. row_of d (operation_id r))
         (sort_key next_recovery_at (sort_key created_at (filter (recovery_due d due_at) (operations d))))) d)"

definition block_late_order :: "bool \<Rightarrow> store \<Rightarrow> string \<Rightarrow> unit res \<times> store" where
  "block_late_order io s oid =
     transaction io s (\<lambda>d.
       if oid \<notin> operation_id ` set (operations d) then SqlError
       else Done () (d\<lparr>reviews := insert_ignore (oid, ''LATE_ORDER_FOUND'') (reviews d)\<rparr>))"

record recovery_context =
  ctx_operation :: string
  ctx_env :: string
  ctx_tag :: "string option"
  ctx_disposition :: "string option"
  ctx_pending :: bool
  ctx_order_id :: "string option"
  ctx_status :: "string option"
  ctx_facts :: "pydict option"
  ctx_negative_checks :: nat
  ctx_required_checks :: "nat option"
  ctx_absence_allowed :: bool
  ctx_last_check :: "(rat \<times> rat \<times> string) option"
  ctx_next_check_at :: "rat option"
  ctx_replay_allowed :: bool
  ctx_absence_proven :: bool

definition recovery_context_of :: "store \<Rightarrow> row_view \<Rightarrow> recovery_context" where
  "recovery_context_of s v =
     (let r = row v; cs = recovery_checks v in
      \<lparr>ctx_operation = operation_id r, ctx_env = environment s, ctx_tag = order_tag r,
       ctx_disposition = recovery_disposition r, ctx_pending = recovery_pending v,
       ctx_order_id = broker_order_id r, ctx_status = broker_status r,
       ctx_facts = accounted_facts v,
       ctx_negative_checks = length (filter (\<lambda>c. check_outcome c = ''NOT_FOUND'') cs),
       ctx_required_checks = (if environment s = ''SIMULATE'' then Some 5 else None),
       ctx_absence_allowed = (environment s = ''SIMULATE''),
       ctx_last_check = (if cs = [] then None
          else Some (started_at (last cs), completed_at (last cs), check_outcome (last cs))),
       ctx_next_check_at = (if recovery_pending v \<or> recovery_disposition r = Some ASSUMED_ABSENT
          then Some (next_recovery_at r) else None),
       ctx_replay_allowed = False, ctx_absence_proven = False\<rparr>)"

text \<open>The evidence an assumed absence needs: a tagged placement with no known broker order, no
  earlier correlated sighting and five negative checks, the one being recorded included.\<close>

definition truthy_text :: "string option \<Rightarrow> bool" where
  "truthy_text t = (t \<noteq> None \<and> t \<noteq> Some [])"

definition absence_evidence :: "row_view \<Rightarrow> nat \<Rightarrow> bool" where
  "absence_evidence v negatives \<longleftrightarrow>
     kind (row v) = PLACE \<and> state (row v) \<in> {ADMITTED, UNKNOWN_OUTCOME}
     \<and> truthy_text (order_tag (row v)) \<and> \<not> truthy_text (broker_order_id (row v))
     \<and> \<not> (\<exists>c \<in> set (recovery_checks v). truthy (dict_get (check_details c) ''correlated_order_seen'' PNone))
     \<and> 5 \<le> negatives \<and> recovery_disposition (row v) = None"

definition BROKER_RESOLUTIONS :: "string set" where
  "BROKER_RESOLUTIONS = {''BROKER_CONFIRMED'', ''CURRENT_STATE_ACCOUNTED'',
     ''LATE_BROKER_ORDER_FOUND'', ''TERMINAL_ACCOUNTED''}"

text \<open>A dictionary argument that is \<open>None\<close> or empty is falsy.\<close>

definition given :: "pydict option \<Rightarrow> bool" where
  "given x = (x \<noteq> None \<and> x \<noteq> Some [])"

definition resolve ::
    "string \<Rightarrow> row_view \<Rightarrow> nat \<Rightarrow> string \<Rightarrow> pydict option \<Rightarrow> pydict option \<Rightarrow> (op_state \<times> string) res" where
  "resolve env v negatives resolution rc facts =
     (if resolution = ASSUMED_ABSENT then
        (if env \<noteq> ''SIMULATE'' then raise ExecutionConflict ''REAL recovery cannot assume absence''
         else if \<not> absence_evidence v negatives then raise ExecutionConflict ''five tagged placement negatives''
         else Inr (UNKNOWN_OUTCOME, ''POSSIBLY_SENT''))
      else if resolution = ''NOT_DISPATCHED'' then
        (if env \<noteq> ''REAL'' \<or> state (row v) \<noteq> ADMITTED \<or> marker (row v)
         then raise ExecutionConflict ''unmarked REAL admission''
         else Inr (REFUSED, ''NOT_SENT''))
      else if resolution \<in> BROKER_RESOLUTIONS then
        (if \<not> given rc \<or> \<not> given facts then raise ExecutionConflict ''order and position evidence''
         else Inr (if resolution = ''TERMINAL_ACCOUNTED'' then TERMINAL_ACCOUNTED else RECONCILED,
                   ''BROKER_ACCOUNTED''))
      else raise ExecutionConflict ''unsupported disposition'')"

definition evidence_reference_text :: "operation \<Rightarrow> pydict option \<Rightarrow> string res" where
  "evidence_reference_text r rc =
     (if given rc then (case map_of (the rc) ''order_id'' of
         None \<Rightarrow> raise KeyError ''order_id'' | Some v \<Rightarrow> Inr (''broker-order:'' @ py_str v))
      else if truthy_text (order_tag r) then Inr (''order-tag:'' @ the (order_tag r))
      else Inr (''operation:'' @ operation_id r))"

text \<open>\<open>str(receipt[key]) if receipt else None\<close>.\<close>

definition receipt_field :: "pydict option \<Rightarrow> string \<Rightarrow> string option res" where
  "receipt_field rc key =
     (if given rc then (case map_of (the rc) key of
         None \<Rightarrow> raise KeyError key | Some v \<Rightarrow> Inr (Some (py_str v)))
      else Inr None)"

definition recovery_row ::
    "op_state \<Rightarrow> string \<Rightarrow> string \<Rightarrow> pydict option \<Rightarrow> string option \<Rightarrow> string option \<Rightarrow> operation \<Rightarrow> operation" where
  "recovery_row st disp resolution rc oid_text status_text r =
     r\<lparr>state := st, disposition := disp, recovery_disposition := Some resolution,
       receipt := (if given rc then rc else receipt r),
       broker_order_id := coalesce oid_text (broker_order_id r),
       broker_status := coalesce status_text (broker_status r),
       modification_observed := (kind r = MODIFY)\<rparr>"

text \<open>The first half of \<open>record_recovery\<close>: the check row and the next check time.\<close>

definition record_check ::
    "string \<Rightarrow> rat \<Rightarrow> rat \<Rightarrow> string \<Rightarrow> pydict \<Rightarrow> rat \<Rightarrow> int \<Rightarrow> journal \<Rightarrow> journal" where
  "record_check oid started completed outc details next_at now d =
     d\<lparr>checks := checks d @ [\<lparr>check_operation = oid, started_at = started, completed_at = completed,
          check_outcome = outc, check_details = details\<rparr>],
       operations := update_rows (\<lambda>r. operation_id r = oid)
         (\<lambda>r. r\<lparr>evidence := Some (dict_get details ''orders'' (PList [] ''[]'')),
               next_recovery_at := next_at, updated_at := now\<rparr>) (operations d)\<rparr>"

text \<open>The second half: disposition, audit and gate release.\<close>

definition apply_resolution ::
    "string \<Rightarrow> string \<Rightarrow> row_view \<Rightarrow> string \<Rightarrow> string \<Rightarrow> pydict \<Rightarrow> op_state \<Rightarrow> pydict option \<Rightarrow> pydict option
      \<Rightarrow> journal \<Rightarrow> journal res" where
  "apply_resolution env ep v resolution outc details observed rc facts d =
     (let r = row v; oid = operation_id r;
          negatives = length (filter (\<lambda>c. check_operation c = oid \<and> check_outcome c = ''NOT_FOUND'') (checks d)) in
      bindR (resolve env v negatives resolution rc facts) (\<lambda>(st, disp).
      bindR (evidence_reference_text r rc) (\<lambda>ref.
      bindR (json_check (as_dict (if given facts then the facts else []))) (\<lambda>_.
      bindR (if given rc then json_check (as_dict (the rc)) else ok) (\<lambda>_.
      bindR (receipt_field rc ''order_id'') (\<lambda>oid_text.
      bindR (receipt_field rc ''order_status'') (\<lambda>status_text.
        Inr (d\<lparr>audits := audits d @ [\<lparr>audit_operation = oid, operator_id = ''system'',
                 audit_resolution = resolution,
                 audit_reason = py_str (dict_get details ''reason'' (PStr outc)),
                 evidence_reference = ref,
                 audit_facts = (if given facts then the facts else []),
                 recovery_epoch = ep, observed_state = observed, previous_state = state r\<rparr>],
               operations := update_rows (\<lambda>x. operation_id x = oid)
                 (recovery_row st disp resolution rc oid_text status_text) (operations d),
               reviews := filter (\<lambda>x. fst x \<noteq> oid) (reviews d)\<rparr>))))))))"

definition record_recovery_body ::
    "string \<Rightarrow> string \<Rightarrow> string \<Rightarrow> op_state \<Rightarrow> rat \<Rightarrow> rat \<Rightarrow> string \<Rightarrow> pydict \<Rightarrow> rat \<Rightarrow> string option
      \<Rightarrow> pydict option \<Rightarrow> pydict option \<Rightarrow> int \<Rightarrow> journal \<Rightarrow> unit body" where
  "record_recovery_body env ep oid observed started completed outc details next_at resolution rc facts now d =
     (case row_of d oid of
        None \<Rightarrow> Raised (Exn ExecutionConflict ''stale operation state'')
      | Some v \<Rightarrow>
         if state (row v) \<noteq> observed then Raised (Exn ExecutionConflict ''stale operation state'')
         else (case json_check (as_dict details) of
                 Inl e \<Rightarrow> Raised e
               | Inr _ \<Rightarrow>
                  let d1 = record_check oid started completed outc details next_at now d in
                  case resolution of
                    None \<Rightarrow> Done () d1
                  | Some res \<Rightarrow>
                     (case apply_resolution env ep v res outc details observed rc facts d1 of
                        Inl e \<Rightarrow> Raised e
                      | Inr d2 \<Rightarrow> Done () d2)))"

definition record_recovery ::
    "bool \<Rightarrow> store \<Rightarrow> string \<Rightarrow> op_state \<Rightarrow> rat \<Rightarrow> rat \<Rightarrow> string \<Rightarrow> pydict \<Rightarrow> rat \<Rightarrow> string option
      \<Rightarrow> pydict option \<Rightarrow> pydict option \<Rightarrow> int \<Rightarrow> unit res \<times> store" where
  "record_recovery io s oid observed started completed outc details next_at resolution rc facts now =
     transaction io s (record_recovery_body (environment s) (epoch s) oid observed started completed
       outc details next_at resolution rc facts now)"

subsection \<open>Health\<close>

datatype health_state = JOURNAL_BLOCKED | REVIEW_PENDING | READY

record health_report =
  health_state :: health_state
  health_epoch :: string
  in_flight :: nat
  awaiting_review :: nat
  blocking :: nat
  blocking_reasons :: "string list"
  pending_operation_ids :: "string list"
  recovery_updates :: "recovery_context list"
  review_outstanding :: bool

text \<open>\<open>dict.fromkeys(xs)\<close> keeps the first occurrence of each key.\<close>

definition fromkeys :: "'a list \<Rightarrow> 'a list" where
  "fromkeys xs = rev (remdups (rev xs))"

definition count_distinct :: "'a list \<Rightarrow> nat" where
  "count_distinct xs = length (remdups xs)"

definition healthy_report :: "store \<Rightarrow> health_report" where
  "healthy_report s =
     (let d = db s; revs = reviews d;
          pending = sorted_set (map fst revs);
          recent = take 20 (map operation_id (sort_key (\<lambda>r. - updated_at r)
             (rev (filter (\<lambda>r. recovery_disposition r \<noteq> None) (operations d)))));
          blocks = filter (\<lambda>x. snd x \<noteq> ''STARTUP_REVIEW'') revs;
          outstanding = (\<not> reviewed s \<or> revs \<noteq> []) in
      \<lparr>health_state = (if blocks \<noteq> [] then JOURNAL_BLOCKED else if outstanding then REVIEW_PENDING else READY),
       health_epoch = epoch s,
       in_flight = length (filter (\<lambda>r. state r = DISPATCHING) (operations d)),
       awaiting_review = count_distinct (map fst (filter (\<lambda>x. snd x = ''STARTUP_REVIEW'') revs)),
       blocking = count_distinct (map fst blocks),
       blocking_reasons = sorted_set (map snd blocks),
       pending_operation_ids = pending,
       recovery_updates = map (recovery_context_of s)
         (List.map_filter (row_of d) (fromkeys (pending @ recent))),
       review_outstanding = outstanding\<rparr>)"

definition failed_report :: "store \<Rightarrow> health_report" where
  "failed_report s =
     \<lparr>health_state = JOURNAL_BLOCKED, health_epoch = epoch s, in_flight = 0, awaiting_review = 0,
      blocking = 0, blocking_reasons = [''STORAGE_FAILED''], pending_operation_ids = [],
      recovery_updates = [], review_outstanding = \<not> reviewed s\<rparr>"

text \<open>\<open>health\<close>: \<open>writable\<close> is the outcome of the two \<open>os.access\<close> probes.\<close>

definition health :: "bool \<Rightarrow> bool \<Rightarrow> store \<Rightarrow> health_report \<times> store" where
  "health writable io s =
     (if \<not> writable then (failed_report s, s\<lparr>failed := True\<rparr>)
      else case connection io s of
        (Inl _, s') \<Rightarrow> (failed_report s', s')
      | (Inr _, s') \<Rightarrow> (healthy_report s', s'))"

definition review :: "bool \<Rightarrow> bool \<Rightarrow> store \<Rightarrow> health_report res \<times> store" where
  "review writable io s =
     (case transaction io s (\<lambda>d. Done () (add_startup_reviews d)) of
        (Inl e, s') \<Rightarrow> (Inl e, s')
      | (Inr _, s') \<Rightarrow> (case health writable io (s'\<lparr>reviewed := True\<rparr>) of (h, s'') \<Rightarrow> (Inr h, s'')))"

definition require_ready :: "bool \<Rightarrow> bool \<Rightarrow> store \<Rightarrow> unit res \<times> store" where
  "require_ready writable io s = (case health writable io s of (h, s') \<Rightarrow>
     (if health_state h \<noteq> READY then raise ExecutionConflict ''not ready'' else ok, s'))"

subsection \<open>Opening a journal\<close>

text \<open>The journal file: whether it exists, its schema version, the rows of its metadata table, the
  outcome of the integrity check, and its tables.\<close>

record journal_file =
  present :: bool
  user_version :: int
  metadata :: "string list"
  intact :: bool
  contents :: journal

definition empty_journal :: journal where
  "empty_journal = \<lparr>epochs = [], operations = [], reviews = [], audits = [], checks = []\<rparr>"

text \<open>The upgrade to schema 3 adds the columns of later versions with their defaults.\<close>

definition migrate :: "int \<Rightarrow> journal \<Rightarrow> journal" where
  "migrate version d =
     (if version < 3 then
        d\<lparr>operations := map (\<lambda>r. r\<lparr>modification_observed := (version \<noteq> 1 \<and> modification_observed r),
             order_tag := None, recovery_disposition := None, next_recovery_at := 0\<rparr>) (operations d),
          checks := []\<rparr>
      else d)"

text \<open>The startup transaction: a new epoch, and review requirements for every operation whose
  outcome this process cannot know.\<close>

definition interrupted_row :: "operation \<Rightarrow> operation" where
  "interrupted_row r = r\<lparr>state := UNKNOWN_OUTCOME, disposition := ''POSSIBLY_SENT'',
     error := Some ''Recovered dispatch without durable outcome''\<rparr>"

definition startup :: "string \<Rightarrow> journal \<Rightarrow> journal" where
  "startup ep d =
     (let revs = insert_all_ignore
            (map (\<lambda>r. (operation_id r, ''RECOVERED_DISPATCH''))
              (filter (\<lambda>r. state r = DISPATCHING) (operations d))) (reviews d);
          ops = update_rows (\<lambda>r. state r = DISPATCHING) interrupted_row (operations d) in
      add_startup_reviews (d\<lparr>epochs := epochs d @ [ep], operations := ops, reviews := revs\<rparr>))"

text \<open>\<open>ExecutionStore.__init__\<close>. \<open>locked\<close> says that another process holds the lock, \<open>io\<close> that the disk
  works; \<open>ep\<close> is the fresh epoch.\<close>

definition open_store ::
    "string \<Rightarrow> bool \<Rightarrow> int \<Rightarrow> bool \<Rightarrow> bool \<Rightarrow> string \<Rightarrow> journal_file \<Rightarrow> store res" where
  "open_store env create lock_wait_ms locked io ep f =
     (if env \<notin> {''SIMULATE'', ''REAL''} then raise ValueError ''journal environment''
      else if \<not> (1 \<le> lock_wait_ms \<and> lock_wait_ms \<le> 60000) then raise ValueError ''journal lock wait''
      else if locked then raise ExecutionStoreError ''another process holds the store''
      else if \<not> present f \<and> \<not> create then raise ExecutionStoreError ''missing journal''
      else if \<not> io then raise ExecutionStoreError ''STORAGE_FAILED''
      else
        let version = (if present f then user_version f else 2);
            meta = (if present f then metadata f else [env]);
            tables = (if present f then contents f else empty_journal) in
        if version \<notin> {1, 2, 3} then raise ExecutionStoreError ''unsupported schema''
        else if meta \<noteq> [env] then raise ExecutionStoreError ''environment mismatch''
        else if present f \<and> \<not> intact f then raise ExecutionStoreError ''integrity''
        else if ep \<in> set (epochs tables) then raise ExecutionStoreError ''STORAGE_FAILED''
        else Inr \<lparr>db = startup ep (migrate version tables), environment = env, epoch = ep,
                  reviewed = False, failed = False, closed = False\<rparr>)"


subsection \<open>The invariant of a journal\<close>

definition ids :: "journal \<Rightarrow> string set" where
  "ids d = operation_id ` set (operations d)"

definition negatives_of :: "journal \<Rightarrow> string \<Rightarrow> nat" where
  "negatives_of d oid =
     length (filter (\<lambda>c. check_operation c = oid \<and> check_outcome c = ''NOT_FOUND'') (checks d))"

text \<open>The constraints SQLite enforces: keys are unique and references are known.\<close>

definition keys_ok :: "journal \<Rightarrow> bool" where
  "keys_ok d \<longleftrightarrow> distinct (map operation_id (operations d)) \<and> distinct (epochs d)
     \<and> admission_epoch ` set (operations d) \<subseteq> set (epochs d)
     \<and> distinct (List.map_filter order_tag (operations d)) \<and> distinct (reviews d)
     \<and> fst ` set (reviews d) \<subseteq> ids d \<and> check_operation ` set (checks d) \<subseteq> ids d
     \<and> audit_operation ` set (audits d) \<subseteq> ids d"

text \<open>What the operations keep of a row: an operation that awaits dispatch is unmarked and
  unresolved, one in flight is marked, and an assumed absence has its evidence.\<close>

definition row_ok :: "string \<Rightarrow> journal \<Rightarrow> operation \<Rightarrow> bool" where
  "row_ok env d r \<longleftrightarrow>
     (state r = ADMITTED \<longrightarrow> \<not> marker r \<and> recovery_disposition r = None)
     \<and> (state r = DISPATCHING \<longrightarrow> marker r)
     \<and> (recovery_disposition r = Some ASSUMED_ABSENT \<longrightarrow>
          env = ''SIMULATE'' \<and> kind r = PLACE \<and> order_tag r \<noteq> None
          \<and> 5 \<le> negatives_of d (operation_id r))"

text \<open>An unknown outcome that no recovery has resolved blocks admission.\<close>

definition unknown_blocked :: "journal \<Rightarrow> bool" where
  "unknown_blocked d \<longleftrightarrow> (\<forall>r \<in> set (operations d).
     state r = UNKNOWN_OUTCOME \<and> recovery_disposition r = None \<longrightarrow> operation_id r \<in> fst ` set (reviews d))"

definition journal_ok :: "string \<Rightarrow> journal \<Rightarrow> bool" where
  "journal_ok env d \<longleftrightarrow> keys_ok d \<and> (\<forall>r \<in> set (operations d). row_ok env d r) \<and> unknown_blocked d"

text \<open>An admission left by an earlier process awaits review.\<close>

definition leftovers_blocked :: "store \<Rightarrow> bool" where
  "leftovers_blocked s \<longleftrightarrow> (\<forall>r \<in> set (operations (db s)).
     state r = ADMITTED \<and> admission_epoch r \<noteq> epoch s \<longrightarrow> operation_id r \<in> fst ` set (reviews (db s)))"

definition store_ok :: "store \<Rightarrow> bool" where
  "store_ok s \<longleftrightarrow> journal_ok (environment s) (db s) \<and> epoch s \<in> set (epochs (db s)) \<and> leftovers_blocked s"

lemma journal_okD:
  assumes "journal_ok env d"
  shows "distinct (map operation_id (operations d))" "r \<in> set (operations d) \<Longrightarrow> row_ok env d r"
    "unknown_blocked d" "fst ` set (reviews d) \<subseteq> ids d"
  using assms by (auto simp: journal_ok_def keys_ok_def)

subsection \<open>Transactions\<close>

lemma transaction_cases:
  assumes "transaction io s f = (r, s')"
  obtains (committed) x d where "r = Inr x" "f (db s) = Done x d" "s' = s\<lparr>db := d\<rparr>"
      "\<not> closed s" "\<not> failed s" "io"
  | (refused) e where "r = Inl e" "s' = s"
  | (broken) e where "r = Inl e" "s' = s\<lparr>failed := True\<rparr>" "\<not> failed s"
proof -
  consider "closed s \<or> failed s" | "\<not> io" "\<not> closed s" "\<not> failed s" | "io" "\<not> closed s" "\<not> failed s"
    by blast
  then show thesis
  proof cases
    case 1
    with assms refused show thesis by (auto simp: transaction_def connection_def split: if_splits)
  next
    case 2
    with assms show thesis by (intro broken) (auto simp: transaction_def connection_def)
  next
    case 3
    with assms show thesis
      by (cases "f (db s)") (auto simp: transaction_def connection_def
          intro: committed refused broken)
  qed
qed

lemma transaction_healthy:
  "\<not> closed s \<Longrightarrow> \<not> failed s \<Longrightarrow> io \<Longrightarrow>
   transaction io s f =
     (case f (db s) of Done x d \<Rightarrow> (Inr x, s\<lparr>db := d\<rparr>) | Raised e \<Rightarrow> (Inl e, s)
      | SqlError \<Rightarrow> (raise ExecutionStoreError ''STORAGE_FAILED'', s\<lparr>failed := True\<rparr>))"
  by (simp add: transaction_def connection_def)

lemma transaction_unavailable:
  "closed s \<or> failed s \<Longrightarrow> \<exists>t. transaction io s f = (raise ExecutionStoreError t, s)"
  by (auto simp: transaction_def connection_def)

subsection \<open>The bodies keep the invariant\<close>

text \<open>What an update may change in a row: nothing that identifies it.\<close>

definition keeps_identity :: "(operation \<Rightarrow> operation) \<Rightarrow> bool" where
  "keeps_identity f \<longleftrightarrow> (\<forall>r. operation_id (f r) = operation_id r \<and> order_tag (f r) = order_tag r
     \<and> admission_epoch (f r) = admission_epoch r \<and> kind (f r) = kind r \<and> account (f r) = account r)"

lemma keeps_identityD:
  assumes "keeps_identity f"
  shows "operation_id (f r) = operation_id r" "order_tag (f r) = order_tag r"
    "admission_epoch (f r) = admission_epoch r" "kind (f r) = kind r" "account (f r) = account r"
  using assms by (simp_all add: keeps_identity_def)

lemma keeps_identity_rows [simp, intro]:
  "keeps_identity (dispatch_row merged)" "keeps_identity (outcome_row st disp rc err now)"
  "keeps_identity observe_row" "keeps_identity interrupted_row"
  "keeps_identity (recovery_row st disp res rc a b)"
  by (simp_all add: keeps_identity_def dispatch_row_def outcome_row_def observe_row_def
      interrupted_row_def recovery_row_def)

lemma map_update_rows_keeps:
  assumes "keeps_identity f"
  shows "map operation_id (update_rows p f rs) = map operation_id rs"
    "operation_id ` set (update_rows p f rs) = operation_id ` set rs"
    "admission_epoch ` set (update_rows p f rs) = admission_epoch ` set rs"
    "List.map_filter order_tag (update_rows p f rs) = List.map_filter order_tag rs"
  using keeps_identityD [OF assms] by (induction rs) (simp_all add: map_filter_def)

lemma keys_ok_update:
  assumes "keys_ok d" "keeps_identity f" "distinct revs" "fst ` set revs \<subseteq> ids d"
  shows "keys_ok (d\<lparr>operations := update_rows p f (operations d), reviews := revs\<rparr>)"
  using assms by (simp add: keys_ok_def ids_def map_update_rows_keeps)

lemma ids_update [simp]:
  "keeps_identity f \<Longrightarrow> ids (d\<lparr>operations := update_rows p f (operations d)\<rparr>) = ids d"
  by (simp add: ids_def map_update_rows_keeps)


lemma row_ok_cong:
  "negatives_of d' (operation_id r) = negatives_of d (operation_id r) \<Longrightarrow> row_ok env d' r = row_ok env d r"
  by (simp add: row_ok_def)

lemma negatives_of_update [simp]:
  "negatives_of (d\<lparr>operations := x\<rparr>) = negatives_of d" "negatives_of (d\<lparr>reviews := y\<rparr>) = negatives_of d"
  "negatives_of (d\<lparr>audits := z\<rparr>) = negatives_of d" "negatives_of (d\<lparr>epochs := e\<rparr>) = negatives_of d"
  by (simp_all add: negatives_of_def fun_eq_iff)

text \<open>An update keeps the invariant when the rows it changes are well formed and the unknown
  outcomes it leaves are reviewed.\<close>

lemma journal_ok_update:
  assumes ok: "journal_ok env d" and keeps: "keeps_identity f"
    and revs: "distinct revs" "fst ` set revs \<subseteq> ids d"
    and rows: "\<And>r. r \<in> set (operations d) \<Longrightarrow> p r \<Longrightarrow> row_ok env d (f r)"
    and unknown: "\<And>r. r \<in> set (operations d) \<Longrightarrow> state (if p r then f r else r) = UNKNOWN_OUTCOME \<Longrightarrow>
        recovery_disposition (if p r then f r else r) = None \<Longrightarrow> operation_id r \<in> fst ` set revs"
  shows "journal_ok env (d\<lparr>operations := update_rows p f (operations d), reviews := revs\<rparr>)"
    (is "journal_ok env ?d")
proof -
  have keys: "keys_ok ?d" using ok keeps revs by (intro keys_ok_update) (simp_all add: journal_ok_def)
  moreover have "row_ok env ?d r" if "r \<in> set (operations ?d)" for r
    using that rows journal_okD(2) [OF ok]
    by (auto simp: set_update_rows row_ok_def split: if_splits)
  moreover have "unknown_blocked ?d"
    using unknown keeps_identityD(1) [OF keeps]
    by (force simp: unknown_blocked_def set_update_rows)
  ultimately show ?thesis by (simp add: journal_ok_def)
qed

lemma unknown_reviewedD:
  "journal_ok env d \<Longrightarrow> r \<in> set (operations d) \<Longrightarrow> state r = UNKNOWN_OUTCOME \<Longrightarrow>
   recovery_disposition r = None \<Longrightarrow> operation_id r \<in> fst ` set (reviews d)"
  by (simp add: journal_ok_def unknown_blocked_def)

lemma journal_ok_reviews:
  assumes "journal_ok env d" "distinct revs" "fst ` set revs \<subseteq> ids d" "fst ` set (reviews d) \<subseteq> fst ` set revs"
  shows "journal_ok env (d\<lparr>reviews := revs\<rparr>)"
  using assms by (auto simp: journal_ok_def keys_ok_def ids_def unknown_blocked_def row_ok_def)

lemma mark_dispatch_body_ok:
  assumes "journal_ok env d" "mark_dispatch_body oid merged d = Done x d'"
  shows "journal_ok env d'"
proof -
  have d': "d' = d\<lparr>operations := update_rows (\<lambda>r. operation_id r = oid \<and> state r = ADMITTED)
      (dispatch_row merged) (operations d), reviews := reviews d\<rparr>"
    using assms(2) by (auto simp: mark_dispatch_body_def Let_def split: sum.splits if_splits)
  have "distinct (reviews d)" using assms(1) by (simp add: journal_ok_def keys_ok_def)
  then show ?thesis
    unfolding d' using assms(1) journal_okD(2,4) [OF assms(1)] unknown_reviewedD [OF assms(1)]
    by (intro journal_ok_update) (auto simp: row_ok_def dispatch_row_def split: if_splits)
qed

lemma map_filter_snoc:
  "List.map_filter f (xs @ [x]) = List.map_filter f xs @ (case f x of None \<Rightarrow> [] | Some y \<Rightarrow> [y])"
  by (simp add: map_filter_def split: option.splits)

lemma set_map_filter_iff: "y \<in> set (List.map_filter f xs) \<longleftrightarrow> Some y \<in> f ` set xs"
  by (induction xs) (auto simp: map_filter_def split: option.splits)

lemma keys_ok_insert:
  assumes "keys_ok d" "insertion_allowed d r" "operation_id r \<notin> ids d"
  shows "keys_ok (d\<lparr>operations := operations d @ [r]\<rparr>)"
proof -
  have "distinct (List.map_filter order_tag (operations d @ [r]))"
    using assms(1,2)
    by (auto simp: map_filter_snoc set_map_filter_iff keys_ok_def insertion_allowed_def
        split: option.splits)
  then show ?thesis
    using assms by (auto simp: keys_ok_def ids_def insertion_allowed_def)
qed

lemma row_of_None_iff: "row_of d oid = None \<longleftrightarrow> oid \<notin> ids d"
  by (simp add: row_of_def ids_def find_row_None_iff [symmetric] split: option.splits)

lemma admit_bodyE:
  assumes "admit_body sha256 s oid ep acc k canon req uuid now d = Done x d'"
  obtains (known) v where "row_of d oid = Some v" "x = (v, False)" "d' = d"
  | (fresh) r v where "r = new_operation oid ep acc k canon (sha256 canon) req
          (if k \<in> {PLACE, PLACE_COMBO} then Some uuid else None) now"
      "row_of d oid = None" "ep = epoch s" "reviewed s" "reviews d = []" "json_check (as_dict req) = ok"
      "insertion_allowed d r" "d' = d\<lparr>operations := operations d @ [r]\<rparr>"
      "row_of d' oid = Some v" "x = (v, True)"
proof (cases "row_of d oid")
  case None
  define r where "r = new_operation oid ep acc k canon (sha256 canon) req
      (if k \<in> {PLACE, PLACE_COMBO} then Some uuid else None) now"
  from assms [unfolded admit_body_def Let_def, folded r_def] None show thesis
    by (intro fresh [OF r_def None, where v = "fst x"]) (auto split: option.splits sum.splits if_split_asm)
next
  case (Some v)
  with assms show thesis by (intro known) (auto simp: admit_body_def)
qed

lemma admit_body_ok:
  assumes "journal_ok env d" "admit_body sha256 s oid ep acc k canon req uuid now d = Done x d'"
  shows "journal_ok env d'"
  using assms(2)
proof (cases rule: admit_bodyE)
  case known
  with assms(1) show ?thesis by simp
next
  case (fresh r v)
  have r: "operation_id r = oid" "state r = ADMITTED" "\<not> marker r" "recovery_disposition r = None"
    by (simp_all add: fresh(1) new_operation_def)
  have "keys_ok d'"
    using keys_ok_insert [of d r] assms(1) fresh(2,7,8) r by (simp add: journal_ok_def row_of_None_iff)
  moreover have "\<forall>x \<in> set (operations d'). row_ok env d' x"
    using assms(1) r by (auto simp: fresh(8) journal_ok_def row_ok_def)
  moreover have "unknown_blocked d'"
    using assms(1) r by (auto simp: fresh(8) journal_ok_def unknown_blocked_def)
  ultimately show ?thesis by (simp add: journal_ok_def)
qed

text \<open>The outcomes the executors write: an unknown outcome always carries a review reason.\<close>

definition executor_outcome :: "op_state \<Rightarrow> string option \<Rightarrow> bool" where
  "executor_outcome st reason \<longleftrightarrow> st \<in> {REFUSED, ACKNOWLEDGED} \<or> st = UNKNOWN_OUTCOME \<and> reason \<notin> {None, Some []}"

lemma update_rows_no_hit: "(\<And>r. r \<in> set rs \<Longrightarrow> \<not> p r) \<Longrightarrow> update_rows p f rs = rs"
  by (induction rs) auto

lemma update_rows_never [simp]: "update_rows (\<lambda>_. False) f rs = rs"
  by (rule update_rows_no_hit) simp

lemma outcome_body_ok:
  assumes ok: "journal_ok env d" and st: "executor_outcome st reason"
    and body: "outcome_body oid st disp rc err reason observed now d = Done x d'"
  shows "journal_ok env d'"
proof -
  define why where "why = (case reason of None \<Rightarrow> [] | Some t \<Rightarrow> t)"
  define revs where "revs = (if why \<noteq> [] then insert_ignore (oid, why) (reviews d) else reviews d)"
  define d1 where "d1 = d\<lparr>operations := update_rows (\<lambda>r. operation_id r = oid)
      (outcome_row st disp rc err now) (operations d), reviews := revs\<rparr>"
  define hit where "hit = (\<lambda>r :: operation. st = ACKNOWLEDGED \<and> operation_id r \<in> set observed \<and> kind r = MODIFY
      \<and> state r = ACKNOWLEDGED)"
  have d': "d' = d1\<lparr>operations := update_rows hit observe_row (operations d1), reviews := reviews d1\<rparr>"
    and known: "why \<noteq> [] \<Longrightarrow> oid \<in> ids d"
    using body by (auto simp: outcome_body_def Let_def why_def revs_def d1_def hit_def ids_def
        split: if_splits)
  have revs_ok: "distinct revs" "fst ` set revs \<subseteq> ids d" "fst ` set (reviews d) \<subseteq> fst ` set revs"
    using ok known by (auto simp: revs_def journal_ok_def keys_ok_def)
  have reviewed: "st = UNKNOWN_OUTCOME \<Longrightarrow> oid \<in> fst ` set revs"
    using st by (auto simp: executor_outcome_def revs_def why_def split: option.splits)
  have d1: "journal_ok env d1"
    unfolding d1_def
  proof (rule journal_ok_update [OF ok _ revs_ok(1,2)])
    fix r assume "r \<in> set (operations d)" "operation_id r = oid"
    with st journal_okD(2) [OF ok] show "row_ok env d (outcome_row st disp rc err now r)"
      by (auto simp: row_ok_def outcome_row_def executor_outcome_def)
  next
    fix r assume "r \<in> set (operations d)"
      and "state (if operation_id r = oid then outcome_row st disp rc err now r else r) = UNKNOWN_OUTCOME"
      and "recovery_disposition (if operation_id r = oid then outcome_row st disp rc err now r else r) = None"
    then show "operation_id r \<in> fst ` set revs"
      using reviewed unknown_reviewedD [OF ok] revs_ok(3)
      by (cases "operation_id r = oid") (auto simp: outcome_row_def)
  qed simp
  have "distinct (reviews d1)" using revs_ok by (simp add: d1_def)
  then show ?thesis
    unfolding d' using d1 journal_okD(2,4) [OF d1] unknown_reviewedD [OF d1]
    by (intro journal_ok_update) (auto simp: row_ok_def observe_row_def hit_def split: if_splits)
qed


subsection \<open>Recovery and restart keep the invariant\<close>

lemma record_check_ok:
  assumes "journal_ok env d" "oid \<in> ids d"
  shows "journal_ok env (record_check oid started completed outc details next_at now d)" (is "journal_ok env ?d")
proof -
  define f where "f = (\<lambda>r :: operation. r\<lparr>evidence := Some (dict_get details ''orders'' (PList [] ''[]'')),
      next_recovery_at := next_at, updated_at := now\<rparr>)"
  have f: "keeps_identity f" by (simp add: f_def keeps_identity_def)
  define d1 where "d1 = d\<lparr>operations := update_rows (\<lambda>r. operation_id r = oid) f (operations d),
      reviews := reviews d\<rparr>"
  have d1: "journal_ok env d1"
    unfolding d1_def using assms(1) f journal_okD(2,4) [OF assms(1)] unknown_reviewedD [OF assms(1)]
    by (intro journal_ok_update)
      (auto simp: row_ok_def f_def journal_ok_def keys_ok_def split: if_splits)
  define c where "c = \<lparr>check_operation = oid, started_at = started, completed_at = completed,
      check_outcome = outc, check_details = details\<rparr>"
  have d: "?d = d1\<lparr>checks := checks d1 @ [c]\<rparr>"
    by (simp add: record_check_def d1_def f_def c_def)
  have oid: "oid \<in> ids d1" using assms(2) f by (simp add: d1_def ids_def map_update_rows_keeps)
  have mono: "negatives_of d1 x \<le> negatives_of ?d x" for x
    by (simp add: d negatives_of_def)
  have "keys_ok ?d" using d1 oid by (simp add: d journal_ok_def keys_ok_def ids_def c_def)
  moreover have "row_ok env ?d r" if "r \<in> set (operations ?d)" for r
  proof -
    from that have "row_ok env d1 r" using journal_okD(2) [OF d1] by (simp add: d)
    then show ?thesis using mono [of "operation_id r"] by (auto simp: row_ok_def)
  qed
  moreover have "unknown_blocked ?d" using d1 by (simp add: d journal_ok_def unknown_blocked_def)
  ultimately show ?thesis by (simp add: journal_ok_def)
qed

lemma resolve_Inr_cases:
  assumes "resolve env v n res rc facts = Inr (st, disp)"
  obtains (absent) "res = ASSUMED_ABSENT" "env = ''SIMULATE''" "absence_evidence v n"
      "st = UNKNOWN_OUTCOME" "disp = ''POSSIBLY_SENT''"
  | (unsent) "res = ''NOT_DISPATCHED''" "env = ''REAL''" "state (row v) = ADMITTED" "\<not> marker (row v)"
      "st = REFUSED" "disp = ''NOT_SENT''"
  | (accounted) "res \<in> BROKER_RESOLUTIONS" "given rc" "given facts"
      "st = (if res = ''TERMINAL_ACCOUNTED'' then TERMINAL_ACCOUNTED else RECONCILED)"
      "disp = ''BROKER_ACCOUNTED''"
  using assms by (auto simp: resolve_def split: if_splits)

lemma resolve_state:
  "resolve env v n res rc facts = Inr (st, disp) \<Longrightarrow> st \<notin> {ADMITTED, DISPATCHING}"
  by (erule resolve_Inr_cases) auto

lemma BROKER_RESOLUTIONS_not_absent: "ASSUMED_ABSENT \<notin> BROKER_RESOLUTIONS" "ASSUMED_ABSENT \<noteq> ''NOT_DISPATCHED''"
  by (simp_all add: BROKER_RESOLUTIONS_def ASSUMED_ABSENT_def)

lemma row_of_SomeD:
  "row_of d oid = Some v \<Longrightarrow> find_row operation_id oid (operations d) = Some (row v) \<and> operation_id (row v) = oid
     \<and> row v \<in> set (operations d) \<and> oid \<in> ids d"
  by (auto simp: row_of_def ids_def split: option.splits dest: find_row_SomeD)

lemma same_row:
  "journal_ok env d \<Longrightarrow> find_row operation_id oid (operations d) = Some r \<Longrightarrow>
   r' \<in> set (operations d) \<Longrightarrow> operation_id r' = oid \<Longrightarrow> r' = r"
  using find_row_distinct [of operation_id "operations d" r'] by (auto dest: journal_okD(1))

lemma apply_resolution_InrE:
  assumes "apply_resolution env ep v res outc details observed rc facts d = Inr d'"
  obtains st disp a b audit
  where "resolve env v (negatives_of d (operation_id (row v))) res rc facts = Inr (st, disp)"
    "audit_operation audit = operation_id (row v)" "audit_resolution audit = res"
    "audit_facts audit = (if given facts then the facts else [])"
    "d' = d\<lparr>audits := audits d @ [audit],
           operations := update_rows (\<lambda>x. operation_id x = operation_id (row v))
             (recovery_row st disp res rc a b) (operations d),
           reviews := filter (\<lambda>x. fst x \<noteq> operation_id (row v)) (reviews d)\<rparr>"
proof -
  from assms obtain st disp ref a b where
    "resolve env v (negatives_of d (operation_id (row v))) res rc facts = Inr (st, disp)"
    "d' = d\<lparr>audits := audits d @ [\<lparr>audit_operation = operation_id (row v), operator_id = ''system'',
                 audit_resolution = res,
                 audit_reason = py_str (dict_get details ''reason'' (PStr outc)),
                 evidence_reference = ref,
                 audit_facts = (if given facts then the facts else []),
                 recovery_epoch = ep, observed_state = observed, previous_state = state (row v)\<rparr>],
           operations := update_rows (\<lambda>x. operation_id x = operation_id (row v))
             (recovery_row st disp res rc a b) (operations d),
           reviews := filter (\<lambda>x. fst x \<noteq> operation_id (row v)) (reviews d)\<rparr>"
    unfolding apply_resolution_def Let_def negatives_of_def by (clarsimp simp: res_simps)
  from this(1) _ _ _ this(2) show thesis by (rule that) simp_all
qed

lemma apply_resolution_ok:
  assumes ok: "journal_ok env d" and v: "find_row operation_id (operation_id (row v)) (operations d) = Some r"
    and same: "order_tag r = order_tag (row v)" "kind r = kind (row v)"
    and res: "apply_resolution env ep v res outc details observed rc facts d = Inr d'"
  shows "journal_ok env d'"
proof -
  let ?oid = "operation_id (row v)"
  obtain st disp a b audit where rs: "resolve env v (negatives_of d ?oid) res rc facts = Inr (st, disp)"
    and au: "audit_operation audit = ?oid"
    and d': "d' = d\<lparr>audits := audits d @ [audit],
        operations := update_rows (\<lambda>x. operation_id x = ?oid) (recovery_row st disp res rc a b) (operations d),
        reviews := filter (\<lambda>x. fst x \<noteq> ?oid) (reviews d)\<rparr>"
    using res by (elim apply_resolution_InrE)
  define d1 where "d1 = d\<lparr>operations := update_rows (\<lambda>x. operation_id x = ?oid)
      (recovery_row st disp res rc a b) (operations d),
      reviews := filter (\<lambda>x. fst x \<noteq> ?oid) (reviews d)\<rparr>"
  have "journal_ok env d1"
    unfolding d1_def
  proof (rule journal_ok_update [OF ok])
    fix x assume x: "x \<in> set (operations d)" "operation_id x = ?oid"
    then have "x = r" using same_row [OF ok v] by blast
    with rs show "row_ok env d (recovery_row st disp res rc a b x)"
      using resolve_state [OF rs] same x(2) BROKER_RESOLUTIONS_not_absent
      by (auto simp: row_ok_def recovery_row_def absence_evidence_def truthy_text_def elim!: resolve_Inr_cases)
  next
    fix x assume "x \<in> set (operations d)"
      "state (if operation_id x = ?oid then recovery_row st disp res rc a b x else x) = UNKNOWN_OUTCOME"
      "recovery_disposition (if operation_id x = ?oid then recovery_row st disp res rc a b x else x) = None"
    then show "operation_id x \<in> fst ` set (filter (\<lambda>x. fst x \<noteq> ?oid) (reviews d))"
      using unknown_reviewedD [OF ok, of x]
      by (cases "operation_id x = ?oid") (force simp: recovery_row_def)+
  qed (use ok in \<open>auto simp: journal_ok_def keys_ok_def\<close>)
  moreover have "?oid \<in> ids d1"
    using find_row_SomeD [OF v] by (auto simp: d1_def ids_def map_update_rows_keeps intro: rev_image_eqI)
  moreover have "d' = d1\<lparr>audits := audits d1 @ [audit]\<rparr>" by (simp add: d' d1_def)
  ultimately show ?thesis
    using au by (auto simp: journal_ok_def keys_ok_def ids_def unknown_blocked_def row_ok_def)
qed

lemma record_recovery_body_ok:
  assumes ok: "journal_ok env d"
    and body: "record_recovery_body env ep oid observed started completed outc details next_at res rc facts now d = Done x d'"
  shows "journal_ok env d'"
proof -
  obtain v where v: "row_of d oid = Some v"
    using body by (cases "row_of d oid") (simp_all add: record_recovery_body_def)
  define d1 where "d1 = record_check oid started completed outc details next_at now d"
  note vD = row_of_SomeD [OF v]
  have d1: "journal_ok env d1" unfolding d1_def using ok vD by (intro record_check_ok) simp_all
  obtain r where r: "find_row operation_id oid (operations d1) = Some r"
    "order_tag r = order_tag (row v)" "kind r = kind (row v)"
    using vD by (auto simp: d1_def record_check_def find_row_update_rows)
  show ?thesis
  proof (cases res)
    case None
    with body v d1 show ?thesis
      by (auto simp: record_recovery_body_def d1_def Let_def split: if_splits sum.splits)
  next
    case (Some resolution)
    with body v have "apply_resolution env ep v resolution outc details observed rc facts d1 = Inr d'"
      by (auto simp: record_recovery_body_def d1_def Let_def split: if_splits sum.splits)
    then show ?thesis using apply_resolution_ok [OF d1, of v r] r vD by simp
  qed
qed


text \<open>What a journal file must satisfy for a start: its keys and its rows. The startup transaction
  establishes the rest.\<close>

definition file_ok :: "string \<Rightarrow> journal \<Rightarrow> bool" where
  "file_ok env d \<longleftrightarrow> keys_ok d \<and> (\<forall>r \<in> set (operations d). row_ok env d r)"

lemma file_ok_migrate:
  assumes "file_ok env d"
  shows "file_ok env (migrate version d)" "epochs (migrate version d) = epochs d"
proof -
  have none: "List.map_filter order_tag (map (\<lambda>r. f r\<lparr>order_tag := None, recovery_disposition := b,
      next_recovery_at := c\<rparr>) rs) = []" for f :: "operation \<Rightarrow> operation" and b c rs
    by (induction rs) (simp_all add: map_filter_def)
  show "file_ok env (migrate version d)"
    using assms none [where f = "\<lambda>r. r\<lparr>modification_observed := (version \<noteq> 1 \<and> modification_observed r)\<rparr>"]
    by (auto simp: file_ok_def migrate_def keys_ok_def ids_def row_ok_def image_image comp_def)
  show "epochs (migrate version d) = epochs d" by (simp add: migrate_def)
qed

lemma add_startup_reviews_simps [simp]:
  "operations (add_startup_reviews d) = operations d" "epochs (add_startup_reviews d) = epochs d"
  "checks (add_startup_reviews d) = checks d" "audits (add_startup_reviews d) = audits d"
  by (simp_all add: add_startup_reviews_def)

lemma reviews_add_startup:
  "set (reviews (add_startup_reviews d)) = set (reviews d)
     \<union> (\<lambda>r. (operation_id r, ''STARTUP_REVIEW'')) ` {r \<in> set (operations d). awaiting_startup_review r}"
  by (auto simp: add_startup_reviews_def)

lemma add_startup_reviews_blocks:
  "r \<in> set (operations d) \<Longrightarrow> awaiting_startup_review r \<Longrightarrow>
   operation_id r \<in> fst ` set (reviews (add_startup_reviews d))"
  by (force simp: reviews_add_startup)

lemma file_ok_add_startup_reviews:
  assumes "file_ok env d"
  shows "journal_ok env (add_startup_reviews d)"
proof -
  have "keys_ok (add_startup_reviews d)"
    using assms by (auto simp: file_ok_def keys_ok_def ids_def reviews_add_startup)
      (simp add: add_startup_reviews_def)
  moreover have "unknown_blocked (add_startup_reviews d)"
    by (auto simp: unknown_blocked_def awaiting_startup_review_def intro: add_startup_reviews_blocks)
  moreover have "negatives_of (add_startup_reviews d) = negatives_of d"
    by (simp add: negatives_of_def fun_eq_iff)
  ultimately show ?thesis using assms by (simp add: journal_ok_def file_ok_def row_ok_def)
qed

lemma operations_startup:
  "operations (startup ep d) = update_rows (\<lambda>r. state r = DISPATCHING) interrupted_row (operations d)"
  by (simp add: startup_def Let_def)

lemma reviews_startup:
  "set (reviews (startup ep d)) = set (reviews d)
     \<union> (\<lambda>r. (operation_id r, ''RECOVERED_DISPATCH'')) ` {r \<in> set (operations d). state r = DISPATCHING}
     \<union> (\<lambda>r. (operation_id r, ''STARTUP_REVIEW'')) ` {r \<in> set (operations (startup ep d)). awaiting_startup_review r}"
  by (auto simp: startup_def Let_def reviews_add_startup)

lemma startup_ok:
  assumes "file_ok env d" "ep \<notin> set (epochs d)"
  shows "journal_ok env (startup ep d)" "set (epochs (startup ep d)) = insert ep (set (epochs d))"
proof -
  let ?d = "d\<lparr>epochs := epochs d @ [ep],
      operations := update_rows (\<lambda>r. state r = DISPATCHING) interrupted_row (operations d),
      reviews := insert_all_ignore (map (\<lambda>r. (operation_id r, ''RECOVERED_DISPATCH''))
              (filter (\<lambda>r. state r = DISPATCHING) (operations d))) (reviews d)\<rparr>"
  have "keys_ok ?d"
    using assms by (auto simp: file_ok_def keys_ok_def ids_def map_update_rows_keeps)
  moreover have "row_ok env ?d r" if "r \<in> set (operations ?d)" for r
    using that assms(1)
    by (auto simp: set_update_rows interrupted_row_def row_ok_def file_ok_def negatives_of_def split: if_splits)
  ultimately have "file_ok env ?d" by (simp add: file_ok_def)
  then show "journal_ok env (startup ep d)"
    unfolding startup_def Let_def by (rule file_ok_add_startup_reviews)
  show "set (epochs (startup ep d)) = insert ep (set (epochs d))" by (simp add: startup_def Let_def)
qed

lemma open_store_Inr:
  assumes "open_store env create wait locked io ep f = Inr s"
  shows "db s = startup ep (migrate (if present f then user_version f else 2)
             (if present f then contents f else empty_journal))"
    "environment s = env" "epoch s = ep" "\<not> reviewed s" "\<not> failed s" "\<not> closed s" "\<not> locked"
    "ep \<notin> set (epochs (if present f then contents f else empty_journal))"
    "present f \<Longrightarrow> metadata f = [env]" "present f \<or> create"
  using assms by (auto simp: open_store_def Let_def split: if_splits)

lemma file_ok_empty [simp]: "file_ok env empty_journal"
  by (simp add: file_ok_def empty_journal_def keys_ok_def ids_def map_filter_def)

text \<open>A start: the journal is new, or was written by this program.\<close>

lemma open_store_ok:
  assumes start: "open_store env create wait locked io ep f = Inr s"
    and old: "present f \<Longrightarrow> file_ok env (contents f)"
  shows "store_ok s"
proof -
  define d where "d = (if present f then contents f else empty_journal)"
  define e where "e = migrate (if present f then user_version f else 2) d"
  have d: "file_ok env d" using old by (simp add: d_def)
  note s = open_store_Inr [OF start, folded d_def, folded e_def]
  have e: "file_ok env e" "epochs e = epochs d" using file_ok_migrate [OF d] by (simp_all add: e_def)
  have ok: "journal_ok env (db s)" "ep \<in> set (epochs (db s))"
    using startup_ok [OF e(1), of ep] e(2) s(1,8) by simp_all
  have "operation_id r \<in> fst ` set (reviews (db s))"
    if "r \<in> set (operations (db s))" "state r = ADMITTED" for r
  proof -
    have "awaiting_startup_review r"
      using journal_okD(2) [OF ok(1) that(1)] that(2) by (simp add: row_ok_def awaiting_startup_review_def)
    with that(1) show ?thesis unfolding s(1) by (subst reviews_startup) force
  qed
  with ok s(2,3) show ?thesis by (simp add: store_ok_def leftovers_blocked_def)
qed

end
