(* ===== verification/Journal_Runs.thy ===== *)
theory Journal_Runs
  imports Execution_Store
begin

text \<open>
  Runs of the execution store: calls of its methods by the process that holds it, in any order and
  with any arguments, clock and disk, and restarts on the file it leaves. The store is interpreted as
  a guarded system, so that every reachable store is well formed; the properties of the journal
  (dispatch at most once, restart, readiness, evidence of an assumed absence, durable failure) are
  proved on those runs.
\<close>

subsection \<open>Runs of a store\<close>

text \<open>One call of a method by a process that holds the store, whatever its arguments, clock and disk.\<close>

inductive call_step :: "store \<Rightarrow> store \<Rightarrow> bool" where
  "admit sha256 io s oid ep acc k canon req uuid now = (r, t) \<Longrightarrow> call_step s t"
| "mark_dispatch io s oid merged = (u, t) \<Longrightarrow> call_step s t"
| "executor_outcome st reason \<Longrightarrow> outcome io s oid st disp rc err reason observed now = (u, t) \<Longrightarrow> call_step s t"
| "block_late_order io s oid = (u, t) \<Longrightarrow> call_step s t"
| "record_recovery io s oid obs started completed outc details next_at resolution rc facts now = (u, t) \<Longrightarrow>
   call_step s t"
| "review writable io s = (h, t) \<Longrightarrow> call_step s t"
| "health writable io s = (hr, t) \<Longrightarrow> call_step s t"
| "lookup io s oid = (vr, t) \<Longrightarrow> call_step s t"
| "unobserved_modifications io s acc order_id = (vs, t) \<Longrightarrow> call_step s t"
| "recovery_rows io s due = (vs, t) \<Longrightarrow> call_step s t"
| "call_step s (close s)"

text \<open>The file a process leaves, and a restart on it.\<close>

definition file_of :: "store \<Rightarrow> journal_file" where
  "file_of s = \<lparr>present = True, user_version = 3, metadata = [environment s], intact = True, contents = db s\<rparr>"

inductive store_step :: "store \<Rightarrow> store \<Rightarrow> bool" where
  call: "call_step s t \<Longrightarrow> store_step s t"
| restart: "open_store (environment s) create wait locked io ep (file_of s) = Inr t \<Longrightarrow> store_step s t"

definition store_start :: "store \<Rightarrow> bool" where
  "store_start s \<longleftrightarrow> (\<exists>env create wait locked io ep f. open_store env create wait locked io ep f = Inr s
     \<and> (present f \<longrightarrow> file_ok env (contents f)))"

text \<open>What the methods do to the rows: a row is kept or updated in place, and only an admission adds
  one, of the current epoch. An operation that left \<open>ADMITTED\<close> never returns to it, and one that has
  not keeps its reviews.\<close>

definition row_moves :: "journal \<Rightarrow> journal \<Rightarrow> operation \<Rightarrow> operation \<Rightarrow> bool" where
  "row_moves d d' r r' \<longleftrightarrow> operation_id r' = operation_id r \<and> admission_epoch r' = admission_epoch r
     \<and> account r' = account r \<and> (state r' = ADMITTED \<longrightarrow> state r = ADMITTED
         \<and> (operation_id r \<in> fst ` set (reviews d) \<longrightarrow> operation_id r \<in> fst ` set (reviews d')))"

definition moves_on :: "string \<Rightarrow> journal \<Rightarrow> journal \<Rightarrow> bool" where
  "moves_on ep d d' \<longleftrightarrow> ids d \<subseteq> ids d' \<and> (\<forall>r' \<in> set (operations d').
     operation_id r' \<notin> ids d \<and> admission_epoch r' = ep \<or> (\<exists>r \<in> set (operations d). row_moves d d' r r'))"

lemma moves_on_same_rows:
  assumes "operations d' = operations d" "fst ` set (reviews d) \<subseteq> fst ` set (reviews d')"
  shows "moves_on ep d d'"
proof -
  have "row_moves d d' r r" for r using assms(2) by (auto simp: row_moves_def)
  then show ?thesis using assms(1) by (auto simp: moves_on_def ids_def)
qed

lemma moves_on_refl [simp, intro]: "moves_on ep d d"
  by (simp add: moves_on_same_rows)

lemma moves_on_update:
  assumes f: "keeps_identity f" and d': "operations d' = update_rows p f (operations d)"
    and rows: "\<And>r. r \<in> set (operations d) \<Longrightarrow> p r \<Longrightarrow> state (f r) \<noteq> ADMITTED \<or> row_moves d d' r (f r)"
    and revs: "\<And>r. r \<in> set (operations d) \<Longrightarrow> \<not> p r \<Longrightarrow> operation_id r \<in> fst ` set (reviews d) \<Longrightarrow>
        operation_id r \<in> fst ` set (reviews d')"
  shows "moves_on ep d d'"
proof -
  have same: "ids d' = ids d" using f by (simp add: ids_def d' map_update_rows_keeps)
  have "row_moves d d' r (if p r then f r else r)" if "r \<in> set (operations d)" for r
    using rows [OF that] revs [OF that] keeps_identityD [OF f] by (auto simp: row_moves_def)
  then have "\<exists>r \<in> set (operations d). row_moves d d' r r'" if "r' \<in> set (operations d')" for r'
    using that unfolding d' set_update_rows by blast
  with same show ?thesis by (simp add: moves_on_def)
qed

lemma moves_on_trans:
  assumes "moves_on ep d1 d2" "moves_on ep d2 d3"
  shows "moves_on ep d1 d3"
proof -
  have "operation_id r \<notin> ids d1 \<and> admission_epoch r = ep \<or> (\<exists>q \<in> set (operations d1). row_moves d1 d3 q r)"
    if r: "r \<in> set (operations d3)" for r
  proof -
    consider "operation_id r \<notin> ids d2" "admission_epoch r = ep"
      | q where "q \<in> set (operations d2)" "row_moves d2 d3 q r"
      using assms(2) r by (auto simp: moves_on_def)
    then show ?thesis
    proof cases
      case 1
      with assms(1) show ?thesis by (auto simp: moves_on_def)
    next
      case 2
      then have "operation_id q \<notin> ids d1 \<and> admission_epoch q = ep \<or> (\<exists>p \<in> set (operations d1). row_moves d1 d2 p q)"
        using assms(1) by (simp add: moves_on_def)
      with 2 show ?thesis unfolding row_moves_def by metis
    qed
  qed
  with assms show ?thesis by (auto simp: moves_on_def)
qed

lemma moves_on_insert:
  assumes "operation_id r \<notin> ids d" "admission_epoch r = ep"
  shows "moves_on ep d (d\<lparr>operations := operations d @ [r]\<rparr>)"
proof -
  have "row_moves d (d\<lparr>operations := operations d @ [r]\<rparr>) q q" for q by (simp add: row_moves_def)
  with assms show ?thesis by (auto simp: moves_on_def ids_def)
qed

lemma admit_moves_on:
  assumes "admit_body sha256 s oid ep acc k canon req uuid now d = Done x d'"
  shows "moves_on (epoch s) d d'"
  using assms
  by (cases rule: admit_bodyE) (auto simp: new_operation_def row_of_None_iff intro!: moves_on_insert)

lemma mark_dispatch_moves_on: "mark_dispatch_body oid merged d = Done x d' \<Longrightarrow> moves_on ep d d'"
  by (rule moves_on_update [of "dispatch_row merged" _ "\<lambda>r. operation_id r = oid \<and> state r = ADMITTED"])
    (auto simp: mark_dispatch_body_def Let_def dispatch_row_def split: sum.splits if_splits)

lemma outcome_moves_on:
  assumes "executor_outcome st reason" "outcome_body oid st disp rc err reason observed now d = Done x d'"
  shows "moves_on ep d d'"
proof -
  define f where "f = (\<lambda>r. let q = (if operation_id r = oid then outcome_row st disp rc err now r else r) in
      if st = ACKNOWLEDGED \<and> operation_id q \<in> set observed \<and> kind q = MODIFY \<and> state q = ACKNOWLEDGED
      then observe_row q else q)"
  have f: "keeps_identity f"
    by (simp add: keeps_identity_def f_def Let_def outcome_row_def observe_row_def)
  have "state (f r) = ADMITTED \<Longrightarrow> state r = ADMITTED" for r
    using assms(1) by (auto simp: f_def Let_def outcome_row_def observe_row_def executor_outcome_def split: if_splits)
  moreover have "operations d' = update_rows (\<lambda>_. True) f (operations d)"
    using assms(2)
    by (auto simp: outcome_body_def Let_def f_def update_rows_def split: if_splits)
  moreover have "fst ` set (reviews d) \<subseteq> fst ` set (reviews d')"
    using assms(2) by (auto simp: outcome_body_def Let_def split: if_splits)
  ultimately show ?thesis
    using f keeps_identityD [OF f]
    by (intro moves_on_update [where f = f and p = "\<lambda>_. True"]) (auto simp: row_moves_def)
qed

lemma record_check_moves_on: "moves_on ep d (record_check oid started completed outc details next_at now d)"
  by (rule moves_on_update [where f = "\<lambda>r. r\<lparr>evidence := Some (dict_get details ''orders'' (PList [] ''[]'')),
               next_recovery_at := next_at, updated_at := now\<rparr>" and p = "\<lambda>r. operation_id r = oid"])
    (auto simp: record_check_def keeps_identity_def row_moves_def)

lemma apply_resolution_moves_on:
  assumes "apply_resolution env ep' v res outc details observed rc facts d = Inr d'"
  shows "moves_on ep d d'"
proof -
  obtain st disp a b where st: "st \<notin> {ADMITTED, DISPATCHING}"
    and d': "operations d' = update_rows (\<lambda>x. operation_id x = operation_id (row v))
        (recovery_row st disp res rc a b) (operations d)"
    and revs: "reviews d' = filter (\<lambda>x. fst x \<noteq> operation_id (row v)) (reviews d)"
    using assms by (elim apply_resolution_InrE) (auto dest!: resolve_state)
  show ?thesis
    using st by (intro moves_on_update [OF _ d']) (force simp: recovery_row_def revs)+
qed

lemma record_recovery_moves_on:
  "record_recovery_body env ep' oid observed started completed outc details next_at res rc facts now d = Done x d' \<Longrightarrow>
   moves_on ep d d'"
  by (auto simp: record_recovery_body_def Let_def record_check_moves_on
      split: option.splits sum.splits if_splits
      intro: moves_on_trans [OF record_check_moves_on apply_resolution_moves_on])

lemma startup_moves_on: "moves_on ep d (startup ep' d)"
  by (rule moves_on_update [where f = interrupted_row and p = "\<lambda>r. state r = DISPATCHING"])
    (auto simp: operations_startup interrupted_row_def reviews_startup image_Un)


text \<open>One call: the identity of the store is kept, its journal moves on and stays well formed.\<close>

definition body_keeps :: "string \<Rightarrow> string \<Rightarrow> journal \<Rightarrow> journal \<Rightarrow> bool" where
  "body_keeps env ep d d' \<longleftrightarrow> moves_on ep d d' \<and> epochs d' = epochs d
     \<and> (journal_ok env d \<longrightarrow> journal_ok env d')"

definition evolves :: "store \<Rightarrow> store \<Rightarrow> bool" where
  "evolves s t \<longleftrightarrow> environment t = environment s \<and> epoch t = epoch s
     \<and> body_keeps (environment s) (epoch s) (db s) (db t)"

lemma body_keeps_refl [simp]: "body_keeps env ep d d"
  by (simp add: body_keeps_def)

lemma evolves_flags [simp]:
  "evolves s (t\<lparr>failed := b\<rparr>) = evolves s t" "evolves s (t\<lparr>closed := b\<rparr>) = evolves s t"
  "evolves s (t\<lparr>reviewed := b\<rparr>) = evolves s t" "evolves s s"
  by (simp_all add: evolves_def)

lemma transaction_evolves:
  assumes "transaction io s f = (r, t)"
    and "\<And>x d. f (db s) = Done x d \<Longrightarrow> body_keeps (environment s) (epoch s) (db s) d"
  shows "evolves s t"
  using assms(1) by (cases rule: transaction_cases) (use assms(2) in \<open>auto simp: evolves_def\<close>)

lemma bodies_keep:
  "admit_body sha256 s oid ep acc k canon req uuid now d = Done x d' \<Longrightarrow> body_keeps env (epoch s) d d'"
  "mark_dispatch_body oid merged d = Done u d' \<Longrightarrow> body_keeps env ep d d'"
  "executor_outcome st reason \<Longrightarrow> outcome_body oid st disp rc err reason observed now d = Done u d' \<Longrightarrow>
     body_keeps env ep d d'"
  "record_recovery_body env ep' oid obs started completed outc details next_at res rc facts now d = Done u d' \<Longrightarrow>
     body_keeps env ep d d'"
  subgoal by (auto simp: body_keeps_def intro: admit_moves_on admit_body_ok elim: admit_bodyE)
  subgoal by (auto simp: body_keeps_def mark_dispatch_moves_on mark_dispatch_body_ok)
      (auto simp: mark_dispatch_body_def Let_def split: sum.splits if_splits)
  subgoal by (auto simp: body_keeps_def outcome_moves_on outcome_body_ok)
      (auto simp: outcome_body_def Let_def split: if_splits)
  subgoal by (auto simp: body_keeps_def record_recovery_moves_on record_recovery_body_ok)
      (auto simp: record_recovery_body_def Let_def record_check_def
        split: option.splits sum.splits if_splits elim!: apply_resolution_InrE)
  done

lemma journal_ok_file_ok: "journal_ok env d \<Longrightarrow> file_ok env d"
  by (simp add: journal_ok_def file_ok_def)

lemma add_startup_reviews_keeps: "body_keeps env ep d (add_startup_reviews d)"
  by (auto simp: body_keeps_def reviews_add_startup journal_ok_file_ok
      intro!: moves_on_same_rows file_ok_add_startup_reviews)

lemma block_late_order_keeps:
  "oid \<in> operation_id ` set (operations d) \<Longrightarrow>
   body_keeps env ep d (d\<lparr>reviews := insert_ignore (oid, ''LATE_ORDER_FOUND'') (reviews d)\<rparr>)"
  by (auto simp: body_keeps_def intro!: moves_on_same_rows journal_ok_reviews)
    (auto simp: journal_ok_def keys_ok_def ids_def)

lemma health_flags: "health writable io s = (h, t) \<Longrightarrow> t = s \<or> t = s\<lparr>failed := True\<rparr>"
  by (auto simp: health_def connection_def split: if_splits)

lemma call_step_evolves: "call_step s t \<Longrightarrow> evolves s t"
proof (induction rule: call_step.induct)
  case (3 st reason io s oid disp rc err observed now u t)
  then show ?case
    by (auto simp: outcome_def bodies_keep(3) split: sum.splits intro: transaction_evolves)
next
  case (4 io s oid u t)
  then show ?case
    by (auto simp: block_late_order_def block_late_order_keeps split: if_splits intro!: transaction_evolves)
next
  case (6 writable io s h t)
  from 6 obtain r s' where tr: "transaction io s (\<lambda>d. Done () (add_startup_reviews d)) = (r, s')"
    and "t = s' \<or> t = s'\<lparr>reviewed := True\<rparr> \<or> t = s'\<lparr>reviewed := True, failed := True\<rparr>"
    by (auto simp: review_def split: prod.splits sum.splits dest!: health_flags)
  then show ?case using transaction_evolves [OF tr] add_startup_reviews_keeps by auto
next
  case (7 writable io s hr t)
  then show ?case by (auto dest!: health_flags)
qed (auto simp: admit_def mark_dispatch_def record_recovery_def lookup_def unobserved_modifications_def
      recovery_rows_def close_def bodies_keep Let_def split: sum.splits intro!: transaction_evolves)

lemma evolves_ok:
  assumes "evolves s t" "store_ok s"
  shows "store_ok t"
proof -
  have leftovers: "operation_id r' \<in> fst ` set (reviews (db t))"
    if r': "r' \<in> set (operations (db t))" "state r' = ADMITTED" "admission_epoch r' \<noteq> epoch s" for r'
  proof -
    obtain r where "r \<in> set (operations (db s))" "row_moves (db s) (db t) r r'"
      using assms(1) r' by (auto simp: evolves_def body_keeps_def moves_on_def)
    with assms(2) r' show ?thesis by (auto simp: row_moves_def store_ok_def leftovers_blocked_def)
  qed
  with assms show ?thesis
    by (auto simp: evolves_def body_keeps_def store_ok_def leftovers_blocked_def)
qed

text \<open>The journal's store is a guarded system: every run, restarts included, keeps its invariant.\<close>

interpretation journal: guarded_system store_start store_step store_ok
proof unfold_locales
  show "store_ok s" if "store_start s" for s
    using that by (auto simp: store_start_def intro: open_store_ok)
  show "store_ok t" if "store_ok s" "store_step s t" for s t
    using that(2)
  proof cases
    case call
    with that(1) show ?thesis by (blast intro: evolves_ok call_step_evolves)
  next
    case restart
    then show ?thesis
      by (rule open_store_ok) (use that(1) in \<open>simp add: file_of_def store_ok_def journal_ok_file_ok\<close>)
  qed
qed

lemma store_step_moves_on: "store_step s t \<Longrightarrow> \<exists>ep. moves_on ep (db s) (db t)"
proof (induction rule: store_step.induct)
  case (call s t)
  then show ?case using call_step_evolves by (auto simp: evolves_def body_keeps_def)
next
  case (restart s create wait locked io ep t)
  then show ?case
    using open_store_Inr(1) [OF restart] startup_moves_on by (simp add: file_of_def migrate_def)
qed

text \<open>An operation that is no longer awaiting dispatch: it is known and has left \<open>ADMITTED\<close>.\<close>

definition past_dispatch :: "string \<Rightarrow> store \<Rightarrow> bool" where
  "past_dispatch oid s \<longleftrightarrow> oid \<in> ids (db s) \<and> (\<forall>r \<in> set (operations (db s)).
     operation_id r = oid \<longrightarrow> state r \<noteq> ADMITTED)"

lemma past_dispatch_step:
  assumes "store_step s t" "past_dispatch oid s"
  shows "past_dispatch oid t"
proof -
  obtain ep where m: "moves_on ep (db s) (db t)" using store_step_moves_on [OF assms(1)] by blast
  have "state r' \<noteq> ADMITTED" if "r' \<in> set (operations (db t))" "operation_id r' = oid" for r'
    using m that assms(2) unfolding moves_on_def past_dispatch_def row_moves_def by metis
  with m assms(2) show ?thesis by (auto simp: past_dispatch_def moves_on_def)
qed

text \<open>The account of an operation is fixed by its admission: every row of it, in every later state, carries it.\<close>

definition recorded_for :: "string \<Rightarrow> string \<Rightarrow> store \<Rightarrow> bool" where
  "recorded_for oid acc s \<longleftrightarrow> oid \<in> ids (db s) \<and> (\<forall>r \<in> set (operations (db s)). operation_id r = oid \<longrightarrow> account r = acc)"

lemma recorded_for_step:
  assumes "store_step s t" "recorded_for oid acc s"
  shows "recorded_for oid acc t"
proof -
  obtain ep where m: "moves_on ep (db s) (db t)" using store_step_moves_on [OF assms(1)] by blast
  have "account r' = acc" if "r' \<in> set (operations (db t))" "operation_id r' = oid" for r'
    using m that assms(2) unfolding moves_on_def recorded_for_def row_moves_def by metis
  with m assms(2) show ?thesis by (auto simp: recorded_for_def moves_on_def)
qed

lemma recorded_for_calls:
  assumes "call_step\<^sup>*\<^sup>* s t" "recorded_for oid acc s"
  shows "recorded_for oid acc t"
  using assms by (induction rule: rtranclp_induct) (auto intro: recorded_for_step store_step.call)

lemma recorded_for_row: "recorded_for oid acc s \<Longrightarrow> \<exists>v. row_of (db s) oid = Some v \<and> account (row v) = acc"
  using row_of_None_iff [of "db s" oid] row_of_SomeD [of "db s" oid]
  by (cases "row_of (db s) oid") (auto simp: recorded_for_def)

subsection \<open>A sample run\<close>

text \<open>A new SIMULATE journal, reviewed, with one admitted and then dispatched placement: the concrete
  stores of the witnesses.\<close>

definition no_file :: journal_file where
  "no_file = \<lparr>present = False, user_version = 0, metadata = [], intact = True, contents = empty_journal\<rparr>"

definition sample_open :: store where
  "sample_open = projr (open_store ''SIMULATE'' True 5000 False True ''e1'' no_file)"

definition sample_ready :: store where
  "sample_ready = snd (review True True sample_open)"

definition sample_admitted :: store where
  "sample_admitted = snd (admit (\<lambda>t. t) True sample_ready ''op1'' ''e1'' 7 PLACE ''c'' [] ''tag1'' 100)"

definition sample_dispatched :: store where
  "sample_dispatched = snd (mark_dispatch True sample_admitted ''op1'' [])"

lemma sample_start: "store_start sample_open"
  unfolding store_start_def
  by (rule exI [of _ "''SIMULATE''"], rule exI [of _ True], rule exI [of _ 5000], rule exI [of _ False],
      rule exI [of _ True], rule exI [of _ "''e1''"], rule exI [of _ no_file])
    (simp add: sample_open_def open_store_def no_file_def empty_journal_def)

lemma sample_run: "store_step\<^sup>*\<^sup>* sample_open sample_admitted"
proof -
  have "store_step sample_open sample_ready"
    unfolding sample_ready_def
    by (rule store_step.call, rule call_step.intros(6) [where writable = True and io = True]) (rule prod.collapse [symmetric])
  moreover have "store_step sample_ready sample_admitted"
    unfolding sample_admitted_def
    by (rule store_step.call, rule call_step.intros(1)) (rule prod.collapse [symmetric])
  ultimately show ?thesis by auto
qed

lemma sample_dispatch_step: "store_step sample_admitted sample_dispatched"
  unfolding sample_dispatched_def
  by (rule store_step.call, rule call_step.intros(2)) (rule prod.collapse [symmetric])

lemma sample_dispatch_ok: "mark_dispatch True sample_admitted ''op1'' [] = (ok, sample_dispatched)"
proof -
  have "fst (mark_dispatch True sample_admitted ''op1'' []) = ok" by code_simp
  then show ?thesis unfolding sample_dispatched_def by (metis prod.collapse)
qed

subsection \<open>Properties of the journal\<close>

text \<open>C21. Across every run of a journal, restarts included, an operation is dispatched at most once:
  after \<open>mark_dispatch\<close> has committed for it, no later call commits again, and no later admission treats
  its identifier as new.\<close>

theorem dispatch_at_most_once:
  assumes "store_start s0" "store_step\<^sup>*\<^sup>* s0 s"
    and "mark_dispatch io s oid merged = (ok, s1)" "store_step\<^sup>*\<^sup>* s1 s2"
  shows "fst (mark_dispatch io' s2 oid merged') \<noteq> ok
    \<and> fst (admit sha256 io'' s2 oid ep acc k canon req uuid now) \<noteq> Inr (v, True)"
proof -
  let ?hit = "\<lambda>r. operation_id r = oid \<and> state r = ADMITTED"
  have ok: "store_ok s" using assms(1,2) by (rule journal.reachable_invar)
  have step: "store_step s s1" using assms(3) by (intro store_step.call call_step.intros(2))
  have hit: "length (filter ?hit (operations (db s))) = 1"
    and s1: "operations (db s1) = update_rows ?hit (dispatch_row merged) (operations (db s))"
    using assms(3) unfolding mark_dispatch_def
    by (auto elim!: transaction_cases simp: mark_dispatch_body_def Let_def split: sum.splits if_splits)
  have "filter ?hit (operations (db s)) \<noteq> []" using hit by auto
  then obtain r where r: "r \<in> set (operations (db s))" "?hit r"
    by (auto simp: filter_empty_conv)
  have "past_dispatch oid s1"
    using r by (auto simp: past_dispatch_def ids_def s1 map_update_rows_keeps)
      (auto simp: set_update_rows dispatch_row_def)
  then have past: "past_dispatch oid s2"
    using journal.run_stable [of "past_dispatch oid", OF _ assms(4)] past_dispatch_step
      journal.step_invar [OF ok step] by blast
  have "fst (mark_dispatch io' s2 oid merged') \<noteq> ok"
  proof
    assume "fst (mark_dispatch io' s2 oid merged') = ok"
    then have "filter ?hit (operations (db s2)) \<noteq> []"
      unfolding mark_dispatch_def
      by (cases "transaction io' s2 (mark_dispatch_body oid merged')")
        (auto elim!: transaction_cases simp: mark_dispatch_body_def Let_def split: sum.splits if_splits)
    with past show False by (auto simp: past_dispatch_def filter_empty_conv)
  qed
  moreover have "fst (admit sha256 io'' s2 oid ep acc k canon req uuid now) \<noteq> Inr (v, True)"
    using past unfolding admit_def
    by (cases "transaction io'' s2 (admit_body sha256 s2 oid ep acc k canon req uuid now)")
      (auto elim!: transaction_cases admit_bodyE simp: row_of_None_iff past_dispatch_def)
  ultimately show ?thesis by blast
qed

theorem dispatch_at_most_once_witness:
  "\<forall>v. fst (mark_dispatch True sample_dispatched ''op1'' []) \<noteq> ok
   \<and> fst (admit (\<lambda>t. t) True sample_dispatched ''op1'' ''e1'' 7 PLACE ''c'' [] ''tag2'' 101) \<noteq> Inr (v, True)"
  using dispatch_at_most_once [OF sample_start sample_run sample_dispatch_ok rtranclp.rtrancl_refl] by blast

text \<open>C25. After a restart every dispatch that was in flight is an unknown outcome that was possibly
  sent: it is never presented as not sent, it awaits review, and no new operation is admitted.\<close>

theorem restart_blocks_interrupted_dispatch:
  assumes "store_start s0" "store_step\<^sup>*\<^sup>* s0 s"
    and open_it: "open_store (environment s) create wait locked io ep (file_of s) = Inr t"
    and r: "r \<in> set (operations (db s))" "state r = DISPATCHING"
  shows "(\<exists>v. row_of (db t) (operation_id r) = Some v \<and> state (row v) = UNKNOWN_OUTCOME
        \<and> disposition (row v) = ''POSSIBLY_SENT'' \<and> marker (row v) \<and> recovery_pending v)
    \<and> (oid \<notin> ids (db t) \<longrightarrow> (\<exists>e. fst (admit sha256 io' t oid ep' acc k canon req uuid now) = Inl e))
    \<and> health_state (fst (health writable io' t)) = JOURNAL_BLOCKED"
proof -
  have ok: "journal_ok (environment s) (db s)"
    using journal.reachable_invar [OF assms(1,2)] by (simp add: store_ok_def)
  have db: "db t = startup ep (db s)" and flags: "\<not> reviewed t"
    using open_store_Inr [OF open_it] by (simp_all add: file_of_def migrate_def)
  have find: "find_row operation_id (operation_id r) (operations (db t)) = Some (interrupted_row r)"
    using find_row_distinct [OF journal_okD(1) [OF ok] r(1)] r(2)
    by (simp add: db operations_startup find_row_update_rows interrupted_row_def)
  have pending: "(operation_id r, ''RECOVERED_DISPATCH'') \<in> set (reviews (db t))"
    using r by (auto simp: db reviews_startup)
  have "marker r" using journal_okD(2) [OF ok r(1)] r(2) by (simp add: row_ok_def)
  with find pending have "\<exists>v. row_of (db t) (operation_id r) = Some v \<and> state (row v) = UNKNOWN_OUTCOME
       \<and> disposition (row v) = ''POSSIBLY_SENT'' \<and> marker (row v) \<and> recovery_pending v"
    by (force simp: row_of_def interrupted_row_def)
  moreover have "\<exists>e. fst (admit sha256 io' t oid ep' acc k canon req uuid now) = Inl e" if "oid \<notin> ids (db t)"
    using that flags unfolding admit_def
    by (cases "transaction io' t (admit_body sha256 t oid ep' acc k canon req uuid now)")
      (auto elim!: transaction_cases admit_bodyE simp: row_of_None_iff [symmetric])
  moreover have "filter (\<lambda>x. snd x \<noteq> ''STARTUP_REVIEW'') (reviews (db t)) \<noteq> []"
    using pending by (force simp: filter_empty_conv)
  then have "health_state (fst (health writable io' t)) = JOURNAL_BLOCKED"
    by (auto simp: health_def connection_def failed_report_def healthy_report_def Let_def)
  ultimately show ?thesis by blast
qed

definition sample_restarted :: store where
  "sample_restarted = projr (open_store ''SIMULATE'' False 5000 False True ''e2'' (file_of sample_dispatched))"

theorem restart_blocks_interrupted_dispatch_witness:
  "\<exists>v. row_of (db sample_restarted) ''op1'' = Some v \<and> state (row v) = UNKNOWN_OUTCOME
       \<and> disposition (row v) = ''POSSIBLY_SENT'' \<and> marker (row v) \<and> recovery_pending v"
proof -
  have run: "store_step\<^sup>*\<^sup>* sample_open sample_dispatched"
    using sample_run sample_dispatch_step by (rule rtranclp.rtrancl_into_rtrancl)
  define r where "r = hd (operations (db sample_dispatched))"
  have r: "r \<in> set (operations (db sample_dispatched))" "state r = DISPATCHING" "operation_id r = ''op1''"
  proof -
    have "operations (db sample_dispatched) \<noteq> []" by code_simp
    then show "r \<in> set (operations (db sample_dispatched))" by (simp add: r_def)
    show "state r = DISPATCHING" "operation_id r = ''op1''" unfolding r_def by code_simp+
  qed
  have "environment sample_dispatched = ''SIMULATE''" by code_simp
  moreover have "isl (open_store ''SIMULATE'' False 5000 False True ''e2'' (file_of sample_dispatched)) = False"
    by code_simp
  ultimately have "open_store (environment sample_dispatched) False 5000 False True ''e2'' (file_of sample_dispatched)
      = Inr sample_restarted"
    by (simp add: sample_restarted_def)
  from restart_blocks_interrupted_dispatch [OF sample_start run this r(1,2)] r(3) show ?thesis by metis
qed


text \<open>C26. Every reachable store is well formed: operation identifiers, epochs, order tags and reviews
  are unique, every review, check and audit names a known operation, an operation awaiting dispatch is
  unmarked and one in flight is marked, every unresolved unknown outcome has a review, and every
  admission of an earlier process awaits review.\<close>

theorem reachable_store_ok:
  assumes "store_start s" "store_step\<^sup>*\<^sup>* s t"
  shows "store_ok t"
  using assms by (rule journal.reachable_invar)

theorem reachable_store_ok_witness: "store_ok sample_admitted"
  using reachable_store_ok [OF sample_start sample_run] .

lemma health_ready_iff:
  "health_state (fst (health writable io s)) = READY \<longleftrightarrow>
     writable \<and> io \<and> \<not> closed s \<and> \<not> failed s \<and> reviewed s \<and> reviews (db s) = []"
  by (auto simp: health_def connection_def failed_report_def healthy_report_def Let_def)

lemma require_ready_iff:
  "fst (require_ready writable io s) = ok \<longleftrightarrow>
     writable \<and> io \<and> \<not> closed s \<and> \<not> failed s \<and> reviewed s \<and> reviews (db s) = []"
  by (auto simp: require_ready_def health_ready_iff [symmetric] split: prod.splits)

text \<open>A store passes \<open>require_ready\<close> exactly when its file is writable, its storage works, it is
  open, its review has run and no review requirement is outstanding. Then, in a reachable store, every
  unknown outcome has been resolved by recovery and no admission of an earlier process is undecided.\<close>

theorem ready_means_resolved:
  assumes "store_start s" "store_step\<^sup>*\<^sup>* s t"
  shows "(fst (require_ready writable io t) = ok \<longleftrightarrow>
           writable \<and> io \<and> \<not> closed t \<and> \<not> failed t \<and> reviewed t \<and> reviews (db t) = [])
    \<and> (fst (require_ready writable io t) = ok \<longrightarrow>
        (\<forall>r \<in> set (operations (db t)).
           (state r = UNKNOWN_OUTCOME \<longrightarrow> recovery_disposition r \<noteq> None)
         \<and> (state r = ADMITTED \<longrightarrow> admission_epoch r = epoch t)))"
  using journal.reachable_invar [OF assms] unfolding require_ready_iff
  by (auto simp: store_ok_def journal_ok_def unknown_blocked_def leftovers_blocked_def)

theorem ready_means_resolved_witness:
  "fst (require_ready True True sample_admitted) = ok
   \<and> state (hd (operations (db sample_admitted))) = ADMITTED
   \<and> admission_epoch (hd (operations (db sample_admitted))) = epoch sample_admitted"
proof -
  have "fst (require_ready True True sample_admitted) = ok"
    and st: "state (hd (operations (db sample_admitted))) = ADMITTED"
    and ops: "operations (db sample_admitted) \<noteq> []" by code_simp+
  with ready_means_resolved [OF sample_start sample_run, of True True]
  have "\<forall>r \<in> set (operations (db sample_admitted)). state r = ADMITTED \<longrightarrow> admission_epoch r = epoch sample_admitted"
    by blast
  with st ops list.set_sel(1) [OF ops] \<open>fst (require_ready True True sample_admitted) = ok\<close>
  show ?thesis by blast
qed

text \<open>\<open>admit\<close> on working storage. A known identifier returns the stored row and changes nothing,
  whatever else the call says. A new one is accepted exactly when its token is of the current epoch, the
  review has run, no review is outstanding, the request is JSON and the table's constraints hold; then
  one \<open>ADMITTED\<close> row is added, with a tag when the operation places an order.\<close>

theorem admit_exact:
  assumes "\<not> closed s" "\<not> failed s"
    and r: "r = new_operation oid ep acc k canon (sha256 canon) req
              (if k \<in> {PLACE, PLACE_COMBO} then Some uuid else None) now"
  shows "(admit sha256 True s oid ep acc k canon req uuid now = (Inr (v, False), t) \<longleftrightarrow>
            row_of (db s) oid = Some v \<and> t = s)
    \<and> (admit sha256 True s oid ep acc k canon req uuid now = (Inr (v, True), t) \<longleftrightarrow>
         oid \<notin> ids (db s) \<and> ep = epoch s \<and> reviewed s \<and> reviews (db s) = []
         \<and> json_check (as_dict req) = ok \<and> insertion_allowed (db s) r
         \<and> t = s\<lparr>db := (db s)\<lparr>operations := operations (db s) @ [r]\<rparr>\<rparr> \<and> row_of (db t) oid = Some v)"
proof -
  have found: "row_of ((db s)\<lparr>operations := operations (db s) @ [r]\<rparr>) oid \<noteq> None"
    by (simp add: row_of_None_iff ids_def r new_operation_def)
  show ?thesis
    unfolding admit_def transaction_healthy [OF assms(1,2) TrueI] admit_body_def Let_def r [symmetric]
    using found
    by (auto simp: row_of_None_iff [symmetric] split: option.splits sum.splits body.splits)
qed

definition sample_row :: operation where
  "sample_row = new_operation ''op1'' ''e1'' 7 PLACE ''c'' ''c'' [] (Some ''tag1'') 100"

theorem admit_exact_witness:
  "admit (\<lambda>t. t) True sample_ready ''op1'' ''e1'' 7 PLACE ''c'' [] ''tag1'' 100
     = (Inr (\<lparr>row = sample_row, accounted_facts = None, recovery_pending = False, recovery_checks = []\<rparr>, True),
        sample_ready\<lparr>db := (db sample_ready)\<lparr>operations := [sample_row]\<rparr>\<rparr>)"
proof -
  have flags: "\<not> closed sample_ready" "\<not> failed sample_ready" by code_simp+
  have r: "sample_row = new_operation ''op1'' ''e1'' 7 PLACE ''c'' ((\<lambda>t. t) ''c'') []
      (if PLACE \<in> {PLACE, PLACE_COMBO} then Some ''tag1'' else None) 100"
    by (simp add: sample_row_def)
  have ready: "operations (db sample_ready) = []" "epoch sample_ready = ''e1''" "reviewed sample_ready"
    "reviews (db sample_ready) = []" "insertion_allowed (db sample_ready) sample_row"
    "checks (db sample_ready) = []" "audits (db sample_ready) = []"
    by code_simp+
  have "row_of ((db sample_ready)\<lparr>operations := [sample_row]\<rparr>) ''op1'' =
     Some \<lparr>row = sample_row, accounted_facts = None, recovery_pending = False, recovery_checks = []\<rparr>"
    using ready by (simp add: row_of_def sample_row_def new_operation_def)
  with admit_exact [where ?sha256.0 = "\<lambda>t. t", OF flags r] ready show ?thesis by (simp add: ids_def)
qed

text \<open>An assumed absence is never recorded without its evidence: in a reachable store every
  operation so resolved belongs to a SIMULATE journal, is a tagged placement, and has at least five
  durable negative checks. A REAL journal holds none.\<close>

theorem assumed_absence_has_evidence:
  assumes "store_start s" "store_step\<^sup>*\<^sup>* s t" "r \<in> set (operations (db t))"
    and "recovery_disposition r = Some ASSUMED_ABSENT"
  shows "environment t = ''SIMULATE'' \<and> kind r = PLACE \<and> order_tag r \<noteq> None
    \<and> 5 \<le> negatives_of (db t) (operation_id r)"
  using journal.reachable_invar [OF assms(1,2)] assms(3,4)
  by (auto simp: store_ok_def journal_ok_def row_ok_def)

text \<open>A SIMULATE journal left with an admitted placement that four checks did not find.\<close>

definition sample_checks :: journal where
  "sample_checks = \<lparr>epochs = [''e1''], operations = [sample_row], reviews = [], audits = [],
     checks = replicate 4 \<lparr>check_operation = ''op1'', started_at = 0, completed_at = 0,
       check_outcome = ''NOT_FOUND'', check_details = []\<rparr>\<rparr>"

definition sample_reopened :: store where
  "sample_reopened = projr (open_store ''SIMULATE'' False 5000 False True ''e2''
     \<lparr>present = True, user_version = 3, metadata = [''SIMULATE''], intact = True, contents = sample_checks\<rparr>)"

definition sample_absent :: store where
  "sample_absent = snd (record_recovery True sample_reopened ''op1'' ADMITTED 0 0 ''NOT_FOUND'' [] 0
     (Some ASSUMED_ABSENT) None None 100)"

lemma sample_reopened_start: "store_start sample_reopened"
proof -
  have "file_ok ''SIMULATE'' sample_checks"
    by (simp add: file_ok_def keys_ok_def ids_def row_ok_def map_filter_def sample_checks_def sample_row_def
        new_operation_def)
  moreover have "open_store ''SIMULATE'' False 5000 False True ''e2''
     \<lparr>present = True, user_version = 3, metadata = [''SIMULATE''], intact = True, contents = sample_checks\<rparr>
     = Inr sample_reopened"
    by (simp add: sample_reopened_def open_store_def sample_checks_def)
  ultimately show ?thesis unfolding store_start_def by (metis journal_file.select_convs(5))
qed

theorem assumed_absence_has_evidence_witness:
  "recovery_disposition (hd (operations (db sample_absent))) = Some ASSUMED_ABSENT
   \<and> 5 \<le> negatives_of (db sample_absent) (operation_id (hd (operations (db sample_absent))))"
proof -
  have "store_step sample_reopened sample_absent"
    unfolding sample_absent_def
    by (rule store_step.call, rule call_step.intros(5)) (rule prod.collapse [symmetric])
  then have run: "store_step\<^sup>*\<^sup>* sample_reopened sample_absent" by blast
  have "operations (db sample_absent) \<noteq> []"
    and absent: "recovery_disposition (hd (operations (db sample_absent))) = Some ASSUMED_ABSENT"
    by code_simp+
  then have "hd (operations (db sample_absent)) \<in> set (operations (db sample_absent))" by simp
  from assumed_absence_has_evidence [OF sample_reopened_start run this absent] absent show ?thesis by blast
qed

text \<open>A storage failure is permanent for the process: once a store has failed (or was closed), no
  sequence of calls changes its journal or clears the failure; only a restart opens it again.\<close>

theorem storage_failure_sticky:
  assumes "call_step\<^sup>*\<^sup>* s t" "failed s"
  shows "failed t \<and> db t = db s"
  using assms
proof (induction rule: rtranclp_induct)
  case (step t u)
  then have f: "failed t" and d: "db t = db s" by simp_all
  from step.hyps(2) have "failed u \<and> db u = db t"
  proof (cases rule: call_step.cases)
    case (6 writable io h)
    then show ?thesis using f transaction_unavailable [of t io "\<lambda>d. Done () (add_startup_reviews d)"]
      by (auto simp: review_def)
  qed (use f in \<open>auto simp: admit_def mark_dispatch_def outcome_def block_late_order_def record_recovery_def
        lookup_def unobserved_modifications_def recovery_rows_def close_def transaction_def connection_def
        split: sum.splits if_splits dest!: health_flags\<close>)
  with d show ?case by simp
qed simp

theorem storage_failure_sticky_witness:
  "failed (snd (lookup True (snd (mark_dispatch False sample_admitted ''op1'' [])) ''op1''))
   \<and> db (snd (lookup True (snd (mark_dispatch False sample_admitted ''op1'' [])) ''op1''))
     = db (snd (mark_dispatch False sample_admitted ''op1'' []))"
proof (rule storage_failure_sticky)
  show "call_step\<^sup>*\<^sup>* (snd (mark_dispatch False sample_admitted ''op1'' []))
      (snd (lookup True (snd (mark_dispatch False sample_admitted ''op1'' [])) ''op1''))"
    by (rule r_into_rtranclp, rule call_step.intros(8)) (rule prod.collapse [symmetric])
  show "failed (snd (mark_dispatch False sample_admitted ''op1'' []))" by code_simp
qed


text \<open>\<open>outcome\<close> on working storage, for a known operation and a JSON receipt, is durable and exact:
  the row then carries the state, disposition, receipt and error of the call and the broker's order
  identifier where the receipt has one; a review is pending exactly when the call gives a reason or one
  already was; every other row is unchanged but for the mark of an observed modification.\<close>

theorem outcome_recorded:
  assumes "\<not> closed s" "\<not> failed s" and ok: "journal_ok env (db s)" and oid: "row_of (db s) oid = Some v"
    and json: "case rc of None \<Rightarrow> True | Some rd \<Rightarrow> json_check (as_dict rd) = ok"
  shows "\<exists>t w. outcome True s oid st disp rc err reason observed now = (ok, t) \<and> row_of (db t) oid = Some w
    \<and> state (row w) = st \<and> disposition (row w) = disp \<and> receipt (row w) = rc \<and> error (row w) = err
    \<and> broker_order_id (row w) = coalesce (receipt_text rc ''order_id'') (broker_order_id (row v))
    \<and> merged_request (row w) = merged_request (row v) \<and> marker (row w) = marker (row v)
    \<and> recovery_pending w = (recovery_pending v \<or> reason \<notin> {None, Some []})
    \<and> (\<forall>q. q \<noteq> oid \<longrightarrow> map_option (\<lambda>v. (row v)\<lparr>modification_observed := True\<rparr>) (row_of (db t) q)
                   = map_option (\<lambda>v. (row v)\<lparr>modification_observed := True\<rparr>) (row_of (db s) q))"
proof -
  define hit where "hit = (\<lambda>r :: operation. operation_id r \<in> set observed \<and> kind r = MODIFY \<and> state r = ACKNOWLEDGED)"
  define ops where "ops = update_rows (\<lambda>r. st = ACKNOWLEDGED \<and> hit r) observe_row
      (update_rows (\<lambda>r. operation_id r = oid) (outcome_row st disp rc err now) (operations (db s)))"
  define revs where "revs = (if reason \<notin> {None, Some []} then insert_ignore (oid, the reason) (reviews (db s))
      else reviews (db s))"
  define t where "t = s\<lparr>db := (db s)\<lparr>operations := ops, reviews := revs\<rparr>\<rparr>"
  have known: "oid \<in> operation_id ` set (operations (db s))"
    using row_of_SomeD [OF oid] by (simp add: ids_def)
  have "outcome True s oid st disp rc err reason observed now = (ok, t)"
    unfolding outcome_def transaction_healthy [OF assms(1,2) TrueI] outcome_body_def Let_def
    using json known
    by (cases rc; cases reason) (auto simp: t_def ops_def revs_def hit_def)
  moreover have find: "find_row operation_id q ops = map_option
      (\<lambda>r. let u = (if operation_id r = oid then outcome_row st disp rc err now r else r) in
           if st = ACKNOWLEDGED \<and> hit u then observe_row u else u)
      (find_row operation_id q (operations (db s)))" for q
    unfolding ops_def
    by (subst find_row_update_rows, simp add: observe_row_def, subst find_row_update_rows,
        simp add: outcome_row_def) (simp add: option.map_comp comp_def Let_def)
  moreover have "recovery_pending v = (oid \<in> fst ` set (reviews (db s)))"
    using oid by (force simp: row_of_def split: option.splits)
  moreover have "(\<exists>x \<in> set revs. fst x = oid) = (oid \<in> fst ` set (reviews (db s)) \<or> reason \<notin> {None, Some []})"
    by (force simp: revs_def)
  moreover have "map_option (\<lambda>v. (row v)\<lparr>modification_observed := True\<rparr>) (row_of (db t) q)
      = map_option (\<lambda>v. (row v)\<lparr>modification_observed := True\<rparr>) (row_of (db s) q)" if "q \<noteq> oid" for q
    using that find_row_SomeD [of operation_id q "operations (db s)"]
    by (cases "find_row operation_id q (operations (db s))")
      (auto simp: row_of_def t_def find Let_def observe_row_def)
  ultimately show ?thesis
    using row_of_SomeD [OF oid]
    by (intro exI [of _ t] exI [of _ "the (row_of (db t) oid)"])
      (auto simp: row_of_def t_def find Let_def outcome_row_def observe_row_def)
qed


theorem outcome_recorded_witness:
  "\<exists>t w. outcome True sample_dispatched ''op1'' UNKNOWN_OUTCOME ''POSSIBLY_SENT'' None None (Some ''UNRESOLVED_OUTCOME'')
      [] 101 = (ok, t) \<and> row_of (db t) ''op1'' = Some w \<and> state (row w) = UNKNOWN_OUTCOME \<and> recovery_pending w"
proof -
  have flags: "\<not> closed sample_dispatched" "\<not> failed sample_dispatched" by code_simp+
  have ok: "journal_ok (environment sample_dispatched) (db sample_dispatched)"
    using journal.reachable_invar [OF sample_start rtranclp.rtrancl_into_rtrancl [OF sample_run sample_dispatch_step]]
    by (simp add: store_ok_def)
  have "''op1'' \<in> ids (db sample_dispatched)" by code_simp
  then obtain v where v: "row_of (db sample_dispatched) ''op1'' = Some v"
    by (cases "row_of (db sample_dispatched) ''op1''") (simp_all add: row_of_None_iff)
  show ?thesis
    using outcome_recorded [OF flags ok v, of None UNKNOWN_OUTCOME "''POSSIBLY_SENT''" None
        "Some ''UNRESOLVED_OUTCOME''" "[]" 101] by auto
qed

text \<open>\<open>record_recovery\<close> is one transaction. When it raises, the journal is unchanged. When it
  commits a disposition, the operation was in the state the caller observed, one check and one audit
  with that disposition are added, the operation's review requirements and no others are released, and
  its state is one the disposition allows: never one that awaits or is in dispatch.\<close>

theorem record_recovery_atomic:
  assumes "record_recovery io s oid observed started completed outc details next_at resolution rc facts now = (r, t)"
  shows "(r \<noteq> ok \<longrightarrow> db t = db s)
    \<and> (r = ok \<longrightarrow> (\<exists>v. row_of (db s) oid = Some v \<and> state (row v) = observed)
        \<and> length (checks (db t)) = length (checks (db s)) + 1
        \<and> (case resolution of
             None \<Rightarrow> audits (db t) = audits (db s) \<and> reviews (db t) = reviews (db s)
               \<and> map state (operations (db t)) = map state (operations (db s))
           | Some res \<Rightarrow> (\<exists>a. audits (db t) = audits (db s) @ [a] \<and> audit_operation a = oid
                \<and> audit_resolution a = res)
               \<and> reviews (db t) = filter (\<lambda>x. fst x \<noteq> oid) (reviews (db s))
               \<and> (\<forall>q \<in> set (operations (db t)). operation_id q = oid \<longrightarrow>
                    recovery_disposition q = Some res \<and> state q \<notin> {ADMITTED, DISPATCHING}
                    \<and> (state q = UNKNOWN_OUTCOME \<longleftrightarrow> res = ASSUMED_ABSENT)
                    \<and> (state q = REFUSED \<longleftrightarrow> res = ''NOT_DISPATCHED''))))"
  using assms unfolding record_recovery_def
proof (cases rule: transaction_cases)
  case (committed u d)
  define d1 where "d1 = record_check oid started completed outc details next_at now (db s)"
  obtain v where v: "row_of (db s) oid = Some v" "state (row v) = observed"
    using committed(2)
    by (auto simp: record_recovery_body_def Let_def split: option.splits if_splits)
  have vid: "operation_id (row v) = oid" using row_of_SomeD [OF v(1)] by blast
  have d1: "length (checks d1) = length (checks (db s)) + 1" "audits d1 = audits (db s)"
    "reviews d1 = reviews (db s)" "map state (operations d1) = map state (operations (db s))"
    by (simp_all add: d1_def record_check_def update_rows_def)
  show ?thesis
  proof (cases resolution)
    case None
    with committed v have "db t = d1"
      by (auto simp: record_recovery_body_def Let_def d1_def split: if_splits sum.splits)
    with d1 v None show ?thesis using committed(1) by simp
  next
    case (Some res)
    with committed(2) v have "apply_resolution (environment s) (epoch s) v res outc details observed rc facts d1 = Inr d"
      by (auto simp: record_recovery_body_def Let_def d1_def split: if_splits sum.splits)
    then show ?thesis
    proof (cases rule: apply_resolution_InrE)
      case (1 st disp a b au)
      from 1(1) have st: "st \<notin> {ADMITTED, DISPATCHING}" "st = UNKNOWN_OUTCOME \<longleftrightarrow> res = ASSUMED_ABSENT"
        "st = REFUSED \<longleftrightarrow> res = ''NOT_DISPATCHED''"
        using BROKER_RESOLUTIONS_not_absent
        by (auto elim!: resolve_Inr_cases simp: BROKER_RESOLUTIONS_def ASSUMED_ABSENT_def)
      have rows: "recovery_disposition q = Some res \<and> state q = st" if "q \<in> set (operations d)" "operation_id q = oid" for q
      proof -
        have "operations d = update_rows (\<lambda>x. operation_id x = oid) (recovery_row st disp res rc a b) (operations d1)"
          by (simp add: 1(5) vid)
        with that(1) have "q \<in> set (update_rows (\<lambda>x. operation_id x = oid) (recovery_row st disp res rc a b) (operations d1))"
          by simp
        then show ?thesis by (cases rule: update_rowsE) (use that(2) in \<open>simp_all add: recovery_row_def\<close>)
      qed
      have t: "db t = d" by (simp add: committed(3))
      have parts: "audits d = audits (db s) @ [au]" "reviews d = filter (\<lambda>x. fst x \<noteq> oid) (reviews (db s))"
        "length (checks d) = length (checks (db s)) + 1"
        using d1(1) by (simp_all add: 1(5) d1(2,3) vid)
      show ?thesis
        unfolding t Some option.case committed(1) parts(2,3)
        using v 1(2,3) vid parts(1) rows st by simp
    qed
  qed
qed auto

theorem record_recovery_atomic_witness:
  "reviews (db sample_absent) = filter (\<lambda>x. fst x \<noteq> ''op1'') (reviews (db sample_reopened))
   \<and> length (checks (db sample_absent)) = length (checks (db sample_reopened)) + 1"
proof -
  have "fst (record_recovery True sample_reopened ''op1'' ADMITTED 0 0 ''NOT_FOUND'' [] 0
     (Some ASSUMED_ABSENT) None None 100) = ok" by code_simp
  then have "record_recovery True sample_reopened ''op1'' ADMITTED 0 0 ''NOT_FOUND'' [] 0
     (Some ASSUMED_ABSENT) None None 100 = (ok, sample_absent)"
    unfolding sample_absent_def by (metis prod.collapse)
  from record_recovery_atomic [OF this] show ?thesis by simp
qed

end
