(* ===== verification/Order_Errors.thy ===== *)
theory Order_Errors
  imports Py_Values
begin

text \<open>
  \<open>services/order_errors.py\<close> and the health view of \<open>services/recovery.py\<close>. A raise carries, besides
  the exception, the \<open>admitted\<close> flag of an \<open>OrderNotSentError\<close>; \<open>not_sent\<close> is the context manager that
  every write method wraps around its work before dispatch.
\<close>

subsection \<open>Outcomes of a write\<close>

text \<open>A raised exception with the mutable \<open>admitted\<close> attribute. Only \<open>OrderNotSentError\<close> has one; it is
  \<open>False\<close> for every other class.\<close>

record raised =
  cause :: exn
  admitted :: bool

type_synonym 'a outcome = "raised + 'a"

definition raises :: "exc \<Rightarrow> string \<Rightarrow> 'a outcome" where
  "raises c t = Inl \<lparr>cause = Exn c t, admitted = False\<rparr>"

fun lift_res :: "'a res \<Rightarrow> 'a outcome" where
  "lift_res (Inl e) = Inl \<lparr>cause = e, admitted = False\<rparr>"
| "lift_res (Inr x) = Inr x"

text \<open>\<open>except (TradingPolicyError, ValueError, TypeError, RuntimeError)\<close>.\<close>

definition pre_dispatch_failure :: "exn \<Rightarrow> bool" where
  "pre_dispatch_failure e \<longleftrightarrow>
     (\<exists>c \<in> {TradingPolicyError, ValueError, TypeError, RuntimeError}. instance_of e c)"

text \<open>The body of the context manager applied to the way its block ended.\<close>

definition not_sent :: "string \<Rightarrow> bool \<Rightarrow> bool \<Rightarrow> 'a outcome \<Rightarrow> 'a outcome" where
  "not_sent operation adm identity_lookup r =
     (case r of Inr x \<Rightarrow> Inr x
      | Inl e \<Rightarrow>
         if instance_of (cause e) OrderNotSentError then Inl (if adm then e\<lparr>admitted := True\<rparr> else e)
         else if instance_of (cause e) OrderOutcomeUnknownError
              \<or> instance_of (cause e) OrderReceiptUnreadableError then Inl e
         else if pre_dispatch_failure (cause e) then
           (if identity_lookup \<and> instance_of (cause e) ExecutionStoreError then Inl e
            else Inl \<lparr>cause = Exn OrderNotSentError operation, admitted = adm\<rparr>)
         else Inl e)"

text \<open>What a caller may conclude from a raised exception about the broker.\<close>

datatype verdict = NotSent | MayBeSent

definition verdict_of :: "exn \<Rightarrow> verdict" where
  "verdict_of e = (if instance_of e OrderNotSentError then NotSent else MayBeSent)"

lemma not_sent_Inr [simp]: "not_sent op adm look (Inr x) = Inr x"
  by (simp add: not_sent_def)

lemma not_sent_Inr_iff: "not_sent op adm look r = Inr x \<longleftrightarrow> r = Inr x"
  by (auto simp: not_sent_def split: sum.splits)

lemma superclasses:
  "pre_dispatch_failure (Exn c t) \<longleftrightarrow> c \<in> {ValueError, TypeError, RuntimeError, TradingPolicyError,
     TradingModeConfigError, ExecutionStoreError, ExecutionConflict, TradingControlError,
     ProviderRateLimitError, TradeQueryError, OrderNotSentError, OrderOutcomeUnknownError,
     OrderReceiptUnreadableError, IdentityTokenValidationError}"
  by (cases c) (auto simp: pre_dispatch_failure_def instance_of_def)

text \<open>The boundary classifies a refused write once and for all. Of the exceptions it knows, the two
  that report a started call pass unchanged, a storage failure of an identity lookup stays a storage
  failure, and every other one becomes "not sent"; a nested "not sent" is kept. The \<open>admitted\<close> mark is
  set exactly when the scope knows the operation was admitted or the inner error says so. Applying the
  boundary a second time changes nothing but that mark.\<close>

theorem not_sent_classifies:
  assumes "pre_dispatch_failure (cause e)" "instance_of (cause e) OrderNotSentError \<or> \<not> admitted e"
  shows "\<exists>e'. not_sent op adm look (Inl e :: 'a outcome) = Inl e'
    \<and> (verdict_of (cause e') = MayBeSent \<longleftrightarrow>
         exn_class (cause e) \<in> {OrderOutcomeUnknownError, OrderReceiptUnreadableError}
         \<or> look \<and> exn_class (cause e) = ExecutionStoreError)
    \<and> (verdict_of (cause e') = MayBeSent \<longrightarrow> e' = e)
    \<and> (admitted e' \<longleftrightarrow> admitted e \<or> adm \<and> verdict_of (cause e') = NotSent)
    \<and> not_sent op' False look (Inl e' :: 'a outcome) = Inl e'"
proof -
  obtain c t where e: "cause e = Exn c t" by (cases "cause e")
  show ?thesis
    using assms unfolding e superclasses
    by (auto simp: not_sent_def e superclasses instance_of_def verdict_of_def)
qed

theorem not_sent_classifies_witness:
  "\<exists>e'. not_sent ''place'' True True (Inl \<lparr>cause = Exn ExecutionStoreError ''x'', admitted = False\<rparr> :: nat outcome)
     = Inl e' \<and> verdict_of (cause e') = MayBeSent"
  using not_sent_classifies [of "\<lparr>cause = Exn ExecutionStoreError ''x'', admitted = False\<rparr>" "''place''" True True]
  by (auto simp: superclasses instance_of_def)

end
