(* ===== verification/Rate_Limit.thy ===== *)
theory Rate_Limit
  imports Py_Float
begin

text \<open>
  \<open>services/rate_limit.py\<close>: rolling-window budgets of provider operations. A limiter holds a
  third-party rolling log (\<open>pyrate_limiter.InMemoryBucket\<close>) of dispatched calls, a second log for the
  spacing of paced operations, the pending reservations and the queue of waiting callers.

  The log is code outside the repository, so its operations are a parameter \<open>B\<close> of the model and what
  the limiter relies on is the predicate \<open>bucket_laws\<close>, the documented behaviour of a rolling-window
  log: \<open>leak\<close> drops the entries older than the window, \<open>put\<close> accepts an entry exactly when fewer than
  the limit lie in the window that ends with it. Reservation objects and waiting tickets are numbers.
  The clock readings of a call are arguments; asynchronous waiting is one round of its loop at a time,
  so that other callers can act in between.
\<close>

subsection \<open>Policies\<close>

record rate_policy =
  rate_operation :: string
  rate_calls :: int
  period_seconds :: pyfloat
  safety_margin_seconds :: pyfloat
  max_wait_seconds :: pyfloat
  min_interval_seconds :: pyfloat

definition finite_non_negative_field :: "string \<Rightarrow> pyfloat \<Rightarrow> unit res" where
  "finite_non_negative_field name x =
     (if \<not> isfinite x \<or> x < Fin 0 then raise ValueError name else ok)"

text \<open>\<open>RateLimitPolicy.__post_init__\<close>.\<close>

definition check_rate_policy :: "rate_policy \<Rightarrow> unit res" where
  "check_rate_policy p =
     bindR (guardR (rate_calls p < 1) (Exn ValueError ''calls'')) (\<lambda>_.
     bindR (finite_non_negative_field ''period_seconds'' (period_seconds p)) (\<lambda>_.
     bindR (finite_non_negative_field ''safety_margin_seconds'' (safety_margin_seconds p)) (\<lambda>_.
     bindR (finite_non_negative_field ''max_wait_seconds'' (max_wait_seconds p)) (\<lambda>_.
     bindR (finite_non_negative_field ''min_interval_seconds'' (min_interval_seconds p)) (\<lambda>_.
       if period_seconds p = Fin 0 then raise ValueError ''period_seconds'' else ok)))))"

definition window_seconds :: "rate_policy \<Rightarrow> pyfloat" where
  "window_seconds p = fadd (period_seconds p) (safety_margin_seconds p)"

definition milliseconds :: "(rat \<Rightarrow> int) \<Rightarrow> pyfloat \<Rightarrow> int res" where
  "milliseconds f x = int_of_float f (fmul x (Fin 1000))"

subsection \<open>The rolling log\<close>

record 'b bucket_api =
  new_log :: "int \<Rightarrow> int \<Rightarrow> 'b"
  leak :: "int \<Rightarrow> 'b \<Rightarrow> 'b"
  entry_count :: "'b \<Rightarrow> nat"
  peek :: "int \<Rightarrow> 'b \<Rightarrow> int option"
  put :: "int \<Rightarrow> 'b \<Rightarrow> bool \<times> 'b"

text \<open>The documented behaviour, over the limit, the interval and the timestamps of a log, oldest
  first.\<close>

definition bucket_laws :: "'b bucket_api \<Rightarrow> ('b \<Rightarrow> int \<times> int \<times> int list) \<Rightarrow> bool" where
  "bucket_laws B view \<longleftrightarrow>
     (\<forall>n w. view (new_log B n w) = (n, w, []))
   \<and> (\<forall>b n w xs. view b = (n, w, xs) \<longrightarrow>
        (\<forall>t. view (leak B t b) = (n, w, filter (\<lambda>s. t - w \<le> s) xs))
      \<and> entry_count B b = length xs
      \<and> (\<forall>i < length xs. peek B (int i) b = Some (xs ! (length xs - 1 - i)))
      \<and> (xs = [] \<longrightarrow> (\<forall>i. peek B i b = None))
      \<and> (\<forall>t. if int (length (filter (\<lambda>s. t - w \<le> s) xs)) < n
             then fst (put B t b) \<and> view (snd (put B t b)) = (n, w, xs @ [t])
             else \<not> fst (put B t b) \<and> view (snd (put B t b)) = (n, w, xs)))"

subsection \<open>The limiter\<close>

record 'b limiter =
  rate_policy_of :: rate_policy
  window_ms :: int
  spacing_ms :: int
  bucket :: 'b
  spacing :: "'b option"
  pending :: "(nat \<times> nat) list"
  waiters :: "nat list"
  next_reservation :: nat

definition make_limiter :: "'b bucket_api \<Rightarrow> rate_policy \<Rightarrow> 'b limiter res" where
  "make_limiter B p =
     bindR (milliseconds ceiling (window_seconds p)) (\<lambda>w.
     bindR (if min_interval_seconds p = Fin 0 then Inr 0
            else milliseconds ceiling (min_interval_seconds p)) (\<lambda>m.
       Inr \<lparr>rate_policy_of = p, window_ms = w, spacing_ms = m, bucket = new_log B (rate_calls p) w,
            spacing = (if min_interval_seconds p = Fin 0 then None else Some (new_log B 1 m)),
            pending = [], waiters = [], next_reservation = 0\<rparr>))"

definition prune :: "'b bucket_api \<Rightarrow> int \<Rightarrow> 'b limiter \<Rightarrow> 'b limiter" where
  "prune B ts L = L\<lparr>bucket := leak B ts (bucket L), spacing := map_option (leak B ts) (spacing L)\<rparr>"

text \<open>The time until an entry of \<open>interval\<close> leaves the log: \<open>max(0.001, (t + interval + 1) / 1000 - now)\<close>.\<close>

definition until_free :: "int \<Rightarrow> int \<Rightarrow> pyfloat \<Rightarrow> pyfloat" where
  "until_free t interval now =
     py_max [round64 (1 / 1000), fsub (round64 (of_int (t + interval + 1) / 1000)) now]"

definition retry_after :: "'b bucket_api \<Rightarrow> pyfloat \<Rightarrow> 'b limiter \<Rightarrow> pyfloat" where
  "retry_after B now L =
     (case peek B (int (entry_count B (bucket L)) - 1) (bucket L) of
        Some t \<Rightarrow> until_free t (window_ms L) now
      | None \<Rightarrow> window_seconds (rate_policy_of L))"

definition pending_weight :: "'b limiter \<Rightarrow> int" where
  "pending_weight L = int (sum_list (map snd (pending L)))"

text \<open>The decision on a pruned limiter, under the lock: the queue first, then the spacing of paced
  operations, then the budget.\<close>

definition grant ::
    "'b bucket_api \<Rightarrow> pyfloat \<Rightarrow> int \<Rightarrow> nat option \<Rightarrow> 'b limiter \<Rightarrow> (nat option \<times> pyfloat) res \<times> 'b limiter" where
  "grant B now weight ticket L =
     (if waiters L \<noteq> [] \<and> Some (hd (waiters L)) \<noteq> ticket then (Inr (None, retry_after B now L), L)
      else if spacing L \<noteq> None \<and> weight \<noteq> 1 then (raise ValueError ''single-call'', L)
      else if spacing L \<noteq> None \<and> pending L \<noteq> [] then (Inr (None, window_seconds (rate_policy_of L)), L)
      else case (case spacing L of None \<Rightarrow> None | Some b \<Rightarrow> peek B 0 b) of
        Some t \<Rightarrow> (Inr (None, until_free t (spacing_ms L) now), L)
      | None \<Rightarrow>
          if int (entry_count B (bucket L)) + pending_weight L + weight \<le> rate_calls (rate_policy_of L)
          then (Inr (Some (next_reservation L), Fin 0),
                L\<lparr>pending := pending L @ [(next_reservation L, nat weight)],
                  next_reservation := next_reservation L + 1\<rparr>)
          else (Inr (None, retry_after B now L), L))"

definition try_reserve ::
    "'b bucket_api \<Rightarrow> pyfloat \<Rightarrow> int \<Rightarrow> nat option \<Rightarrow> 'b limiter \<Rightarrow> (nat option \<times> pyfloat) res \<times> 'b limiter" where
  "try_reserve B now weight ticket L =
     (if weight < 1 \<or> rate_calls (rate_policy_of L) < weight then (raise ValueError ''weight'', L)
      else case milliseconds floor now of
        Inl e \<Rightarrow> (Inl e, L)
      | Inr ts \<Rightarrow> grant B now weight ticket (prune B ts L))"

definition reserve :: "'b bucket_api \<Rightarrow> pyfloat \<Rightarrow> int \<Rightarrow> 'b limiter \<Rightarrow> nat res \<times> 'b limiter" where
  "reserve B now weight L =
     (case try_reserve B now weight None L of
        (Inl e, L') \<Rightarrow> (Inl e, L')
      | (Inr (None, _), L') \<Rightarrow> (raise ProviderRateLimitError ''retry'', L')
      | (Inr (Some r, _), L') \<Rightarrow> (Inr r, L'))"

text \<open>\<open>Reservation.remaining\<close>: a reservation that is no longer pending has nothing left.\<close>

definition remaining :: "nat \<Rightarrow> 'b limiter \<Rightarrow> nat" where
  "remaining r L = (case map_of (pending L) r of None \<Rightarrow> 0 | Some n \<Rightarrow> n)"

definition use_one :: "nat \<Rightarrow> (nat \<times> nat) list \<Rightarrow> (nat \<times> nat) list" where
  "use_one r ps = filter (\<lambda>p. snd p \<noteq> 0) (map (\<lambda>(q, n). if q = r then (q, n - 1) else (q, n)) ps)"

text \<open>\<open>_start\<close>: the dispatch is logged, then spaced, then taken from the reservation.\<close>

definition log_dispatch :: "'b bucket_api \<Rightarrow> int \<Rightarrow> nat \<Rightarrow> 'b limiter \<Rightarrow> unit res \<times> 'b limiter" where
  "log_dispatch B ts r L =
     (case put B ts (bucket L) of (accepted, b) \<Rightarrow>
        if \<not> accepted then (raise RuntimeError ''capacity was not available'', L\<lparr>bucket := b\<rparr>)
        else case spacing L of
          None \<Rightarrow> (ok, L\<lparr>bucket := b, pending := use_one r (pending L)\<rparr>)
        | Some c \<Rightarrow> (case put B ts c of (spaced, c') \<Rightarrow>
            if \<not> spaced then (raise RuntimeError ''spacing was not available'', L\<lparr>bucket := b, spacing := Some c'\<rparr>)
            else (ok, L\<lparr>bucket := b, spacing := Some c', pending := use_one r (pending L)\<rparr>)))"

definition start :: "'b bucket_api \<Rightarrow> pyfloat \<Rightarrow> nat \<Rightarrow> 'b limiter \<Rightarrow> unit res \<times> 'b limiter" where
  "start B now r L =
     (if r \<notin> fst ` set (pending L) then (raise RuntimeError ''already released or used'', L)
      else case milliseconds floor now of
        Inl e \<Rightarrow> (Inl e, L)
      | Inr ts \<Rightarrow> log_dispatch B ts r (prune B ts L))"

definition release :: "nat \<Rightarrow> 'b limiter \<Rightarrow> 'b limiter" where
  "release r L = L\<lparr>pending := filter (\<lambda>p. fst p \<noteq> r) (pending L)\<rparr>"

subsection \<open>Waiting\<close>

text \<open>\<open>acquire\<close>: the entry of a caller that waits, a round of its loop with the clock readings of that
  round, and a cancelled wait. The \<open>finally\<close> clause removes the ticket on every way out.\<close>

definition enter :: "nat \<Rightarrow> 'b limiter \<Rightarrow> 'b limiter" where
  "enter ticket L = L\<lparr>waiters := waiters L @ [ticket]\<rparr>"

definition leave :: "nat \<Rightarrow> 'b limiter \<Rightarrow> 'b limiter" where
  "leave ticket L = L\<lparr>waiters := remove1 ticket (waiters L)\<rparr>"

datatype round_result = Acquired nat | Refused exn | Sleeping pyfloat

definition acquire_round ::
    "'b bucket_api \<Rightarrow> pyfloat \<Rightarrow> pyfloat \<Rightarrow> pyfloat \<Rightarrow> pyfloat \<Rightarrow> int \<Rightarrow> nat \<Rightarrow> 'b limiter
      \<Rightarrow> round_result \<times> 'b limiter" where
  "acquire_round B deadline t1 t2 t3 weight ticket L =
     (if t1 > deadline then
        (case milliseconds floor t2 of
           Inl e \<Rightarrow> (Refused e, leave ticket L)
         | Inr ts \<Rightarrow> (Refused (Exn ProviderRateLimitError ''retry''), leave ticket (prune B ts L)))
      else case try_reserve B t2 weight (Some ticket) L of
        (Inl e, L') \<Rightarrow> (Refused e, leave ticket L')
      | (Inr (Some r, _), L') \<Rightarrow> (Acquired r, leave ticket L')
      | (Inr (None, wait), L') \<Rightarrow>
          let left = fsub deadline t3 in
          if left \<le> Fin 0 then (Refused (Exn ProviderRateLimitError ''retry''), leave ticket L')
          else (Sleeping (py_min [wait, left, round64 (5 / 100)]), L'))"

definition acquire_begin ::
    "'b bucket_api \<Rightarrow> pyfloat \<Rightarrow> int \<Rightarrow> pyfloat option \<Rightarrow> nat \<Rightarrow> 'b limiter \<Rightarrow> (nat res + pyfloat) \<times> 'b limiter" where
  "acquire_begin B now weight deadline ticket L =
     (if max_wait_seconds (rate_policy_of L) = Fin 0
      then (case reserve B now weight L of (r, L') \<Rightarrow> (Inl r, L'))
      else (Inr (case deadline of None \<Rightarrow> fadd now (max_wait_seconds (rate_policy_of L)) | Some d \<Rightarrow> d),
            enter ticket L))"


subsection \<open>The invariant of a limiter\<close>

text \<open>A run of a limiter: its state, the latest clock reading in milliseconds, and the timestamps of
  all dispatches so far.\<close>

type_synonym 'b limiter_run = "'b limiter \<times> int \<times> int list"

definition in_window :: "int \<Rightarrow> int \<Rightarrow> int list \<Rightarrow> nat" where
  "in_window w T h = length (filter (\<lambda>s. T - w \<le> s \<and> s \<le> T) h)"

text \<open>A log agrees with the history when it holds the dispatches since a cutoff that has already left
  the window.\<close>

definition tracks :: "int \<Rightarrow> int \<Rightarrow> int list \<Rightarrow> int list \<Rightarrow> bool" where
  "tracks w now h xs \<longleftrightarrow> (\<exists>c \<le> now - w. xs = filter (\<lambda>s. c \<le> s) h)"

definition log_ok :: "('b \<Rightarrow> int \<times> int \<times> int list) \<Rightarrow> int \<Rightarrow> int \<Rightarrow> int \<Rightarrow> int list \<Rightarrow> 'b \<Rightarrow> bool" where
  "log_ok view n w now h b \<longleftrightarrow> (\<exists>xs. view b = (n, w, xs) \<and> tracks w now h xs)"

definition entries :: "('b \<Rightarrow> int \<times> int \<times> int list) \<Rightarrow> 'b \<Rightarrow> int list" where
  "entries view b = snd (snd (view b))"

definition pacing_ok :: "('b \<Rightarrow> int \<times> int \<times> int list) \<Rightarrow> 'b limiter \<Rightarrow> int \<Rightarrow> int list \<Rightarrow> bool" where
  "pacing_ok view L now h \<longleftrightarrow> (case spacing L of None \<Rightarrow> True
     | Some b \<Rightarrow> log_ok view 1 (spacing_ms L) now h b
        \<and> (pending L \<noteq> [] \<longrightarrow> entries view b = [] \<and> (\<exists>r. pending L = [(r, 1)]))
        \<and> (\<forall>T. in_window (spacing_ms L) T h \<le> 1))"

definition limiter_ok :: "'b bucket_api \<Rightarrow> ('b \<Rightarrow> int \<times> int \<times> int list) \<Rightarrow> 'b limiter_run \<Rightarrow> bool" where
  "limiter_ok B view s = (case s of (L, now, h) \<Rightarrow>
     bucket_laws B view \<and> (\<forall>t \<in> set h. t \<le> now) \<and> 0 \<le> window_ms L \<and> 0 \<le> spacing_ms L
   \<and> log_ok view (rate_calls (rate_policy_of L)) (window_ms L) now h (bucket L)
   \<and> int (length (entries view (bucket L))) + pending_weight L \<le> rate_calls (rate_policy_of L)
   \<and> distinct (map fst (pending L)) \<and> (\<forall>p \<in> set (pending L). fst p < next_reservation L \<and> 0 < snd p)
   \<and> (\<forall>T. int (in_window (window_ms L) T h) \<le> rate_calls (rate_policy_of L))
   \<and> pacing_ok view L now h)"

text \<open>The steps: every call of the limiter, by any caller, at a clock reading that does not go back.\<close>

inductive limiter_step :: "'b bucket_api \<Rightarrow> 'b limiter_run \<Rightarrow> 'b limiter_run \<Rightarrow> bool" for B where
  reserving: "milliseconds floor t = Inr ts \<Longrightarrow> now \<le> ts \<Longrightarrow> try_reserve B t weight ticket L = (r, L') \<Longrightarrow>
     limiter_step B (L, now, h) (L', ts, h)"
| starting: "milliseconds floor t = Inr ts \<Longrightarrow> now \<le> ts \<Longrightarrow> start B t r L = (u, L') \<Longrightarrow>
     limiter_step B (L, now, h) (L', ts, if u = ok then h @ [ts] else h)"
| releasing: "limiter_step B (L, now, h) (release r L, now, h)"
| entering: "limiter_step B (L, now, h) (enter ticket L, now, h)"
| waiting: "milliseconds floor t2 = Inr ts \<Longrightarrow> now \<le> ts \<Longrightarrow>
     acquire_round B deadline t1 t2 t3 weight ticket L = (w, L') \<Longrightarrow> limiter_step B (L, now, h) (L', ts, h)"
| leaving: "limiter_step B (L, now, h) (leave ticket L, now, h)"

definition limiter_start :: "'b bucket_api \<Rightarrow> ('b \<Rightarrow> int \<times> int \<times> int list) \<Rightarrow> 'b limiter_run \<Rightarrow> bool" where
  "limiter_start B view s \<longleftrightarrow> bucket_laws B view \<and> snd (snd s) = []
     \<and> (\<exists>p. check_rate_policy p = ok \<and> make_limiter B p = Inr (fst s))"

lemma limiter_okD:
  assumes "limiter_ok B view (L, now, h)"
  shows "bucket_laws B view" "\<forall>t \<in> set h. t \<le> now" "0 \<le> window_ms L" "0 \<le> spacing_ms L"
    "log_ok view (rate_calls (rate_policy_of L)) (window_ms L) now h (bucket L)"
    "int (length (entries view (bucket L))) + pending_weight L \<le> rate_calls (rate_policy_of L)"
    "distinct (map fst (pending L))" "\<forall>p \<in> set (pending L). fst p < next_reservation L \<and> 0 < snd p"
    "\<forall>T. int (in_window (window_ms L) T h) \<le> rate_calls (rate_policy_of L)" "pacing_ok view L now h"
  using assms unfolding limiter_ok_def prod.case by blast+

lemma limiter_okI:
  assumes "bucket_laws B view" "\<forall>t \<in> set h. t \<le> now" "0 \<le> window_ms L" "0 \<le> spacing_ms L"
    "log_ok view (rate_calls (rate_policy_of L)) (window_ms L) now h (bucket L)"
    "int (length (entries view (bucket L))) + pending_weight L \<le> rate_calls (rate_policy_of L)"
    "distinct (map fst (pending L))" "\<forall>p \<in> set (pending L). fst p < next_reservation L \<and> 0 < snd p"
    "\<forall>T. int (in_window (window_ms L) T h) \<le> rate_calls (rate_policy_of L)" "pacing_ok view L now h"
  shows "limiter_ok B view (L, now, h)"
  using assms unfolding limiter_ok_def prod.case by blast

lemma pacing_SomeD:
  assumes "pacing_ok view L now h" "spacing L = Some b"
  shows "log_ok view 1 (spacing_ms L) now h b" "pending L \<noteq> [] \<Longrightarrow> entries view b = [] \<and> (\<exists>r. pending L = [(r, 1)])"
    "\<forall>T. in_window (spacing_ms L) T h \<le> 1"
  using assms unfolding pacing_ok_def by simp_all

lemma pacing_NoneI: "spacing L = None \<Longrightarrow> pacing_ok view L now h"
  by (simp add: pacing_ok_def)

lemma pacing_SomeI:
  assumes "spacing L = Some b" "log_ok view 1 (spacing_ms L) now h b"
    "pending L \<noteq> [] \<Longrightarrow> entries view b = [] \<and> (\<exists>r. pending L = [(r, 1)])"
    "\<forall>T. in_window (spacing_ms L) T h \<le> 1"
  shows "pacing_ok view L now h"
  using assms unfolding pacing_ok_def by simp

lemma bucket_lawsD:
  assumes "bucket_laws B view"
  shows "view (new_log B n w) = (n, w, [])"
    and "view b = (n, w, xs) \<Longrightarrow> view (leak B t b) = (n, w, filter (\<lambda>s. t - w \<le> s) xs)"
    and "view b = (n, w, xs) \<Longrightarrow> entry_count B b = length xs"
    and "view b = (n, w, xs) \<Longrightarrow> peek B 0 b = (if xs = [] then None else Some (last xs))"
    and "view b = (n, w, xs) \<Longrightarrow> int (length (filter (\<lambda>s. t - w \<le> s) xs)) < n \<Longrightarrow>
           fst (put B t b) \<and> view (snd (put B t b)) = (n, w, xs @ [t])"
proof -
  note laws = assms [unfolded bucket_laws_def]
  show "view (new_log B n w) = (n, w, [])" using laws by blast
  show "view b = (n, w, xs) \<Longrightarrow> view (leak B t b) = (n, w, filter (\<lambda>s. t - w \<le> s) xs)" using laws by blast
  show "view b = (n, w, xs) \<Longrightarrow> entry_count B b = length xs" using laws by blast
  show "peek B 0 b = (if xs = [] then None else Some (last xs))" if "view b = (n, w, xs)"
  proof (cases "xs = []")
    case True
    with laws that show ?thesis by auto
  next
    case False
    from laws that have "\<forall>i < length xs. peek B (int i) b = Some (xs ! (length xs - 1 - i))" by blast
    from spec [OF this, of 0] False show ?thesis by (simp add: last_conv_nth)
  qed
  show "fst (put B t b) \<and> view (snd (put B t b)) = (n, w, xs @ [t])"
    if "view b = (n, w, xs)" "int (length (filter (\<lambda>s. t - w \<le> s) xs)) < n"
    using laws that by meson
qed

lemma tracks_leak:
  assumes "tracks w now h xs" "now \<le> ts"
  shows "tracks w ts h (filter (\<lambda>s. ts - w \<le> s) xs)"
proof -
  obtain c where "c \<le> now - w" "xs = filter (\<lambda>s. c \<le> s) h" using assms(1) by (auto simp: tracks_def)
  with assms(2) have "filter (\<lambda>s. ts - w \<le> s) xs = filter (\<lambda>s. ts - w \<le> s) h"
    by (auto intro!: filter_cong)
  then show ?thesis unfolding tracks_def by blast
qed

lemma tracks_put:
  assumes "tracks w ts h xs" "\<forall>t \<in> set h. t \<le> ts" "0 \<le> w"
  shows "tracks w ts (h @ [ts]) (xs @ [ts])"
  using assms by (auto simp: tracks_def)

lemma log_ok_leak:
  "bucket_laws B view \<Longrightarrow> log_ok view n w now h b \<Longrightarrow> now \<le> ts \<Longrightarrow> log_ok view n w ts h (leak B ts b)"
  unfolding log_ok_def using bucket_lawsD(2) tracks_leak by metis

lemma in_window_snoc:
  "in_window w T (h @ [t]) = in_window w T h + (if T - w \<le> t \<and> t \<le> T then 1 else 0)"
  by (simp add: in_window_def)

text \<open>The rolling window stays within its limit when the log accepts a dispatch.\<close>

lemma window_put:
  assumes track: "tracks w ts h xs" and past: "\<forall>t \<in> set h. t \<le> ts"
    and room: "int (length (filter (\<lambda>s. ts - w \<le> s) xs)) < n"
    and before: "\<forall>T. int (in_window w T h) \<le> n"
  shows "int (in_window w T (h @ [ts])) \<le> n"
proof (cases "T < ts")
  case True
  with before show ?thesis by (simp add: in_window_snoc)
next
  case False
  obtain c where "c \<le> ts - w" "xs = filter (\<lambda>s. c \<le> s) h"
    using track by (auto simp: tracks_def)
  then have "filter (\<lambda>s. ts - w \<le> s) xs = filter (\<lambda>s. ts - w \<le> s) h" by (auto intro!: filter_cong)
  moreover have "in_window w T h \<le> length (filter (\<lambda>s. ts - w \<le> s) h)"
    unfolding in_window_def using False by (induction h) auto
  ultimately have "int (in_window w T h) < n" using room by simp
  then show ?thesis by (simp add: in_window_snoc)
qed

lemma entries_leak:
  assumes "bucket_laws B view" "log_ok view n w now h b"
  shows "length (entries view (leak B ts b)) \<le> length (entries view b)"
    and "entries view b = [] \<Longrightarrow> entries view (leak B ts b) = []"
  using bucket_lawsD(2) [OF assms(1)] assms(2) by (auto simp: log_ok_def entries_def length_filter_le)

lemma prune_simps [simp]:
  "bucket (prune B ts L) = leak B ts (bucket L)" "spacing (prune B ts L) = map_option (leak B ts) (spacing L)"
  "pending (prune B ts L) = pending L" "rate_policy_of (prune B ts L) = rate_policy_of L"
  "window_ms (prune B ts L) = window_ms L" "spacing_ms (prune B ts L) = spacing_ms L"
  "next_reservation (prune B ts L) = next_reservation L" "waiters (prune B ts L) = waiters L"
  "pending_weight (prune B ts L) = pending_weight L"
  by (simp_all add: prune_def pending_weight_def)

lemma prune_ok:
  assumes ok: "limiter_ok B view (L, now, h)" and le: "now \<le> ts"
  shows "limiter_ok B view (prune B ts L, ts, h)"
proof -
  note o = limiter_okD [OF ok]
  have pace: "pacing_ok view (prune B ts L) ts h"
  proof (cases "spacing L")
    case None
    then show ?thesis by (intro pacing_NoneI) simp
  next
    case (Some b)
    note p = pacing_SomeD [OF o(10) Some]
    show ?thesis
    proof (rule pacing_SomeI [where b = "leak B ts b"])
      show "log_ok view 1 (spacing_ms (prune B ts L)) ts h (leak B ts b)"
        using log_ok_leak [OF o(1) p(1) le] by simp
      show "entries view (leak B ts b) = [] \<and> (\<exists>r. pending (prune B ts L) = [(r, 1)])"
        if "pending (prune B ts L) \<noteq> []"
        using that p(2) entries_leak(2) [OF o(1) p(1)] by simp
    qed (use Some p(3) in simp_all)
  qed
  have "\<forall>t \<in> set h. t \<le> ts" using o(2) le by (meson order_trans)
  then show ?thesis
    using o(1,3,4,6-9) pace log_ok_leak [OF o(1,5) le] entries_leak(1) [OF o(1,5), of ts]
    by (intro limiter_okI) simp_all
qed

lemma pacing_ok_waiters [simp]: "pacing_ok view (L\<lparr>waiters := ws\<rparr>) now h = pacing_ok view L now h"
  by (cases "spacing L") (simp_all add: pacing_ok_def)

lemma limiter_ok_waiters [simp]:
  "limiter_ok B view (L\<lparr>waiters := ws\<rparr>, now, h) = limiter_ok B view (L, now, h)"
  by (simp add: limiter_ok_def pending_weight_def)

lemma limiter_ok_ticket [simp]:
  "limiter_ok B view (enter ticket L, now, h) = limiter_ok B view (L, now, h)"
  "limiter_ok B view (leave ticket L, now, h) = limiter_ok B view (L, now, h)"
  by (simp_all add: enter_def leave_def)

lemma release_ok:
  assumes ok: "limiter_ok B view (L, now, h)"
  shows "limiter_ok B view (release r L, now, h)"
proof -
  note o = limiter_okD [OF ok]
  have "sum_list (map snd (filter P ps)) \<le> sum_list (map snd ps)" for P and ps :: "(nat \<times> nat) list"
    by (induction ps) auto
  from this [of "\<lambda>p. fst p \<noteq> r" "pending L"] have w: "pending_weight (release r L) \<le> pending_weight L"
    by (simp add: pending_weight_def release_def)
  have pace: "pacing_ok view (release r L) now h"
  proof (cases "spacing L")
    case None
    then show ?thesis by (intro pacing_NoneI) (simp add: release_def)
  next
    case (Some b)
    note p = pacing_SomeD [OF o(10) Some]
    show ?thesis
    proof (rule pacing_SomeI [where b = b])
      show "entries view b = [] \<and> (\<exists>q. pending (release r L) = [(q, 1)])" if "pending (release r L) \<noteq> []"
        using that p(2) by (cases "pending L") (auto simp: release_def split: if_splits)
    qed (use Some p in \<open>simp_all add: release_def\<close>)
  qed
  show ?thesis
    using o w pace by (intro limiter_okI) (simp_all add: release_def distinct_map_filter)
qed

lemma entry_count_entries:
  "bucket_laws B view \<Longrightarrow> log_ok view n w now h b \<Longrightarrow> entry_count B b = length (entries view b)"
  using bucket_lawsD(3) by (fastforce simp: log_ok_def entries_def)

lemma peek_entries:
  "bucket_laws B view \<Longrightarrow> log_ok view n w now h b \<Longrightarrow> peek B 0 b = None \<Longrightarrow> entries view b = []"
  using bucket_lawsD(4) by (fastforce simp: log_ok_def entries_def split: if_splits)

lemma tracks_later:
  assumes "tracks w now h xs" "now \<le> ts"
  shows "tracks w ts h xs"
proof -
  obtain c where c: "c \<le> now - w" "xs = filter (\<lambda>s. c \<le> s) h" using assms(1) by (auto simp: tracks_def)
  then have "c \<le> ts - w" using assms(2) by linarith
  with c(2) show ?thesis unfolding tracks_def by blast
qed

lemma log_ok_later: "log_ok view n w now h b \<Longrightarrow> now \<le> ts \<Longrightarrow> log_ok view n w ts h b"
  unfolding log_ok_def using tracks_later by blast

lemma limiter_ok_later:
  assumes ok: "limiter_ok B view (L, now, h)" and le: "now \<le> ts"
  shows "limiter_ok B view (L, ts, h)"
proof -
  note o = limiter_okD [OF ok]
  have "pacing_ok view L ts h"
  proof (cases "spacing L")
    case None
    then show ?thesis by (rule pacing_NoneI)
  next
    case (Some b)
    note p = pacing_SomeD [OF o(10) Some]
    from Some log_ok_later [OF p(1) le] p(2,3) show ?thesis by (rule pacing_SomeI)
  qed
  moreover have "\<forall>t \<in> set h. t \<le> ts" using o(2) le by (meson order_trans)
  ultimately show ?thesis using o log_ok_later [OF o(5) le] by (intro limiter_okI)
qed

lemma grant_cases:
  assumes "grant B t weight ticket L = (r, L')"
  obtains (same) "L' = L" "\<forall>i x. r \<noteq> Inr (Some i, x)"
  | (granted) "L' = L\<lparr>pending := pending L @ [(next_reservation L, nat weight)],
                     next_reservation := next_reservation L + 1\<rparr>"
      "waiters L = [] \<or> Some (hd (waiters L)) = ticket"
      "spacing L \<noteq> None \<longrightarrow> weight = 1 \<and> pending L = [] \<and> peek B 0 (the (spacing L)) = None"
      "int (entry_count B (bucket L)) + pending_weight L + weight \<le> rate_calls (rate_policy_of L)"
      "r = Inr (Some (next_reservation L), Fin 0)"
  using assms unfolding grant_def by (auto split: if_split_asm option.splits)

lemma grant_ok:
  assumes L: "limiter_ok B view (L, ts, h)" and res: "grant B t weight ticket L = (r, L')" and "1 \<le> weight"
  shows "limiter_ok B view (L', ts, h)"
  using res
proof (cases rule: grant_cases)
  case granted
  note o = limiter_okD [OF L]
  have "length (entries view (bucket L)) = entry_count B (bucket L)"
    using entry_count_entries [OF o(1,5)] by simp
  moreover have "pacing_ok view L' ts h"
  proof (cases "spacing L")
    case None
    then show ?thesis by (intro pacing_NoneI) (simp add: granted(1))
  next
    case (Some b)
    note p = pacing_SomeD [OF o(10) Some]
    have "entries view b = []" using granted(3) Some peek_entries [OF o(1) p(1)] by simp
    with Some p granted(3) show ?thesis
      by (intro pacing_SomeI [where b = b]) (simp_all add: granted(1))
  qed
  ultimately show ?thesis
    using o granted(4) assms(3)
    by (intro limiter_okI) (auto simp: granted(1) pending_weight_def)
qed (use L in simp)

lemma try_reserve_ok:
  assumes ok: "limiter_ok B view (L, now, h)" and ts: "milliseconds floor t = Inr ts" "now \<le> ts"
    and res: "try_reserve B t weight ticket L = (r, L')"
  shows "limiter_ok B view (L', ts, h)"
  using res ts(1) limiter_ok_later [OF ok ts(2)] grant_ok [OF prune_ok [OF ok ts(2)]]
  by (auto simp: try_reserve_def split: if_split_asm)

subsection \<open>Dispatching keeps the invariant\<close>

lemma use_one_weight:
  assumes "distinct (map fst ps)" "r \<in> fst ` set ps" "\<forall>p \<in> set ps. 0 < snd p"
  shows "sum_list (map snd (use_one r ps)) + 1 = sum_list (map snd ps)"
    and "distinct (map fst (use_one r ps))" and "fst ` set (use_one r ps) \<subseteq> fst ` set ps"
    and "\<forall>p \<in> set (use_one r ps). 0 < snd p"
proof -
  have keep: "use_one r qs = qs" if "r \<notin> fst ` set qs" "\<forall>p \<in> set qs. 0 < snd p" for qs
    using that by (induction qs) (auto simp: use_one_def)
  have step: "use_one r (p # qs) =
      (if fst p = r then (if snd p = 1 then [] else [(r, snd p - 1)]) else if snd p = 0 then [] else [p]) @ use_one r qs"
    if "0 < snd p" for p qs
    using that by (cases p) (auto simp: use_one_def)
  show "sum_list (map snd (use_one r ps)) + 1 = sum_list (map snd ps)"
    using assms by (induction ps) (auto simp: step keep)
  have sub: "set (map fst (use_one r ps)) \<subseteq> set (map fst ps)" for ps
    by (auto simp: use_one_def split: if_splits intro: rev_image_eqI)
  show "distinct (map fst (use_one r ps))"
    using assms(1,3)
  proof (induction ps)
    case (Cons p ps)
    then show ?case using sub [of ps] by (auto simp: step)
  qed (simp add: use_one_def)
  show "fst ` set (use_one r ps) \<subseteq> fst ` set ps" using sub [of ps] by simp
  show "\<forall>p \<in> set (use_one r ps). 0 < snd p" by (auto simp: use_one_def)
qed

text \<open>A pending reservation always has its capacity: the log accepts its dispatch.\<close>

lemma room_for_pending:
  assumes ok: "limiter_ok B view (L, ts, h)" and r: "r \<in> fst ` set (pending L)"
  obtains xs where "view (bucket L) = (rate_calls (rate_policy_of L), window_ms L, xs)"
    "tracks (window_ms L) ts h xs" "int (length xs) < rate_calls (rate_policy_of L)"
    "int (length (filter (\<lambda>s. ts - window_ms L \<le> s) xs)) < rate_calls (rate_policy_of L)"
proof -
  note o = limiter_okD [OF ok]
  obtain xs where xs: "view (bucket L) = (rate_calls (rate_policy_of L), window_ms L, xs)" "tracks (window_ms L) ts h xs"
    using o(5) by (auto simp: log_ok_def)
  have "sum_list (map snd (use_one r (pending L))) + 1 = sum_list (map snd (pending L))"
    using o(7,8) r by (intro use_one_weight) auto
  then have "1 \<le> pending_weight L" by (simp add: pending_weight_def)
  with o(6) xs(1) have less: "int (length xs) < rate_calls (rate_policy_of L)" by (simp add: entries_def)
  have "length (filter (\<lambda>s. ts - window_ms L \<le> s) xs) \<le> length xs" by (rule length_filter_le)
  with less have "int (length (filter (\<lambda>s. ts - window_ms L \<le> s) xs)) < rate_calls (rate_policy_of L)" by linarith
  with xs less show thesis by (rule that)
qed

lemma log_put:
  assumes "bucket_laws B view" "view b = (n, w, xs)" "tracks w ts h xs" "\<forall>t \<in> set h. t \<le> ts" "0 \<le> w"
    and "int (length (filter (\<lambda>s. ts - w \<le> s) xs)) < n"
  obtains b' where "put B ts b = (True, b')" "view b' = (n, w, xs @ [ts])" "log_ok view n w ts (h @ [ts]) b'"
proof -
  have *: "fst (put B ts b)" "view (snd (put B ts b)) = (n, w, xs @ [ts])"
    using bucket_lawsD(5) [OF assms(1,2,6)] by simp_all
  show thesis
  proof (rule that)
    show "put B ts b = (True, snd (put B ts b))" using *(1) by (simp add: prod_eq_iff)
    show "log_ok view n w ts (h @ [ts]) (snd (put B ts b))"
      using *(2) tracks_put [OF assms(3-5)] by (auto simp: log_ok_def)
  qed (rule *(2))
qed

lemma log_dispatch_ok:
  assumes ok: "limiter_ok B view (L, ts, h)" and r: "r \<in> fst ` set (pending L)"
  shows "\<exists>L'. log_dispatch B ts r L = (Prelude.ok, L') \<and> limiter_ok B view (L', ts, h @ [ts])"
proof -
  note o = limiter_okD [OF ok]
  let ?n = "rate_calls (rate_policy_of L)" and ?w = "window_ms L" and ?ps = "use_one r (pending L)"
  obtain xs where xs: "view (bucket L) = (?n, ?w, xs)" "tracks ?w ts h xs" "int (length xs) < ?n"
    and room: "int (length (filter (\<lambda>s. ts - ?w \<le> s) xs)) < ?n"
    using room_for_pending [OF ok r] by blast
  obtain b where b: "put B ts (bucket L) = (True, b)" "view b = (?n, ?w, xs @ [ts])"
    and log: "log_ok view ?n ?w ts (h @ [ts]) b"
    using log_put [OF o(1) xs(1,2) o(2,3) room] by blast
  have win: "\<forall>T. int (in_window ?w T (h @ [ts])) \<le> ?n"
    using window_put [OF xs(2) o(2) room o(9)] by blast
  have past: "\<forall>t \<in> set (h @ [ts]). t \<le> ts" using o(2) by simp
  have pos: "\<forall>p \<in> set (pending L). 0 < snd p" using o(8) by blast
  note use = use_one_weight [OF o(7) r pos]
  have ids: "\<forall>p \<in> set ?ps. fst p < next_reservation L \<and> 0 < snd p"
  proof
    fix p assume p: "p \<in> set ?ps"
    then have "fst p \<in> fst ` set (pending L)" using use(3) by blast
    then show "fst p < next_reservation L \<and> 0 < snd p" using o(8) use(4) p by force
  qed
  have budget: "int (length (xs @ [ts])) + int (sum_list (map snd ?ps)) \<le> ?n"
    using o(6) use(1) xs(1) by (simp add: entries_def pending_weight_def)
  show ?thesis
  proof (cases "spacing L")
    case None
    let ?L = "L\<lparr>bucket := b, pending := ?ps\<rparr>"
    have "limiter_ok B view (?L, ts, h @ [ts])"
      using o(1,3,4) past log win use(2) ids budget None b(2)
      by (intro limiter_okI pacing_NoneI) (simp_all add: pending_weight_def entries_def)
    then show ?thesis using b(1) None by (simp add: log_dispatch_def)
  next
    case (Some c)
    note p = pacing_SomeD [OF o(10) Some]
    have "pending L \<noteq> []" using r by auto
    then have none: "entries view c = []" and single: "pending L = [(r, 1)]" using p(2) r by auto
    have c: "view c = (1, spacing_ms L, [])" "tracks (spacing_ms L) ts h []"
      using p(1) none by (auto simp: log_ok_def entries_def)
    obtain c' where c': "put B ts c = (True, c')" "log_ok view 1 (spacing_ms L) ts (h @ [ts]) c'"
      using log_put [OF o(1) c o(2,4)] by auto
    have win': "\<forall>T. in_window (spacing_ms L) T (h @ [ts]) \<le> 1"
      using window_put [OF c(2) o(2), of 1] p(3) by simp
    have empty: "?ps = []" by (simp add: single use_one_def)
    let ?L = "L\<lparr>bucket := b, spacing := Some c', pending := ?ps\<rparr>"
    have "pacing_ok view ?L ts (h @ [ts])"
      using c'(2) win' empty by (intro pacing_SomeI [where b = c']) simp_all
    then have "limiter_ok B view (?L, ts, h @ [ts])"
      using o(1,3,4) past log win use(2) ids budget b(2)
      by (intro limiter_okI) (simp_all add: pending_weight_def entries_def)
    then show ?thesis using b(1) Some c'(1) by (simp add: log_dispatch_def)
  qed
qed

lemma start_ok:
  assumes ok: "limiter_ok B view (L, now, h)" and ts: "milliseconds floor t = Inr ts" "now \<le> ts"
    and res: "start B t r L = (u, L')"
  shows "limiter_ok B view (L', ts, if u = Prelude.ok then h @ [ts] else h)"
    and "u = Prelude.ok \<longleftrightarrow> r \<in> fst ` set (pending L)"
proof -
  have "pending (prune B ts L) = pending L" by (simp add: prune_def)
  then show "limiter_ok B view (L', ts, if u = Prelude.ok then h @ [ts] else h)"
    "u = Prelude.ok \<longleftrightarrow> r \<in> fst ` set (pending L)"
    using res ts(1) limiter_ok_later [OF ok ts(2)] log_dispatch_ok [OF prune_ok [OF ok ts(2)], of r]
    by (auto simp: start_def split: if_split_asm)
qed

subsection \<open>Runs\<close>

lemma round64_nonneg: "0 \<le> x \<Longrightarrow> round64 x = PosInf \<or> (\<exists>v. round64 x = Fin v \<and> 0 \<le> v)"
  using round64_pos [of x] by (cases "x = 0") auto

lemma milliseconds_nonneg:
  assumes "milliseconds ceiling x = Inr n" "x = PosInf \<or> (\<exists>v. x = Fin v \<and> 0 \<le> v)"
  shows "0 \<le> n"
proof -
  obtain v where v: "x = Fin v" "0 \<le> v"
    using assms by (auto simp: milliseconds_def int_of_float_def fmul_def fneg_def split: if_splits)
  then obtain u where "round64 (v * 1000) = Fin u" "0 \<le> u" "n = \<lceil>u\<rceil>"
    using assms(1) round64_nonneg [of "v * 1000"]
    by (auto simp: milliseconds_def int_of_float_def fmul_def)
  then show ?thesis by simp
qed

lemma check_field_nonneg: "finite_non_negative_field n x = ok \<Longrightarrow> \<exists>v. x = Fin v \<and> 0 \<le> v"
  by (cases x) (auto simp: finite_non_negative_field_def isfinite_def split: if_splits)

lemma make_limiter_ok:
  assumes laws: "bucket_laws B view" and pol: "check_rate_policy p = ok" and make: "make_limiter B p = Inr L"
  shows "limiter_ok B view (L, now, [])"
proof -
  obtain w m where w: "milliseconds ceiling (window_seconds p) = Inr w"
    and m: "(if min_interval_seconds p = Fin 0 then Inr 0
            else milliseconds ceiling (min_interval_seconds p)) = Inr m"
    and L: "L = \<lparr>rate_policy_of = p, window_ms = w, spacing_ms = m, bucket = new_log B (rate_calls p) w,
            spacing = (if min_interval_seconds p = Fin 0 then None else Some (new_log B 1 m)),
            pending = [], waiters = [], next_reservation = 0\<rparr>"
    using make by (auto simp: make_limiter_def res_simps)
  have f: "1 \<le> rate_calls p" "\<exists>v. period_seconds p = Fin v \<and> 0 \<le> v" "\<exists>v. safety_margin_seconds p = Fin v \<and> 0 \<le> v"
    "\<exists>v. min_interval_seconds p = Fin v \<and> 0 \<le> v"
    using pol by (auto simp: check_rate_policy_def res_simps intro: check_field_nonneg)
  have "window_seconds p = PosInf \<or> (\<exists>v. window_seconds p = Fin v \<and> 0 \<le> v)"
  proof -
    obtain a b where "period_seconds p = Fin a" "safety_margin_seconds p = Fin b" "0 \<le> a + b"
      using f(2,3) add_nonneg_nonneg by metis
    then show ?thesis using round64_nonneg [of "a + b"] by (simp add: window_seconds_def fadd_def)
  qed
  then have w0: "0 \<le> w" using w by (rule milliseconds_nonneg [rotated])
  have m0: "0 \<le> m"
    using m f(4) milliseconds_nonneg [of "min_interval_seconds p" m] by (auto split: if_splits)
  have new: "log_ok view n k now [] (new_log B n k)" for n k
    using bucket_lawsD(1) [OF laws] by (auto simp: log_ok_def tracks_def)
  have "pacing_ok view L now []"
  proof (cases "min_interval_seconds p = Fin 0")
    case True
    then show ?thesis by (intro pacing_NoneI) (simp add: L)
  next
    case False
    then show ?thesis using new by (intro pacing_SomeI [where b = "new_log B 1 m"]) (simp_all add: L in_window_def)
  qed
  then show ?thesis
    using laws w0 m0 new f(1) bucket_lawsD(1) [OF laws]
    by (intro limiter_okI) (simp_all add: L pending_weight_def entries_def in_window_def)
qed

lemma acquire_round_ok:
  assumes ok: "limiter_ok B view (L, now, h)" and ts: "milliseconds floor t2 = Inr ts" "now \<le> ts"
    and res: "acquire_round B deadline t1 t2 t3 weight ticket L = (w, L')"
  shows "limiter_ok B view (L', ts, h)"
  using res ts(1) prune_ok [OF ok ts(2)] try_reserve_ok [OF ok ts]
  by (auto simp: acquire_round_def Let_def split: if_split_asm prod.splits sum.splits option.splits)

text \<open>A limiter on a log that satisfies the laws is a guarded system.\<close>

interpretation limiter: guarded_system "limiter_start B view" "limiter_step B" "limiter_ok B view"
  for B :: "'b bucket_api" and view :: "'b \<Rightarrow> int \<times> int \<times> int list"
proof unfold_locales
  show "limiter_ok B view s" if "limiter_start B view s" for s
    using that make_limiter_ok by (cases s) (auto simp: limiter_start_def)
  show "limiter_ok B view t" if "limiter_ok B view s" "limiter_step B s t" for s t
    using that(2,1)
  proof induction
    case (starting t ts now r L u L' h)
    then show ?case by (auto dest: start_ok(1) simp del: if_split_asm split: if_split)
  qed (auto simp: release_ok intro: try_reserve_ok acquire_round_ok)
qed

subsection \<open>A sample limiter\<close>

definition list_log :: "(int \<times> int \<times> int list) bucket_api" where
  "list_log = \<lparr>new_log = (\<lambda>n w. (n, w, [])),
     leak = (\<lambda>t (n, w, xs). (n, w, filter (\<lambda>s. t - w \<le> s) xs)),
     entry_count = (\<lambda>(n, w, xs). length xs),
     peek = (\<lambda>i (n, w, xs). if 0 \<le> i \<and> i < int (length xs) then Some (xs ! (length xs - 1 - nat i)) else None),
     put = (\<lambda>t (n, w, xs). if int (length (filter (\<lambda>s. t - w \<le> s) xs)) < n then (True, (n, w, xs @ [t]))
              else (False, (n, w, xs)))\<rparr>"

lemma list_log_laws: "bucket_laws list_log (\<lambda>b. b)"
  by (auto simp: bucket_laws_def list_log_def)

definition sample_policy :: rate_policy where
  "sample_policy = \<lparr>rate_operation = ''place_order'', rate_calls = 1, period_seconds = Fin 1,
     safety_margin_seconds = Fin 0, max_wait_seconds = Fin 5, min_interval_seconds = Fin 0\<rparr>"

definition sample_limiter :: "(int \<times> int \<times> int list) limiter" where
  "sample_limiter = projr (make_limiter list_log sample_policy)"

lemma list_log_simps [simp]:
  "new_log list_log n w = (n, w, [])" "leak list_log t (n, w, xs) = (n, w, filter (\<lambda>s. t - w \<le> s) xs)"
  "entry_count list_log (n, w, xs) = length xs"
  "put list_log t (n, w, xs) = (if int (length (filter (\<lambda>s. t - w \<le> s) xs)) < n then (True, (n, w, xs @ [t]))
              else (False, (n, w, xs)))"
  by (simp_all add: list_log_def)

lemma sample_limiter_made: "make_limiter list_log sample_policy = Inr sample_limiter"
  by (simp add: sample_limiter_def make_limiter_def sample_policy_def milliseconds_def int_of_float_def
      fmul_def window_seconds_def fadd_def)

lemma sample_limiter_eq:
  "sample_limiter = \<lparr>rate_policy_of = sample_policy, window_ms = 1000, spacing_ms = 0, bucket = (1, 1000, []),
     spacing = None, pending = [], waiters = [], next_reservation = 0\<rparr>"
  by (simp add: sample_limiter_def make_limiter_def sample_policy_def milliseconds_def int_of_float_def
      fmul_def window_seconds_def fadd_def)

lemma sample_limiter_start: "limiter_start list_log (\<lambda>b. b) (sample_limiter, 0, [])"
proof -
  have "check_rate_policy sample_policy = ok"
    by (simp add: check_rate_policy_def sample_policy_def finite_non_negative_field_def isfinite_def)
  then show ?thesis using sample_limiter_made list_log_laws by (auto simp: limiter_start_def)
qed

definition sample_granted :: "(int \<times> int \<times> int list) limiter" where
  "sample_granted = snd (try_reserve list_log (Fin 1) 1 None sample_limiter)"

lemma milliseconds_1 [simp]: "milliseconds floor (Fin 1) = Inr 1000"
  by (simp add: milliseconds_def int_of_float_def fmul_def)

lemma sample_reserve: "try_reserve list_log (Fin 1) 1 None sample_limiter = (Inr (Some 0, Fin 0), sample_granted)"
  by (simp add: sample_granted_def sample_limiter_eq try_reserve_def grant_def prune_def sample_policy_def
      pending_weight_def)

lemma sample_granted_eq: "sample_granted = sample_limiter\<lparr>pending := [(0, 1)], next_reservation := 1\<rparr>"
  by (simp add: sample_granted_def sample_limiter_eq try_reserve_def grant_def prune_def sample_policy_def
      pending_weight_def)

lemma sample_limiter_step: "limiter_step list_log (sample_limiter, 0, []) (sample_granted, 1000, [])"
  by (rule limiter_step.reserving [OF _ _ sample_reserve]) simp_all

lemma sample_limiter_run1: "(limiter_step list_log)\<^sup>*\<^sup>* (sample_limiter, 0, []) (sample_granted, 1000, [])"
  by (rule r_into_rtranclp, rule sample_limiter_step)

definition sample_used :: "(int \<times> int \<times> int list) limiter" where
  "sample_used = snd (start list_log (Fin 1) 0 sample_granted)"

lemma sample_use: "start list_log (Fin 1) 0 sample_granted = (ok, sample_used)"
  by (simp add: sample_used_def sample_granted_eq sample_limiter_eq start_def log_dispatch_def prune_def)

lemma sample_limiter_run: "(limiter_step list_log)\<^sup>*\<^sup>* (sample_limiter, 0, []) (sample_used, 1000, [1000])"
proof -
  have "limiter_step list_log (sample_granted, 1000, []) (sample_used, 1000, [1000])"
    using limiter_step.starting [OF _ _ sample_use, of 1000 1000 "[]"] by simp
  with sample_limiter_step show ?thesis by (meson converse_rtranclp_into_rtranclp r_into_rtranclp)
qed

subsection \<open>Properties of the limiter\<close>

text \<open>On a log that satisfies the documented laws, no run of a limiter, whatever callers reserve,
  wait, cancel, release and dispatch, ever dispatches more than \<open>calls\<close> times in a window of
  \<open>window_ms\<close> milliseconds, and a paced limiter never dispatches twice within its minimum interval.\<close>

theorem dispatches_within_budget:
  assumes "limiter_start B view (L0, t0, [])" "(limiter_step B)\<^sup>*\<^sup>* (L0, t0, []) (L, now, h)"
  shows "int (in_window (window_ms L) T h) \<le> rate_calls (rate_policy_of L)
    \<and> (spacing L \<noteq> None \<longrightarrow> in_window (spacing_ms L) T h \<le> 1)"
proof -
  note o = limiter_okD [OF limiter.reachable_invar [OF assms]]
  from o(9,10) show ?thesis by (cases "spacing L") (auto dest: pacing_SomeD)
qed

theorem dispatches_within_budget_witness:
  "int (in_window (window_ms sample_used) 1500 [1000]) \<le> rate_calls (rate_policy_of sample_used)"
  using dispatches_within_budget [OF sample_limiter_start sample_limiter_run] by blast

text \<open>In every reachable state a reservation that is still pending can be dispatched: its capacity
  is held, so \<open>start\<close> succeeds at once at any later clock reading; and a reservation that was released
  or used up is refused, so that capacity is never spent twice.\<close>

theorem reserved_capacity_is_available:
  assumes "limiter_start B view (L0, t0, [])" "(limiter_step B)\<^sup>*\<^sup>* (L0, t0, []) (L, now, h)"
    and "milliseconds floor t = Inr ts" "now \<le> ts"
  shows "fst (start B t r L) = ok \<longleftrightarrow> 0 < remaining r L"
proof -
  have ok: "limiter_ok B view (L, now, h)" using assms(1,2) by (rule limiter.reachable_invar)
  note o = limiter_okD [OF ok]
  have "0 < remaining r L \<longleftrightarrow> r \<in> fst ` set (pending L)"
    using o(8) by (auto simp: remaining_def map_of_eq_None_iff split: option.splits dest!: map_of_SomeD)
      (metis image_eqI fst_conv)
  moreover obtain u L' where st: "start B t r L = (u, L')" by fastforce
  ultimately show ?thesis using start_ok(2) [OF ok assms(3,4) st] by simp
qed

theorem reserved_capacity_is_available_witness:
  "fst (start list_log (Fin 1) 0 sample_granted) = ok \<longleftrightarrow> 0 < remaining 0 sample_granted"
  using reserved_capacity_is_available [OF sample_limiter_start sample_limiter_run1
      milliseconds_1 order_refl] .

text \<open>Waiting callers are served in order: capacity is granted only to a caller at the head of the
  queue, or when nobody waits; a synchronous caller never overtakes one that waits; and a wait that is
  refused leaves the queue without capacity.\<close>

theorem waiting_is_first_come_first_served:
  "(try_reserve B t weight ticket L = (Inr (Some r, x), L') \<longrightarrow>
      waiters L = [] \<or> ticket = Some (hd (waiters L)))
   \<and> (waiters L \<noteq> [] \<longrightarrow> isl (fst (reserve B t weight L)) \<and> pending (snd (reserve B t weight L)) = pending L)
   \<and> (acquire_round B deadline t1 t2 t3 weight k L = (Refused e, L') \<longrightarrow>
        pending L' = pending L \<and> waiters L' = remove1 k (waiters L))"
proof -
  have head: "waiters L = [] \<or> ticket = Some (hd (waiters L))"
    if "try_reserve B t weight ticket L = (Inr (Some r, x), L')" for t weight ticket r x L'
    using that unfolding try_reserve_def
    by (auto split: if_split_asm sum.splits elim!: grant_cases)
  have unchanged: "pending L' = pending L \<and> waiters L' = waiters L"
    if "try_reserve B t weight ticket L = (q, L')" "\<forall>r x. q \<noteq> Inr (Some r, x)" for t weight ticket q L'
    using that unfolding try_reserve_def
    by (auto split: if_split_asm sum.splits elim!: grant_cases)
  have "isl (fst (reserve B t weight L)) \<and> pending (snd (reserve B t weight L)) = pending L" if w: "waiters L \<noteq> []"
  proof -
    obtain q L1 where q: "try_reserve B t weight None L = (q, L1)" by fastforce
    have "\<forall>r x. q \<noteq> Inr (Some r, x)" using head q w by blast
    with unchanged [OF q this] q show ?thesis
      by (auto simp: reserve_def split: sum.splits option.splits)
  qed
  moreover have "pending L' = pending L \<and> waiters L' = remove1 k (waiters L)"
    if "acquire_round B deadline t1 t2 t3 weight k L = (Refused e, L')"
  proof (cases "t1 > deadline")
    case True
    with that show ?thesis by (auto simp: acquire_round_def leave_def split: sum.splits)
  next
    case False
    obtain q L1 where q: "try_reserve B t2 weight (Some k) L = (q, L1)" by fastforce
    with False that have "\<forall>r x. q \<noteq> Inr (Some r, x)" by (auto simp: acquire_round_def)
    from unchanged [OF q this] q False that show ?thesis
      by (auto simp: acquire_round_def leave_def Let_def split: sum.splits option.splits prod.splits if_split_asm)
  qed
  ultimately show ?thesis using head by blast
qed

theorem waiting_is_first_come_first_served_witness:
  "isl (fst (reserve list_log (Fin 1) 1 (enter 5 sample_limiter)))"
  using waiting_is_first_come_first_served [of list_log "Fin 1" 1 None "enter 5 sample_limiter"]
  by (simp add: enter_def)

end
