(* ===== verification/Py_Json.thy ===== *)
theory Py_Json
  imports Py_Values
begin

text \<open>
  \<open>json\<close> text of Python values, as \<open>json.dumps\<close> and \<open>JSONEncoder.iterencode\<close> write it with
  \<open>allow_nan=False\<close>. Writing yields the text produced before the first error and the error, if any, so
  that code which counts the text as it streams can be followed exactly. Also the equality of JSON values
  and the length of their UTF-8 encoding.
\<close>

lemma mapR_cong [fundef_cong]:
  "xs = ys \<Longrightarrow> (\<And>x. x \<in> set ys \<Longrightarrow> f x = g x) \<Longrightarrow> mapR f xs = mapR g ys"
  by (induction ys arbitrary: xs) (auto intro!: bindR_cong)

record json_style =
  ensure_ascii :: bool
  sort_keys :: bool
  item_separator :: string
  key_separator :: string

definition hex_digit :: "nat \<Rightarrow> char" where
  "hex_digit n = (if n < 10 then char_of (48 + n) else char_of (87 + n))"

definition json_escape :: "bool \<Rightarrow> char \<Rightarrow> string" where
  "json_escape ascii c = (let n = ord_of c in
     if n = 34 then [CHR 0x5C, CHR 0x22] else if n = 92 then [CHR 0x5C, CHR 0x5C]
     else if n = 10 then [CHR 0x5C, CHR ''n''] else if n = 13 then [CHR 0x5C, CHR ''r'']
     else if n = 9 then [CHR 0x5C, CHR ''t''] else if n = 12 then [CHR 0x5C, CHR ''f'']
     else if n = 8 then [CHR 0x5C, CHR ''b'']
     else if n < 32 \<or> ascii \<and> 126 < n then
       [CHR 0x5C, CHR ''u'', CHR ''0'', CHR ''0'', hex_digit (n div 16), hex_digit (n mod 16)]
     else [c])"

definition json_string :: "bool \<Rightarrow> string \<Rightarrow> string" where
  "json_string ascii s = CHR 0x22 # concat (map (json_escape ascii) s) @ [CHR 0x22]"

type_synonym stream = "string \<times> exn option"

definition seq_stream :: "string \<Rightarrow> stream \<Rightarrow> stream" where
  "seq_stream t r = (case r of (t', e) \<Rightarrow> (t @ t', e))"

text \<open>The elements of a list. The encoder holds back the bracket or separator of a float until it has
  its text, so a non-finite element ends the stream before it.\<close>

fun json_items :: "string \<Rightarrow> string \<Rightarrow> (bool \<times> stream) list \<Rightarrow> stream" where
  "json_items sep buf [] = (''[]'', None)"
| "json_items sep buf [(is_float, t, Some e)] = (if is_float then [] else buf @ t, Some e)"
| "json_items sep buf [(is_float, t, None)] = (buf @ t @ '']'', None)"
| "json_items sep buf ((is_float, t, Some e) # p # ps) = (if is_float then [] else buf @ t, Some e)"
| "json_items sep buf ((is_float, t, None) # p # ps) = seq_stream (buf @ t) (json_items sep sep (p # ps))"

fun json_members :: "string \<Rightarrow> string \<Rightarrow> (string \<times> stream) list \<Rightarrow> stream" where
  "json_members sep buf [] = (''{}'', None)"
| "json_members sep buf [(k, t, e)] = (buf @ k @ t @ (if e = None then ''}'' else []), e)"
| "json_members sep buf ((k, t, Some e) # p # ps) = (buf @ k @ t, Some e)"
| "json_members sep buf ((k, t, None) # p # ps) = seq_stream (buf @ k @ t) (json_members sep sep (p # ps))"

fun is_float :: "pyval \<Rightarrow> bool" where
  "is_float (PFloat _ _) = True"
| "is_float _ = False"

fun json_write :: "json_style \<Rightarrow> pyval \<Rightarrow> stream" where
  "json_write st PNone = (''null'', None)"
| "json_write st (PBool b) = (if b then ''true'' else ''false'', None)"
| "json_write st (PInt i) = (int_text i, None)"
| "json_write st (PFloat f t) =
     (if isfinite f then (t, None) else ([], Some (Exn ValueError ''out of range float'')))"
| "json_write st (PStr s) = (json_string (ensure_ascii st) s, None)"
| "json_write st (PList l _) =
     json_items (item_separator st) ''['' (map (\<lambda>v. (is_float v, json_write st v)) l)"
| "json_write st (PDict d _) =
     (let members = map (\<lambda>(k, v). (k, json_write st v)) d;
          ordered = (if sort_keys st then sort_key fst members else members) in
      json_members (item_separator st) ''{''
        (map (\<lambda>(k, r). (json_string (ensure_ascii st) k @ key_separator st, r)) ordered))"
| "json_write st (PObj _ _) = ([], Some (Exn TypeError ''not JSON serializable''))"

text \<open>\<open>json.dumps(v, allow_nan=False, ...)\<close>.\<close>

definition json_text :: "json_style \<Rightarrow> pyval \<Rightarrow> string res" where
  "json_text st v = (case json_write st v of (t, None) \<Rightarrow> Inr t | (_, Some e) \<Rightarrow> Inl e)"

text \<open>\<open>JSONEncoder(ensure_ascii=False)\<close>, \<open>json.dumps(v)\<close>, and the canonical style with sorted keys and
  no blanks.\<close>

definition wire_style :: json_style where
  "wire_style = \<lparr>ensure_ascii = False, sort_keys = False, item_separator = '', '', key_separator = '': ''\<rparr>"

definition default_style :: json_style where
  "default_style = \<lparr>ensure_ascii = True, sort_keys = False, item_separator = '', '', key_separator = '': ''\<rparr>"

definition canonical_style :: json_style where
  "canonical_style = \<lparr>ensure_ascii = True, sort_keys = True, item_separator = '','', key_separator = '':''\<rparr>"

definition utf8_length :: "string \<Rightarrow> nat" where
  "utf8_length s = sum_list (map (\<lambda>c. if ord_of c < 128 then 1 else 2) s)"

text \<open>\<open>==\<close> on values without other objects: numbers compare by value, dictionaries ignore order.\<close>

fun number_value :: "pyval \<Rightarrow> pyfloat option" where
  "number_value (PBool b) = Some (Fin (if b then 1 else 0))"
| "number_value (PInt i) = Some (Fin (of_int i))"
| "number_value (PFloat f _) = Some f"
| "number_value _ = None"

fun py_eq :: "pyval \<Rightarrow> pyval \<Rightarrow> bool" where
  "py_eq PNone w = (w = PNone)"
| "py_eq (PStr s) w = (w = PStr s)"
| "py_eq (PBool b) w = (number_value w = Some (Fin (if b then 1 else 0)))"
| "py_eq (PInt i) w = (number_value w = Some (Fin (of_int i)))"
| "py_eq (PFloat f _) w = (f \<noteq> NaN \<and> number_value w = Some f)"
| "py_eq (PList l _) w = (case w of PList l' _ \<Rightarrow>
     length l = length l' \<and> list_all (\<lambda>x. x) (map (\<lambda>(x, y). x y) (zip (map py_eq l) l')) | _ \<Rightarrow> False)"
| "py_eq (PDict d _) w = (case w of PDict d' _ \<Rightarrow>
     length d = length d' \<and> list_all (\<lambda>x. x) (map (\<lambda>(k, v). case map_of d' k of None \<Rightarrow> False | Some v' \<Rightarrow> py_eq v v') d)
   | _ \<Rightarrow> False)"
| "py_eq (PObj b t) w = (w = PObj b t)"

subsection \<open>Lemmas\<close>

text \<open>Writing fails exactly on the values \<open>json_check\<close> refuses.\<close>

lemma snd_seq_stream [simp]: "snd (seq_stream t r) = snd r"
  by (simp add: seq_stream_def split: prod.splits)

lemma snd_json_items:
  "snd (json_items sep buf ps) = None \<longleftrightarrow> (\<forall>p \<in> set ps. snd (snd p) = None)"
  by (induction sep buf ps rule: json_items.induct) auto

lemma snd_json_members:
  "snd (json_members sep buf ps) = None \<longleftrightarrow> (\<forall>p \<in> set ps. snd (snd p) = None)"
  by (induction sep buf ps rule: json_members.induct) auto

lemma json_write_ok_iff: "snd (json_write st v) = None \<longleftrightarrow> json_check v = ok"
proof (induction v rule: json_check.induct)
  case (2 l t)
  then show ?case by (auto simp: snd_json_items res_simps)
next
  case (3 d t)
  then show ?case
    by (force simp: snd_json_members res_simps Let_def)
qed auto

lemma json_text_Inr: "json_text st v = Inr t \<Longrightarrow> json_check v = ok \<and> fst (json_write st v) = t"
  using json_write_ok_iff [of st v] by (auto simp: json_text_def split: prod.splits option.splits)

lemma list_all_map_zip_refl:
  "(\<And>x. x \<in> set l \<Longrightarrow> f x x) \<Longrightarrow> list_all (\<lambda>x. x) (map (\<lambda>(x, y). x y) (zip (map f l) l))"
  by (induction l) auto

text \<open>A JSON value with distinct keys equals itself.\<close>

fun distinct_keys :: "pyval \<Rightarrow> bool" where
  "distinct_keys (PList l _) = list_all (\<lambda>x. x) (map distinct_keys l)"
| "distinct_keys (PDict d _) = (distinct (map fst d) \<and> list_all (\<lambda>x. x) (map (\<lambda>(k, v). distinct_keys v) d))"
| "distinct_keys _ = True"

lemma py_eq_refl: "json_check v = ok \<Longrightarrow> distinct_keys v \<Longrightarrow> py_eq v v"
proof (induction v rule: json_check.induct)
  case (1 f t)
  then show ?case by (auto simp: isfinite_def split: pyfloat.splits if_splits)
next
  case (2 l t)
  then have "py_eq x x" if "x \<in> set l" for x using that by (auto simp: res_simps list_all_iff)
  then show ?case using list_all_map_zip_refl [of l py_eq] by simp
next
  case (3 d t)
  then show ?case by (fastforce simp: res_simps list_all_iff map_of_eq_Some_iff)
qed auto

end
