(* ===== verification/Query_Snapshots.thy ===== *)
theory Query_Snapshots
  imports Client_Authorization Py_Json
begin

text \<open>
  \<open>services/query_snapshots.py\<close>: bounded pagination. A query result too long for one page is kept as an
  immutable snapshot under a fresh key, and a cursor \<open>key:offset\<close> continues it. The cache is an ordered
  dictionary of snapshots with the sum of their sizes; it expires snapshots, and evicts the oldest while
  the cache is full. The clock reading and the fresh key are arguments; deep copies are the values
  themselves, which no operation changes.
\<close>

definition MAX_PAGE_SIZE :: int where "MAX_PAGE_SIZE = 200"
definition MAX_SNAPSHOT_ROWS :: int where "MAX_SNAPSHOT_ROWS = 10000"
definition MAX_SNAPSHOT_BYTES :: int where "MAX_SNAPSHOT_BYTES = 4194304"
definition MAX_CACHE_BYTES :: int where "MAX_CACHE_BYTES = 16777216"
definition MAX_SNAPSHOTS :: nat where "MAX_SNAPSHOTS = 16"
definition SNAPSHOT_TTL_SECONDS :: pyfloat where "SNAPSHOT_TTL_SECONDS = Fin 120"

record query_scope =
  scope_env :: string
  scope_acc :: pyval
  scope_rest :: pydict

record snapshot =
  snap_query :: pydict
  snap_items :: "pyval list"
  snap_scope :: query_scope
  fetched_at :: string
  expires :: pyfloat
  snap_size :: nat

record query_page =
  page_items :: "pyval list"
  next_cursor :: "string option"
  total_rows :: nat
  returned_rows :: nat
  page_scope :: query_scope
  page_fetched_at :: string

record snapshots =
  stored :: "(string \<times> snapshot) list"
  stored_bytes :: int

definition empty_snapshots :: snapshots where
  "empty_snapshots = \<lparr>stored = [], stored_bytes = 0\<rparr>"

definition validate_limit :: "pyval \<Rightarrow> nat res" where
  "validate_limit v = (case v of
     PInt n \<Rightarrow> if n < 1 \<or> MAX_PAGE_SIZE < n then raise ValueError ''limit range'' else Inr (nat n)
   | _ \<Rightarrow> raise ValueError ''limit must be an integer'')"

text \<open>\<open>query["limit"]\<close>.\<close>

definition query_limit :: "pydict \<Rightarrow> nat res" where
  "query_limit q = (case map_of q ''limit'' of None \<Rightarrow> raise KeyError ''limit'' | Some v \<Rightarrow> validate_limit v)"

subsection \<open>The cache\<close>

definition remove_snapshot :: "string \<Rightarrow> snapshots \<Rightarrow> snapshots" where
  "remove_snapshot key c = (case map_of (stored c) key of None \<Rightarrow> c
     | Some s \<Rightarrow> \<lparr>stored = filter (\<lambda>p. fst p \<noteq> key) (stored c), stored_bytes = stored_bytes c - int (snap_size s)\<rparr>)"

definition expire :: "pyfloat \<Rightarrow> snapshots \<Rightarrow> snapshots" where
  "expire now c = foldl (\<lambda>acc (key, s). if expires s \<le> now then remove_snapshot key acc else acc) c (stored c)"

definition cache_full :: "nat \<Rightarrow> snapshots \<Rightarrow> bool" where
  "cache_full sz c \<longleftrightarrow> stored c \<noteq> []
     \<and> (MAX_SNAPSHOTS \<le> length (stored c) \<or> MAX_CACHE_BYTES < stored_bytes c + int sz)"

lemma length_remove_snapshot:
  "stored c \<noteq> [] \<Longrightarrow> length (stored (remove_snapshot (fst (hd (stored c))) c)) < length (stored c)"
  by (cases "stored c") (auto simp: remove_snapshot_def le_imp_less_Suc)

text \<open>\<open>while ...: self._remove(next(iter(self._snapshots)))\<close>.\<close>

function evict :: "nat \<Rightarrow> snapshots \<Rightarrow> snapshots" where
  "evict sz c = (if cache_full sz c then evict sz (remove_snapshot (fst (hd (stored c))) c) else c)"
  by pat_completeness auto
termination
  by (relation "measure (\<lambda>(sz, c). length (stored c))") (auto simp: cache_full_def length_remove_snapshot)

declare evict.simps [simp del]

text \<open>Assignment to a key of an ordered dictionary.\<close>

definition dict_put :: "'k \<Rightarrow> 'v \<Rightarrow> ('k \<times> 'v) list \<Rightarrow> ('k \<times> 'v) list" where
  "dict_put k v d = (if k \<in> fst ` set d then map (\<lambda>(k', v'). (k', if k' = k then v else v')) d else d @ [(k, v)])"

subsection \<open>Pages\<close>

definition cursor_text :: "string \<Rightarrow> nat \<Rightarrow> string" where
  "cursor_text key n = key @ '':'' @ int_text (int n)"

definition make_page ::
    "client_grants option \<Rightarrow> snapshot \<Rightarrow> string \<Rightarrow> nat \<Rightarrow> nat \<Rightarrow> query_page res" where
  "make_page g s key offset limit =
     bindR (check_account_access g (scope_env (snap_scope s)) (scope_acc (snap_scope s)) False) (\<lambda>_.
       let items = take limit (drop offset (snap_items s)); following = offset + length items in
       Inr \<lparr>page_items = items,
            next_cursor = (if following < length (snap_items s) then Some (cursor_text key following) else None),
            total_rows = length (snap_items s), returned_rows = length items,
            page_scope = snap_scope s, page_fetched_at = fetched_at s\<rparr>)"

definition scope_value :: "query_scope \<Rightarrow> pyval" where
  "scope_value s = as_dict ([(''trd_env'', PStr (scope_env s)), (''acc_id'', scope_acc s)] @ scope_rest s)"

definition payload :: "pydict \<Rightarrow> pyval list \<Rightarrow> query_scope \<Rightarrow> pyval" where
  "payload q items sc = as_dict [(''items'', PList items []), (''query'', as_dict q), (''scope'', scope_value sc)]"

text \<open>The size of the encoded payload, counted while it streams.\<close>

definition payload_size :: "pydict \<Rightarrow> pyval list \<Rightarrow> query_scope \<Rightarrow> nat res" where
  "payload_size q items sc = (case json_write wire_style (payload q items sc) of (t, e) \<Rightarrow>
     if int (utf8_length t) > min MAX_SNAPSHOT_BYTES MAX_CACHE_BYTES
     then raise TradeQueryError ''SNAPSHOT_LIMIT''
     else case e of Some x \<Rightarrow> Inl x | None \<Rightarrow> Inr (utf8_length t))"

text \<open>The locked part of \<open>create\<close>: expire, evict while full, store.\<close>

definition keep_snapshot :: "pyfloat \<Rightarrow> string \<Rightarrow> snapshot \<Rightarrow> snapshots \<Rightarrow> snapshots" where
  "keep_snapshot now key s c =
     (let e = evict (snap_size s) (expire now c) in
      \<lparr>stored = dict_put key s (stored e), stored_bytes = stored_bytes e + int (snap_size s)\<rparr>)"

definition create ::
    "client_grants option \<Rightarrow> pyfloat \<Rightarrow> pyfloat \<Rightarrow> string \<Rightarrow> pydict \<Rightarrow> pyval list \<Rightarrow> query_scope \<Rightarrow> string
      \<Rightarrow> snapshots \<Rightarrow> query_page res \<times> snapshots" where
  "create g now now' key q items sc fetched c =
     (case query_limit q of
        Inl e \<Rightarrow> (Inl e, c)
      | Inr limit \<Rightarrow>
         if MAX_SNAPSHOT_ROWS < int (length items) then (raise TradeQueryError ''SNAPSHOT_LIMIT'', c)
         else case payload_size q items sc of
           Inl e \<Rightarrow> (Inl e, c)
         | Inr sz \<Rightarrow>
            let s = \<lparr>snap_query = q, snap_items = items, snap_scope = sc, fetched_at = fetched,
                     expires = fadd now SNAPSHOT_TTL_SECONDS, snap_size = sz\<rparr> in
            (make_page g s key 0 limit, if length items \<le> limit then c else keep_snapshot now' key s c))"

text \<open>\<open>offset < limit or offset >= len(items) or offset % limit\<close>.\<close>

definition invalid_position :: "nat \<Rightarrow> nat \<Rightarrow> snapshot \<Rightarrow> bool" where
  "invalid_position offset limit s \<longleftrightarrow>
     offset < limit \<or> length (snap_items s) \<le> offset \<or> offset mod limit \<noteq> 0"

definition parse_cursor :: "pyval \<Rightarrow> (string \<times> nat) res" where
  "parse_cursor v = (case v of
     PStr t \<Rightarrow>
       if 128 < length t then raise ValueError ''cursor''
       else (case partition_at (CHR '':'') t of (key, sep, pos) \<Rightarrow>
          if \<not> sep \<or> \<not> isdecimal pos \<or> 8 < length pos then raise ValueError ''cursor''
          else bindR (int_of_text pos) (\<lambda>n. Inr (key, nat n)))
   | _ \<Rightarrow> raise ValueError ''cursor'')"

definition continue_page ::
    "client_grants option \<Rightarrow> pyfloat \<Rightarrow> pyval \<Rightarrow> pydict \<Rightarrow> snapshots \<Rightarrow> query_page res \<times> snapshots" where
  "continue_page g now cursor q c =
     (case bindR (query_limit q) (\<lambda>limit. bindR (parse_cursor cursor) (\<lambda>p. Inr (limit, p))) of
        Inl e \<Rightarrow> (Inl e, c)
      | Inr (limit, key, offset) \<Rightarrow>
         let c' = expire now c in
         (case map_of (stored c') key of
            None \<Rightarrow> (raise TradeQueryError ''CURSOR_EXPIRED'', c')
          | Some s \<Rightarrow>
             if \<not> py_eq (as_dict (snap_query s)) (as_dict q) then (raise TradeQueryError ''CURSOR_SCOPE'', c')
             else if invalid_position offset limit s then (raise ValueError ''page position'', c')
             else (make_page g s key offset limit, c')))"


subsection \<open>The cache invariant\<close>

definition total_size :: "(string \<times> snapshot) list \<Rightarrow> int" where
  "total_size xs = sum_list (map (\<lambda>p. int (snap_size (snd p))) xs)"

definition cache_ok :: "snapshots \<Rightarrow> bool" where
  "cache_ok c \<longleftrightarrow> distinct (map fst (stored c)) \<and> stored_bytes c = total_size (stored c)
     \<and> length (stored c) \<le> MAX_SNAPSHOTS \<and> stored_bytes c \<le> MAX_CACHE_BYTES"

lemma total_size_nonneg: "0 \<le> total_size xs"
  by (induction xs) (simp_all add: total_size_def)

lemma total_size_remove:
  "distinct (map fst xs) \<Longrightarrow> map_of xs k = Some s \<Longrightarrow>
   total_size (filter (\<lambda>p. fst p \<noteq> k) xs) = total_size xs - int (snap_size s)"
proof (induction xs)
  case (Cons p xs)
  have "filter (\<lambda>p. fst p \<noteq> k) xs = xs" if "k \<notin> fst ` set xs"
    using that by (induction xs) auto
  with Cons show ?case by (cases p) (auto simp: total_size_def split: if_splits)
qed simp

lemma remove_snapshot_ok:
  assumes "cache_ok c"
  shows "cache_ok (remove_snapshot k c)" "stored (remove_snapshot k c) = filter (\<lambda>p. fst p \<noteq> k) (stored c)"
proof -
  have none: "filter (\<lambda>p. fst p \<noteq> k) xs = xs" if "map_of xs k = None" for xs :: "(string \<times> snapshot) list"
    using that by (induction xs) (auto split: if_splits)
  show st: "stored (remove_snapshot k c) = filter (\<lambda>p. fst p \<noteq> k) (stored c)"
    by (auto simp: remove_snapshot_def none split: option.splits)
  show "cache_ok (remove_snapshot k c)"
  proof (cases "map_of (stored c) k")
    case None
    with assms show ?thesis by (simp add: remove_snapshot_def)
  next
    case (Some s)
    have "length (filter (\<lambda>p. fst p \<noteq> k) (stored c)) \<le> length (stored c)" by (rule length_filter_le)
    moreover have "length (stored c) \<le> MAX_SNAPSHOTS" using assms by (simp add: cache_ok_def)
    ultimately have "length (filter (\<lambda>p. fst p \<noteq> k) (stored c)) \<le> MAX_SNAPSHOTS" by (rule order_trans)
    with assms Some total_size_remove [of "stored c" k s] show ?thesis
      by (auto simp: remove_snapshot_def cache_ok_def distinct_map_filter)
  qed
qed

definition expire_step :: "pyfloat \<Rightarrow> snapshots \<Rightarrow> string \<times> snapshot \<Rightarrow> snapshots" where
  "expire_step now acc = (\<lambda>(key, s). if expires s \<le> now then remove_snapshot key acc else acc)"

lemma expire_step_simp [simp]:
  "expire_step now acc (k, s) = (if expires s \<le> now then remove_snapshot k acc else acc)"
  by (simp add: expire_step_def)

lemma expire_fold:
  assumes "cache_ok c" "distinct (map fst xs)" "set xs \<subseteq> set (stored c)"
  shows "cache_ok (foldl (expire_step now) c xs) \<and> stored (foldl (expire_step now) c xs)
     = filter (\<lambda>p. p \<notin> set xs \<or> \<not> expires (snd p) \<le> now) (stored c)"
  using assms
proof (induction xs arbitrary: c)
  case (Cons p xs)
  obtain k s where p: "p = (k, s)" by (cases p)
  have dist: "distinct (map fst (stored c))" using Cons.prems(1) by (simp add: cache_ok_def)
  have uniq: "q = p" if "q \<in> set (stored c)" "fst q = k" for q
  proof -
    have "p \<in> set (stored c)" using Cons.prems(3) by simp
    then have "map_of (stored c) k = Some s" using dist p by simp
    moreover have "map_of (stored c) (fst q) = Some (snd q)" using dist that(1) by simp
    ultimately show ?thesis using that(2) p by (simp add: prod_eq_iff)
  qed
  show ?case
  proof (cases "expires s \<le> now")
    case True
    note r = remove_snapshot_ok [OF Cons.prems(1), of k]
    have "set xs \<subseteq> set (stored (remove_snapshot k c))"
    proof
      fix q assume q: "q \<in> set xs"
      then have "fst q \<noteq> k" using Cons.prems(2) p by force
      with q Cons.prems(3) show "q \<in> set (stored (remove_snapshot k c))" by (auto simp: r(2))
    qed
    with Cons.IH [OF r(1)] Cons.prems(2) have IH: "cache_ok (foldl (expire_step now) (remove_snapshot k c) xs)"
      "stored (foldl (expire_step now) (remove_snapshot k c) xs)
         = filter (\<lambda>q. q \<notin> set xs \<or> \<not> expires (snd q) \<le> now) (filter (\<lambda>q. fst q \<noteq> k) (stored c))"
      by (simp_all add: r(2))
    have "(fst q \<noteq> k \<and> (q \<notin> set xs \<or> \<not> expires (snd q) \<le> now)) = (q \<notin> set (p # xs) \<or> \<not> expires (snd q) \<le> now)"
      if "q \<in> set (stored c)" for q
      using uniq [OF that] True p by (cases "q = p") auto
    then have "filter (\<lambda>q. fst q \<noteq> k \<and> (q \<notin> set xs \<or> \<not> expires (snd q) \<le> now)) (stored c)
        = filter (\<lambda>q. q \<notin> set (p # xs) \<or> \<not> expires (snd q) \<le> now) (stored c)" by (rule filter_cong [OF refl])
    with IH True p show ?thesis by (simp add: conj_commute)
  next
    case False
    then have "(q \<notin> set xs \<or> \<not> expires (snd q) \<le> now) = (q \<notin> set (p # xs) \<or> \<not> expires (snd q) \<le> now)" for q
      using p by auto
    with Cons.IH [OF Cons.prems(1)] Cons.prems(2,3) False p show ?thesis by simp
  qed
qed simp

lemma expire_ok:
  assumes "cache_ok c"
  shows "cache_ok (expire now c)" "stored (expire now c) = filter (\<lambda>p. \<not> expires (snd p) \<le> now) (stored c)"
proof -
  have "distinct (map fst (stored c))" using assms by (simp add: cache_ok_def)
  from expire_fold [OF assms this order_refl, of now]
  show "cache_ok (expire now c)" "stored (expire now c) = filter (\<lambda>p. \<not> expires (snd p) \<le> now) (stored c)"
    by (auto simp: expire_def expire_step_def [abs_def] intro!: filter_cong)
qed

lemma evict_ok:
  assumes "cache_ok c"
  shows "cache_ok (evict sz c) \<and> \<not> cache_full sz (evict sz c)
    \<and> set (stored (evict sz c)) \<subseteq> set (stored c)"
  using assms
proof (induction sz c rule: evict.induct)
  case (1 sz c)
  show ?case
  proof (cases "cache_full sz c")
    case True
    note r = remove_snapshot_ok [OF 1(2), of "fst (hd (stored c))"]
    from 1(1) [OF True r(1)] True r(2) show ?thesis by (subst (1 2 3) evict.simps) auto
  next
    case False
    with 1(2) show ?thesis by (subst (1 2 3) evict.simps) simp
  qed
qed

text \<open>The steps of the cache: the operations, with a fresh key for each new snapshot.\<close>

inductive snapshot_step :: "snapshots \<Rightarrow> snapshots \<Rightarrow> bool" where
  "key \<notin> fst ` set (stored c) \<Longrightarrow> create g now now' key q items sc fetched c = (r, c') \<Longrightarrow> snapshot_step c c'"
| "continue_page g now cursor q c = (r, c') \<Longrightarrow> snapshot_step c c'"

lemma payload_size_bound: "payload_size q items sc = Inr n \<Longrightarrow> int n \<le> MAX_SNAPSHOT_BYTES"
  by (auto simp: payload_size_def split: prod.splits if_splits option.splits)

lemma keep_snapshot_ok:
  assumes ok: "cache_ok c" and fresh: "key \<notin> fst ` set (stored c)" and sz: "int (snap_size s) \<le> MAX_SNAPSHOT_BYTES"
  shows "cache_ok (keep_snapshot now key s c)"
    and "map_of (stored (keep_snapshot now key s c)) key = Some s"
proof -
  define e where "e = evict (snap_size s) (expire now c)"
  have e: "cache_ok e" "\<not> cache_full (snap_size s) e" "set (stored e) \<subseteq> set (stored c)"
    using evict_ok [OF expire_ok(1) [OF ok], of "snap_size s" now] expire_ok(2) [OF ok, of now] by (auto simp: e_def)
  have new: "key \<notin> fst ` set (stored e)" using fresh e(3) by auto
  then have keep: "keep_snapshot now key s c
      = \<lparr>stored = stored e @ [(key, s)], stored_bytes = stored_bytes e + int (snap_size s)\<rparr>"
    by (simp add: keep_snapshot_def e_def [symmetric] dict_put_def Let_def)
  have "int (snap_size s) \<le> MAX_CACHE_BYTES"
    using sz by (simp add: MAX_SNAPSHOT_BYTES_def MAX_CACHE_BYTES_def)
  with e(1,2) new show "cache_ok (keep_snapshot now key s c)"
    by (auto simp: keep cache_ok_def cache_full_def total_size_def MAX_SNAPSHOTS_def)
  show "map_of (stored (keep_snapshot now key s c)) key = Some s"
    using new map_of_eq_None_iff [of "stored e" key] by (simp add: keep map_add_def)
qed

lemma create_cases:
  assumes "create g now now' key q items sc fetched c = (r, c')"
  obtains (refused) e where "r = Inl e" "c' = c"
  | (built) limit sz s where "query_limit q = Inr limit" "int (length items) \<le> MAX_SNAPSHOT_ROWS"
      "payload_size q items sc = Inr sz"
      "s = \<lparr>snap_query = q, snap_items = items, snap_scope = sc, fetched_at = fetched,
            expires = fadd now SNAPSHOT_TTL_SECONDS, snap_size = sz\<rparr>"
      "r = make_page g s key 0 limit" "c' = (if length items \<le> limit then c else keep_snapshot now' key s c)"
  using assms unfolding create_def Let_def by (auto split: sum.splits if_split_asm)

lemma create_ok:
  assumes "cache_ok c" "key \<notin> fst ` set (stored c)" "create g now now' key q items sc fetched c = (r, c')"
  shows "cache_ok c'"
  using assms(3)
proof (cases rule: create_cases)
  case (built limit sz s)
  then show ?thesis using keep_snapshot_ok(1) [OF assms(1,2), of s now'] payload_size_bound assms(1) by auto
qed (use assms in simp)

interpretation cache: guarded_system "\<lambda>c. c = empty_snapshots" snapshot_step cache_ok
proof unfold_locales
  show "cache_ok c" if "c = empty_snapshots" for c
    using that by (simp add: empty_snapshots_def cache_ok_def total_size_def MAX_CACHE_BYTES_def)
  show "cache_ok c'" if "cache_ok c" "snapshot_step c c'" for c c'
    using that(2,1)
  proof induction
    case (2 g now cursor q c r c')
    then show ?case
      using expire_ok(1) [of c now]
      by (auto simp: continue_page_def Let_def split: sum.splits option.splits if_splits)
  qed (auto intro: create_ok)
qed

subsection \<open>Cursors\<close>

lemma nat_text_length: "0 \<le> n \<Longrightarrow> n < 10 ^ Suc k \<Longrightarrow> length (nat_text n) \<le> Suc k"
proof (induction k arbitrary: n)
  case 0
  then show ?case by (simp add: nat_text.simps)
next
  case (Suc k)
  then have "length (nat_text (n div 10)) \<le> Suc k" by (intro Suc.IH) auto
  then show ?case by (subst nat_text.simps) simp
qed

lemma partition_at_append:
  "c \<notin> set xs \<Longrightarrow> partition_at c (xs @ c # ys) = (xs, True, ys)"
  by (induction xs) auto

text \<open>A cursor the cache issues is read back as its key and offset.\<close>

lemma parse_cursor_text:
  assumes "CHR '':'' \<notin> set key" "length key \<le> 100" "int n \<le> MAX_SNAPSHOT_ROWS"
  shows "parse_cursor (PStr (cursor_text key n)) = Inr (key, n)"
proof -
  have "length (nat_text (int n)) \<le> Suc 4" using assms(3) by (intro nat_text_length) (simp_all add: MAX_SNAPSHOT_ROWS_def)
  then have "length (int_text (int n)) \<le> 5" by (simp add: int_text_def)
  with assms show ?thesis
    by (simp add: parse_cursor_def cursor_text_def partition_at_append int_text_decimal int_of_text_int_text)
qed

lemma map_of_filter_keep:
  "map_of xs k = Some v \<Longrightarrow> P (k, v) \<Longrightarrow> map_of (filter P xs) k = Some v"
  by (induction xs) (auto split: if_splits)

text \<open>Continuing at a valid position of a live snapshot.\<close>

lemma continue_page_live:
  assumes ok: "cache_ok c" and s: "map_of (stored c) key = Some s" and live: "\<not> expires s \<le> now"
    and key: "CHR '':'' \<notin> set key" "length key \<le> 100"
    and lim: "query_limit q = Inr limit" and eq: "py_eq (as_dict (snap_query s)) (as_dict q)"
    and pos: "\<not> invalid_position off limit s" and rows: "int (length (snap_items s)) \<le> MAX_SNAPSHOT_ROWS"
  shows "continue_page g now (PStr (cursor_text key off)) q c = (make_page g s key off limit, expire now c)"
proof -
  have "int off \<le> MAX_SNAPSHOT_ROWS" using pos rows by (simp add: invalid_position_def)
  moreover have "map_of (stored (expire now c)) key = Some s"
    using s live by (simp add: expire_ok(2) [OF ok] map_of_filter_keep)
  ultimately show ?thesis
    using lim eq pos parse_cursor_text [OF key] by (simp add: continue_page_def Let_def)
qed

text \<open>A client that follows the cursors, one clock reading per page.\<close>

fun read_on ::
    "client_grants option \<Rightarrow> pydict \<Rightarrow> pyfloat list \<Rightarrow> string option \<Rightarrow> snapshots \<Rightarrow> pyval list res" where
  "read_on g q ts None c = Inr []"
| "read_on g q [] (Some k) c = raise RuntimeError ''reading stopped early''"
| "read_on g q (t # ts) (Some k) c =
     (case continue_page g t (PStr k) q c of
        (Inl e, _) \<Rightarrow> Inl e
      | (Inr p, c') \<Rightarrow> bindR (read_on g q ts (next_cursor p) c') (\<lambda>rest. Inr (page_items p @ rest)))"

lemma make_page_Inr:
  assumes "make_page g s key off limit = Inr p" "off \<le> length (snap_items s)"
  shows "page_items p = take limit (drop off (snap_items s))"
    and "next_cursor p = (if off + limit < length (snap_items s) then Some (cursor_text key (off + limit)) else None)"
    and "make_page g s key off' limit \<noteq> Inl e"
proof -
  have auth: "check_account_access g (scope_env (snap_scope s)) (scope_acc (snap_scope s)) False = ok"
    using assms(1)
    by (cases "check_account_access g (scope_env (snap_scope s)) (scope_acc (snap_scope s)) False")
      (auto simp: make_page_def)
  show "page_items p = take limit (drop off (snap_items s))"
    "next_cursor p = (if off + limit < length (snap_items s) then Some (cursor_text key (off + limit)) else None)"
    using assms by (auto simp: make_page_def Let_def res_simps min_def split: if_splits)
  show "make_page g s key off' limit \<noteq> Inl e" unfolding make_page_def auth by (simp add: Let_def)
qed

lemma read_on_all:
  assumes s: "map_of (stored c) key = Some s" "cache_ok c"
    and key: "CHR '':'' \<notin> set key" "length key \<le> 100"
    and lim: "query_limit q = Inr limit" and eq: "py_eq (as_dict (snap_query s)) (as_dict q)"
    and rows: "int (length (snap_items s)) \<le> MAX_SNAPSHOT_ROWS"
    and auth: "make_page g s key 0 limit = Inr p0"
    and live: "\<forall>t \<in> set ts. \<not> expires s \<le> t"
    and off: "limit \<le> off" "off mod limit = 0" "0 < limit"
    and enough: "length (snap_items s) \<le> off + length ts * limit"
  shows "read_on g q ts (if off < length (snap_items s) then Some (cursor_text key off) else None) c
    = Inr (drop off (snap_items s))"
  using s live off enough
proof (induction ts arbitrary: c off)
  case Nil
  then show ?case by simp
next
  case (Cons t ts)
  show ?case
  proof (cases "off < length (snap_items s)")
    case True
    obtain p where p: "make_page g s key off limit = Inr p"
      using make_page_Inr(3) [OF auth] by (cases "make_page g s key off limit") auto
    note page = make_page_Inr(1,2) [OF p less_imp_le [OF True]]
    have cont: "continue_page g t (PStr (cursor_text key off)) q c = (Inr p, expire t c)"
      using continue_page_live [OF Cons.prems(2,1) _ key lim eq _ rows, of t off g] Cons.prems(3-5) True p
      by (simp add: invalid_position_def)
    have "read_on g q ts (next_cursor p) (expire t c) = Inr (drop (off + limit) (snap_items s))"
      unfolding page(2)
    proof (rule Cons.IH)
      show "map_of (stored (expire t c)) key = Some s"
        using Cons.prems(1,3) by (simp add: expire_ok(2) [OF Cons.prems(2)] map_of_filter_keep)
      show "cache_ok (expire t c)" by (rule expire_ok(1) [OF Cons.prems(2)])
    qed (use Cons.prems in simp_all)
    moreover have "take limit (drop off (snap_items s)) @ drop (off + limit) (snap_items s) = drop off (snap_items s)"
      by (metis append_take_drop_id drop_drop add.commute)
    ultimately show ?thesis using True cont page(1) by simp
  qed simp
qed

subsection \<open>Properties of the snapshots\<close>

text \<open>The cache stays within its bounds in every run: at most 16 snapshots, keys unique, and the
  byte counter is the sum of the sizes of the snapshots it holds and never exceeds 16 MiB.\<close>

theorem snapshot_cache_bounded:
  assumes "snapshot_step\<^sup>*\<^sup>* empty_snapshots c"
  shows "length (stored c) \<le> 16 \<and> distinct (map fst (stored c))
    \<and> stored_bytes c = (\<Sum>p\<leftarrow>stored c. int (snap_size (snd p))) \<and> stored_bytes c \<le> 16777216"
  using cache.reachable_invar [OF refl assms]
  by (simp add: cache_ok_def MAX_SNAPSHOTS_def MAX_CACHE_BYTES_def total_size_def)

theorem snapshot_cache_bounded_witness:
  "stored_bytes (expire (Fin 0) empty_snapshots) \<le> 16777216"
proof -
  have "snapshot_step empty_snapshots (snd (continue_page None (Fin 0) PNone [(''limit'', PInt 1)] empty_snapshots))"
    by (rule snapshot_step.intros(2)) (rule prod.collapse [symmetric])
  moreover have "snd (continue_page None (Fin 0) PNone [(''limit'', PInt 1)] empty_snapshots)
      = expire (Fin 0) empty_snapshots"
    by (simp add: continue_page_def query_limit_def validate_limit_def MAX_PAGE_SIZE_def parse_cursor_def
        expire_def empty_snapshots_def)
  ultimately have "snapshot_step\<^sup>*\<^sup>* empty_snapshots (expire (Fin 0) empty_snapshots)" by auto
  from snapshot_cache_bounded [OF this] show ?thesis by blast
qed

text \<open>C38. Pagination is complete. When \<open>create\<close> has returned a first page under a fresh key, a client
  that follows the cursors with the same query before the snapshot expires reads exactly the remaining
  rows, in order: the pages together are the result, and reading ends with no cursor.\<close>

theorem pages_cover_the_result:
  assumes ok: "cache_ok c" and key: "key \<notin> fst ` set (stored c)" "CHR '':'' \<notin> set key" "length key \<le> 100"
    and res: "create g now now' key q items sc fetched c = (Inr p, c')"
    and json: "json_check (as_dict q) = ok" "distinct_keys (as_dict q)"
    and live: "\<forall>t \<in> set ts. \<not> fadd now SNAPSHOT_TTL_SECONDS \<le> t" and enough: "length items \<le> length ts"
  shows "\<exists>rest. read_on g q ts (next_cursor p) c' = Inr rest \<and> page_items p @ rest = items"
  using res
proof (cases rule: create_cases)
  case (built limit sz s)
  have pos: "0 < limit" using built(1)
    by (auto simp: query_limit_def validate_limit_def split: option.splits pyval.splits if_splits)
  have page: "make_page g s key 0 limit = Inr p" using built(5) by simp
  have s: "snap_items s = items" "snap_query s = q" "expires s = fadd now SNAPSHOT_TTL_SECONDS" "snap_size s = sz"
    by (simp_all add: built(4))
  note p = make_page_Inr(1,2) [OF page, simplified s, simplified]
  show ?thesis
  proof (cases "length items \<le> limit")
    case True
    with p show ?thesis by (intro exI [of _ "[]"]) simp
  next
    case False
    have sz: "int (snap_size s) \<le> MAX_SNAPSHOT_BYTES" using payload_size_bound [OF built(3)] s(4) by simp
    have c': "c' = keep_snapshot now' key s c" using built(6) False by simp
    note keep = keep_snapshot_ok [OF ok key(1) sz, of now', folded c']
    have "length items \<le> limit + length ts * limit" using enough pos by (cases limit) auto
    then have "read_on g q ts (if limit < length items then Some (cursor_text key limit) else None) c' = Inr (drop limit items)"
      using read_on_all [OF keep(2,1) key(2,3) built(1) _ _ page, of ts limit] py_eq_refl [OF json] built(2) live pos s
      by simp
    with p False show ?thesis by simp
  qed
qed simp

definition sample_rows :: "pyval list" where
  "sample_rows = [PInt 1, PInt 2, PInt 3]"

definition sample_scope :: query_scope where
  "sample_scope = \<lparr>scope_env = ''REAL'', scope_acc = PInt 7, scope_rest = []\<rparr>"

lemma sample_size: "\<exists>n. payload_size [(''limit'', PInt 2)] sample_rows sample_scope = Inr n"
proof -
  let ?w = "json_write wire_style (payload [(''limit'', PInt 2)] sample_rows sample_scope)"
  have "snd ?w = None"
    unfolding json_write_ok_iff by (simp add: payload_def sample_rows_def scope_value_def sample_scope_def)
  moreover have "utf8_length (fst ?w) < 1000" by code_simp
  ultimately show ?thesis
    by (cases ?w) (auto simp: payload_size_def MAX_SNAPSHOT_BYTES_def MAX_CACHE_BYTES_def)
qed

lemma sample_create:
  "\<exists>p c'. create None (Fin 0) (Fin 0) ''k'' [(''limit'', PInt 2)] sample_rows sample_scope ''t'' empty_snapshots
     = (Inr p, c')"
proof -
  obtain n where "payload_size [(''limit'', PInt 2)] sample_rows sample_scope = Inr n" using sample_size by blast
  moreover have "length sample_rows = 3" by (simp add: sample_rows_def)
  ultimately show ?thesis
    by (simp add: create_def query_limit_def validate_limit_def MAX_PAGE_SIZE_def MAX_SNAPSHOT_ROWS_def
        make_page_def check_account_access_def account_access_allowed_def Let_def)
qed

theorem pages_cover_the_result_witness:
  "\<exists>p c' rest. create None (Fin 0) (Fin 0) ''k'' [(''limit'', PInt 2)] sample_rows sample_scope ''t'' empty_snapshots
      = (Inr p, c') \<and> read_on None [(''limit'', PInt 2)] [Fin 1, Fin 2, Fin 3] (next_cursor p) c' = Inr rest
    \<and> page_items p @ rest = sample_rows"
proof -
  obtain p c' where create: "create None (Fin 0) (Fin 0) ''k'' [(''limit'', PInt 2)] sample_rows sample_scope ''t''
      empty_snapshots = (Inr p, c')"
    using sample_create by blast
  have ok: "cache_ok empty_snapshots"
    by (simp add: cache_ok_def empty_snapshots_def total_size_def MAX_CACHE_BYTES_def)
  have "\<exists>rest. read_on None [(''limit'', PInt 2)] [Fin 1, Fin 2, Fin 3] (next_cursor p) c' = Inr rest
      \<and> page_items p @ rest = sample_rows"
    by (rule pages_cover_the_result [OF ok _ _ _ create])
      (simp_all add: empty_snapshots_def sample_rows_def fadd_def SNAPSHOT_TTL_SECONDS_def)
  with create show ?thesis by blast
qed

end
