(* ===== verification/Execution_Identity.thy ===== *)
theory Execution_Identity
  imports Py_Json
begin

text \<open>
  \<open>services/execution_identity.py\<close>: caller tokens, plain decimal prices and the canonical form of a
  request, by which a retry is recognized. Canonical requests are JSON text with sorted keys; the theory
  holds the reader of such text as well, since retries compare the stored request with the proposed one.
  The reader covers the text \<open>json.dumps\<close> writes with \<open>allow_nan=False\<close>; a float keeps the text it was
  written with, which is its \<open>repr\<close>.
\<close>

subsection \<open>Tokens\<close>

definition validate_identity_token :: "string \<Rightarrow> pyval \<Rightarrow> string res" where
  "validate_identity_token field v = (case v of
     PStr s \<Rightarrow>
       if length s < 1 then raise IdentityTokenValidationError ''min_length''
       else if 64 < length s then raise IdentityTokenValidationError ''max_length''
       else if strip s = [] then raise IdentityTokenValidationError ''nonblank''
       else if \<not> isprintable s then raise IdentityTokenValidationError ''printable''
       else Inr s
   | PNone \<Rightarrow> raise IdentityTokenValidationError ''required''
   | _ \<Rightarrow> raise IdentityTokenValidationError ''strict_string'')"

definition validate_token :: "pyval \<Rightarrow> pyval \<Rightarrow> unit res" where
  "validate_token operation_id admission_epoch =
     bindR (validate_identity_token ''operation_id'' operation_id) (\<lambda>_.
     bindR (validate_identity_token ''admission_epoch'' admission_epoch) (\<lambda>_. ok))"

subsection \<open>Prices\<close>

text \<open>\<open>decimal_price\<close>: ASCII digits with at most one point between digits, at most 64 characters.\<close>

definition plain_decimal :: "string \<Rightarrow> bool" where
  "plain_decimal s \<longleftrightarrow> 1 \<le> length s \<and> length s \<le> 64 \<and> length (split_on (CHR ''.'') s) \<le> 2
     \<and> (\<forall>part \<in> set (split_on (CHR ''.'') s). part \<noteq> [] \<and> list_all decimal_char part)"

definition decimal_price :: "pyval \<Rightarrow> pydec res" where
  "decimal_price v = (case v of
     PStr s \<Rightarrow>
       if \<not> plain_decimal s then raise ValueError ''positive decimal string''
       else (case decimal_of_text s of
          None \<Rightarrow> raise InvalidOperation ''Decimal''
        | Some d \<Rightarrow> if dec_val d \<le> 0 then raise ValueError ''must be positive'' else Inr d)
   | _ \<Rightarrow> raise ValueError ''positive decimal string'')"

text \<open>\<open>format(d, "f")\<close> of a finite decimal. A zero with a positive exponent is written \<open>0\<close>.\<close>

definition fixed_text :: "int \<Rightarrow> nat \<Rightarrow> string" where
  "fixed_text c k = (let ds = int_text c; padded = replicate (Suc k - length ds) (CHR ''0'') @ ds in
     if k = 0 then ds
     else take (length padded - k) padded @ CHR ''.'' # drop (length padded - k) padded)"

fun format_f :: "pydec \<Rightarrow> string" where
  "format_f (Dec n c e) = (if n then ''-'' else []) @
     (if 0 < e then (if c = 0 then ''0'' else int_text c @ replicate (nat e) (CHR ''0''))
      else fixed_text c (nat (- e)))"
| "format_f (DecInf n) = (if n then ''-Infinity'' else ''Infinity'')"
| "format_f DecNaN = ''NaN''"

definition rstrip_char :: "char \<Rightarrow> string \<Rightarrow> string" where
  "rstrip_char c s = rev (dropWhile (\<lambda>x. x = c) (rev s))"

definition drop_zeros :: "string \<Rightarrow> string" where
  "drop_zeros s = (if CHR ''.'' \<in> set s then rstrip_char (CHR ''.'') (rstrip_char (CHR ''0'') s) else s)"

definition canonical_price :: "pyval \<Rightarrow> string res" where
  "canonical_price v = bindR (decimal_price v) (\<lambda>d. Inr (drop_zeros (format_f d)))"

subsection \<open>Canonical requests\<close>

fun canonical_value :: "string \<Rightarrow> pyval \<Rightarrow> pyval res" where
  "canonical_value key (PDict d t) =
     (if key = ''price'' then bindR (canonical_price (PDict d t)) (\<lambda>s. Inr (PStr s))
      else bindR (mapR (\<lambda>(k, v). bindR (canonical_value k v) (\<lambda>w. Inr (k, w))) d) (\<lambda>d'. Inr (PDict d' [])))"
| "canonical_value key (PList l t) =
     (if key = ''price'' then bindR (canonical_price (PList l t)) (\<lambda>s. Inr (PStr s))
      else bindR (mapR (canonical_value []) l) (\<lambda>l'. Inr (PList l' [])))"
| "canonical_value key v =
     (if key = ''price'' then bindR (canonical_price v) (\<lambda>s. Inr (PStr s)) else Inr v)"

definition canonicalize_request :: "string \<Rightarrow> int \<Rightarrow> string \<Rightarrow> pydict \<Rightarrow> string res" where
  "canonicalize_request env acc op params =
     bindR (canonical_value [] (as_dict params)) (\<lambda>p.
       json_text canonical_style (as_dict [(''env'', PStr env), (''account'', PStr (int_text acc)),
         (''op_type'', PStr op), (''params'', p)]))"

subsection \<open>Reading JSON\<close>

definition hex_val :: "char \<Rightarrow> nat option" where
  "hex_val c = (let n = ord_of c in
     if 48 \<le> n \<and> n \<le> 57 then Some (n - 48) else if 97 \<le> n \<and> n \<le> 102 then Some (n - 87)
     else if 65 \<le> n \<and> n \<le> 70 then Some (n - 55) else None)"

definition unescape :: "char \<Rightarrow> char option" where
  "unescape c = (let n = ord_of c in
     if n = 34 \<or> n = 92 \<or> n = 47 then Some c
     else if c = CHR ''b'' then Some (char_of (8 :: nat)) else if c = CHR ''f'' then Some (char_of (12 :: nat))
     else if c = CHR ''n'' then Some (char_of (10 :: nat)) else if c = CHR ''r'' then Some (char_of (13 :: nat))
     else if c = CHR ''t'' then Some (char_of (9 :: nat)) else None)"

text \<open>The characters of a string up to its closing quote. Only code points of the modelled range occur.\<close>

fun read_chars :: "string \<Rightarrow> (string \<times> string) option" where
  "read_chars [] = None"
| "read_chars (c # cs) =
     (if c = CHR 0x22 then Some ([], cs)
      else if c = CHR 0x5C then
        (case cs of
           [] \<Rightarrow> None
         | e # rest \<Rightarrow>
            if e = CHR ''u'' then
              (case rest of
                 a # b # h # l # rest' \<Rightarrow>
                   (case (hex_val a, hex_val b, hex_val h, hex_val l) of
                      (Some 0, Some 0, Some x, Some y) \<Rightarrow>
                        map_option (\<lambda>(s, r). (char_of (16 * x + y) # s, r)) (read_chars rest')
                    | _ \<Rightarrow> None)
               | _ \<Rightarrow> None)
            else (case unescape e of None \<Rightarrow> None
                  | Some d \<Rightarrow> map_option (\<lambda>(s, r). (d # s, r)) (read_chars rest)))
      else if ord_of c < 32 then None
      else map_option (\<lambda>(s, r). (c # s, r)) (read_chars cs))"

definition skip_blank :: "string \<Rightarrow> string" where
  "skip_blank s = dropWhile (\<lambda>c. ord_of c \<in> {9, 10, 13, 32}) s"

definition number_char :: "char \<Rightarrow> bool" where
  "number_char c \<longleftrightarrow> decimal_char c \<or> c \<in> set ''+-.eE''"

definition read_number :: "string \<Rightarrow> (pyval \<times> string) option" where
  "read_number s = (let t = takeWhile number_char s; r = dropWhile number_char s; neg = (t \<noteq> [] \<and> hd t = CHR ''-''); ds = (if neg then tl t else t) in
     if isdecimal ds \<and> (length ds = 1 \<or> hd ds \<noteq> CHR ''0'')
     then Some (PInt ((if neg then - 1 else 1) * digits_val ds), r)
     else map_option (\<lambda>f. (PFloat f t, r)) (float_of_text t))"

definition put_member :: "string \<Rightarrow> pyval \<Rightarrow> pydict \<Rightarrow> pydict" where
  "put_member k v d = (if k \<in> fst ` set d then map (\<lambda>(k', v'). (k', if k' = k then v else v')) d else d @ [(k, v)])"

text \<open>The fuel bounds the nesting; the length of the text is enough, since every call consumes a
  character.\<close>

fun read_value :: "nat \<Rightarrow> string \<Rightarrow> (pyval \<times> string) option"
and read_items :: "nat \<Rightarrow> pyval list \<Rightarrow> string \<Rightarrow> (pyval \<times> string) option"
and read_members :: "nat \<Rightarrow> pydict \<Rightarrow> string \<Rightarrow> (pyval \<times> string) option" where
  "read_value 0 s = None"
| "read_value (Suc n) s = (case s of
     [] \<Rightarrow> None
   | c # cs \<Rightarrow>
      if c = CHR 0x22 then map_option (\<lambda>(t, r). (PStr t, r)) (read_chars cs)
      else if c = CHR ''['' then
        (case skip_blank cs of [] \<Rightarrow> None
         | d # r \<Rightarrow> if d = CHR '']'' then Some (PList [] [], r) else read_items n [] (d # r))
      else if c = CHR ''{'' then
        (case skip_blank cs of [] \<Rightarrow> None
         | d # r \<Rightarrow> if d = CHR ''}'' then Some (PDict [] [], r) else read_members n [] (d # r))
      else if startswith s ''null'' then Some (PNone, drop 4 s)
      else if startswith s ''true'' then Some (PBool True, drop 4 s)
      else if startswith s ''false'' then Some (PBool False, drop 5 s)
      else read_number s)"
| "read_items 0 acc s = None"
| "read_items (Suc n) acc s = (case read_value n s of
     None \<Rightarrow> None
   | Some (v, r) \<Rightarrow> (case skip_blank r of
       [] \<Rightarrow> None
     | c # cs \<Rightarrow> if c = CHR '']'' then Some (PList (acc @ [v]) [], cs)
               else if c = CHR '','' then read_items n (acc @ [v]) (skip_blank cs) else None))"
| "read_members 0 acc s = None"
| "read_members (Suc n) acc s = (case s of
     [] \<Rightarrow> None
   | q # qs \<Rightarrow> if q \<noteq> CHR 0x22 then None
      else (case read_chars qs of
          None \<Rightarrow> None
        | Some (k, r) \<Rightarrow> (case skip_blank r of
            [] \<Rightarrow> None
          | c # cs \<Rightarrow> if c \<noteq> CHR '':'' then None
             else (case read_value n (skip_blank cs) of
                 None \<Rightarrow> None
               | Some (v, r) \<Rightarrow> (case skip_blank r of
                   [] \<Rightarrow> None
                 | c # cs \<Rightarrow> if c = CHR ''}'' then Some (PDict (put_member k v acc) [], cs)
                           else if c = CHR '','' then read_members n (put_member k v acc) (skip_blank cs)
                           else None)))))"

definition json_loads :: "string \<Rightarrow> pyval res" where
  "json_loads s = (case read_value (Suc (length s)) (skip_blank s) of
     Some (v, r) \<Rightarrow> if skip_blank r = [] then Inr v else raise ValueError ''JSON''
   | None \<Rightarrow> raise ValueError ''JSON'')"

subsection \<open>Comparing requests\<close>

definition member :: "string \<Rightarrow> pyval \<Rightarrow> pyval res" where
  "member k v = (case v of
     PDict d _ \<Rightarrow> (case map_of d k of None \<Rightarrow> raise KeyError k | Some w \<Rightarrow> Inr w)
   | _ \<Rightarrow> raise TypeError ''not a mapping'')"

fun keys_of :: "pyval \<Rightarrow> string list" where
  "keys_of (PDict d _) = map fst d"
| "keys_of _ = []"

definition same_member :: "pyval \<Rightarrow> pyval \<Rightarrow> string \<Rightarrow> bool" where
  "same_member l r k = (case (member k l, member k r) of (Inr v, Inr w) \<Rightarrow> py_eq v w | _ \<Rightarrow> False)"

definition differing_params :: "pyval \<Rightarrow> pyval \<Rightarrow> string list" where
  "differing_params l r = filter (\<lambda>k. \<not> same_member l r k) (sorted_set (keys_of l @ keys_of r))"

definition differing_top :: "pyval \<Rightarrow> pyval \<Rightarrow> string list res" where
  "differing_top l r = bindR (mapR (\<lambda>k. bindR (member k l) (\<lambda>v. bindR (member k r) (\<lambda>w. Inr (k, py_eq v w))))
      [''env'', ''account'', ''op_type'']) (\<lambda>rs. Inr (map fst (filter (\<lambda>p. \<not> snd p) rs)))"

definition differing_fields :: "string \<Rightarrow> string \<Rightarrow> string list res" where
  "differing_fields stored proposed =
     bindR (json_loads stored) (\<lambda>l. bindR (json_loads proposed) (\<lambda>r.
     bindR (differing_top l r) (\<lambda>top.
     bindR (member ''params'' l) (\<lambda>lp. bindR (member ''params'' r) (\<lambda>rp.
       Inr (top @ differing_params lp rp))))))"


subsection \<open>Fixed-point text\<close>

lemma zero_char: "char_of (48 :: nat) = CHR ''0''"
  by code_simp

lemma int_text_times_10: "0 < c \<Longrightarrow> int_text (10 * c) = int_text c @ ''0''"
  by (simp add: int_text_def nat_text.simps [of "10 * c"] zero_char)

lemma no_point: "\<forall>x \<in> set xs. decimal_char x \<Longrightarrow> CHR ''.'' \<notin> set xs"
  by (auto simp: decimal_char_def ord_of_def)

lemma int_text_chars: "0 \<le> c \<Longrightarrow> int_text c \<noteq> [] \<and> (\<forall>x \<in> set (int_text c). decimal_char x)"
  using int_text_decimal [of c] by (auto simp: isdecimal_def list_all_iff)

definition padded_text :: "int \<Rightarrow> nat \<Rightarrow> string" where
  "padded_text c k = replicate (Suc k - length (int_text c)) (CHR ''0'') @ int_text c"

lemma length_padded: "k < length (padded_text c k)"
  by (simp add: padded_text_def)

lemma fixed_text_Suc:
  "0 < k \<Longrightarrow> fixed_text c k = take (length (padded_text c k) - k) (padded_text c k) @ CHR ''.''
     # drop (length (padded_text c k) - k) (padded_text c k)"
  by (simp add: fixed_text_def padded_text_def Let_def)

lemma padded_text_times_10: "0 < c \<Longrightarrow> padded_text (10 * c) (Suc k) = padded_text c k @ ''0''"
  by (simp add: padded_text_def int_text_times_10)

lemma rstrip_char_append:
  "rstrip_char c (xs @ ys) = (if rstrip_char c ys = [] then rstrip_char c xs else xs @ rstrip_char c ys)"
  by (auto simp: rstrip_char_def dropWhile_append)

lemma rstrip_char_simps [simp]:
  "rstrip_char c [] = []" "rstrip_char c [x] = (if x = c then [] else [x])"
  by (simp_all add: rstrip_char_def)

lemma rstrip_char_Cons: "x \<noteq> c \<Longrightarrow> rstrip_char c (x # xs) = x # rstrip_char c xs"
  using rstrip_char_append [of c "[x]" xs] by simp

lemma rstrip_char_split: "\<exists>j. xs = rstrip_char c xs @ replicate j c"
proof (induction xs rule: rev_induct)
  case (snoc x xs)
  show ?case
  proof (cases "x = c")
    case True
    from snoc obtain j where "xs = rstrip_char c xs @ replicate j c" by blast
    then have "xs @ [x] = rstrip_char c (xs @ [x]) @ replicate (Suc j) c"
      using True by (simp add: rstrip_char_append replicate_append_same [symmetric])
    then show ?thesis by blast
  qed (auto simp: rstrip_char_append intro: exI [of _ 0])
qed simp

lemma rstrip_char_last: "rstrip_char c xs \<noteq> [] \<Longrightarrow> last (rstrip_char c xs) \<noteq> c"
  by (induction xs rule: rev_induct) (auto simp: rstrip_char_append)

lemma rstrip_char_id: "xs = [] \<or> last xs \<noteq> c \<Longrightarrow> rstrip_char c xs = xs"
  by (cases xs rule: rev_cases) (auto simp: rstrip_char_append)

lemma decimal_not_point [simp]: "decimal_char x \<Longrightarrow> x \<noteq> CHR ''.''"
  by (auto simp: decimal_char_def ord_of_def)

text \<open>Removing the zeros of \<open>ip.fp\<close>.\<close>

lemma drop_zeros_point:
  assumes "ip \<noteq> []" "\<forall>x \<in> set ip. decimal_char x" "\<forall>x \<in> set fp. decimal_char x"
  shows "drop_zeros (ip @ CHR ''.'' # fp) =
    (if rstrip_char (CHR ''0'') fp = [] then ip else ip @ CHR ''.'' # rstrip_char (CHR ''0'') fp)"
proof -
  let ?r = "rstrip_char (CHR ''0'') fp"
  have r: "\<forall>x \<in> set ?r. decimal_char x" using assms(3) rstrip_char_split [of fp "CHR ''0''"]
    by (metis UnI1 set_append)
  have ip: "rstrip_char (CHR ''.'') ip = ip"
    using assms(1,2) by (intro rstrip_char_id) (metis decimal_not_point last_in_set)
  have "rstrip_char (CHR ''0'') (ip @ CHR ''.'' # fp) = ip @ CHR ''.'' # ?r"
    by (simp add: rstrip_char_append rstrip_char_Cons)
  moreover have "rstrip_char (CHR ''.'') (ip @ CHR ''.'' # ?r) = ip @ CHR ''.'' # ?r" if "?r \<noteq> []"
    using that r by (intro rstrip_char_id) (metis append_is_Nil_conv decimal_not_point last_ConsR last_appendR last_in_set list.distinct(1))
  ultimately show ?thesis using ip by (auto simp: drop_zeros_def rstrip_char_append)
qed

lemma drop_zeros_times_10:
  assumes "0 < c"
  shows "drop_zeros (fixed_text (10 * c) (Suc k)) = drop_zeros (fixed_text c k)"
proof -
  let ?p = "padded_text c k" let ?n = "length ?p - k"
  have chars: "\<forall>x \<in> set ?p. decimal_char x"
    using int_text_chars [of c] assms by (auto simp: padded_text_def decimal_char_def ord_of_def)
  then have parts: "take ?n ?p \<noteq> []" "\<forall>x \<in> set (take ?n ?p). decimal_char x" "\<forall>x \<in> set (drop ?n ?p). decimal_char x"
    using length_padded [of k c] by (auto dest: in_set_takeD in_set_dropD)
  have "fixed_text (10 * c) (Suc k) = take ?n ?p @ CHR ''.'' # drop ?n ?p @ ''0''"
    using length_padded [of k c] by (simp add: fixed_text_Suc padded_text_times_10 [OF assms])
  moreover have "\<forall>x \<in> set (drop ?n ?p @ ''0''). decimal_char x" using parts(3) by (auto simp: decimal_char_def ord_of_def)
  moreover have "rstrip_char (CHR ''0'') (drop ?n ?p @ ''0'') = rstrip_char (CHR ''0'') (drop ?n ?p)"
    by (simp add: rstrip_char_append)
  ultimately have "drop_zeros (fixed_text (10 * c) (Suc k)) =
      (if rstrip_char (CHR ''0'') (drop ?n ?p) = [] then take ?n ?p
       else take ?n ?p @ CHR ''.'' # rstrip_char (CHR ''0'') (drop ?n ?p))"
    using drop_zeros_point [OF parts(1,2)] by simp
  also have "\<dots> = drop_zeros (fixed_text c k)"
  proof (cases "k = 0")
    case True
    have "CHR ''.'' \<notin> set (int_text c)" using int_text_chars [of c] assms no_point by simp
    moreover have "Suc 0 \<le> length (int_text c)" using int_text_chars [of c] assms by (simp add: Suc_le_eq)
    ultimately show ?thesis using True by (simp add: fixed_text_def padded_text_def Let_def drop_zeros_def)
  next
    case False
    then show ?thesis using drop_zeros_point [OF parts] by (simp add: fixed_text_Suc)
  qed
  finally show ?thesis .
qed

lemma drop_zeros_scale: "0 < c \<Longrightarrow> drop_zeros (fixed_text (c * 10 ^ j) (k + j)) = drop_zeros (fixed_text c k)"
proof (induction j)
  case (Suc j)
  then show ?case using drop_zeros_times_10 [of "c * 10 ^ j" "k + j"] by (simp add: mult.left_commute mult.commute)
qed simp

text \<open>The number a fixed-point text denotes.\<close>

definition plain_value :: "string \<Rightarrow> rat" where
  "plain_value s = (case partition_at (CHR ''.'') s of (ip, _, fp) \<Rightarrow> of_int (digits_val (ip @ fp)) / 10 ^ length fp)"

lemma partition_at_no: "c \<notin> set xs \<Longrightarrow> partition_at c xs = (xs, False, [])"
  by (induction xs) auto

lemma partition_at_yes: "c \<notin> set xs \<Longrightarrow> partition_at c (xs @ c # ys) = (xs, True, ys)"
  by (induction xs) auto

lemma digits_val_zeros_right: "digits_val (xs @ replicate j (CHR ''0'')) = digits_val xs * 10 ^ j"
proof (induction j)
  case (Suc j)
  have "xs @ replicate (Suc j) (CHR ''0'') = (xs @ replicate j (CHR ''0'')) @ [CHR ''0'']"
    by (simp add: replicate_append_same [symmetric])
  then show ?case using Suc by (simp only: digits_val_snoc) (simp add: digit_val_def ord_of_def)
qed simp

lemma digits_val_zeros_left: "digits_val (replicate j (CHR ''0'') @ xs) = digits_val xs"
  by (induction j) (auto simp: digits_val_def digit_val_def ord_of_def)

lemma plain_value_drop_zeros:
  assumes "0 \<le> c"
  shows "plain_value (drop_zeros (fixed_text c k)) = of_int c / 10 ^ k"
proof (cases "k = 0")
  case True
  have np: "CHR ''.'' \<notin> set (int_text c)" using int_text_chars [OF assms] no_point by simp
  have "digits_val (int_text c) = c" using assms by (simp add: int_text_def)
  with True np show ?thesis by (simp add: fixed_text_def Let_def drop_zeros_def plain_value_def partition_at_no)
next
  case False
  let ?p = "padded_text c k"
  let ?n = "length ?p - k"
  let ?ip = "take ?n ?p" and ?fp = "drop ?n ?p"
  have chars: "\<forall>x \<in> set ?p. decimal_char x"
    using int_text_chars [OF assms] by (auto simp: padded_text_def decimal_char_def ord_of_def)
  then have parts: "?ip \<noteq> []" "\<forall>x \<in> set ?ip. decimal_char x" "\<forall>x \<in> set ?fp. decimal_char x"
    using length_padded [of k c] by (auto dest: in_set_takeD in_set_dropD)
  have np: "CHR ''.'' \<notin> set ?ip" using parts(2) by (rule no_point)
  have len: "length ?fp = k" using length_padded [of k c] by simp
  obtain j where j: "?fp = rstrip_char (CHR ''0'') ?fp @ replicate j (CHR ''0'')" using rstrip_char_split by blast
  let ?r = "rstrip_char (CHR ''0'') ?fp"
  have "digits_val ?p = c" using assms by (simp add: padded_text_def digits_val_zeros_left int_text_def)
  moreover have "?p = (?ip @ ?r) @ replicate j (CHR ''0'')"
    using j by (metis append.assoc append_take_drop_id)
  ultimately have val: "c = digits_val (?ip @ ?r) * 10 ^ j" using digits_val_zeros_right by metis
  have k: "k = length ?r + j" using len j by (metis length_append length_replicate)
  have "plain_value (drop_zeros (fixed_text c k)) = of_int (digits_val (?ip @ ?r)) / 10 ^ length ?r"
    unfolding fixed_text_Suc [OF False [THEN neq0_conv [THEN iffD1]]] drop_zeros_point [OF parts]
    using np by (simp add: plain_value_def partition_at_no partition_at_yes)
  also have "\<dots> = of_int c / 10 ^ k"
    by (subst (2) k, subst val) (simp add: power_add)
  finally show ?thesis .
qed


subsection \<open>Prices are identified by their value\<close>

lemma set_split_on: "set s \<subseteq> insert c (\<Union>part \<in> set (split_on c s). set part)"
proof (induction s)
  case (Cons x s)
  then show ?case by (cases "split_on c s") (auto split: if_splits)
qed simp

lemma hd_split_on: "s \<noteq> [] \<Longrightarrow> hd s = c \<Longrightarrow> [] \<in> set (split_on c s)"
  by (cases s) auto

lemma price_char_facts:
  assumes "decimal_char x \<or> x = CHR ''.''"
  shows "\<not> space_char x" "x \<noteq> CHR ''_''" "lower_char x = x" "x \<noteq> CHR ''-''" "x \<noteq> CHR ''+''"
    "x \<noteq> CHR ''e''" "x \<noteq> CHR ''E''" "x \<noteq> CHR ''i''" "x \<noteq> CHR ''n''"
  using assms by (auto simp: decimal_char_def space_char_def lower_char_def ord_of_def Let_def)

lemma plain_decimal_chars: "plain_decimal s \<Longrightarrow> x \<in> set s \<Longrightarrow> decimal_char x \<or> x = CHR ''.''"
  using set_split_on [of s "CHR ''.''"] by (fastforce simp: plain_decimal_def list_all_iff)

lemma strip_id: "\<forall>x \<in> set s. \<not> space_char x \<Longrightarrow> strip s = s"
proof -
  have drop: "dropWhile space_char s = s" if "\<forall>x \<in> set s. \<not> space_char x" for s :: string
    using that by (cases s) auto
  show "\<forall>x \<in> set s. \<not> space_char x \<Longrightarrow> strip s = s" by (simp add: strip_def drop)
qed

lemma decimal_price_form:
  assumes "decimal_price v = Inr d"
  shows "\<exists>c k. d = Dec False c (- int k) \<and> 0 < c"
proof -
  obtain s where s: "plain_decimal s" "decimal_of_text s = Some d" "0 < dec_val d"
    using assms by (auto simp: decimal_price_def split: pyval.splits option.splits if_splits)
  note ch = plain_decimal_chars [OF s(1)]
  note pf = price_char_facts [OF ch]
  have ne: "s \<noteq> []" using s(1) by (auto simp: plain_decimal_def)
  have id: "strip s = s" "filter (\<lambda>c. c \<noteq> CHR ''_'') s = s" "lower s = s"
    using pf by (auto simp: strip_id filter_id_conv lower_def intro: map_idI)
  have hd: "hd s \<in> set s" using ne by simp
  have sign: "sign_split s = (False, s)"
    using ne pf(4) [OF hd] pf(5) [OF hd] by (cases s) (simp_all add: sign_split_def)
  have "s \<noteq> ''inf'' \<and> s \<noteq> ''infinity'' \<and> s \<noteq> ''nan''" using pf(8) [OF hd] pf(9) [OF hd] by auto
  then have "special_num s = None" by (simp add: special_num_def id sign)
  then have num: "parse_num s = Some d" using s(2) id by (simp add: decimal_of_text_def)
  define r1 where "r1 = dropWhile decimal_char s"
  obtain fp r2 where split: "(case r1 of [] \<Rightarrow> ([], [])
      | c # cs \<Rightarrow> if c = CHR ''.'' then (takeWhile decimal_char cs, dropWhile decimal_char cs) else ([], r1)) = (fp, r2)"
    by fastforce
  have "set r1 \<subseteq> set s" using set_dropWhileD by (fastforce simp: r1_def)
  with split have r2: "set r2 \<subseteq> set s" "list_all decimal_char fp"
    by (auto simp: list_all_iff split: list.splits if_splits dest: set_dropWhileD set_takeWhileD)
  obtain e where d: "d = Dec False (digits_val (takeWhile decimal_char s @ fp)) (e - int (length fp))"
    and e: "parse_exponent r2 = Some e"
    using num unfolding parse_num_def sign Let_def prod.case r1_def [symmetric] split
    by (auto split: if_split_asm)
  have "e = 0"
  proof (cases r2)
    case Nil
    with e show ?thesis by (simp add: parse_exponent_def)
  next
    case (Cons x xs)
    with r2(1) have x: "x \<in> set s" by simp
    show ?thesis using e Cons pf(6) [OF x] pf(7) [OF x] by (simp add: parse_exponent_def)
  qed
  moreover have "0 \<le> digits_val (takeWhile decimal_char s @ fp)"
    using r2(2) by (intro digits_val_nonneg) (auto simp: list_all_iff dest: set_takeWhileD)
  moreover have "digits_val (takeWhile decimal_char s @ fp) \<noteq> 0" using s(3) d by auto
  ultimately show ?thesis using d by auto
qed

lemma pow10_nonpos [simp]: "pow10 (- int k) = 1 / 10 ^ k"
  by (simp add: pow10_def)

lemma canonical_price_value:
  assumes "decimal_price v = Inr d"
  shows "\<exists>t. canonical_price v = Inr t \<and> plain_value t = dec_val d"
proof -
  obtain c k where d: "d = Dec False c (- int k)" "0 < c" using decimal_price_form [OF assms] by blast
  then show ?thesis
    using plain_value_drop_zeros [of c k] assms by (simp add: canonical_price_def)
qed

lemma same_value_same_text:
  assumes "0 < c" "0 < c'" "(of_int c / 10 ^ k :: rat) = of_int c' / 10 ^ k'" "k \<le> k'"
  shows "drop_zeros (fixed_text c k) = drop_zeros (fixed_text c' k')"
proof -
  obtain j where j: "k' = k + j" using assms(4) le_Suc_ex by blast
  have "(of_int c' :: rat) = of_int (c * 10 ^ j)"
    using assms(3) by (simp add: j power_add field_simps)
  then have "c' = c * 10 ^ j" by (simp only: of_int_eq_iff)
  then show ?thesis using drop_zeros_scale [OF assms(1), of j k] j by simp
qed

text \<open>The canonical form of a price identifies its value and nothing else: two accepted prices have
  the same canonical text exactly when they are the same number, however many zeros their texts carry,
  and the canonical text denotes that number.\<close>

theorem canonical_price_identifies_value:
  assumes "decimal_price a = Inr x" "decimal_price b = Inr y"
  shows "(canonical_price a = canonical_price b \<longleftrightarrow> dec_val x = dec_val y)
    \<and> (\<exists>t. canonical_price a = Inr t \<and> plain_value t = dec_val x)"
proof -
  obtain t where t: "canonical_price a = Inr t" "plain_value t = dec_val x" using canonical_price_value [OF assms(1)] by blast
  obtain u where u: "canonical_price b = Inr u" "plain_value u = dec_val y" using canonical_price_value [OF assms(2)] by blast
  obtain c k where x: "x = Dec False c (- int k)" "0 < c" using decimal_price_form [OF assms(1)] by blast
  obtain c' k' where y: "y = Dec False c' (- int k')" "0 < c'" using decimal_price_form [OF assms(2)] by blast
  have "canonical_price a = canonical_price b" if "dec_val x = dec_val y"
  proof -
    have eq: "(of_int c / 10 ^ k :: rat) = of_int c' / 10 ^ k'" using that x(1) y(1) by simp
    have "drop_zeros (fixed_text c k) = drop_zeros (fixed_text c' k')"
      using same_value_same_text [OF x(2) y(2) eq] same_value_same_text [OF y(2) x(2) eq [symmetric]]
      by (cases "k \<le> k'") auto
    with assms x(1) y(1) show ?thesis by (simp add: canonical_price_def)
  qed
  with t u show ?thesis by auto
qed

theorem canonical_price_identifies_value_witness:
  "canonical_price (PStr ''1.50'') = canonical_price (PStr ''001.5'')"
proof -
  have "decimal_price (PStr ''1.50'') = Inr (Dec False 150 (- 2))" by code_simp
  moreover have "decimal_price (PStr ''001.5'') = Inr (Dec False 15 (- 1))" by code_simp
  ultimately show ?thesis using canonical_price_identifies_value by (simp add: pow10_def)
qed

text \<open>A retry is recognized as the same request exactly when every field agrees: no field is reported
  for two stored requests if and only if their environment, account and operation are equal, they have
  the same parameters, and every parameter has an equal value.\<close>

theorem no_differing_fields_iff:
  assumes "json_loads a = Inr (PDict l t)" "json_loads b = Inr (PDict r u)"
    and "map_of l ''params'' = Some (PDict lp t')" "map_of r ''params'' = Some (PDict rp u')"
    and "\<forall>k \<in> {''env'', ''account'', ''op_type''}. map_of l k \<noteq> None \<and> map_of r k \<noteq> None"
  shows "differing_fields a b = Inr [] \<longleftrightarrow>
    (\<forall>k \<in> {''env'', ''account'', ''op_type''}. py_eq (the (map_of l k)) (the (map_of r k)))
    \<and> fst ` set lp = fst ` set rp
    \<and> (\<forall>k \<in> fst ` set lp. py_eq (the (map_of lp k)) (the (map_of rp k)))"
proof -
  have top: "differing_top (PDict l t) (PDict r u) = Inr (filter (\<lambda>k. \<not> py_eq (the (map_of l k)) (the (map_of r k)))
      [''env'', ''account'', ''op_type''])"
    using assms(5) by (auto simp: differing_top_def member_def)
  have same: "same_member (PDict lp t') (PDict rp u') k \<longleftrightarrow>
      k \<in> fst ` set lp \<and> k \<in> fst ` set rp \<and> py_eq (the (map_of lp k)) (the (map_of rp k))" for k
    by (auto simp: same_member_def member_def map_of_eq_None_iff split: option.splits)
      (metis map_of_eq_None_iff option.distinct(1))+
  have "differing_params (PDict lp t') (PDict rp u') = [] \<longleftrightarrow>
      (\<forall>k \<in> fst ` set lp \<union> fst ` set rp. same_member (PDict lp t') (PDict rp u') k)"
    by (auto simp: differing_params_def filter_empty_conv)
  also have "\<dots> \<longleftrightarrow> fst ` set lp = fst ` set rp
    \<and> (\<forall>k \<in> fst ` set lp. py_eq (the (map_of lp k)) (the (map_of rp k)))"
    unfolding same by blast
  finally have params: "differing_params (PDict lp t') (PDict rp u') = [] \<longleftrightarrow> fst ` set lp = fst ` set rp
    \<and> (\<forall>k \<in> fst ` set lp. py_eq (the (map_of lp k)) (the (map_of rp k)))" .
  have "differing_fields a b = Inr (filter (\<lambda>k. \<not> py_eq (the (map_of l k)) (the (map_of r k)))
      [''env'', ''account'', ''op_type''] @ differing_params (PDict lp t') (PDict rp u'))"
    by (simp add: differing_fields_def assms(1-4) top member_def del: filter.simps)
  then show ?thesis using params by (simp add: filter_empty_conv del: filter.simps)
qed

theorem no_differing_fields_iff_witness:
  "differing_fields ''{\"account\":\"7\",\"env\":\"SIMULATE\",\"op_type\":\"PLACE\",\"params\":{\"qty\":1}}''
     ''{\"account\":\"7\",\"env\":\"SIMULATE\",\"op_type\":\"PLACE\",\"params\":{\"qty\":1}}'' = Inr []"
proof -
  let ?t = "''{\"account\":\"7\",\"env\":\"SIMULATE\",\"op_type\":\"PLACE\",\"params\":{\"qty\":1}}''"
  have "json_loads ?t = Inr (PDict [(''account'', PStr ''7''), (''env'', PStr ''SIMULATE''),
      (''op_type'', PStr ''PLACE''), (''params'', PDict [(''qty'', PInt 1)] [])] [])"
    by code_simp
  from no_differing_fields_iff [OF this this] show ?thesis by simp
qed

end
