(* ===== verification/Instrument_Rules.thy ===== *)
theory Instrument_Rules
  imports Trading_Policy
begin

text \<open>
  \<open>services/instrument_rules.py\<close>: which quantities, prices and sessions an order may name. A decimal is
  inspected by its digits, so that the check is exact for every price. The session names are constants of
  the \<open>moomoo\<close> package, a parameter here. The theory proves that the digit test accepts exactly the
  multiples of the price step.
\<close>

subsection \<open>Numbers\<close>

text \<open>\<open>_number\<close>. An integer of more than 4300 digits has no \<open>str\<close>; the text of any other integer reads as
  that integer.\<close>

definition number_argument :: "pyval \<Rightarrow> pydec res" where
  "number_argument v = (case v of
     PStr s \<Rightarrow> (case decimal_of_text s of
        None \<Rightarrow> raise ValueError ''finite number''
      | Some d \<Rightarrow> if dec_finite d then Inr d else raise ValueError ''finite number'')
   | PInt i \<Rightarrow> if 4300 < length (int_text \<bar>i\<bar>) then raise ValueError ''integer string conversion''
              else Inr (dec_of_int i)
   | PFloat _ s \<Rightarrow> (case decimal_of_text s of
        None \<Rightarrow> raise ValueError ''finite number''
      | Some d \<Rightarrow> if dec_finite d then Inr d else raise ValueError ''finite number'')
   | _ \<Rightarrow> raise ValueError ''finite number'')"

definition integral :: "pydec \<Rightarrow> bool" where
  "integral d \<longleftrightarrow> dec_val d = of_int \<lfloor>dec_val d\<rfloor>"

definition whole_quantity :: "pyval \<Rightarrow> int res" where
  "whole_quantity v = (case v of
     PStr _ \<Rightarrow> raise ValueError ''positive whole number''
   | _ \<Rightarrow> bindR (number_argument v) (\<lambda>d.
        if dec_val d \<le> 0 \<or> \<not> integral d then raise ValueError ''positive whole number''
        else Inr \<lfloor>dec_val d\<rfloor>))"

subsection \<open>Representation rules\<close>

definition ORDER_CLASSIFICATIONS :: "string set" where
  "ORDER_CLASSIFICATIONS = EQUITY_CLASSIFICATIONS \<union> {''DRVT''}"

record instrument_rules =
  rules_code :: string
  rules_classification :: string
  quantity_unit :: string
  whole_quantity_required :: bool
  rules_lot_size :: "pyfloat option"
  lot_size_meaning :: string
  price_decimal_places :: "int option"
  price_tick :: "string option"
  tick_validation :: string

text \<open>The places and the tick. The price is absent or given as what \<open>_number\<close> makes of it, which is only
  looked at for United States equities.\<close>

definition price_grid ::
    "string \<Rightarrow> string \<Rightarrow> pydec res option \<Rightarrow> (int option \<times> string option) res" where
  "price_grid market c p =
     (if market = ''US'' \<and> c \<in> EQUITY_CLASSIFICATIONS then
        (case p of None \<Rightarrow> Inr (None, None)
         | Some r \<Rightarrow> bindR r (\<lambda>d.
             if dec_val d < 1 then Inr (Some 4, Some ''0.0001'') else Inr (Some 2, Some ''0.01'')))
      else if market = ''US'' \<and> c = ''DRVT'' then Inr (Some 2, None)
      else if market \<in> {''SH'', ''SZ''} \<and> c \<in> EQUITY_CLASSIFICATIONS then Inr (Some 2, Some ''0.01'')
      else Inr (Some 3, None))"

definition instrument_rule_summary ::
    "instrument_facts \<Rightarrow> pydec res option \<Rightarrow> instrument_rules res" where
  "instrument_rule_summary i p = (case classification i of
     None \<Rightarrow> raise ValueError ''classification cannot be verified''
   | Some c \<Rightarrow>
      if c \<notin> ORDER_CLASSIFICATIONS then raise ValueError ''classification cannot be verified''
      else (case partition_at (CHR ''.'') (code i) of (market, separator, symbol) \<Rightarrow>
        if \<not> separator \<or> symbol = [] then raise ValueError ''market-prefixed code''
        else bindR (price_grid (upper market) c p) (\<lambda>(places, tick).
          Inr \<lparr>rules_code = code i, rules_classification = c,
               quantity_unit = (if c = ''DRVT'' then ''contracts'' else ''shares''),
               whole_quantity_required = True, rules_lot_size = lot_size i,
               lot_size_meaning = (if c = ''DRVT'' then ''deliverable_shares_per_contract'' else ''shares_per_lot''),
               price_decimal_places = places, price_tick = tick,
               tick_validation = (if tick \<noteq> None then ''VERIFIED'' else ''UNKNOWN'')\<rparr>)))"

text \<open>\<open>any(digits[-n:])\<close> of the coefficient's digits.\<close>

definition coefficient_digits :: "pydec \<Rightarrow> int list" where
  "coefficient_digits d = map digit_val (int_text (dcoef d))"

definition off_grid :: "int \<Rightarrow> pydec \<Rightarrow> bool" where
  "off_grid places d = (let discarded = nat (max 0 (- places - dexp d)); ds = coefficient_digits d in
     0 < discarded \<and> (\<exists>x \<in> set (drop (length ds - discarded) ds). x \<noteq> 0))"

text \<open>One price field of an order, with the value \<open>_number\<close> makes of it.\<close>

definition check_field ::
    "instrument_facts \<Rightarrow> string \<Rightarrow> string \<Rightarrow> pyval \<Rightarrow> unit res" where
  "check_field i requested field v =
     (if v = PNone then ok
      else bindR (number_argument v) (\<lambda>d.
        if dec_val d < 0 then raise ValueError ''must not be negative''
        else if dec_val d = 0 then
          guardR (field = ''price'' \<and> requested \<in> FIXED_LIMIT_TYPES) (Exn ValueError ''limit price must be greater than zero'')
        else bindR (instrument_rule_summary i (Some (Inr d))) (\<lambda>rules.
          case price_decimal_places rules of None \<Rightarrow> ok
          | Some places \<Rightarrow> guardR (off_grid places d) (Exn ValueError ''price grid''))))"

definition validate_instrument_order ::
    "instrument_facts \<Rightarrow> pyval \<Rightarrow> string \<Rightarrow> pyval \<Rightarrow> pyval \<Rightarrow> instrument_rules res" where
  "validate_instrument_order i q ot p a =
     (let requested = norm_text ot in
      if requested \<notin> FIXED_LIMIT_TYPES \<union> NO_FIXED_LIMIT_TYPES then raise ValueError ''order type''
      else bindR (whole_quantity q) (\<lambda>_.
        bindR (instrument_rule_summary i (if p = PNone then None else Some (number_argument p))) (\<lambda>rules.
        bindR (check_field i requested ''price'' p) (\<lambda>_.
        bindR (check_field i requested ''aux_price'' a) (\<lambda>_. Inr rules)))))"

subsection \<open>Sessions\<close>

text \<open>The constants of \<open>moomoo.Session\<close>.\<close>

record sdk_session =
  session_none :: string
  session_rth :: string
  session_eth :: string
  session_overnight :: string
  session_all :: string

definition documented_sessions :: "sdk_session \<Rightarrow> string list" where
  "documented_sessions S = [session_none S, session_rth S, session_eth S, session_overnight S, session_all S]"

definition normalize_order_session :: "sdk_session \<Rightarrow> pyval \<Rightarrow> string \<Rightarrow> string res" where
  "normalize_order_session S v trd_env = (case v of
     PStr s \<Rightarrow>
       (let selected = (if norm_text s = ''NONE'' then session_none S else norm_text s) in
        if selected \<notin> set (documented_sessions S) then raise ValueError ''session''
        else if norm_text trd_env = ''SIMULATE'' then
          (if selected \<notin> {session_none S, session_rth S} then raise ValueError ''RTH session only''
           else Inr (session_rth S))
        else Inr selected)
   | _ \<Rightarrow> raise ValueError ''session'')"

definition validate_order_session ::
    "sdk_session \<Rightarrow> string \<Rightarrow> string option \<Rightarrow> string \<Rightarrow> string \<Rightarrow> string res" where
  "validate_order_session S instrument_code c ot session =
     bindR (normalize_order_session S (PStr session) ''REAL'') (\<lambda>selected.
       if selected = session_none S then Inr selected
       else if \<not> startswith instrument_code ''US.'' \<or> (case c of None \<Rightarrow> True | Some k \<Rightarrow> k \<notin> EQUITY_CLASSIFICATIONS)
       then raise ValueError ''Explicit sessions''
       else if selected \<noteq> session_rth S \<and> norm_text ot \<noteq> ''NORMAL'' then raise ValueError ''NORMAL limit orders only''
       else Inr selected)"

subsection \<open>The digit test\<close>

lemma digits_val_append: "digits_val (xs @ ys) = digits_val xs * 10 ^ length ys + digits_val ys"
  by (induction ys rule: rev_induct) (simp_all add: digits_val_snoc digits_val_def algebra_simps)

lemma digits_val_bound: "list_all decimal_char s \<Longrightarrow> 0 \<le> digits_val s \<and> digits_val s < 10 ^ length s"
proof (induction s rule: rev_induct)
  case (snoc x s)
  then have "0 \<le> digit_val x" "digit_val x \<le> 9" by (auto simp: decimal_char_def digit_val_def)
  with snoc show ?case by (simp add: digits_val_snoc)
qed (simp add: digits_val_def)

lemma digits_val_zero_iff:
  "list_all decimal_char s \<Longrightarrow> digits_val s = 0 \<longleftrightarrow> (\<forall>x \<in> set s. digit_val x = 0)"
proof (induction s rule: rev_induct)
  case (snoc x s)
  then have "0 \<le> digit_val x" by (simp add: decimal_char_def digit_val_def)
  moreover have "0 \<le> digits_val s" using snoc.prems by (simp add: digits_val_nonneg)
  ultimately show ?case using snoc by (auto simp: digits_val_snoc add_nonneg_eq_0_iff)
qed (simp add: digits_val_def)

text \<open>The last \<open>k\<close> digits of a number are its remainder by \<open>10 ^ k\<close>.\<close>

lemma digits_val_drop:
  assumes "list_all decimal_char s"
  shows "digits_val (drop (length s - k) s) = digits_val s mod 10 ^ k"
proof (cases "k \<le> length s")
  case True
  let ?h = "take (length s - k) s" and ?t = "drop (length s - k) s"
  have t: "length ?t = k" "list_all decimal_char ?t"
    using True assms by (auto simp: list_all_iff dest: in_set_dropD)
  have "digits_val s = digits_val ?h * 10 ^ k + digits_val ?t"
    using digits_val_append [of ?h ?t] t(1) by simp
  moreover have "0 \<le> digits_val ?t" "digits_val ?t < 10 ^ k"
    using digits_val_bound [OF t(2)] t(1) by auto
  ultimately show ?thesis by simp
next
  case False
  have "digits_val s < 10 ^ length s" "0 \<le> digits_val s" using digits_val_bound [OF assms] by auto
  moreover have "(10 :: int) ^ length s \<le> 10 ^ k" using False by (intro power_increasing) auto
  ultimately have "digits_val s mod 10 ^ k = digits_val s" by (intro mod_pos_pos_trivial) linarith+
  then show ?thesis using False by simp
qed

lemma off_grid_iff:
  assumes "0 \<le> dcoef d"
  shows "off_grid places d \<longleftrightarrow> dcoef d mod 10 ^ nat (- places - dexp d) \<noteq> 0"
proof -
  let ?s = "int_text (dcoef d)" and ?k = "nat (- places - dexp d)"
  have s: "list_all decimal_char ?s" using int_text_decimal [OF assms] by (simp add: isdecimal_def)
  then have t: "list_all decimal_char (drop (length ?s - ?k) ?s)"
    by (auto simp: list_all_iff dest: in_set_dropD)
  have "digits_val ?s = dcoef d" using assms by (simp add: int_text_def)
  then have "dcoef d mod 10 ^ ?k \<noteq> 0 \<longleftrightarrow> (\<exists>x \<in> set (drop (length ?s - ?k) ?s). digit_val x \<noteq> 0)"
    using digits_val_drop [OF s, of ?k] digits_val_zero_iff [OF t] by simp
  moreover have "nat (max 0 (- places - dexp d)) = ?k" by simp
  ultimately show ?thesis
    by (auto simp: off_grid_def coefficient_digits_def Let_def drop_map intro: ccontr)
qed

lemma pow10_add: "pow10 (a + b) = pow10 a * pow10 b"
proof -
  have "pow10 k = 10 powi k" for k by (simp add: pow10_def power_int_def inverse_eq_divide power_divide)
  then show ?thesis by (simp add: power_int_add)
qed

lemma pow10_pos [simp]: "0 < pow10 k"
  by (simp add: pow10_def)

lemma pow10_nz [simp]: "pow10 k \<noteq> 0"
  using pow10_pos [of k] by linarith

lemma pow10_nat: "pow10 (int k) = 10 ^ k"
  by (simp add: pow10_def)

text \<open>A decimal is a multiple of \<open>10 ^ -places\<close> exactly when the discarded digits are zero.\<close>

lemma off_grid_multiple:
  assumes "0 \<le> c"
  shows "\<not> off_grid places (Dec n c e) \<longleftrightarrow> (\<exists>m. dec_val (Dec n c e) = of_int m * pow10 (- places))"
proof -
  let ?k = "nat (- places - e)"
  have grid: "\<not> off_grid places (Dec n c e) \<longleftrightarrow> (10 ^ ?k) dvd c"
    using off_grid_iff [of "Dec n c e" places] assms by (simp add: dvd_eq_mod_eq_0)
  show ?thesis
  proof (cases "- places \<le> e")
    case True
    then have "pow10 e = 10 ^ nat (e + places) * pow10 (- places)"
      using pow10_add [of "int (nat (e + places))" "- places"] pow10_nat [of "nat (e + places)"] by simp
    then have "dec_val (Dec n c e) = of_int ((if n then - c else c) * 10 ^ nat (e + places)) * pow10 (- places)"
      by simp
    moreover have "?k = 0" using True by simp
    ultimately show ?thesis using grid by (metis one_dvd power_0)
  next
    case False
    then have p: "pow10 (- places) = 10 ^ ?k * pow10 e"
      using pow10_add [of "int ?k" e] pow10_nat [of ?k] by simp
    have "(\<exists>m. dec_val (Dec n c e) = of_int m * pow10 (- places)) \<longleftrightarrow> (\<exists>m. (if n then - c else c) = m * 10 ^ ?k)"
    proof -
      have "dec_val (Dec n c e) = of_int m * pow10 (- places) \<longleftrightarrow> (if n then - c else c) = m * 10 ^ ?k" for m
      proof -
        have "dec_val (Dec n c e) = of_int m * pow10 (- places) \<longleftrightarrow>
            of_int (if n then - c else c) * pow10 e = (of_int (m * 10 ^ ?k) :: rat) * pow10 e"
          by (simp add: p)
        also have "\<dots> \<longleftrightarrow> (if n then - c else c) = m * 10 ^ ?k"
          by (simp only: mult_cancel_right pow10_nz simp_thms of_int_eq_iff)
        finally show ?thesis .
      qed
      then show ?thesis by blast
    qed
    also have "\<dots> \<longleftrightarrow> (10 ^ ?k) dvd (if n then - c else c)" by (auto simp: dvd_def mult.commute)
    also have "\<dots> \<longleftrightarrow> (10 ^ ?k) dvd c" by simp
    finally show ?thesis using grid by simp
  qed
qed

lemma parse_num_coefficient: "parse_num s = Some d \<Longrightarrow> \<exists>n c e. d = Dec n c e \<and> 0 \<le> c"
  by (auto simp: parse_num_def Let_def list_all_iff
      split: prod.splits list.splits if_splits intro!: digits_val_nonneg dest!: set_takeWhileD)

lemma decimal_of_text_coefficient:
  "decimal_of_text s = Some d \<Longrightarrow> dec_finite d \<Longrightarrow> \<exists>n c e. d = Dec n c e \<and> 0 \<le> c"
  by (auto simp: decimal_of_text_def special_num_def Let_def
      split: option.splits prod.splits if_splits dest: parse_num_coefficient)

lemma number_argument_coefficient: "number_argument v = Inr d \<Longrightarrow> \<exists>n c e. d = Dec n c e \<and> 0 \<le> c"
  by (auto simp: number_argument_def dec_of_int_def split: pyval.splits option.splits if_splits
      dest: decimal_of_text_coefficient)

subsection \<open>Accepted prices\<close>

text \<open>The step a positive price is checked against.\<close>

definition price_step :: "instrument_rules \<Rightarrow> rat option" where
  "price_step r = map_option (\<lambda>places. pow10 (- places)) (price_decimal_places r)"

text \<open>A limit order on a supported instrument with a positive price is accepted exactly when the price
  is an exact multiple of the documented step of that instrument at that price; otherwise it is refused as
  off the price grid. No price is rounded and no binary approximation enters the test.\<close>
theorem price_accepted_iff_on_grid:
  assumes "norm_text ot \<in> FIXED_LIMIT_TYPES" "whole_quantity q = Inr n" "p \<noteq> PNone"
    and d: "number_argument p = Inr d" "0 < dec_val d"
    and rules: "instrument_rule_summary i (Some (Inr d)) = Inr r" "price_step r = Some step"
  shows "validate_instrument_order i q ot p PNone =
    (if \<exists>m. dec_val d = of_int m * step then Inr r else raise ValueError ''price grid'')"
proof -
  obtain neg c e where de: "d = Dec neg c e" "0 \<le> c" using number_argument_coefficient [OF d(1)] by blast
  obtain places where places: "price_decimal_places r = Some places" "step = pow10 (- places)"
    using rules(2) by (auto simp: price_step_def)
  have "off_grid places d \<longleftrightarrow> \<not> (\<exists>m. dec_val d = of_int m * step)"
    using off_grid_multiple [OF de(2), of places neg e] unfolding de(1) places(2) by blast
  then show ?thesis
    using assms(1-3) d rules(1) places(1)
    by (auto simp: validate_instrument_order_def check_field_def guardR_def Let_def)
qed

definition sample_stock :: instrument_facts where
  "sample_stock = \<lparr>code = ''US.AAPL'', classification = Some ''STOCK'', monetary_multiplier = Some (Fin 1),
     contract_size = None, last_price = None, bid_price = None, ask_price = None, currency = Some ''USD'',
     lot_size = Some (Fin 1)\<rparr>"

definition sample_rules :: instrument_rules where
  "sample_rules = projr (instrument_rule_summary sample_stock (Some (Inr (Dec False 15025 (- 2)))))"

theorem price_accepted_iff_on_grid_witness:
  "validate_instrument_order sample_stock (PInt 3) ''limit_if_touched'' (PStr ''150.25'') PNone =
    (if \<exists>m. dec_val (Dec False 15025 (- 2)) = of_int m * (1 / 100) then Inr sample_rules
     else raise ValueError ''price grid'')"
proof (rule price_accepted_iff_on_grid)
  show "norm_text ''limit_if_touched'' \<in> FIXED_LIMIT_TYPES" by code_simp
  show "whole_quantity (PInt 3) = Inr 3" by code_simp
  show "number_argument (PStr ''150.25'') = Inr (Dec False 15025 (- 2))" by code_simp
  show "0 < dec_val (Dec False 15025 (- 2))" by code_simp
  show "instrument_rule_summary sample_stock (Some (Inr (Dec False 15025 (- 2)))) = Inr sample_rules" by code_simp
  show "price_step sample_rules = Some (1 / 100)" by code_simp
qed simp

end
