(* ===== verification/Py_Date.thy ===== *)
theory Py_Date
  imports Validation
begin

text \<open>
  UTC calendar days of a clock reading: \<open>datetime.fromtimestamp(now, timezone.utc).date().isoformat()\<close>, by
  which the daily budget is keyed. The reading is rounded to microseconds the way the standard library
  does it, its day number is turned into a date, and the date into text. The theory proves that the date
  is the right one (its ordinal is the day number) and that the text determines the day.
\<close>

subsection \<open>From a clock reading to a day\<close>

text \<open>The whole second of a finite float clock reading: the fraction is scaled to microseconds in floating
  point and rounded half to even, and carries into the seconds.\<close>

definition utc_second :: "rat \<Rightarrow> int" where
  "utc_second t =
     (let whole = (if 0 \<le> t then \<lfloor>t\<rfloor> else \<lceil>t\<rceil>);
          micros = (case round64 ((t - of_int whole) * 1000000) of Fin x \<Rightarrow> half_even x | _ \<Rightarrow> 0) in
      if 1000000 \<le> micros then whole + 1 else if micros < 0 then whole - 1 else whole)"

fun month_of :: "nat \<Rightarrow> int \<Rightarrow> int \<Rightarrow> int \<Rightarrow> int \<times> int" where
  "month_of 0 y m n = (m, n + 1)"
| "month_of (Suc k) y m n =
     (if n < days_in_month y m then (m, n + 1) else month_of k y (m + 1) (n - days_in_month y m))"

text \<open>\<open>date.fromordinal\<close>: cycles of 400, 100, 4 and 1 years, then the month.\<close>

definition date_of_ordinal :: "int \<Rightarrow> date" where
  "date_of_ordinal ordinal =
     (let n = ordinal - 1;
          n400 = n div 146097; a = n mod 146097;
          n100 = a div 36524; b = a mod 36524;
          n4 = b div 1461; c = b mod 1461;
          n1 = c div 365; d = c mod 365;
          y = n400 * 400 + n100 * 100 + n4 * 4 + n1 + 1 in
      if n1 = 4 \<or> n100 = 4 then (y - 1, 12, 31) else (y, month_of 11 y 1 d))"

definition pad_text :: "nat \<Rightarrow> int \<Rightarrow> string" where
  "pad_text w n = replicate (w - length (int_text n)) (CHR ''0'') @ int_text n"

definition isoformat :: "date \<Rightarrow> string" where
  "isoformat dt = (case dt of (y, m, d) \<Rightarrow>
     pad_text 4 y @ CHR ''-'' # pad_text 2 m @ CHR ''-'' # pad_text 2 d)"

definition day_ordinal :: "rat \<Rightarrow> int" where
  "day_ordinal t = utc_second t div 86400 + 719163"

definition utc_day :: "rat \<Rightarrow> string res" where
  "utc_day t = (if day_ordinal t < 1 \<or> 3652059 < day_ordinal t then raise ValueError ''year is out of range''
     else Inr (isoformat (date_of_ordinal (day_ordinal t))))"

subsection \<open>The date has the given ordinal\<close>

lemma days_before_month_Suc: "1 \<le> m \<Longrightarrow> days_before_month y (m + 1) = days_before_month y m + days_in_month y m"
  by (simp add: days_before_month_def upto_rec2)

lemma month_of_day:
  "month_of k y m n = (m', d) \<Longrightarrow> 1 \<le> m \<Longrightarrow> 0 \<le> n \<Longrightarrow>
   days_before_month y m' + d = days_before_month y m + n + 1 \<and> m \<le> m' \<and> m' \<le> m + int k \<and> 1 \<le> d"
proof (induction k arbitrary: m n)
  case (Suc k)
  then show ?case
  proof (cases "n < days_in_month y m")
    case False
    then have "month_of k y (m + 1) (n - days_in_month y m) = (m', d)" "0 \<le> n - days_in_month y m"
      using Suc.prems by auto
    with Suc.IH [of "m + 1" "n - days_in_month y m"] Suc.prems days_before_month_Suc [of m y]
    show ?thesis by auto
  qed auto
qed auto

lemma days_before_month_1 [simp]: "days_before_month y 1 = 0"
  by (simp add: days_before_month_def)

lemma days_before_month_12: "days_before_month y 12 = (if leap_year y then 335 else 334)"
proof -
  have "[1..12 - (1::int)] = [1, 2, 3, 4, 5, 6, 7, 8, 9, 10, 11]" by code_simp
  then show ?thesis by (simp add: days_before_month_def days_in_month_def)
qed

definition year_days :: "int \<Rightarrow> int" where
  "year_days p = p * 365 + p div 4 - p div 100 + p div 400"

lemma year_days_parts:
  assumes "0 \<le> b" "b \<le> 3" "0 \<le> c" "c \<le> 24" "0 \<le> d" "d \<le> 3"
  shows "year_days (400 * a + 100 * b + 4 * c + d) = 146097 * a + 36524 * b + 1461 * c + 365 * (d :: int)"
proof -
  have "(400 * a + 100 * b + 4 * c + d) div 4 = 100 * a + 25 * b + c" using assms by linarith
  moreover have "(400 * a + 100 * b + 4 * c + d) div 100 = 4 * a + b" using assms by linarith
  moreover have "(400 * a + 100 * b + 4 * c + d) div 400 = a" using assms by linarith
  ultimately show ?thesis by (simp add: year_days_def)
qed

lemma toordinal_year_days: "toordinal (y, m, d) = year_days (y - 1) + days_before_month y m + d"
  by (simp add: toordinal_def year_days_def Let_def)

lemma toordinal_date_of_ordinal: "toordinal (date_of_ordinal ordinal) = ordinal"
proof -
  define n where "n = ordinal - 1"
  define n400 a where "n400 = n div 146097" and "a = n mod 146097"
  define n100 b where "n100 = a div 36524" and "b = a mod 36524"
  define n4 c where "n4 = b div 1461" and "c = b mod 1461"
  define n1 d where "n1 = c div 365" and "d = c mod 365"
  have n: "n = 146097 * n400 + a" "0 \<le> a" "a < 146097" by (simp_all add: n400_def a_def)
  have a: "a = 36524 * n100 + b" "0 \<le> b" "b < 36524" by (simp_all add: n100_def b_def)
  have b: "b = 1461 * n4 + c" "0 \<le> c" "c < 1461" by (simp_all add: n4_def c_def)
  have c: "c = 365 * n1 + d" "0 \<le> d" "d < 365" by (simp_all add: n1_def d_def)
  have n100: "0 \<le> n100" "n100 \<le> 4" using n a by linarith+
  have n4: "0 \<le> n4" "n4 \<le> 24" using a b by linarith+
  have n1: "0 \<le> n1" "n1 \<le> 4" using b c by linarith+
  let ?y = "n400 * 400 + n100 * 100 + n4 * 4 + n1 + 1"
  have date: "date_of_ordinal ordinal = (if n1 = 4 \<or> n100 = 4 then (?y - 1, 12, 31) else (?y, month_of 11 ?y 1 d))"
    by (simp add: date_of_ordinal_def Let_def n_def n400_def a_def n100_def b_def n4_def c_def n1_def d_def)
  consider (day) "n1 \<noteq> 4" "n100 \<noteq> 4" | (last100) "n100 = 4" | (last4) "n1 = 4" "n100 \<noteq> 4" by blast
  then show ?thesis
  proof cases
    case day
    obtain m d' where md: "month_of 11 ?y 1 d = (m, d')" by fastforce
    have "days_before_month ?y m + d' = d + 1" using month_of_day [OF md] c(2) by simp
    moreover have "year_days (?y - 1) = 146097 * n400 + 36524 * n100 + 1461 * n4 + 365 * n1"
      using year_days_parts [of n100 n4 n1 n400] n100 n4 n1 day by (simp add: algebra_simps)
    ultimately show ?thesis using day date md n a b c by (simp add: toordinal_year_days n_def)
  next
    case last100
    then have z: "b = 0" "n4 = 0" "c = 0" "n1 = 0" "d = 0" using n a b c n4 n1 by linarith+
    have "year_days (?y - 2) = 146097 * n400 + 36524 * 3 + 1461 * 24 + 365 * 3"
      using year_days_parts [of 3 24 3 n400] last100 z by (simp add: algebra_simps)
    moreover have "leap_year (?y - 1)" using last100 z by (simp add: leap_year_def)
    ultimately show ?thesis
      using date last100 n a z by (simp add: toordinal_year_days days_before_month_12 n_def)
  next
    case last4
    then have d: "d = 0" "n4 \<le> 23" using a b c n4 by linarith+
    have "year_days (?y - 2) = 146097 * n400 + 36524 * n100 + 1461 * n4 + 365 * 3"
      using year_days_parts [of n100 n4 3 n400] n100 n4 last4 by (simp add: algebra_simps)
    moreover have "leap_year (?y - 1)"
    proof -
      have "(?y - 1) mod 4 = 0" using last4(1) by presburger
      moreover have "(?y - 1) mod 100 = 4 * (n4 + 1)"
      proof -
        have "?y - 1 = 4 * (n4 + 1) + 100 * (4 * n400 + n100)" using last4 by simp
        then show ?thesis using d n4 by (simp only: mod_mult_self2) (intro mod_pos_pos_trivial; simp)
      qed
      ultimately show ?thesis using n4 by (simp add: leap_year_def)
    qed
    ultimately show ?thesis
      using date last4 n a b c d by (simp add: toordinal_year_days days_before_month_12 n_def)
  qed
qed

lemma date_of_ordinal_bounds:
  assumes "1 \<le> ordinal"
  shows "case date_of_ordinal ordinal of (y, m, d) \<Rightarrow> 0 \<le> y \<and> 0 \<le> m \<and> 0 \<le> d"
proof -
  define y where "y = (ordinal - 1) div 146097 * 400 + (ordinal - 1) mod 146097 div 36524 * 100
     + (ordinal - 1) mod 146097 mod 36524 div 1461 * 4
     + (ordinal - 1) mod 146097 mod 36524 mod 1461 div 365 + 1"
  define r where "r = (ordinal - 1) mod 146097 mod 36524 mod 1461 mod 365"
  obtain m d where md: "month_of 11 y 1 r = (m, d)" by fastforce
  have "0 \<le> r" by (simp add: r_def)
  then have "1 \<le> m" "1 \<le> d" using month_of_day [OF md] by simp_all
  moreover have "1 \<le> y" using assms by (simp add: y_def pos_imp_zdiv_nonneg_iff)
  moreover have "date_of_ordinal ordinal = (y - 1, 12, 31) \<or> date_of_ordinal ordinal = (y, m, d)"
    unfolding md [symmetric] date_of_ordinal_def Let_def y_def [symmetric] r_def [symmetric] by simp
  ultimately show ?thesis by auto
qed

subsection \<open>The text determines the day\<close>

lemma digits_val_zeros: "digits_val (replicate j (CHR ''0'') @ s) = digits_val s"
proof (induction j)
  case (Suc j)
  then show ?case by (simp add: digits_val_def digit_val_def ord_of_def)
qed simp

lemma pad_text_value: "0 \<le> n \<Longrightarrow> digits_val (pad_text w n) = n"
  by (simp add: pad_text_def digits_val_zeros int_text_def)

lemma pad_text_no_dash:
  assumes "0 \<le> n"
  shows "CHR ''-'' \<notin> set (pad_text w n)"
proof -
  have "list_all decimal_char (int_text n)" using int_text_decimal [OF assms] by (simp add: isdecimal_def)
  then show ?thesis by (auto simp: pad_text_def list_all_iff decimal_char_def ord_of_def)
qed

lemma append_dash_eq:
  assumes "CHR ''-'' \<notin> set xs" "CHR ''-'' \<notin> set xs'" "xs @ CHR ''-'' # ys = xs' @ CHR ''-'' # ys'"
  shows "xs = xs' \<and> ys = ys'"
proof -
  have "takeWhile (\<lambda>c. c \<noteq> CHR ''-'') (xs @ CHR ''-'' # ys) = xs" if "CHR ''-'' \<notin> set xs" for xs ys :: string
    using that by (subst takeWhile_append2) auto
  then have "xs = xs'" using assms by metis
  then show ?thesis using assms(3) by simp
qed

lemma isoformat_inj:
  assumes "0 \<le> y" "0 \<le> m" "0 \<le> d" "0 \<le> y'" "0 \<le> m'" "0 \<le> d'" "isoformat (y, m, d) = isoformat (y', m', d')"
  shows "(y, m, d) = (y', m', d')"
proof -
  have "pad_text 4 y = pad_text 4 y' \<and> pad_text 2 m = pad_text 2 m' \<and> pad_text 2 d = pad_text 2 d'"
    using assms append_dash_eq pad_text_no_dash unfolding isoformat_def prod.case by metis
  then show ?thesis using assms(1-6) pad_text_value by (metis prod.inject)
qed

text \<open>The UTC day that keys the daily budget is the calendar day of the clock: two readings (in the
  range of years Python can represent) get the same day text exactly when they lie in the same 86400-second
  UTC day.\<close>
theorem budget_day_identifies_utc_day:
  assumes "utc_day t = Inr a" "utc_day u = Inr b"
  shows "a = b \<longleftrightarrow> utc_second t div 86400 = utc_second u div 86400"
proof -
  have ord: "1 \<le> day_ordinal t" "1 \<le> day_ordinal u"
    and texts: "a = isoformat (date_of_ordinal (day_ordinal t))" "b = isoformat (date_of_ordinal (day_ordinal u))"
    using assms by (auto simp: utc_day_def split: if_splits)
  obtain y m d y' m' d' where dates: "date_of_ordinal (day_ordinal t) = (y, m, d)"
      "date_of_ordinal (day_ordinal u) = (y', m', d')" by (metis prod_cases3)
  have "date_of_ordinal (day_ordinal t) = date_of_ordinal (day_ordinal u)" if "a = b"
    using date_of_ordinal_bounds [OF ord(1)] date_of_ordinal_bounds [OF ord(2)] that texts
      isoformat_inj [of y m d y' m' d'] unfolding dates by simp
  then have "a = b \<longleftrightarrow> day_ordinal t = day_ordinal u" using texts toordinal_date_of_ordinal by metis
  then show ?thesis by (simp add: day_ordinal_def)
qed

theorem budget_day_identifies_utc_day_witness:
  "''2024-02-29'' = ''2024-03-01'' \<longleftrightarrow> utc_second 1709164800 div 86400 = utc_second 1709251200 div 86400"
proof (rule budget_day_identifies_utc_day)
  show "utc_day 1709164800 = Inr ''2024-02-29''" by code_simp
  show "utc_day 1709251200 = Inr ''2024-03-01''" by code_simp
qed

end
