(* ===== verification/Trading_Controls.thy ===== *)
theory Trading_Controls
  imports Execution_Identity Instrument_Rules Py_Date
begin

text \<open>
  \<open>services/trading_controls.py\<close>: operator approvals, the daily submission budget and the pause switches.
  The SQLite file is three tables of rows; a transaction runs a body on them and commits or rolls back,
  and a storage error blocks the store for good. The clock readings of a call are arguments, the digest of
  \<open>fingerprint\<close> and the session constants of the \<open>moomoo\<close> package are parameters. A stored amount is the
  decimal itself: \<open>Decimal(str(amount))\<close> is \<open>amount\<close>.
\<close>

subsection \<open>Exact sums\<close>

text \<open>Decimal addition in a context of \<open>prec\<close> digits: the exact sum with the smaller exponent, rounded half to
  even when it has more digits. (The exponent limits of the context, near one million, are not modelled.)\<close>

definition digit_count :: "int \<Rightarrow> int" where
  "digit_count c = int (length (int_text c))"

definition signed_coef :: "pydec \<Rightarrow> int" where
  "signed_coef d = (if dneg d then - dcoef d else dcoef d)"

definition round_digits :: "int \<Rightarrow> int \<Rightarrow> int \<Rightarrow> int \<times> int" where
  "round_digits prec c e =
     (if digit_count c \<le> prec then (c, e)
      else let k = digit_count c - prec; r = half_even (of_int c / 10 ^ nat k) in
        if digit_count r \<le> prec then (r, e + k) else (r div 10, e + k + 1))"

definition dec_add :: "int \<Rightarrow> pydec \<Rightarrow> pydec \<Rightarrow> pydec" where
  "dec_add prec a b =
     (let e = min (dexp a) (dexp b);
          s = signed_coef a * 10 ^ nat (dexp a - e) + signed_coef b * 10 ^ nat (dexp b - e);
          (c, e') = round_digits prec \<bar>s\<bar> e in
      Dec (s < 0 \<or> s = 0 \<and> dneg a \<and> dneg b) c e')"

definition adjusted :: "pydec \<Rightarrow> int" where
  "adjusted d = dexp d + digit_count (dcoef d) - 1"

definition sum_precision :: "pydec list \<Rightarrow> int" where
  "sum_precision vs =
     (let integer_digits = (if vs = [] then 1 else Max (set (map (\<lambda>v. max (adjusted v + 1) 1) vs)));
          fractional_digits = (if vs = [] then 0 else Max (set (map (\<lambda>v. max (- dexp v) 0) vs))) in
      max 28 (integer_digits + fractional_digits + digit_count (int (length vs)) + 1))"

definition sum_exact :: "pydec list \<Rightarrow> pydec" where
  "sum_exact vs = foldl (dec_add (sum_precision vs)) (Dec False 0 0) vs"

subsection \<open>Canonical intents\<close>

text \<open>\<open>_number\<close>.\<close>

definition rendered_number :: "pydec \<Rightarrow> string" where
  "rendered_number d = (let r = drop_zeros (format_f d) in if r = ''-0'' then ''0'' else r)"

definition number_record :: "pydec \<Rightarrow> pyval" where
  "number_record d = as_dict [(''number'', PStr (rendered_number d))]"

fun number_view :: "pyval \<Rightarrow> pyval res" where
  "number_view (PInt i) = bindR (number_argument (PInt i)) (\<lambda>d. Inr (number_record d))"
| "number_view (PFloat f s) = bindR (number_argument (PFloat f s)) (\<lambda>d. Inr (number_record d))"
| "number_view (PDict d t) = bindR (mapR (\<lambda>(k, v). bindR (number_view v) (\<lambda>w. Inr (k, w))) d) (\<lambda>d'. Inr (as_dict d'))"
| "number_view (PList l t) = bindR (mapR number_view l) (\<lambda>l'. Inr (PList l' []))"
| "number_view v = Inr v"

text \<open>\<open>d[k] = v\<close>, \<open>d.pop(k, None)\<close> and a rewrite of a present entry.\<close>

definition dict_pop :: "string \<Rightarrow> pydict \<Rightarrow> pydict" where
  "dict_pop k d = filter (\<lambda>(k', _). k' \<noteq> k) d"

definition dict_rewrite :: "string \<Rightarrow> (pyval \<Rightarrow> pyval res) \<Rightarrow> pydict \<Rightarrow> pydict res" where
  "dict_rewrite k f d = (case map_of d k of None \<Rightarrow> Inr d
     | Some v \<Rightarrow> bindR (f v) (\<lambda>w. Inr (put_member k w d)))"

definition exact_account :: "pyval \<Rightarrow> string res" where
  "exact_account v = (if \<not> decimal_text (py_str v) then raise ValueError ''exact decimal identifier''
     else bindR (int_of_text (py_str v)) (\<lambda>n. Inr (int_text n)))"

definition canonical_parameters :: "sdk_session \<Rightarrow> pydict \<Rightarrow> pydict res" where
  "canonical_parameters S ps =
     bindR (dict_rewrite ''modify_order_op'' (\<lambda>v. Inr (PStr (norm_text (py_str v)))) (dict_pop ''approval_id'' ps)) (\<lambda>d.
     bindR (dict_rewrite ''acc_id'' (\<lambda>v. bindR (exact_account v) (\<lambda>s. Inr (PStr s))) d) (\<lambda>d.
     bindR (dict_rewrite ''session'' (\<lambda>v. bindR (normalize_order_session S v ''REAL'') (\<lambda>s. Inr (PStr s))) d) (\<lambda>d.
       Inr (if dict_get d ''session'' PNone \<in> {PNone, PStr ''N/A'', PStr ''NONE''}
              \<or> dict_get d ''trd_env'' PNone = PStr ''SIMULATE'' \<and> dict_get d ''session'' PNone = PStr ''RTH''
            then dict_pop ''session'' d else d))))"

definition canonical_intent :: "sdk_session \<Rightarrow> string \<Rightarrow> pydict \<Rightarrow> string res" where
  "canonical_intent S meth ps =
     bindR (canonical_parameters S ps) (\<lambda>d.
     bindR (number_view (as_dict d)) (\<lambda>n.
     bindR (json_text canonical_style (as_dict [(''method'', PStr meth), (''parameters'', n)])) (\<lambda>encoded.
       if 65536 < int (utf8_length encoded) then raise ValueError ''exceeds 64 KiB'' else Inr encoded)))"

text \<open>\<open>contract_view\<close>. The argument \<open>R\<close> is \<open>repr\<close> of a float.\<close>

definition optional_float :: "(pyfloat \<Rightarrow> string) \<Rightarrow> pyfloat option \<Rightarrow> pyval" where
  "optional_float R x = (case x of None \<Rightarrow> PNone | Some f \<Rightarrow> PFloat f (R f))"

definition contract_view :: "(pyfloat \<Rightarrow> string) \<Rightarrow> order_facts \<Rightarrow> pyval res" where
  "contract_view R f = number_view (as_dict
     [(''order_type'', PStr (order_type f)), (''trd_side'', PStr (trd_side f)), (''qty'', PInt (qty f)),
      (''price'', optional_float R (price f)), (''aux_price'', optional_float R (aux_price f)),
      (''is_combo'', PBool (is_combo f)),
      (''legs'', PList (map (\<lambda>l. as_dict
         [(''code'', PStr (code (instrument l))), (''qty_ratio'', PInt (qty_ratio l)),
          (''monetary_multiplier'', optional_float R (monetary_multiplier (instrument l)))]) (legs f)) [])])"

subsection \<open>The store\<close>

datatype decision = PENDING | APPROVED | REJECTED | CONSUMED

record prepared_row =
  request_id :: string
  canonical :: string
  parameters :: string
  review :: string
  created_at :: rat
  expires_at :: pyfloat
  status :: decision
  operator_id :: "string option"
  reason :: "string option"
  decided_at :: "rat option"
  consumed_at :: "rat option"

record charge_row =
  charge_env :: string
  charge_account :: string
  charge_operation :: string
  charge_canonical :: string
  charge_day :: string
  charge_currency :: "string option"
  charge_amount :: pydec
  charge_approval :: "string option"
  charge_created :: rat

record pause_row =
  pause_env :: string
  pause_account :: string
  paused :: bool
  pause_operator :: string
  pause_reason :: string
  pause_updated :: rat

record control_tables =
  prepared :: "prepared_row list"
  charges :: "charge_row list"
  pauses :: "pause_row list"

record controls =
  tables :: control_tables
  blocked :: bool
  shut :: bool

datatype 'a control_body = Commit 'a control_tables | Refuse exn | StorageError

text \<open>\<open>_transaction\<close>; \<open>io\<close> tells whether the storage works during the call.\<close>

definition control_transaction ::
    "bool \<Rightarrow> controls \<Rightarrow> (control_tables \<Rightarrow> 'a control_body) \<Rightarrow> 'a res \<times> controls" where
  "control_transaction io s f =
     (if shut s \<or> blocked s then (raise TradingControlError ''storage is blocked'', s)
      else if \<not> io then (raise TradingControlError ''storage is blocked'', s\<lparr>blocked := True\<rparr>)
      else (case f (tables s) of
          Commit x d \<Rightarrow> (Inr x, s\<lparr>tables := d\<rparr>)
        | Refuse e \<Rightarrow> (Inl e, s)
        | StorageError \<Rightarrow> (raise TradingControlError ''storage is blocked'', s\<lparr>blocked := True\<rparr>)))"

definition close_controls :: "controls \<Rightarrow> controls" where
  "close_controls s = s\<lparr>shut := True\<rparr>"

definition control_health :: "controls \<Rightarrow> string" where
  "control_health s = (if shut s \<or> blocked s then ''BLOCKED'' else ''READY'')"

fun in_body :: "'a res \<Rightarrow> ('a \<Rightarrow> 'b control_body) \<Rightarrow> 'b control_body" where
  "in_body (Inl e) f = Refuse e"
| "in_body (Inr x) f = f x"

subsection \<open>Opening\<close>

record control_file =
  file_present :: bool
  file_intact :: bool
  file_versions :: "int list"
  file_columns :: bool
  file_tables :: control_tables

definition empty_tables :: control_tables where
  "empty_tables = \<lparr>prepared = [], charges = [], pauses = []\<rparr>"

text \<open>\<open>__init__\<close>: a missing file is created when asked for; then the file is checked.\<close>

definition create_file :: "bool \<Rightarrow> bool \<Rightarrow> control_file \<Rightarrow> control_file res" where
  "create_file create io f =
     (if file_present f then Inr f
      else if \<not> create then raise TradingControlError ''require initialization''
      else if \<not> io then raise SqliteError ''creation''
      else Inr \<lparr>file_present = True, file_intact = True, file_versions = [1], file_columns = True,
                file_tables = empty_tables\<rparr>)"

definition open_controls :: "bool \<Rightarrow> bool \<Rightarrow> bool \<Rightarrow> control_file \<Rightarrow> controls res" where
  "open_controls create io_create io f =
     bindR (create_file create io_create f) (\<lambda>g.
       if \<not> io then raise TradingControlError ''storage is unavailable''
       else if \<not> file_intact g then raise TradingControlError ''integrity check failed''
       else if file_versions g \<noteq> [1] then raise TradingControlError ''schema is unsupported''
       else if \<not> file_columns g then raise TradingControlError ''storage is unavailable''
       else Inr \<lparr>tables = file_tables g, blocked = False, shut = False\<rparr>)"

subsection \<open>Pauses\<close>

definition pause_scope :: "string \<Rightarrow> pyval \<Rightarrow> (string \<times> string) res" where
  "pause_scope env acc =
     (if norm_text env \<notin> {''REAL'', ''SIMULATE''} then raise ValueError ''REAL or SIMULATE''
      else bindR (exact_account acc) (\<lambda>a. Inr (norm_text env, a)))"

record pause_report =
  report_env :: string
  report_account :: string
  report_paused :: bool
  decisions :: "pause_row list"

text \<open>The rows of the environment gate and of the account, in the order of the account text.\<close>

definition pause_rows :: "string \<Rightarrow> string \<Rightarrow> control_tables \<Rightarrow> pause_row list" where
  "pause_rows env acc d =
     sort_key pause_account (filter (\<lambda>r. pause_env r = env \<and> pause_account r \<in> {''0'', acc}) (pauses d))"

definition pause_state :: "bool \<Rightarrow> controls \<Rightarrow> string \<Rightarrow> pyval \<Rightarrow> pause_report res \<times> controls" where
  "pause_state io s env acc = (case pause_scope env acc of
     Inl e \<Rightarrow> (Inl e, s)
   | Inr (env', acc') \<Rightarrow> control_transaction io s (\<lambda>d. let rows = pause_rows env' acc' d in
       Commit \<lparr>report_env = env', report_account = acc', report_paused = list_ex paused rows, decisions = rows\<rparr> d))"

definition pause_arguments :: "pyval \<Rightarrow> string \<Rightarrow> string \<Rightarrow> unit res" where
  "pause_arguments p operator why =
     (case p of PBool _ \<Rightarrow>
        bindR (guardR (operator = [] \<or> 128 < length operator \<or> \<not> isprintable operator) (Exn ValueError ''Operator identity'')) (\<lambda>_.
        guardR (strip why = [] \<or> 2000 < length why \<or> \<not> isprintable why) (Exn ValueError ''printable reason''))
      | _ \<Rightarrow> raise ValueError ''paused must be a boolean'')"

definition upsert_pause :: "pause_row \<Rightarrow> control_tables \<Rightarrow> control_tables" where
  "upsert_pause p d =
     (let same = (\<lambda>r. pause_env r = pause_env p \<and> pause_account r = pause_account p) in
      d\<lparr>pauses := (if list_ex same (pauses d) then update_rows same (\<lambda>_. p) (pauses d) else pauses d @ [p])\<rparr>)"

definition set_paused ::
    "bool \<Rightarrow> bool \<Rightarrow> controls \<Rightarrow> string \<Rightarrow> pyval \<Rightarrow> string \<Rightarrow> string \<Rightarrow> pyval \<Rightarrow> rat \<Rightarrow> pause_report res \<times> controls" where
  "set_paused io io' s env p operator why acc now = (case pause_scope env acc of
     Inl e \<Rightarrow> (Inl e, s)
   | Inr (env', acc') \<Rightarrow> (case pause_arguments p operator why of
       Inl e \<Rightarrow> (Inl e, s)
     | Inr _ \<Rightarrow> (case control_transaction io s (\<lambda>d. Commit () (upsert_pause
           \<lparr>pause_env = env', pause_account = acc', paused = truthy p, pause_operator = operator,
            pause_reason = why, pause_updated = now\<rparr> d)) of
         (Inl e, t) \<Rightarrow> (Inl e, t)
       | (Inr _, t) \<Rightarrow> pause_state io' t env' (PStr acc'))))"

definition check_new_risk :: "bool \<Rightarrow> controls \<Rightarrow> string \<Rightarrow> pyval \<Rightarrow> unit res \<times> controls" where
  "check_new_risk io s env acc = (case pause_state io s env (PStr (py_str acc)) of
     (Inl e, t) \<Rightarrow> (Inl e, t)
   | (Inr rep, t) \<Rightarrow> (guardR (report_paused rep) (Exn TradingControlError ''exposure is paused''), t))"

subsection \<open>Approvals\<close>

record approval_view =
  view_request :: string
  view_method :: pyval
  view_parameters :: pydict
  view_review :: pyval
  view_fingerprint :: string
  view_created :: rat
  view_expires :: pyfloat
  view_status :: string
  view_operator :: "string option"
  view_reason :: "string option"
  view_decided :: "rat option"
  view_consumed :: "rat option"

fun status_text :: "decision \<Rightarrow> string" where
  "status_text PENDING = ''PENDING''"
| "status_text APPROVED = ''APPROVED''"
| "status_text REJECTED = ''REJECTED''"
| "status_text CONSUMED = ''CONSUMED''"

definition view_row :: "(string \<Rightarrow> string) \<Rightarrow> prepared_row \<Rightarrow> approval_view res" where
  "view_row sha256 r =
     bindR (json_loads (parameters r)) (\<lambda>ps. case ps of
       PDict d _ \<Rightarrow>
         bindR (member ''method'' (PDict d [])) (\<lambda>m.
         bindR (json_loads (review r)) (\<lambda>rv.
           Inr \<lparr>view_request = request_id r, view_method = m, view_parameters = dict_pop ''method'' d,
                view_review = rv, view_fingerprint = sha256 (canonical r), view_created = created_at r,
                view_expires = expires_at r, view_status = status_text (status r),
                view_operator = operator_id r, view_reason = reason r, view_decided = decided_at r,
                view_consumed = consumed_at r\<rparr>))
     | _ \<Rightarrow> raise TypeError ''pop'')"

definition find_prepared :: "string \<Rightarrow> control_tables \<Rightarrow> prepared_row option" where
  "find_prepared rid d = find_row request_id rid (prepared d)"

text \<open>\<open>{"method": method, **parameters}\<close>: an argument named \<open>method\<close> replaces the first entry.\<close>

definition payload_dict :: "string \<Rightarrow> pydict \<Rightarrow> pydict" where
  "payload_dict meth ps = foldl (\<lambda>d (k, v). put_member k v d) [(''method'', PStr meth)] ps"

definition insert_prepared :: "prepared_row \<Rightarrow> control_tables \<Rightarrow> control_tables option" where
  "insert_prepared r d =
     (if request_id r \<in> request_id ` set (prepared d) then None else Some (d\<lparr>prepared := prepared d @ [r]\<rparr>))"

text \<open>\<open>prepare\<close>: the texts of the request, computed before the transaction, and its statements. The lifetime
  is an integer number of seconds, and \<open>now + ttl_seconds\<close> a sum of floats.\<close>

definition prepare_arguments ::
    "sdk_session \<Rightarrow> string \<Rightarrow> pydict \<Rightarrow> pyval \<Rightarrow> int \<Rightarrow> (string \<times> string \<times> string) res" where
  "prepare_arguments S meth ps rv ttl =
     bindR (guardR (\<not> (1 \<le> ttl \<and> ttl \<le> 900)) (Exn ValueError ''Approval expiry'')) (\<lambda>_.
     bindR (canonical_intent S meth ps) (\<lambda>canon.
     bindR (json_text default_style (as_dict (payload_dict meth ps))) (\<lambda>payload.
     bindR (json_text default_style rv) (\<lambda>evidence.
     bindR (guardR (65536 < int (utf8_length evidence)) (Exn ValueError ''Prepared review exceeds 64 KiB'')) (\<lambda>_.
       Inr (canon, payload, evidence))))))"

definition new_prepared :: "string \<Rightarrow> string \<times> string \<times> string \<Rightarrow> int \<Rightarrow> rat \<Rightarrow> prepared_row" where
  "new_prepared identifier args ttl now = (case args of (canon, payload, evidence) \<Rightarrow>
     \<lparr>request_id = identifier, canonical = canon, parameters = payload, review = evidence,
      created_at = now, expires_at = fadd (Fin now) (Fin (of_int ttl)), status = PENDING,
      operator_id = None, reason = None, decided_at = None, consumed_at = None\<rparr>)"

definition prepare_body ::
    "(string \<Rightarrow> string) \<Rightarrow> prepared_row \<Rightarrow> control_tables \<Rightarrow> approval_view control_body" where
  "prepare_body sha256 r d = (case insert_prepared r d of
     None \<Rightarrow> StorageError
   | Some d' \<Rightarrow> in_body (view_row sha256 r) (\<lambda>v. Commit v d'))"

definition prepare ::
    "(string \<Rightarrow> string) \<Rightarrow> sdk_session \<Rightarrow> bool \<Rightarrow> controls \<Rightarrow> string \<Rightarrow> pydict \<Rightarrow> pyval \<Rightarrow> int \<Rightarrow> string \<Rightarrow> rat \<Rightarrow>
     approval_view res \<times> controls" where
  "prepare sha256 S io s meth ps rv ttl identifier now = (case prepare_arguments S meth ps rv ttl of
     Inl e \<Rightarrow> (Inl e, s)
   | Inr args \<Rightarrow> control_transaction io s (prepare_body sha256 (new_prepared identifier args ttl now)))"

definition approval_expired :: "pyfloat \<Rightarrow> rat \<Rightarrow> bool" where
  "approval_expired expiry now \<longleftrightarrow> expiry \<le> Fin now"

text \<open>\<open>get\<close>.\<close>

definition get_prepared ::
    "(string \<Rightarrow> string) \<Rightarrow> bool \<Rightarrow> controls \<Rightarrow> string \<Rightarrow> rat \<Rightarrow> approval_view res \<times> controls" where
  "get_prepared sha256 io s rid now =
     (case control_transaction io s (\<lambda>d. case find_prepared rid d of
          None \<Rightarrow> Refuse (Exn ValueError ''does not exist'')
        | Some r \<Rightarrow> in_body (view_row sha256 r) (\<lambda>v. Commit v d)) of
        (Inl e, t) \<Rightarrow> (Inl e, t)
      | (Inr v, t) \<Rightarrow>
         (Inr (if view_status v \<in> {''PENDING'', ''APPROVED''} \<and> approval_expired (view_expires v) now
               then v\<lparr>view_status := ''EXPIRED''\<rparr> else v), t))"

definition decided_row :: "decision \<Rightarrow> string \<Rightarrow> string \<Rightarrow> rat \<Rightarrow> prepared_row \<Rightarrow> prepared_row" where
  "decided_row dec operator why now r =
     r\<lparr>status := dec, operator_id := Some operator, reason := Some why, decided_at := Some now\<rparr>"

text \<open>\<open>decide\<close>: \<open>now\<close> and \<open>now'\<close> are its two clock readings.\<close>

definition decide_body ::
    "(string \<Rightarrow> string) \<Rightarrow> string \<Rightarrow> decision \<Rightarrow> string \<Rightarrow> string \<Rightarrow> rat \<Rightarrow> rat \<Rightarrow> control_tables \<Rightarrow>
     approval_view control_body" where
  "decide_body sha256 rid dec operator why now now' d = (case find_prepared rid d of
     None \<Rightarrow> Refuse (Exn ValueError ''does not exist'')
   | Some r \<Rightarrow>
      if status r \<noteq> PENDING \<or> approval_expired (expires_at r) now
      then Refuse (Exn TradingControlError ''final or expired'')
      else in_body (view_row sha256 (decided_row dec operator why now' r)) (\<lambda>v.
        Commit v (d\<lparr>prepared := update_rows (\<lambda>q. request_id q = rid) (decided_row dec operator why now') (prepared d)\<rparr>)))"

definition decide ::
    "(string \<Rightarrow> string) \<Rightarrow> bool \<Rightarrow> controls \<Rightarrow> string \<Rightarrow> string \<Rightarrow> string \<Rightarrow> string \<Rightarrow> rat \<Rightarrow> rat \<Rightarrow>
     approval_view res \<times> controls" where
  "decide sha256 io s rid word operator why now now' =
     (if word \<notin> {''APPROVED'', ''REJECTED''} then (raise ValueError ''APPROVED or REJECTED'', s)
      else if operator = [] \<or> 128 < length operator then (raise ValueError ''Operator identity'', s)
      else if strip why = [] \<or> 2000 < length why then (raise ValueError ''decision reason'', s)
      else control_transaction io s
        (decide_body sha256 rid (if word = ''APPROVED'' then APPROVED else REJECTED) operator why now now'))"

subsection \<open>Checking an approval\<close>

text \<open>\<open>json.loads(row["review"]).get("contract")\<close>.\<close>

definition reviewed_contract :: "prepared_row \<Rightarrow> pyval res" where
  "reviewed_contract r = bindR (json_loads (review r)) (\<lambda>v. case v of
     PDict d _ \<Rightarrow> Inr (dict_get d ''contract'' PNone) | _ \<Rightarrow> raise TypeError ''get'')"

text \<open>\<open>_approved\<close>; \<open>contract\<close> is the contract to compare with, when it is to be verified.\<close>

definition approved ::
    "control_tables \<Rightarrow> string option \<Rightarrow> string \<Rightarrow> pyval option \<Rightarrow> rat \<Rightarrow> prepared_row res" where
  "approved d approval canon contract now = (case approval of
     None \<Rightarrow> raise TradingControlError ''approval is required''
   | Some rid \<Rightarrow>
      if rid = [] then raise TradingControlError ''approval is required''
      else (case find_prepared rid d of
        None \<Rightarrow> raise TradingControlError ''does not match''
      | Some r \<Rightarrow>
         if canonical r \<noteq> canon then raise TradingControlError ''does not match''
         else if status r \<noteq> APPROVED \<or> approval_expired (expires_at r) now
         then raise TradingControlError ''missing, rejected, consumed or expired''
         else bindR (reviewed_contract r) (\<lambda>expected. case contract of
           Some c \<Rightarrow> if \<not> py_eq expected c then raise TradingControlError ''contract changed'' else Inr r
         | None \<Rightarrow> Inr r)))"

definition check_approval ::
    "sdk_session \<Rightarrow> bool \<Rightarrow> controls \<Rightarrow> string \<Rightarrow> pydict \<Rightarrow> string option \<Rightarrow> rat \<Rightarrow> unit res \<times> controls" where
  "check_approval S io s meth ps approval now =
     control_transaction io s (\<lambda>d.
       in_body (canonical_intent S meth ps) (\<lambda>canon.
       in_body (approved d approval canon None now) (\<lambda>_. Commit () d)))"

subsection \<open>Consuming a reservation\<close>

text \<open>A value bound to a \<open>TEXT NOT NULL\<close> column.\<close>

fun sql_text :: "pyval \<Rightarrow> string option" where
  "sql_text (PStr s) = Some s"
| "sql_text (PInt i) = Some (int_text i)"
| "sql_text (PBool b) = Some (if b then ''1'' else ''0'')"
| "sql_text (PFloat _ t) = Some t"
| "sql_text _ = None"

fun bindable :: "pyval \<Rightarrow> bool" where
  "bindable (PList _ _) = False"
| "bindable (PDict _ _) = False"
| "bindable (PObj _ _) = False"
| "bindable _ = True"

record charge_key =
  key_env :: pyval
  key_account :: string
  key_operation :: pyval

text \<open>\<open>parameters["trd_env"]\<close>, \<open>str(int(str(parameters["acc_id"])))\<close> and \<open>parameters["operation_id"]\<close>.\<close>

definition charge_key_of :: "pydict \<Rightarrow> charge_key res" where
  "charge_key_of ps =
     bindR (member ''trd_env'' (as_dict ps)) (\<lambda>env.
     bindR (member ''acc_id'' (as_dict ps)) (\<lambda>a.
     bindR (int_of_text (py_str a)) (\<lambda>n.
     bindR (member ''operation_id'' (as_dict ps)) (\<lambda>oid.
       Inr \<lparr>key_env = env, key_account = int_text n, key_operation = oid\<rparr>))))"

definition find_charge :: "charge_key \<Rightarrow> control_tables \<Rightarrow> charge_row option" where
  "find_charge k d = find (\<lambda>c. Some (charge_env c) = sql_text (key_env k) \<and> charge_account c = key_account k
     \<and> Some (charge_operation c) = sql_text (key_operation k)) (charges d)"

definition charged_amounts :: "string \<Rightarrow> string option \<Rightarrow> string \<Rightarrow> string \<Rightarrow> control_tables \<Rightarrow> pydec list" where
  "charged_amounts day env acc cur d = map charge_amount
     (filter (\<lambda>c. charge_day c = day \<and> Some (charge_env c) = env \<and> charge_account c = acc
        \<and> charge_currency c = Some cur) (charges d))"

text \<open>The caps are the configured limits by currency, each as \<open>Decimal(str(cap))\<close>.\<close>

definition check_budget ::
    "(string \<times> pydec) list \<Rightarrow> pydec \<Rightarrow> string option \<Rightarrow> string \<Rightarrow> charge_key \<Rightarrow> control_tables \<Rightarrow> unit res" where
  "check_budget caps amount cur day k d =
     (if caps \<noteq> [] \<and> 0 < dec_val amount then
        (case (case cur of None \<Rightarrow> None | Some c \<Rightarrow> map_option (Pair c) (map_of caps c)) of
           None \<Rightarrow> raise TradingControlError ''uncapped''
         | Some (c, cap) \<Rightarrow>
            let used = sum_exact (charged_amounts day (sql_text (key_env k)) (key_account k) c d);
                charged = sum_exact [used, amount] in
            guardR (dec_val cap < dec_val charged) (Exn TradingControlError ''budget exceeded''))
      else ok)"

definition consumed_row :: "rat \<Rightarrow> prepared_row \<Rightarrow> prepared_row" where
  "consumed_row now r = r\<lparr>status := CONSUMED, consumed_at := Some now\<rparr>"

definition insert_charge :: "charge_row \<Rightarrow> control_tables \<Rightarrow> control_tables option" where
  "insert_charge c d =
     (if list_ex (\<lambda>x. charge_env x = charge_env c \<and> charge_account x = charge_account c
           \<and> charge_operation x = charge_operation c) (charges d)
      then None else Some (d\<lparr>charges := charges d @ [c]\<rparr>))"

definition mark_consumed :: "bool \<Rightarrow> string option \<Rightarrow> rat \<Rightarrow> control_tables \<Rightarrow> control_tables" where
  "mark_consumed require approval now d =
     (if require then d\<lparr>prepared := update_rows (\<lambda>r. Some (request_id r) = approval) (consumed_row now) (prepared d)\<rparr>
      else d)"

text \<open>The statements of \<open>consume\<close>: \<open>now\<close> stamps the charge, \<open>now'\<close> is the reading \<open>_approved\<close> takes.\<close>

definition consume_body ::
    "string \<Rightarrow> charge_key \<Rightarrow> string option \<Rightarrow> bool \<Rightarrow> string option \<Rightarrow> pydec \<Rightarrow> (string \<times> pydec) list \<Rightarrow> pyval \<Rightarrow>
     rat \<Rightarrow> rat \<Rightarrow> control_tables \<Rightarrow> unit control_body" where
  "consume_body canon k approval require cur amount caps contract now now' d =
     in_body (utc_day now) (\<lambda>day.
       if \<not> bindable (key_env k) \<or> \<not> bindable (key_operation k) then StorageError
       else case find_charge k d of
         Some c \<Rightarrow> if charge_canonical c \<noteq> canon then Refuse (Exn TradingControlError ''identity conflict'')
                   else Refuse (Exn TradingControlError ''already consumed'')
       | None \<Rightarrow>
          in_body (if require then bindR (approved d approval canon (Some contract) now') (\<lambda>_. ok) else ok) (\<lambda>_.
          in_body (check_budget caps amount cur day k d) (\<lambda>_.
            case (sql_text (key_env k), sql_text (key_operation k)) of
              (Some env, Some oid) \<Rightarrow>
                (case insert_charge \<lparr>charge_env = env, charge_account = key_account k, charge_operation = oid,
                        charge_canonical = canon, charge_day = day, charge_currency = cur, charge_amount = amount,
                        charge_approval = approval, charge_created = now\<rparr> d of
                   None \<Rightarrow> StorageError
                 | Some d' \<Rightarrow> Commit () (mark_consumed require approval now d'))
            | _ \<Rightarrow> StorageError)))"

definition consume_arguments :: "sdk_session \<Rightarrow> string \<Rightarrow> pydict \<Rightarrow> pydec \<Rightarrow> (string \<times> charge_key) res" where
  "consume_arguments S meth ps amount =
     bindR (canonical_intent S meth ps) (\<lambda>canon.
     bindR (charge_key_of ps) (\<lambda>k.
     bindR (guardR (\<not> truthy (key_operation k) \<or> \<not> truthy (dict_get ps ''admission_epoch'' PNone))
       (Exn TradingControlError ''durable operation identity'')) (\<lambda>_.
     bindR (guardR (\<not> dec_finite amount \<or> dec_val amount < 0) (Exn TradingControlError ''valuation is invalid'')) (\<lambda>_.
       Inr (canon, k)))))"

definition consume ::
    "sdk_session \<Rightarrow> bool \<Rightarrow> controls \<Rightarrow> string \<Rightarrow> pydict \<Rightarrow> string option \<Rightarrow> bool \<Rightarrow> string option \<Rightarrow> pydec \<Rightarrow>
     (string \<times> pydec) list \<Rightarrow> pyval \<Rightarrow> rat \<Rightarrow> rat \<Rightarrow> unit res \<times> controls" where
  "consume S io s meth ps approval require cur amount caps contract now now' =
     (case consume_arguments S meth ps amount of
        Inl e \<Rightarrow> (Inl e, s)
      | Inr (canon, k) \<Rightarrow>
         control_transaction io s (consume_body canon k approval require cur amount caps contract now now'))"

subsection \<open>Confirming a reservation and usage\<close>

definition confirm_approval ::
    "control_tables \<Rightarrow> charge_row \<Rightarrow> string \<Rightarrow> string option \<Rightarrow> pyval \<Rightarrow> rat \<Rightarrow> unit res" where
  "confirm_approval d c canon approval contract now =
     (case (case approval of None \<Rightarrow> None | Some rid \<Rightarrow> find_prepared rid d) of
        None \<Rightarrow> raise TradingControlError ''expired before broker dispatch''
      | Some r \<Rightarrow>
         if canonical r \<noteq> canon \<or> status r \<noteq> CONSUMED \<or> charge_approval c \<noteq> approval
            \<or> approval_expired (expires_at r) now
         then raise TradingControlError ''expired before broker dispatch''
         else bindR (reviewed_contract r) (\<lambda>expected.
           guardR (\<not> py_eq expected contract) (Exn TradingControlError ''contract changed'')))"

definition confirm_body ::
    "sdk_session \<Rightarrow> string \<Rightarrow> pydict \<Rightarrow> string option \<Rightarrow> bool \<Rightarrow> pyval \<Rightarrow> rat \<Rightarrow> rat \<Rightarrow> string \<Rightarrow> control_tables \<Rightarrow>
     unit control_body" where
  "confirm_body S meth ps approval require contract now now' canon d =
     in_body (charge_key_of ps) (\<lambda>k.
       if \<not> bindable (key_env k) \<or> \<not> bindable (key_operation k) then StorageError
       else case find_charge k d of
         None \<Rightarrow> Refuse (Exn TradingControlError ''reservation is unavailable'')
       | Some c \<Rightarrow>
          if charge_canonical c \<noteq> canon then Refuse (Exn TradingControlError ''reservation is unavailable'')
          else in_body (utc_day now) (\<lambda>day.
            if charge_day c \<noteq> day then Refuse (Exn TradingControlError ''UTC day boundary'')
            else if require then in_body (confirm_approval d c canon approval contract now') (\<lambda>_. Commit () d)
            else Commit () d))"

definition confirm_reservation ::
    "sdk_session \<Rightarrow> bool \<Rightarrow> controls \<Rightarrow> string \<Rightarrow> pydict \<Rightarrow> string option \<Rightarrow> bool \<Rightarrow> pyval \<Rightarrow> rat \<Rightarrow> rat \<Rightarrow>
     unit res \<times> controls" where
  "confirm_reservation S io s meth ps approval require contract now now' =
     (case canonical_intent S meth ps of
        Inl e \<Rightarrow> (Inl e, s)
      | Inr canon \<Rightarrow> control_transaction io s (confirm_body S meth ps approval require contract now now' canon))"

text \<open>\<open>usage\<close>: the totals of the day by currency.\<close>

definition add_total :: "(string \<times> pydec) list \<Rightarrow> string option \<times> pydec \<Rightarrow> (string \<times> pydec) list" where
  "add_total totals r = (case r of
     (Some cur, amount) \<Rightarrow>
       if cur = [] then totals
       else (case map_of totals cur of
         None \<Rightarrow> totals @ [(cur, sum_exact [Dec False 0 0, amount])]
       | Some t \<Rightarrow> map (\<lambda>(k, v). (k, if k = cur then sum_exact [t, amount] else v)) totals)
   | (None, _) \<Rightarrow> totals)"

definition usage ::
    "bool \<Rightarrow> controls \<Rightarrow> string \<Rightarrow> string \<Rightarrow> rat \<Rightarrow> (string \<times> (string \<times> pydec) list) res \<times> controls" where
  "usage io s env acc now = (case utc_day now of
     Inl e \<Rightarrow> (Inl e, s)
   | Inr day \<Rightarrow> control_transaction io s (\<lambda>d.
       Commit (day, foldl add_total [] (map (\<lambda>c. (charge_currency c, charge_amount c))
         (filter (\<lambda>c. charge_day c = day \<and> charge_env c = env \<and> charge_account c = acc) (charges d)))) d))"

subsection \<open>Sums are exact\<close>

definition dec_ok :: "pydec \<Rightarrow> bool" where
  "dec_ok d \<longleftrightarrow> dec_finite d \<and> 0 \<le> dcoef d"

lemma abs_pow10 [simp]: "\<bar>pow10 k\<bar> = pow10 k"
  by (simp add: less_imp_le)

lemma dec_val_signed: "dec_finite d \<Longrightarrow> dec_val d = of_int (signed_coef d) * pow10 (dexp d)"
  by (cases d) (simp_all add: signed_coef_def)

lemma nat_text_lower: "1 \<le> n \<Longrightarrow> 10 ^ (length (nat_text n) - 1) \<le> n"
proof (induction n rule: nat_text.induct)
  case (1 n)
  show ?case
  proof (cases "n < 10")
    case False
    then have "10 ^ (length (nat_text (n div 10)) - 1) \<le> n div 10" using 1 by simp
    moreover have "0 < length (nat_text (n div 10))" using nat_text_decimal [of "n div 10"] by (simp add: isdecimal_def)
    ultimately show ?thesis using False
      by (subst nat_text.simps) (simp add: power_eq_if [of _ "length (nat_text (n div 10))"])
  qed (use 1 in \<open>subst nat_text.simps, simp\<close>)
qed

lemma digit_count_le_iff:
  assumes "0 \<le> c" "1 \<le> k"
  shows "digit_count c \<le> int k \<longleftrightarrow> c < 10 ^ k"
proof
  assume k: "digit_count c \<le> int k"
  have "c < 10 ^ length (nat_text c)"
    using digits_val_bound [of "nat_text c"] nat_text_decimal [of c] assms(1) by (simp add: isdecimal_def)
  also have "\<dots> \<le> 10 ^ k"
    using k assms(1) by (intro power_increasing) (auto simp: digit_count_def int_text_def)
  finally show "c < 10 ^ k" .
next
  assume c: "c < 10 ^ k"
  show "digit_count c \<le> int k"
  proof (cases "c = 0")
    case True
    then show ?thesis using assms(2) by (simp add: digit_count_def int_text_def nat_text.simps)
  next
    case False
    then have "(10 :: int) ^ (length (nat_text c) - 1) < 10 ^ k" using nat_text_lower [of c] assms(1) c by linarith
    then have "length (nat_text c) - 1 < k" by (rule power_less_imp_less_exp [rotated]) simp
    then show ?thesis using assms(1) by (simp add: digit_count_def int_text_def)
  qed
qed

lemma digit_count_pos: "1 \<le> digit_count c"
proof -
  have "nat_text n \<noteq> []" for n using nat_text_decimal [of n] by (simp add: isdecimal_def)
  then show ?thesis by (simp add: digit_count_def int_text_def Suc_le_eq)
qed

text \<open>An addition whose result fits the context is exact.\<close>

definition aligned_sum :: "pydec \<Rightarrow> pydec \<Rightarrow> int" where
  "aligned_sum a b = (let e = min (dexp a) (dexp b) in
     signed_coef a * 10 ^ nat (dexp a - e) + signed_coef b * 10 ^ nat (dexp b - e))"

lemma pow10_shift: "e \<le> f \<Longrightarrow> pow10 f = 10 ^ nat (f - e) * pow10 e"
  using pow10_add [of "int (nat (f - e))" e] pow10_nat [of "nat (f - e)"] by simp

lemma aligned_sum_value:
  assumes "dec_finite a" "dec_finite b"
  shows "of_int (aligned_sum a b) * pow10 (min (dexp a) (dexp b)) = dec_val a + dec_val b"
  using pow10_shift [of "min (dexp a) (dexp b)" "dexp a"] pow10_shift [of "min (dexp a) (dexp b)" "dexp b"]
  by (simp add: aligned_sum_def Let_def dec_val_signed [OF assms(1)] dec_val_signed [OF assms(2)] ring_distribs mult.assoc)

lemma dec_add_exact:
  assumes "dec_finite a" "dec_finite b" and fits: "\<bar>aligned_sum a b\<bar> < 10 ^ nat prec" "1 \<le> prec"
  shows "dec_ok (dec_add prec a b)" "dexp (dec_add prec a b) = min (dexp a) (dexp b)"
    "dec_val (dec_add prec a b) = dec_val a + dec_val b"
proof -
  have "digit_count \<bar>aligned_sum a b\<bar> \<le> prec" using digit_count_le_iff [of "\<bar>aligned_sum a b\<bar>" "nat prec"] fits by simp
  then have sum: "dec_add prec a b = Dec (aligned_sum a b < 0 \<or> aligned_sum a b = 0 \<and> dneg a \<and> dneg b)
      \<bar>aligned_sum a b\<bar> (min (dexp a) (dexp b))"
    by (simp add: dec_add_def round_digits_def aligned_sum_def Let_def)
  then show "dec_ok (dec_add prec a b)" "dexp (dec_add prec a b) = min (dexp a) (dexp b)"
    by (simp_all add: dec_ok_def)
  have "dec_val (dec_add prec a b) = of_int (aligned_sum a b) * pow10 (min (dexp a) (dexp b))"
    unfolding sum by auto
  with aligned_sum_value [OF assms(1,2)] show "dec_val (dec_add prec a b) = dec_val a + dec_val b" by simp
qed

lemma value_below:
  assumes "dec_ok v" "adjusted v + 1 \<le> int k"
  shows "\<bar>dec_val v\<bar> < 10 ^ k"
proof -
  have c: "0 \<le> dcoef v" using assms by (simp add: dec_ok_def)
  let ?n = "digit_count (dcoef v)"
  have "dcoef v < 10 ^ nat ?n" using digit_count_le_iff [OF c, of "nat ?n"] digit_count_pos [of "dcoef v"] by simp
  then have "(of_int (dcoef v) :: rat) < 10 ^ nat ?n" by (metis of_int_less_iff of_int_numeral of_int_power)
  then have "of_int (dcoef v) * pow10 (dexp v) < 10 ^ nat ?n * pow10 (dexp v)" by simp
  also have "\<dots> = pow10 (?n + dexp v)"
    using pow10_nat [of "nat ?n"] digit_count_pos [of "dcoef v"] by (simp add: pow10_add)
  also have "\<dots> \<le> pow10 (int k)"
  proof -
    have "1 * pow10 (?n + dexp v) \<le> 10 ^ nat (int k - (?n + dexp v)) * pow10 (?n + dexp v)"
      by (intro mult_right_mono one_le_power less_imp_le [OF pow10_pos]) simp
    moreover have "?n + dexp v \<le> int k" using assms(2) by (simp add: adjusted_def)
    ultimately show ?thesis using pow10_shift [of "?n + dexp v" "int k"] by simp
  qed
  finally have "of_int (dcoef v) * pow10 (dexp v) < 10 ^ k" by (simp add: pow10_nat)
  moreover have "\<bar>dec_val v\<bar> = of_int (dcoef v) * pow10 (dexp v)"
    using assms c by (cases v) (auto simp: dec_ok_def abs_mult)
  ultimately show ?thesis by simp
qed

lemma sum_precision_bounds:
  assumes "vs \<noteq> []"
  obtains i f l :: nat where
    "\<And>v. v \<in> set vs \<Longrightarrow> adjusted v + 1 \<le> int i" "\<And>v. v \<in> set vs \<Longrightarrow> - dexp v \<le> int f"
    "length vs < 10 ^ l" "int (i + f + l + 1) \<le> sum_precision vs"
proof -
  let ?I = "Max (set (map (\<lambda>v. max (adjusted v + 1) 1) vs))" and ?F = "Max (set (map (\<lambda>v. max (- dexp v) 0) vs))"
  let ?L = "digit_count (int (length vs))"
  have I: "max (adjusted v + 1) 1 \<le> ?I" and F: "max (- dexp v) 0 \<le> ?F" if "v \<in> set vs" for v
    using that by (auto intro!: Max_ge simp del: max.bounded_iff)
  have nonneg: "0 \<le> ?I" "0 \<le> ?F" using I [of "hd vs"] F [of "hd vs"] assms by auto
  have "int (length vs) < 10 ^ nat ?L"
    using digit_count_le_iff [of "int (length vs)" "nat ?L"] digit_count_pos [of "int (length vs)"] by simp
  then have L: "length vs < 10 ^ nat ?L" by (metis of_nat_less_iff of_nat_numeral of_nat_power)
  show ?thesis
  proof
    show "adjusted v + 1 \<le> int (nat ?I)" if "v \<in> set vs" for v using I [OF that] by simp
    show "- dexp v \<le> int (nat ?F)" if "v \<in> set vs" for v using F [OF that] by simp
    show "length vs < 10 ^ nat ?L" by (rule L)
    show "int (nat ?I + nat ?F + nat ?L + 1) \<le> sum_precision vs"
      using nonneg assms digit_count_pos [of "int (length vs)"] by (simp add: sum_precision_def Let_def)
  qed
qed

lemma sum_bound: "(\<And>v. v \<in> set us \<Longrightarrow> \<bar>g v\<bar> < (B :: rat)) \<Longrightarrow> \<bar>sum_list (map g us)\<bar> \<le> of_nat (length us) * B"
proof (induction us)
  case (Cons u us)
  have "\<bar>g u + sum_list (map g us)\<bar> \<le> B + of_nat (length us) * B"
    using Cons.IH Cons.prems [of u] Cons.prems abs_triangle_ineq [of "g u" "sum_list (map g us)"] by fastforce
  then show ?case by (simp add: algebra_simps)
qed simp

lemma sum_exact_prefix:
  assumes ok: "\<And>v. v \<in> set vs \<Longrightarrow> dec_ok v"
    and i: "\<And>v. v \<in> set vs \<Longrightarrow> adjusted v + 1 \<le> int i" and f: "\<And>v. v \<in> set vs \<Longrightarrow> - dexp v \<le> int f"
    and l: "length vs < 10 ^ l" and prec: "int (i + f + l + 1) \<le> prec"
  shows "vs = us @ ws \<Longrightarrow> (let acc = foldl (dec_add prec) (Dec False 0 0) us in
    dec_ok acc \<and> - int f \<le> dexp acc \<and> dexp acc \<le> 0 \<and> dec_val acc = sum_list (map dec_val us))"
proof (induction us arbitrary: ws rule: rev_induct)
  case Nil
  then show ?case by (simp add: dec_ok_def)
next
  case (snoc v us)
  let ?acc = "foldl (dec_add prec) (Dec False 0 0) us"
  have acc: "dec_ok ?acc" "- int f \<le> dexp ?acc" "dexp ?acc \<le> 0" "dec_val ?acc = sum_list (map dec_val us)"
    using snoc.IH [of "v # ws"] snoc.prems by (simp_all add: Let_def)
  have v: "dec_ok v" "- dexp v \<le> int f" using ok f snoc.prems by auto
  define e where "e = min (dexp ?acc) (dexp v)"
  have e: "- int f \<le> e" "e \<le> 0" using acc v by (auto simp: e_def)
  have total: "dec_val ?acc + dec_val v = sum_list (map dec_val (us @ [v]))" by (simp add: acc(4))
  have "\<bar>sum_list (map dec_val (us @ [v]))\<bar> \<le> of_nat (length (us @ [v])) * 10 ^ i"
    using snoc.prems ok i value_below by (intro sum_bound) auto
  also have "\<dots> \<le> 10 ^ l * 10 ^ i"
  proof -
    have "length (us @ [v]) \<le> 10 ^ l" using l snoc.prems by simp
    then have "(of_nat (length (us @ [v])) :: rat) \<le> 10 ^ l" by (metis of_nat_le_iff of_nat_numeral of_nat_power)
    then show ?thesis by simp
  qed
  finally have bound: "\<bar>dec_val ?acc + dec_val v\<bar> \<le> 10 ^ (l + i)" by (simp only: total power_add)
  have fits: "\<bar>aligned_sum ?acc v\<bar> < 10 ^ nat prec"
  proof -
    have "of_int (aligned_sum ?acc v) * pow10 e = dec_val ?acc + dec_val v"
      using aligned_sum_value [of ?acc v] acc(1) v(1) by (simp add: dec_ok_def e_def)
    moreover have "pow10 e * pow10 (- e) = 1" by (simp add: pow10_add [symmetric]) (simp add: pow10_def)
    ultimately have "of_int (aligned_sum ?acc v) = (dec_val ?acc + dec_val v) * pow10 (- e)"
      by (metis mult.assoc mult.right_neutral)
    then have "\<bar>of_int (aligned_sum ?acc v) :: rat\<bar> \<le> 10 ^ (l + i) * pow10 (- e)"
      using bound by (simp add: abs_mult mult_right_mono less_imp_le)
    also have "\<dots> \<le> 10 ^ (l + i) * 10 ^ f"
    proof -
      have "pow10 (- e) = 10 ^ nat (- e)" using pow10_nat [of "nat (- e)"] e by simp
      also have "\<dots> \<le> 10 ^ f" using e by (intro power_increasing) auto
      finally show ?thesis by simp
    qed
    also have "\<dots> < 10 ^ nat prec" unfolding power_add [symmetric]
      using prec by (intro power_strict_increasing) auto
    finally have "(of_int \<bar>aligned_sum ?acc v\<bar> :: rat) < of_int (10 ^ nat prec)" by simp
    then show ?thesis by (simp only: of_int_less_iff)
  qed
  have "1 \<le> prec" using prec by simp
  note sum = dec_add_exact [OF _ _ fits this]
  show ?case using sum acc v e total by (simp add: Let_def dec_ok_def e_def)
qed

lemma sum_exact_props:
  assumes "\<And>v. v \<in> set vs \<Longrightarrow> dec_ok v"
  shows "dec_ok (sum_exact vs)" "dec_val (sum_exact vs) = sum_list (map dec_val vs)"
proof -
  have "dec_ok (sum_exact vs) \<and> dec_val (sum_exact vs) = sum_list (map dec_val vs)"
  proof (cases "vs = []")
    case False
    then obtain i f l where b: "\<And>v. v \<in> set vs \<Longrightarrow> adjusted v + 1 \<le> int i" "\<And>v. v \<in> set vs \<Longrightarrow> - dexp v \<le> int f"
        "length vs < 10 ^ l" "int (i + f + l + 1) \<le> sum_precision vs"
      by (rule sum_precision_bounds) (assumption | blast)+
    show ?thesis
      using sum_exact_prefix [OF assms b, of vs "[]"] by (simp add: sum_exact_def Let_def)
  qed (simp add: sum_exact_def dec_ok_def)
  then show "dec_ok (sum_exact vs)" "dec_val (sum_exact vs) = sum_list (map dec_val vs)" by simp_all
qed

text \<open>C39. Summing decimals the way the budget does, in a context whose precision is chosen from the digits of
  the values, loses nothing: the result is the exact sum, whatever the sizes and fractions of the values.\<close>
theorem budget_sum_is_exact:
  assumes "\<forall>v \<in> set vs. dec_ok v"
  shows "dec_val (sum_exact vs) = sum_list (map dec_val vs)"
  using assms by (intro sum_exact_props(2)) blast

theorem budget_sum_is_exact_witness:
  "dec_val (sum_exact [Dec False 123456789012345678901234567890 0, Dec False 1 (- 8)]) =
   sum_list (map dec_val [Dec False 123456789012345678901234567890 0, Dec False 1 (- 8)])"
  by (rule budget_sum_is_exact) (simp add: dec_ok_def)

end
