(* ===== verification/Control_Runs.thy ===== *)
theory Control_Runs
  imports Trading_Controls
begin

text \<open>
  Runs of the trading controls: calls of their methods in any order, with any arguments, clock and storage,
  and restarts on the file they leave. The invariant of the tables is lifted to every run through the
  interface of guarded systems; the properties of budgets, approvals, decisions and pauses rest on it.
\<close>

subsection \<open>Runs\<close>

text \<open>Calls that leave the pauses alone, under a deployment's session constants, caps and approval setting.\<close>

inductive control_call :: "sdk_session \<Rightarrow> (string \<times> pydec) list \<Rightarrow> bool \<Rightarrow> controls \<Rightarrow> controls \<Rightarrow> bool"
  for S caps require where
  "prepare sha256 S io s meth ps rv ttl identifier now = (v, t) \<Longrightarrow> control_call S caps require s t"
| "get_prepared sha256 io s rid now = (v, t) \<Longrightarrow> control_call S caps require s t"
| "decide sha256 io s rid word operator why now now' = (v, t) \<Longrightarrow> control_call S caps require s t"
| "check_approval S io s meth ps approval now = (u, t) \<Longrightarrow> control_call S caps require s t"
| "0 \<le> dcoef amount \<Longrightarrow>
   consume S io s meth ps approval require cur amount caps contract now now' = (u, t) \<Longrightarrow>
   control_call S caps require s t"
| "confirm_reservation S io s meth ps approval require contract now now' = (u, t) \<Longrightarrow>
   control_call S caps require s t"
| "pause_state io s env acc = (rep, t) \<Longrightarrow> control_call S caps require s t"
| "check_new_risk io s env acc = (u, t) \<Longrightarrow> control_call S caps require s t"
| "usage io s env acc now = (totals, t) \<Longrightarrow> control_call S caps require s t"
| "control_call S caps require s (close_controls s)"
| "open_controls create io io' \<lparr>file_present = True, file_intact = True, file_versions = [1],
     file_columns = True, file_tables = tables s\<rparr> = Inr t \<Longrightarrow> control_call S caps require s t"

inductive control_step :: "sdk_session \<Rightarrow> (string \<times> pydec) list \<Rightarrow> bool \<Rightarrow> controls \<Rightarrow> controls \<Rightarrow> bool"
  for S caps require where
  call: "control_call S caps require s t \<Longrightarrow> control_step S caps require s t"
| pause: "set_paused io io' s env p operator why acc now = (rep, t) \<Longrightarrow> control_step S caps require s t"

definition control_start :: "controls \<Rightarrow> bool" where
  "control_start s \<longleftrightarrow> (\<exists>create io io' f. \<not> file_present f \<and> open_controls create io io' f = Inr s)"

subsection \<open>The invariant of the tables\<close>

definition amounts_ok :: "control_tables \<Rightarrow> bool" where
  "amounts_ok d \<longleftrightarrow> (\<forall>c \<in> set (charges d). dec_ok (charge_amount c) \<and> 0 \<le> dec_val (charge_amount c))"

definition day_total :: "string \<Rightarrow> string \<Rightarrow> string \<Rightarrow> string \<Rightarrow> control_tables \<Rightarrow> rat" where
  "day_total day env acc cur d = sum_list (map dec_val (charged_amounts day (Some env) acc cur d))"

definition budget_ok :: "(string \<times> pydec) list \<Rightarrow> control_tables \<Rightarrow> bool" where
  "budget_ok caps d \<longleftrightarrow> caps = [] \<or> (\<forall>day env acc cur. day_total day env acc cur d = 0
     \<or> (\<exists>cap. map_of caps cur = Some cap \<and> day_total day env acc cur d \<le> dec_val cap))"

definition charge_id :: "charge_row \<Rightarrow> string \<times> string \<times> string" where
  "charge_id c = (charge_env c, charge_account c, charge_operation c)"

definition authorized_by :: "charge_row \<Rightarrow> prepared_row \<Rightarrow> bool" where
  "authorized_by c r \<longleftrightarrow> charge_approval c = Some (request_id r) \<and> status r = CONSUMED
     \<and> canonical r = charge_canonical c \<and> operator_id r \<noteq> None"

definition approvals_ok :: "control_tables \<Rightarrow> bool" where
  "approvals_ok d \<longleftrightarrow> distinct (map charge_approval (charges d))
     \<and> (\<forall>c \<in> set (charges d). \<exists>r \<in> set (prepared d). authorized_by c r)"

definition prepared_ok :: "control_tables \<Rightarrow> bool" where
  "prepared_ok d \<longleftrightarrow> distinct (map request_id (prepared d))
     \<and> (\<forall>r \<in> set (prepared d). status r \<noteq> PENDING \<longrightarrow> operator_id r \<noteq> None)"

definition tables_ok :: "(string \<times> pydec) list \<Rightarrow> bool \<Rightarrow> control_tables \<Rightarrow> bool" where
  "tables_ok caps require d \<longleftrightarrow> amounts_ok d \<and> budget_ok caps d \<and> distinct (map charge_id (charges d))
     \<and> prepared_ok d \<and> (require \<longrightarrow> approvals_ok d)"

text \<open>What a call does to the prepared rows: the request is never rewritten, a decision is made once, and an
  approval is consumed at most once.\<close>

definition row_advances :: "prepared_row \<Rightarrow> prepared_row \<Rightarrow> bool" where
  "row_advances r r' \<longleftrightarrow> request_id r' = request_id r \<and> canonical r' = canonical r
     \<and> (status r = PENDING \<or> operator_id r' = operator_id r \<and> reason r' = reason r \<and> decided_at r' = decided_at r
          \<and> (status r' = status r \<or> status r = APPROVED \<and> status r' = CONSUMED))"

definition advances :: "control_tables \<Rightarrow> control_tables \<Rightarrow> bool" where
  "advances d d' \<longleftrightarrow> (\<forall>rid r. find_prepared rid d = Some r \<longrightarrow>
     (\<exists>r'. find_prepared rid d' = Some r' \<and> row_advances r r'))"

lemma advances_refl [simp, intro]: "advances d d"
  by (auto simp: advances_def row_advances_def)

lemma advances_update:
  assumes "\<And>r. request_id (f r) = request_id r"
    and "prepared d' = update_rows p f (prepared d)"
    and "\<And>r. r \<in> set (prepared d) \<Longrightarrow> p r \<Longrightarrow> row_advances r (f r)"
  shows "advances d d'"
proof -
  have "row_advances r (if p r then f r else r)" if "find_prepared rid d = Some r" for rid r
    using that assms(3) by (auto simp: find_prepared_def row_advances_def dest: find_row_SomeD)
  then show ?thesis
    using find_row_update_rows [of request_id f] assms(1,2) by (auto simp: advances_def find_prepared_def)
qed

lemma tables_ok_empty [simp]: "tables_ok caps require empty_tables"
  by (simp add: tables_ok_def amounts_ok_def budget_ok_def approvals_ok_def prepared_ok_def empty_tables_def
      day_total_def charged_amounts_def)

subsection \<open>Preservation\<close>

lemma in_body_Commit_iff [simp]: "in_body r f = Commit x d \<longleftrightarrow> (\<exists>y. r = Inr y \<and> f y = Commit x d)"
  by (cases r) auto

lemma tables_ok_prepare:
  assumes "tables_ok caps require d" "insert_prepared r d = Some d'" "status r = PENDING"
  shows "tables_ok caps require d' \<and> advances d d'"
proof -
  from assms(2) have d': "d' = d\<lparr>prepared := prepared d @ [r]\<rparr>" and new: "request_id r \<notin> request_id ` set (prepared d)"
    by (auto simp: insert_prepared_def split: if_splits)
  have "advances d d'" by (auto simp: advances_def find_prepared_def d' row_advances_def)
  moreover have "tables_ok caps require d'"
    using assms(1,3) new
    by (auto simp: tables_ok_def d' amounts_ok_def budget_ok_def day_total_def charged_amounts_def prepared_ok_def approvals_ok_def)
  ultimately show ?thesis by simp
qed

lemma map_request_update: "(\<And>r. request_id (f r) = request_id r) \<Longrightarrow>
   map request_id (update_rows p f rows) = map request_id rows"
  by (rule map_key_update_rows)

lemma tables_ok_decide:
  assumes "tables_ok caps require d" "decide_body sha256 rid dec operator why now now' d = Commit v d'"
    "dec \<in> {APPROVED, REJECTED}"
  shows "tables_ok caps require d' \<and> advances d d'"
proof -
  let ?f = "decided_row dec operator why now'" and ?p = "\<lambda>q. request_id q = rid"
  obtain r where r: "find_prepared rid d = Some r" "status r = PENDING"
    and d': "d' = d\<lparr>prepared := update_rows ?p ?f (prepared d)\<rparr>"
    using assms(2) by (auto simp: decide_body_def split: option.splits if_splits sum.splits)
  have f: "request_id (?f q) = request_id q" for q by (simp add: decided_row_def)
  have dist: "distinct (map request_id (prepared d))" using assms(1) by (simp add: tables_ok_def prepared_ok_def)
  have pend: "status q = PENDING" if "q \<in> set (prepared d)" "request_id q = rid" for q
    using find_row_distinct [OF dist that(1)] r that(2) by (simp add: find_prepared_def)
  have "advances d d'"
    by (rule advances_update [where f = ?f and p = ?p]) (simp_all add: d' row_advances_def pend decided_row_def)
  moreover have "approvals_ok d'" if ap: "approvals_ok d"
  proof -
    have "\<exists>q \<in> set (prepared d'). authorized_by c q" if c: "c \<in> set (charges d)" for c
    proof -
      obtain q where q: "q \<in> set (prepared d)" "authorized_by c q" using ap c by (auto simp: approvals_ok_def)
      then have "request_id q \<noteq> rid" using pend [OF q(1)] by (auto simp: authorized_by_def)
      with q show ?thesis by (force simp: d' set_update_rows)
    qed
    with ap show ?thesis by (auto simp: approvals_ok_def d')
  qed
  moreover have "prepared_ok d'"
    using assms(1) unfolding tables_ok_def prepared_ok_def d'
    by (auto simp: map_request_update f set_update_rows decided_row_def)
  ultimately show ?thesis
    using assms(1) by (auto simp: tables_ok_def d' amounts_ok_def budget_ok_def day_total_def charged_amounts_def)
qed

text \<open>What a successful reservation has established.\<close>

lemma consume_bodyE:
  assumes "consume_body canon k approval require cur amount caps contract now now' d = Commit u d'"
  obtains day env oid where
    "utc_day now = Inr day" "sql_text (key_env k) = Some env" "sql_text (key_operation k) = Some oid"
    "(env, key_account k, oid) \<notin> charge_id ` set (charges d)"
    "require \<Longrightarrow> \<exists>r. approved d approval canon (Some contract) now' = Inr r"
    "check_budget caps amount cur day k d = ok"
    "d' = mark_consumed require approval now (d\<lparr>charges := charges d @
        [\<lparr>charge_env = env, charge_account = key_account k, charge_operation = oid, charge_canonical = canon,
          charge_day = day, charge_currency = cur, charge_amount = amount, charge_approval = approval,
          charge_created = now\<rparr>]\<rparr>)"
proof -
  have none: "find_charge k d = None"
    using assms unfolding consume_body_def by (cases "find_charge k d") (auto split: if_split_asm)
  obtain day where day: "utc_day now = Inr day"
    and rest: "(if require then bindR (approved d approval canon (Some contract) now') (\<lambda>_. ok) else ok) = ok"
      "check_budget caps amount cur day k d = ok"
    and ins: "(case (sql_text (key_env k), sql_text (key_operation k)) of
       (Some env, Some oid) \<Rightarrow>
         (case insert_charge \<lparr>charge_env = env, charge_account = key_account k, charge_operation = oid,
                 charge_canonical = canon, charge_day = day, charge_currency = cur, charge_amount = amount,
                 charge_approval = approval, charge_created = now\<rparr> d of
            None \<Rightarrow> StorageError
          | Some d' \<Rightarrow> Commit () (mark_consumed require approval now d'))
     | _ \<Rightarrow> StorageError) = Commit u d'"
    using assms unfolding consume_body_def none by (auto split: if_split_asm)
  obtain env oid where keys: "sql_text (key_env k) = Some env" "sql_text (key_operation k) = Some oid"
    using ins by (auto split: option.splits)
  have new: "(env, key_account k, oid) \<notin> charge_id ` set (charges d)"
    using none keys by (auto simp: find_charge_def find_None_iff charge_id_def)
  have app: "\<exists>r. approved d approval canon (Some contract) now' = Inr r" if require
    using rest(1) that by (auto simp: res_simps)
  show thesis
    using that [OF day keys new app rest(2)] ins by (simp add: keys insert_charge_def split: option.splits if_split_asm)
qed

lemma approvedD:
  assumes "approved d approval canon contract now = Inr r"
  shows "approval = Some (request_id r)" "find_prepared (request_id r) d = Some r" "r \<in> set (prepared d)"
    "canonical r = canon" "status r = APPROVED" "\<not> approval_expired (expires_at r) now"
  using assms
  by (auto simp: approved_def res_simps find_prepared_def split: option.splits if_splits dest: find_row_SomeD)

text \<open>The budget check compares the exact total of the day, with the new amount, to the cap.\<close>

lemma charged_total_nonneg:
  assumes "amounts_ok d"
  shows "0 \<le> day_total day env acc cur d"
  unfolding day_total_def using assms by (intro sum_list_nonneg) (auto simp: amounts_ok_def charged_amounts_def)

lemma check_budget_ok:
  assumes d: "amounts_ok d" and amount: "dec_ok amount" "0 < dec_val amount" and "caps \<noteq> []"
    and ok: "check_budget caps amount cur day k d = ok" and env: "sql_text (key_env k) = Some env"
  shows "\<exists>c cap. cur = Some c \<and> map_of caps c = Some cap
    \<and> day_total day env (key_account k) c d + dec_val amount \<le> dec_val cap"
proof -
  obtain c cap where c: "cur = Some c" "map_of caps c = Some cap"
    using ok amount(2) assms(4) by (auto simp: check_budget_def split: option.splits)
  let ?vs = "charged_amounts day (sql_text (key_env k)) (key_account k) c d"
  have vs: "dec_ok v" if "v \<in> set ?vs" for v using d that by (auto simp: amounts_ok_def charged_amounts_def)
  have "dec_val (sum_exact [sum_exact ?vs, amount]) = dec_val (sum_exact ?vs) + dec_val amount"
    using sum_exact_props(1) [OF vs] amount(1) by (subst sum_exact_props(2)) auto
  moreover have "dec_val (sum_exact ?vs) = day_total day env (key_account k) c d"
    using sum_exact_props(2) [OF vs] by (simp add: day_total_def env)
  moreover have "dec_val (sum_exact [sum_exact ?vs, amount]) \<le> dec_val cap"
    using ok amount(2) assms(4) by (simp add: check_budget_def c guardR_Inr_iff Let_def)
  ultimately show ?thesis using c by auto
qed

lemma day_total_charge:
  "day_total day env acc cur (d\<lparr>charges := charges d @ [c]\<rparr>) = day_total day env acc cur d
    + (if charge_day c = day \<and> charge_env c = env \<and> charge_account c = acc \<and> charge_currency c = Some cur
       then dec_val (charge_amount c) else 0)"
  by (simp add: day_total_def charged_amounts_def)

lemma mark_consumed_charges [simp]:
  "charges (mark_consumed require approval now d) = charges d"
  "day_total day env acc cur (mark_consumed require approval now d) = day_total day env acc cur d"
  by (simp_all add: mark_consumed_def day_total_def charged_amounts_def)

lemma budget_ok_charge:
  assumes "amounts_ok d" "budget_ok caps d" "dec_ok (charge_amount c)" "0 \<le> dec_val (charge_amount c)"
    and ok: "check_budget caps (charge_amount c) (charge_currency c) (charge_day c) k d = ok"
    and key: "sql_text (key_env k) = Some (charge_env c)" "key_account k = charge_account c"
  shows "budget_ok caps (d\<lparr>charges := charges d @ [c]\<rparr>)"
proof (cases "caps = [] \<or> dec_val (charge_amount c) = 0")
  case True
  then have "caps = [] \<or> (\<forall>day env acc cur. day_total day env acc cur (d\<lparr>charges := charges d @ [c]\<rparr>) =
      day_total day env acc cur d)"
    by (simp add: day_total_charge)
  then show ?thesis using assms(2) unfolding budget_ok_def by metis
next
  case False
  then obtain cur cap where cur: "charge_currency c = Some cur" "map_of caps cur = Some cap"
      "day_total (charge_day c) (charge_env c) (charge_account c) cur d + dec_val (charge_amount c) \<le> dec_val cap"
    using check_budget_ok [OF assms(1,3) _ _ ok key(1)] assms(4) key(2) by auto
  show ?thesis
    unfolding budget_ok_def
  proof (rule disjI2, intro allI)
    fix day env acc cur'
    show "day_total day env acc cur' (d\<lparr>charges := charges d @ [c]\<rparr>) = 0 \<or>
      (\<exists>cap. map_of caps cur' = Some cap \<and> day_total day env acc cur' (d\<lparr>charges := charges d @ [c]\<rparr>) \<le> dec_val cap)"
    proof (cases "charge_day c = day \<and> charge_env c = env \<and> charge_account c = acc \<and> cur = cur'")
      case True
      then show ?thesis using cur by (auto simp: day_total_charge)
    next
      case no: False
      then have "day_total day env acc cur' (d\<lparr>charges := charges d @ [c]\<rparr>) = day_total day env acc cur' d"
        using cur(1) by (auto simp: day_total_charge)
      then show ?thesis using assms(2) False by (auto simp: budget_ok_def)
    qed
  qed
qed

lemma tables_ok_consume:
  assumes ok: "tables_ok caps require d" and amount: "dec_ok amount" "0 \<le> dec_val amount"
    and body: "consume_body canon k approval require cur amount caps contract now now' d = Commit u d'"
  shows "tables_ok caps require d' \<and> advances d d'"
  using body
proof (cases rule: consume_bodyE)
  case (1 day env oid)
  let ?p = "\<lambda>r. Some (request_id r) = approval"
  define c where "c = \<lparr>charge_env = env, charge_account = key_account k, charge_operation = oid,
      charge_canonical = canon, charge_day = day, charge_currency = cur, charge_amount = amount,
      charge_approval = approval, charge_created = now\<rparr>"
  have d': "d' = mark_consumed require approval now (d\<lparr>charges := charges d @ [c]\<rparr>)" using 1(7) by (simp add: c_def)
  have keys: "distinct (map request_id (prepared d))" using ok by (simp add: tables_ok_def prepared_ok_def)
  have app: "\<exists>r. approved d approval canon (Some contract) now' = Inr r" if require by (rule 1(5)) (rule that)
  have hit: "status r = APPROVED \<and> canonical r = canon" if "require" "r \<in> set (prepared d)" "?p r" for r
    using app [OF that(1)] approvedD find_row_distinct [OF keys that(2)] that(3)
    unfolding find_prepared_def by (metis option.inject)
  have adv: "advances d d'"
  proof (cases require)
    case True
    then show ?thesis
      by (intro advances_update [where f = "consumed_row now" and p = ?p])
        (simp_all add: d' mark_consumed_def consumed_row_def row_advances_def hit)
  next
    case False
    then have "prepared d' = prepared d" by (simp add: d' mark_consumed_def)
    then show ?thesis by (simp add: advances_def find_prepared_def row_advances_def)
  qed
  have "amounts_ok d'" using ok amount by (auto simp: tables_ok_def amounts_ok_def d' c_def)
  moreover have "budget_ok caps d'"
  proof -
    have "budget_ok caps (d\<lparr>charges := charges d @ [c]\<rparr>)"
      using ok amount 1 by (intro budget_ok_charge [where k = k]) (simp_all add: tables_ok_def c_def)
    then show ?thesis by (simp add: budget_ok_def d')
  qed
  moreover have "distinct (map charge_id (charges d'))"
    using ok 1(4) by (simp add: tables_ok_def d' c_def charge_id_def)
  moreover have "prepared_ok d'"
    using ok unfolding tables_ok_def prepared_ok_def d' mark_consumed_def
    by (auto simp: map_request_update consumed_row_def set_update_rows hit split: if_splits)
  moreover have "approvals_ok d'" if req: require
  proof -
    have ap: "approvals_ok d" using ok req by (simp add: tables_ok_def)
    obtain a where a: "approved d approval canon (Some contract) now' = Inr a" using app [OF req] by blast
    have other: "request_id r \<noteq> request_id a" if "authorized_by x r" "r \<in> set (prepared d)" for x r
      using hit [OF \<open>require\<close> that(2)] that(1) approvedD(1) [OF a] by (auto simp: authorized_by_def)
    have fresh: "approval \<notin> charge_approval ` set (charges d)"
      using ap other approvedD(1) [OF a] by (fastforce simp: approvals_ok_def authorized_by_def)
    have "\<exists>r \<in> set (prepared d'). authorized_by x r" if "x \<in> set (charges d')" for x
    proof (cases "x = c")
      case True
      have "operator_id a \<noteq> None" using ok approvedD(3,5) [OF a] by (auto simp: tables_ok_def prepared_ok_def)
      then have "authorized_by c (consumed_row now a)"
        using approvedD [OF a] by (simp add: authorized_by_def consumed_row_def c_def)
      moreover have "consumed_row now a \<in> set (prepared d')"
        using approvedD [OF a] \<open>require\<close> by (force simp: d' mark_consumed_def set_update_rows)
      ultimately show ?thesis using True by blast
    next
      case False
      with that obtain r where r: "r \<in> set (prepared d)" "authorized_by x r" using ap by (auto simp: d' approvals_ok_def)
      have "r \<in> set (prepared d')"
        using r other [OF r(2,1)] approvedD(1) [OF a] \<open>require\<close> by (force simp: d' mark_consumed_def set_update_rows)
      with r show ?thesis by blast
    qed
    then show ?thesis using ap fresh by (simp add: approvals_ok_def d' c_def)
  qed
  ultimately show ?thesis using adv by (simp add: tables_ok_def)
qed

subsection \<open>Every run keeps the invariant\<close>

lemma control_transaction_tables:
  assumes "control_transaction io s f = (r, t)"
  obtains (same) "tables t = tables s" | (commit) x where "f (tables s) = Commit x (tables t)"
  using assms by (auto simp: control_transaction_def split: if_split_asm control_body.splits)

lemma control_transaction_keeps:
  assumes "control_transaction io s f = (r, t)" "P (tables s)"
    and "\<And>x d. f (tables s) = Commit x d \<Longrightarrow> P d"
  shows "P (tables t)"
  using assms(1) by (cases rule: control_transaction_tables) (use assms(2,3) in auto)

definition call_keeps :: "(string \<times> pydec) list \<Rightarrow> bool \<Rightarrow> control_tables \<Rightarrow> control_tables \<Rightarrow> bool" where
  "call_keeps caps require d d' \<longleftrightarrow> tables_ok caps require d' \<and> advances d d' \<and> pauses d' = pauses d"

lemma call_keeps_refl: "tables_ok caps require d \<Longrightarrow> call_keeps caps require d d"
  by (simp add: call_keeps_def)

lemma read_only_transaction:
  assumes "control_transaction io s f = (r, t)" "\<And>d x d'. f d = Commit x d' \<Longrightarrow> d' = d"
  shows "tables t = tables s"
  using assms(1) by (cases rule: control_transaction_tables) (use assms(2) in auto)

lemma get_prepared_tables: "get_prepared sha256 io s rid now = (v, t) \<Longrightarrow> tables t = tables s"
  by (auto simp: get_prepared_def split: prod.splits sum.splits option.splits dest!: read_only_transaction)

lemma check_approval_tables: "check_approval S io s meth ps approval now = (u, t) \<Longrightarrow> tables t = tables s"
  by (auto simp: check_approval_def intro: read_only_transaction)

lemma confirm_body_Commit: "confirm_body S meth ps approval require contract now now' canon d = Commit u d' \<Longrightarrow> d' = d"
  unfolding confirm_body_def by (auto split: option.splits if_split_asm)

lemma confirm_tables:
  assumes "confirm_reservation S io s meth ps approval require contract now now' = (u, t)"
  shows "tables t = tables s"
proof (cases "canonical_intent S meth ps")
  case (Inr canon)
  then have "control_transaction io s (confirm_body S meth ps approval require contract now now' canon) = (u, t)"
    using assms by (simp add: confirm_reservation_def)
  then show ?thesis by (rule read_only_transaction) (rule confirm_body_Commit)
qed (use assms in \<open>simp add: confirm_reservation_def\<close>)

lemma pause_state_tables: "pause_state io s env acc = (rep, t) \<Longrightarrow> tables t = tables s"
  by (auto simp: pause_state_def Let_def split: sum.splits prod.splits intro: read_only_transaction)

lemma check_new_risk_tables: "check_new_risk io s env acc = (u, t) \<Longrightarrow> tables t = tables s"
  by (auto simp: check_new_risk_def split: sum.splits prod.splits dest: pause_state_tables)

lemma usage_tables: "usage io s env acc now = (totals, t) \<Longrightarrow> tables t = tables s"
  by (auto simp: usage_def split: sum.splits intro: read_only_transaction)

lemma prepare_keeps:
  assumes "prepare sha256 S io s meth ps rv ttl identifier now = (v, t)" "tables_ok caps require (tables s)"
  shows "call_keeps caps require (tables s) (tables t)"
proof (cases "prepare_arguments S meth ps rv ttl")
  case (Inr args)
  let ?r = "new_prepared identifier args ttl now"
  have "control_transaction io s (prepare_body sha256 ?r) = (v, t)" using assms(1) Inr by (simp add: prepare_def)
  then show ?thesis
  proof (rule control_transaction_keeps)
    show "call_keeps caps require (tables s) (tables s)" using assms(2) by (rule call_keeps_refl)
  next
    fix x d'
    assume "prepare_body sha256 ?r (tables s) = Commit x d'"
    then have d': "insert_prepared ?r (tables s) = Some d'" by (auto simp: prepare_body_def split: option.splits)
    moreover have "pauses d' = pauses (tables s)" using d' by (auto simp: insert_prepared_def split: if_splits)
    moreover have "status ?r = PENDING" by (cases args) (simp add: new_prepared_def)
    ultimately show "call_keeps caps require (tables s) d'"
      using tables_ok_prepare [OF assms(2)] by (simp add: call_keeps_def)
  qed
qed (use assms in \<open>simp add: prepare_def call_keeps_refl\<close>)

lemma decide_body_keeps:
  assumes "decide_body sha256 rid dec operator why now now' d = Commit x d'" "dec \<in> {APPROVED, REJECTED}" "tables_ok caps require d"
  shows "call_keeps caps require d d'"
proof -
  have "pauses d' = pauses d" using assms(1) unfolding decide_body_def by (auto split: option.splits if_split_asm)
  then show ?thesis using tables_ok_decide [OF assms(3,1,2)] by (simp add: call_keeps_def)
qed

lemma decide_keeps:
  assumes "decide sha256 io s rid word operator why now now' = (v, t)" "tables_ok caps require (tables s)"
  shows "call_keeps caps require (tables s) (tables t)"
proof -
  let ?dec = "if word = ''APPROVED'' then APPROVED else REJECTED"
  consider "t = s" | "control_transaction io s (decide_body sha256 rid ?dec operator why now now') = (v, t)"
    using assms(1) unfolding decide_def by (auto split: if_split_asm)
  then show ?thesis
  proof cases
    case 2
    then show ?thesis
      by (rule control_transaction_keeps)
        (rule call_keeps_refl [OF assms(2)], rule decide_body_keeps [OF _ _ assms(2)], assumption, simp)
  qed (use assms(2) in \<open>simp add: call_keeps_refl\<close>)
qed

lemma consume_keeps:
  assumes "consume S io s meth ps approval require cur amount caps contract now now' = (u, t)"
    and "0 \<le> dcoef amount" "tables_ok caps require (tables s)"
  shows "call_keeps caps require (tables s) (tables t)"
proof (cases "consume_arguments S meth ps amount")
  case (Inr args)
  obtain canon k where args: "args = (canon, k)" by fastforce
  have amount: "dec_ok amount" "0 \<le> dec_val amount"
    using Inr assms(2) by (auto simp: consume_arguments_def dec_ok_def res_simps)
  have "control_transaction io s (consume_body canon k approval require cur amount caps contract now now') = (u, t)"
    using assms(1) Inr by (simp add: consume_def args)
  then show ?thesis
  proof (rule control_transaction_keeps)
    show "call_keeps caps require (tables s) (tables s)" using assms(3) by (rule call_keeps_refl)
  next
    fix x d'
    assume body: "consume_body canon k approval require cur amount caps contract now now' (tables s) = Commit x d'"
    then have "pauses d' = pauses (tables s)" by (cases rule: consume_bodyE) (simp add: mark_consumed_def)
    then show "call_keeps caps require (tables s) d'"
      using tables_ok_consume [OF assms(3) amount body] by (simp add: call_keeps_def)
  qed
qed (use assms in \<open>simp add: consume_def call_keeps_refl\<close>)

lemma open_controls_tables:
  "open_controls create io io' f = Inr s \<Longrightarrow> tables s = (if file_present f then file_tables f else empty_tables)"
  by (auto simp: open_controls_def create_file_def res_simps split: if_split_asm)

lemma control_call_keeps:
  "control_call S caps require s t \<Longrightarrow> tables_ok caps require (tables s) \<Longrightarrow> call_keeps caps require (tables s) (tables t)"
proof (induction rule: control_call.induct)
  case (11 create io io' s t)
  then show ?case by (auto simp: call_keeps_refl dest!: open_controls_tables)
qed (auto simp: close_controls_def call_keeps_refl prepare_keeps decide_keeps consume_keeps
    dest!: get_prepared_tables check_approval_tables confirm_tables pause_state_tables check_new_risk_tables usage_tables)

lemma set_paused_keeps:
  assumes "set_paused io io' s env p operator why acc now = (rep, t)"
  shows "prepared (tables t) = prepared (tables s) \<and> charges (tables t) = charges (tables s)"
proof -
  have tr: "prepared (tables u) = prepared (tables s) \<and> charges (tables u) = charges (tables s)"
    if "control_transaction io s (\<lambda>d. Commit () (upsert_pause q d)) = (r, u)" for q r u
    using that by (rule control_transaction_keeps) (auto simp: upsert_pause_def Let_def)
  show ?thesis
    using assms by (auto simp: set_paused_def split: sum.splits prod.splits dest!: tr pause_state_tables)
qed

lemma tables_ok_cong:
  "prepared d' = prepared d \<Longrightarrow> charges d' = charges d \<Longrightarrow> tables_ok caps require d' = tables_ok caps require d"
  by (simp add: tables_ok_def amounts_ok_def budget_ok_def day_total_def charged_amounts_def prepared_ok_def approvals_ok_def)

lemma control_step_keeps:
  "control_step S caps require s t \<Longrightarrow> tables_ok caps require (tables s) \<Longrightarrow>
   tables_ok caps require (tables t) \<and> advances (tables s) (tables t)"
proof (induction rule: control_step.induct)
  case (call s t)
  then show ?case using control_call_keeps by (auto simp: call_keeps_def)
next
  case (pause io io' s env p operator why acc now rep t)
  then show ?case
    using set_paused_keeps [OF pause(1)] tables_ok_cong [of "tables t" "tables s"]
    by (auto simp: advances_def find_prepared_def row_advances_def)
qed

text \<open>The controls are a guarded system.\<close>

interpretation controls: guarded_system control_start "control_step S caps require" "\<lambda>s. tables_ok caps require (tables s)"
  for S caps require
proof unfold_locales
  show "tables_ok caps require (tables s)" if "control_start s" for s
    using that by (auto simp: control_start_def dest: open_controls_tables)
  show "tables_ok caps require (tables t)" if "tables_ok caps require (tables s)" "control_step S caps require s t" for s t
    using control_step_keeps [OF that(2,1)] by simp
qed

subsection \<open>Properties of every run\<close>

lemma reachable_tables_ok:
  "control_start s \<Longrightarrow> (control_step S caps require)\<^sup>*\<^sup>* s t \<Longrightarrow> tables_ok caps require (tables t)"
  by (rule controls.reachable_invar)

subsection \<open>A sample run\<close>

text \<open>New controls, a prepared paper order, its approval and its charge: the states of the witnesses.\<close>

definition sample_session :: sdk_session where
  "sample_session = \<lparr>session_none = ''N/A'', session_rth = ''RTH'', session_eth = ''ETH'',
     session_overnight = ''OVERNIGHT'', session_all = ''ALL''\<rparr>"

definition sample_parameters :: pydict where
  "sample_parameters = [(''trd_env'', PStr ''SIMULATE''), (''acc_id'', PStr ''7''), (''operation_id'', PStr ''op1''),
     (''admission_epoch'', PStr ''e1'')]"

definition sample_review :: pyval where
  "sample_review = as_dict [(''contract'', PNone)]"

definition sample_caps :: "(string \<times> pydec) list" where
  "sample_caps = [(''USD'', Dec False 500 0)]"

definition sample_texts :: "string \<times> string \<times> string" where
  "sample_texts =
    (''{\"method\":\"place_order\",\"parameters\":{\"acc_id\":\"7\",\"admission_epoch\":\"e1\",\"operation_id\":\"op1\",\"trd_env\":\"SIMULATE\"}}'',
     ''{\"method\": \"place_order\", \"trd_env\": \"SIMULATE\", \"acc_id\": \"7\", \"operation_id\": \"op1\", \"admission_epoch\": \"e1\"}'',
     ''{\"contract\": null}'')"

definition sample_prepared :: prepared_row where
  "sample_prepared = new_prepared ''r1'' sample_texts 300 1000"

definition sample_decided :: prepared_row where
  "sample_decided = decided_row APPROVED ''alice'' ''reviewed'' 1010 sample_prepared"

definition sample_charge :: charge_row where
  "sample_charge = \<lparr>charge_env = ''SIMULATE'', charge_account = ''7'', charge_operation = ''op1'',
     charge_canonical = fst sample_texts, charge_day = ''1970-01-01'', charge_currency = Some ''USD'',
     charge_amount = Dec False 100 0, charge_approval = Some ''r1'', charge_created = 1020\<rparr>"

definition sample_state :: "prepared_row list \<Rightarrow> charge_row list \<Rightarrow> controls" where
  "sample_state ps cs = \<lparr>tables = \<lparr>prepared = ps, charges = cs, pauses = []\<rparr>, blocked = False, shut = False\<rparr>"

definition sample_new :: controls where "sample_new = sample_state [] []"
definition sample_pending :: controls where "sample_pending = sample_state [sample_prepared] []"
definition sample_approved :: controls where "sample_approved = sample_state [sample_decided] []"
definition sample_charged :: controls where
  "sample_charged = sample_state [consumed_row 1020 sample_decided] [sample_charge]"

lemmas sample_states = sample_new_def sample_pending_def sample_approved_def sample_charged_def sample_state_def

lemma sample_prepare_arguments:
  "prepare_arguments sample_session ''place_order'' sample_parameters sample_review 300 = Inr sample_texts"
  by code_simp

lemma sample_json:
  "json_loads (fst (snd sample_texts)) = Inr (PDict ((''method'', PStr ''place_order'') # sample_parameters) [])"
  "json_loads (snd (snd sample_texts)) = Inr (PDict [(''contract'', PNone)] [])"
  by code_simp+

lemma sample_prepared_fields:
  "request_id sample_prepared = ''r1''" "status sample_prepared = PENDING" "canonical sample_prepared = fst sample_texts"
  "parameters sample_prepared = fst (snd sample_texts)" "review sample_prepared = snd (snd sample_texts)"
  by (simp_all add: sample_prepared_def new_prepared_def split_beta)

lemma sample_expiry: "expires_at sample_prepared = Fin 1300"
proof -
  have "fadd (Fin 1000) (Fin 300) = Fin 1300" by code_simp
  then show ?thesis by (simp add: sample_prepared_def new_prepared_def split: prod.split)
qed

lemma sample_views:
  "\<exists>v. view_row (\<lambda>t. t) sample_prepared = Inr v" "\<exists>v. view_row (\<lambda>t. t) sample_decided = Inr v"
  by (simp_all add: view_row_def sample_decided_def decided_row_def sample_prepared_fields sample_json member_def)

lemma sample_decided_fields:
  "request_id sample_decided = ''r1''" "status sample_decided = APPROVED" "expires_at sample_decided = Fin 1300"
  "canonical sample_decided = fst sample_texts" "review sample_decided = snd (snd sample_texts)"
  by (simp_all add: sample_decided_def decided_row_def sample_prepared_fields sample_expiry)

lemma sample_contract: "reviewed_contract sample_decided = Inr PNone"
  by (simp add: reviewed_contract_def sample_decided_fields sample_json dict_get_def)

lemma sample_consume_arguments:
  "consume_arguments sample_session ''place_order'' sample_parameters (Dec False 100 0) =
   Inr (fst sample_texts, \<lparr>key_env = PStr ''SIMULATE'', key_account = ''7'', key_operation = PStr ''op1''\<rparr>)"
  by code_simp

lemma sample_budget:
  "check_budget sample_caps (Dec False 100 0) (Some ''USD'') ''1970-01-01''
     \<lparr>key_env = PStr ''SIMULATE'', key_account = ''7'', key_operation = PStr ''op1''\<rparr>
     \<lparr>prepared = [sample_decided], charges = [], pauses = []\<rparr> = ok"
proof -
  have "\<not> dec_val (Dec False 500 0) < dec_val (sum_exact [sum_exact [], Dec False 100 0])" by code_simp
  then show ?thesis by (simp add: check_budget_def charged_amounts_def sample_caps_def)
qed

lemma sample_day: "utc_day 1020 = Inr ''1970-01-01''"
  by code_simp

lemma sample_prepare:
  "snd (prepare (\<lambda>t. t) sample_session True sample_new ''place_order'' sample_parameters sample_review 300 ''r1'' 1000)
   = sample_pending"
  using sample_views
  by (auto simp: prepare_def sample_prepare_arguments control_transaction_def prepare_body_def insert_prepared_def
      sample_states sample_prepared_def [symmetric])

lemma sample_decide:
  "snd (decide (\<lambda>t. t) True sample_pending ''r1'' ''APPROVED'' ''alice'' ''reviewed'' 1005 1010) = sample_approved"
proof -
  have "strip ''reviewed'' = ''reviewed''" by code_simp
  then show ?thesis
    using sample_views
    by (auto simp: decide_def decide_body_def control_transaction_def find_prepared_def sample_states
        sample_prepared_fields sample_expiry approval_expired_def sample_decided_def)
qed

lemma sample_consume:
  "consume sample_session True sample_approved ''place_order'' sample_parameters (Some ''r1'') True (Some ''USD'')
     (Dec False 100 0) sample_caps PNone 1020 1021 = (ok, sample_charged)"
  by (simp add: consume_def sample_consume_arguments control_transaction_def consume_body_def sample_day
      find_charge_def approved_def find_prepared_def sample_states sample_decided_fields approval_expired_def
      sample_contract sample_budget insert_charge_def mark_consumed_def sample_charge_def)

lemma sample_controls_start: "control_start sample_new"
proof -
  have "open_controls True True True \<lparr>file_present = False, file_intact = True, file_versions = [], file_columns = True,
      file_tables = empty_tables\<rparr> = Inr sample_new" by code_simp
  then show ?thesis by (auto simp: control_start_def intro!: exI)
qed

lemma sample_run_approved: "(control_step sample_session sample_caps True)\<^sup>*\<^sup>* sample_new sample_approved"
proof -
  have "control_step sample_session sample_caps True sample_new sample_pending"
    using sample_prepare by (intro control_step.call control_call.intros(1)) (rule prod_eqI; simp)
  moreover have "control_step sample_session sample_caps True sample_pending sample_approved"
    using sample_decide by (intro control_step.call control_call.intros(3)) (rule prod_eqI; simp)
  ultimately show ?thesis by (blast intro: rtranclp.rtrancl_into_rtrancl rtranclp.rtrancl_refl)
qed

lemma sample_controls_run: "(control_step sample_session sample_caps True)\<^sup>*\<^sup>* sample_new sample_charged"
proof -
  have "control_step sample_session sample_caps True sample_approved sample_charged"
    using sample_consume by (intro control_step.call control_call.intros(5) [of "Dec False 100 0"]) auto
  with sample_run_approved show ?thesis by (rule rtranclp.rtrancl_into_rtrancl)
qed

lemma sample_tables_ok: "tables_ok sample_caps True (tables sample_charged)"
  by (rule reachable_tables_ok [OF sample_controls_start sample_controls_run])

text \<open>C13. With daily caps configured, the amounts charged on one UTC day to one environment, account and
  currency never add up to more than the cap of that currency, and a currency without a cap is never
  charged a positive amount: in every run of the controls from a new file, through any calls, refusals,
  storage failures and restarts.\<close>
theorem daily_budget_never_exceeded:
  assumes "control_start s" "(control_step S caps require)\<^sup>*\<^sup>* s t" "caps \<noteq> []"
  shows "day_total day env acc cur (tables t) = 0
    \<or> (\<exists>cap. map_of caps cur = Some cap \<and> day_total day env acc cur (tables t) \<le> dec_val cap)"
  using reachable_tables_ok [OF assms(1,2)] assms(3) by (auto simp: tables_ok_def budget_ok_def)

theorem daily_budget_never_exceeded_witness:
  "day_total ''1970-01-01'' ''SIMULATE'' ''7'' ''USD'' (tables sample_charged) = 0
   \<or> (\<exists>cap. map_of sample_caps ''USD'' = Some cap
      \<and> day_total ''1970-01-01'' ''SIMULATE'' ''7'' ''USD'' (tables sample_charged) \<le> dec_val cap)"
  by (rule daily_budget_never_exceeded [OF sample_controls_start sample_controls_run]) (simp add: sample_caps_def)

text \<open>C23. Where approvals are required, every charge of every run was authorized by its own operator
  approval: a decided request with the same canonical text, consumed by this charge and by no other.\<close>
theorem charge_has_its_own_approval:
  assumes "control_start s" "(control_step S caps True)\<^sup>*\<^sup>* s t" "c \<in> set (charges (tables t))"
  shows "\<exists>r \<in> set (prepared (tables t)). authorized_by c r
    \<and> filter (\<lambda>x. charge_approval x = Some (request_id r)) (charges (tables t)) = [c]"
proof -
  have ap: "approvals_ok (tables t)" using reachable_tables_ok [OF assms(1,2)] by (simp add: tables_ok_def)
  then obtain r where r: "r \<in> set (prepared (tables t))" "authorized_by c r" using assms(3) by (auto simp: approvals_ok_def)
  have "filter (\<lambda>x. charge_approval x = charge_approval c) cs = [c]"
    if "distinct (map charge_approval cs)" "c \<in> set cs" for cs
    using that by (induction cs) (auto simp: filter_empty_conv image_iff)
  with ap assms(3) r show ?thesis by (auto simp: approvals_ok_def authorized_by_def)
qed

theorem charge_has_its_own_approval_witness:
  "\<exists>r \<in> set (prepared (tables sample_charged)). authorized_by sample_charge r
    \<and> filter (\<lambda>x. charge_approval x = Some (request_id r)) (charges (tables sample_charged)) = [sample_charge]"
  by (rule charge_has_its_own_approval [OF sample_controls_start sample_controls_run]) (simp add: sample_states)

text \<open>C28. An operator decision is final. Once a prepared request is decided, its text, its decision, operator
  and reason stay what they are in every later state; the only change left is that an approval is consumed.\<close>
theorem decision_is_final:
  assumes "(control_step S caps require)\<^sup>*\<^sup>* s t" "tables_ok caps require (tables s)"
    and "find_prepared rid (tables s) = Some r" "status r \<noteq> PENDING"
  shows "\<exists>q. find_prepared rid (tables t) = Some q \<and> canonical q = canonical r \<and> operator_id q = operator_id r
    \<and> reason q = reason r \<and> decided_at q = decided_at r
    \<and> (status q = status r \<or> status r = APPROVED \<and> status q = CONSUMED)"
proof (rule controls.run_stable [OF _ assms(1,2), where Q = "\<lambda>u. \<exists>q. find_prepared rid (tables u) = Some q
    \<and> canonical q = canonical r \<and> operator_id q = operator_id r \<and> reason q = reason r \<and> decided_at q = decided_at r
    \<and> (status q = status r \<or> status r = APPROVED \<and> status q = CONSUMED)"])
  fix u v
  assume u: "tables_ok caps require (tables u)" "control_step S caps require u v"
    and q: "\<exists>q. find_prepared rid (tables u) = Some q
    \<and> canonical q = canonical r \<and> operator_id q = operator_id r \<and> reason q = reason r \<and> decided_at q = decided_at r
    \<and> (status q = status r \<or> status r = APPROVED \<and> status q = CONSUMED)"
  then obtain q where q: "find_prepared rid (tables u) = Some q" "canonical q = canonical r"
      "operator_id q = operator_id r" "reason q = reason r" "decided_at q = decided_at r"
      "status q = status r \<or> status r = APPROVED \<and> status q = CONSUMED" by blast
  obtain q' where "find_prepared rid (tables v) = Some q'" "row_advances q q'"
    using control_step_keeps [OF u(2,1)] q(1) unfolding advances_def by blast
  then show "\<exists>q. find_prepared rid (tables v) = Some q
    \<and> canonical q = canonical r \<and> operator_id q = operator_id r \<and> reason q = reason r \<and> decided_at q = decided_at r
    \<and> (status q = status r \<or> status r = APPROVED \<and> status q = CONSUMED)"
    using q assms(4) unfolding row_advances_def by auto
qed (use assms(3) in auto)

theorem decision_is_final_witness:
  "\<exists>q. find_prepared ''r1'' (tables sample_charged) = Some q \<and> canonical q = canonical sample_decided
    \<and> operator_id q = operator_id sample_decided \<and> reason q = reason sample_decided
    \<and> decided_at q = decided_at sample_decided
    \<and> (status q = status sample_decided \<or> status sample_decided = APPROVED \<and> status q = CONSUMED)"
proof (rule decision_is_final)
  show "(control_step sample_session sample_caps True)\<^sup>*\<^sup>* sample_approved sample_charged"
    using sample_consume
    by (intro r_into_rtranclp control_step.call control_call.intros(5) [of "Dec False 100 0"]) auto
  show "tables_ok sample_caps True (tables sample_approved)"
    using reachable_tables_ok [OF sample_controls_start sample_run_approved] .
qed (simp_all add: sample_states find_prepared_def sample_decided_fields)

text \<open>A paused environment or account.\<close>

definition pause_active :: "string \<Rightarrow> string \<Rightarrow> control_tables \<Rightarrow> bool" where
  "pause_active env acc d \<longleftrightarrow> (\<exists>r \<in> set (pauses d). pause_env r = env \<and> pause_account r \<in> {''0'', acc} \<and> paused r)"

lemma paused_iff: "list_ex paused (pause_rows env acc d) \<longleftrightarrow> pause_active env acc d"
  by (auto simp: pause_rows_def pause_active_def list_ex_iff)

lemma check_new_risk_paused:
  assumes "pause_scope env (PStr (py_str acc)) = Inr (env', a)" "pause_active env' a (tables s)"
  shows "fst (check_new_risk io s env acc) \<noteq> ok"
  using assms by (auto simp: check_new_risk_def pause_state_def control_transaction_def Let_def paused_iff)

lemma control_call_run_pauses:
  assumes "(control_call S caps require)\<^sup>*\<^sup>* s t" "tables_ok caps require (tables s)"
  shows "pauses (tables t) = pauses (tables s)"
proof -
  from assms have "pauses (tables t) = pauses (tables s) \<and> tables_ok caps require (tables t)"
  proof (induction rule: rtranclp_induct)
    case (step u v)
    then show ?case using control_call_keeps [OF step(2)] by (simp add: call_keeps_def)
  qed simp
  then show ?thesis by simp
qed

lemma set_paused_active:
  assumes "set_paused io io' s env (PBool True) operator why acc now = (Inr rep, t)"
    and "pause_scope env acc = Inr (env', a)" "a \<in> {''0'', b}"
  shows "pause_active env' b (tables t)"
proof -
  let ?p = "\<lparr>pause_env = env', pause_account = a, paused = True, pause_operator = operator, pause_reason = why, pause_updated = now\<rparr>"
  obtain u where u: "control_transaction io s (\<lambda>d. Commit () (upsert_pause ?p d)) = (ok, u)"
      "pause_state io' u env' (PStr a) = (Inr rep, t)"
    using assms(1,2) by (auto simp: set_paused_def split: sum.splits prod.splits)
  have "tables u = upsert_pause ?p (tables s)"
    using u(1) by (auto simp: control_transaction_def split: if_splits)
  then have "?p \<in> set (pauses (tables t))"
    using pause_state_tables [OF u(2)] by (auto simp: upsert_pause_def Let_def set_update_rows list_ex_iff image_iff)
  with assms(3) show ?thesis by (force simp: pause_active_def)
qed

text \<open>A pause holds until an operator changes it: after an operator pauses an account, or the whole
  environment (account 0), no later call admits new risk for it, whatever other calls, failures and restarts
  lie in between.\<close>
theorem pause_blocks_new_risk:
  assumes "set_paused io io' s env (PBool True) operator why acc now = (Inr rep, t)"
    and "tables_ok caps require (tables s)" "(control_call S caps require)\<^sup>*\<^sup>* t u"
    and "exact_account acc = Inr a" "exact_account (PStr (py_str acc')) = Inr b" "a \<in> {''0'', b}"
    and "norm_text env' = norm_text env"
  shows "fst (check_new_risk io'' u env' acc') \<noteq> ok"
proof -
  have env: "norm_text env \<in> {''REAL'', ''SIMULATE''}"
    using assms(1) by (auto simp: set_paused_def pause_scope_def split: if_split_asm)
  then have scope: "pause_scope env acc = Inr (norm_text env, a)" "pause_scope env' (PStr (py_str acc')) = Inr (norm_text env, b)"
    using assms(4,5,7) by (auto simp: pause_scope_def)
  have "tables_ok caps require (tables t)"
    using assms(2) set_paused_keeps [OF assms(1)] tables_ok_cong by blast
  then have "pauses (tables u) = pauses (tables t)" using assms(3) control_call_run_pauses by blast
  then have "pause_active (norm_text env) b (tables u)"
    using set_paused_active [OF assms(1) scope(1) assms(6)] by (simp add: pause_active_def)
  then show ?thesis using check_new_risk_paused scope(2) by blast
qed

theorem pause_blocks_new_risk_witness:
  "fst (check_new_risk True (snd (set_paused True True sample_charged '' simulate'' (PBool True) ''bob'' ''halt'' (PStr ''00'') 1030))
     ''SIMULATE'' (PInt 7)) \<noteq> ok"
proof -
  let ?t = "snd (set_paused True True sample_charged '' simulate'' (PBool True) ''bob'' ''halt'' (PStr ''00'') 1030)"
  have scope: "pause_scope '' simulate'' (PStr ''00'') = Inr (''SIMULATE'', ''0'')"
      "pause_scope ''SIMULATE'' (PStr ''0'') = Inr (''SIMULATE'', ''0'')"
      "pause_arguments (PBool True) ''bob'' ''halt'' = ok"
    by code_simp+
  then have "\<exists>rep. set_paused True True sample_charged '' simulate'' (PBool True) ''bob'' ''halt'' (PStr ''00'') 1030 = (Inr rep, ?t)"
    by (simp add: set_paused_def pause_state_def control_transaction_def Let_def sample_states)
  then obtain rep where paused: "set_paused True True sample_charged '' simulate'' (PBool True) ''bob'' ''halt'' (PStr ''00'') 1030 = (Inr rep, ?t)" ..
  show ?thesis
  proof (rule pause_blocks_new_risk [OF paused sample_tables_ok])
    show "(control_call sample_session sample_caps True)\<^sup>*\<^sup>* ?t ?t" by simp
    show "exact_account (PStr ''00'') = Inr ''0''" "exact_account (PStr (py_str (PInt 7))) = Inr ''7''" by code_simp+
    show "norm_text ''SIMULATE'' = norm_text '' simulate''" by code_simp
  qed simp
qed

subsection \<open>A reservation confirms\<close>

lemma control_transaction_Inr:
  assumes "control_transaction io s f = (Inr x, t)"
  shows "f (tables s) = Commit x (tables t)" "blocked t = blocked s" "shut t = shut s" "\<not> blocked s" "\<not> shut s"
  using assms by (auto simp: control_transaction_def split: if_split_asm control_body.splits)

lemma find_charge_new:
  assumes "find_charge k d = None" "charge_account c = key_account k"
    "sql_text (key_env k) = Some (charge_env c)" "sql_text (key_operation k) = Some (charge_operation c)"
    "charges d' = charges d @ [c]"
  shows "find_charge k d' = Some c"
proof -
  have app: "find p (xs @ [x]) = Some x" if "find p xs = None" "p x" for p :: "'a \<Rightarrow> bool" and x and xs
    using that by (induction xs) (auto split: if_splits)
  show ?thesis unfolding find_charge_def assms(5) using assms(1-4) by (intro app) (auto simp: find_charge_def)
qed

text \<open>A reservation just made passes the last check before the journal dispatch: on the same UTC day, while
  the approval has not expired, with working storage and the same request, the confirmation succeeds. (This
  is the liveness half of the two-step protocol; the refusals are the other half.)\<close>
theorem fresh_reservation_confirms:
  assumes "tables_ok caps True (tables s)"
    and consumed: "consume S io s meth ps approval True cur amount caps contract now now' = (ok, t)"
    and "utc_day later = utc_day now"
    and expiry: "approval = Some rid" "find_prepared rid (tables s) = Some r" "\<not> approval_expired (expires_at r) later'"
  shows "confirm_reservation S True t meth ps approval True contract later later' = (ok, t)"
proof -
  obtain canon k where args: "consume_arguments S meth ps amount = Inr (canon, k)"
      and tr: "control_transaction io s (consume_body canon k approval True cur amount caps contract now now') = (ok, t)"
    using consumed by (auto simp: consume_def split: sum.splits)
  have canon: "canonical_intent S meth ps = Inr canon" "charge_key_of ps = Inr k"
    using args by (auto simp: consume_arguments_def res_simps)
  note body = control_transaction_Inr [OF tr]
  obtain day env oid where c: "utc_day now = Inr day" "sql_text (key_env k) = Some env" "sql_text (key_operation k) = Some oid"
    and app: "\<exists>a. approved (tables s) approval canon (Some contract) now' = Inr a"
    and t: "tables t = mark_consumed True approval now ((tables s)\<lparr>charges := charges (tables s) @
        [\<lparr>charge_env = env, charge_account = key_account k, charge_operation = oid, charge_canonical = canon,
          charge_day = day, charge_currency = cur, charge_amount = amount, charge_approval = approval,
          charge_created = now\<rparr>]\<rparr>)"
    using body(1) by (cases rule: consume_bodyE) blast
  have bind: "bindable (key_env k)" "bindable (key_operation k)" and none: "find_charge k (tables s) = None"
    using body(1) unfolding consume_body_def by (auto split: if_split_asm option.splits)
  obtain a where a: "approved (tables s) approval canon (Some contract) now' = Inr a" using app by blast
  have r: "a = r" "canonical r = canon" "status r = APPROVED" using approvedD [OF a] expiry by auto
  obtain expected where ex: "reviewed_contract r = Inr expected" "py_eq expected contract"
    using a r(1) by (auto simp: approved_def res_simps split: option.splits if_split_asm)
  have charge: "find_charge k (tables t) = Some \<lparr>charge_env = env, charge_account = key_account k, charge_operation = oid,
      charge_canonical = canon, charge_day = day, charge_currency = cur, charge_amount = amount,
      charge_approval = approval, charge_created = now\<rparr>"
    by (rule find_charge_new [OF none]) (simp_all add: c t)
  have row: "find_prepared rid (tables t) = Some (consumed_row now r)"
    using expiry(1,2) unfolding find_prepared_def t mark_consumed_def
    by (auto simp: find_row_update_rows consumed_row_def dest: find_row_SomeD)
  have "confirm_approval (tables t) \<lparr>charge_env = env, charge_account = key_account k, charge_operation = oid,
      charge_canonical = canon, charge_day = day, charge_currency = cur, charge_amount = amount,
      charge_approval = approval, charge_created = now\<rparr> canon approval contract later' = ok"
    using expiry(3) r ex by (simp add: confirm_approval_def expiry(1) row) (simp add: consumed_row_def reviewed_contract_def)
  then have "confirm_body S meth ps approval True contract later later' canon (tables t) = Commit () (tables t)"
    unfolding confirm_body_def canon(2) by (simp add: bind charge assms(3) c(1))
  then show ?thesis
    using body by (simp add: confirm_reservation_def canon(1) control_transaction_def)
qed

theorem fresh_reservation_confirms_witness:
  "confirm_reservation sample_session True sample_charged ''place_order'' sample_parameters (Some ''r1'') True PNone 1025 1026
   = (ok, sample_charged)"
proof (rule fresh_reservation_confirms [OF _ sample_consume])
  show "tables_ok sample_caps True (tables sample_approved)"
    using reachable_tables_ok [OF sample_controls_start sample_run_approved] .
  show "utc_day 1025 = utc_day 1020" by code_simp
  show "find_prepared ''r1'' (tables sample_approved) = Some sample_decided"
    by (simp add: sample_states find_prepared_def sample_decided_fields)
  show "\<not> approval_expired (expires_at sample_decided) 1026"
    by (simp add: approval_expired_def sample_decided_fields)
qed simp

end
