(* ===== verification/Serialization.thy ===== *)
theory Serialization
  imports Py_Json
begin

text \<open>
  \<open>tools/serialization.py\<close>: identifiers leave the process as decimal strings, so that no client rounds
  them through a binary float. The theory proves that an integer identifier survives exactly and that
  serializing twice changes nothing.
\<close>

definition IDENTIFIER_FIELDS :: "string set" where
  "IDENTIFIER_FIELDS = {''acc_id'', ''position_id'', ''combo_id'', ''deal_id'', ''order_id''}"

text \<open>\<open>_serialize_identifier\<close>; a float \<open>NaN\<close> stands for a missing identifier.\<close>

fun serialize_identifier :: "pyval \<Rightarrow> pyval res" where
  "serialize_identifier PNone = Inr PNone"
| "serialize_identifier (PBool b) = raise ValueError ''boolean identifier''"
| "serialize_identifier (PInt i) = Inr (PStr (int_text i))"
| "serialize_identifier (PStr s) = Inr (PStr s)"
| "serialize_identifier (PFloat f t) = (if f = NaN then Inr PNone else raise ValueError ''floating-point identifier'')"
| "serialize_identifier _ = raise ValueError ''unsupported identifier''"

fun serialize_identifiers :: "pyval \<Rightarrow> pyval res" where
  "serialize_identifiers (PDict d t) = bindR (mapR (\<lambda>(k, v).
     bindR (if k \<in> IDENTIFIER_FIELDS then serialize_identifier v else serialize_identifiers v) (\<lambda>w. Inr (k, w))) d)
     (\<lambda>d'. Inr (PDict d' []))"
| "serialize_identifiers (PList l t) = bindR (mapR serialize_identifiers l) (\<lambda>l'. Inr (PList l' []))"
| "serialize_identifiers v = Inr v"

lemma serialize_identifier_idem: "serialize_identifier v = Inr w \<Longrightarrow> serialize_identifier w = Inr w"
  by (cases v) (auto split: if_splits)

definition serialize_member :: "string \<times> pyval \<Rightarrow> (string \<times> pyval) res" where
  "serialize_member p = bindR (if fst p \<in> IDENTIFIER_FIELDS then serialize_identifier (snd p) else serialize_identifiers (snd p))
     (\<lambda>w. Inr (fst p, w))"

lemma serialize_dict: "serialize_identifiers (PDict d t) = bindR (mapR serialize_member d) (\<lambda>d'. Inr (PDict d' []))"
  by (simp add: serialize_member_def [abs_def] split_beta')

lemma list_all2_range:
  assumes "list_all2 P xs ys" "\<And>x y. x \<in> set xs \<Longrightarrow> P x y \<Longrightarrow> Q y"
  shows "list_all2 (\<lambda>y z. Q y \<and> z = y) ys ys"
  using assms by (induction rule: list_all2_induct) auto

text \<open>Serializing the identifiers of a response is idempotent: a value that made the trip once passes a
  second time unchanged.\<close>
theorem serialization_idempotent:
  assumes "serialize_identifiers v = Inr w"
  shows "serialize_identifiers w = Inr w"
  using assms
proof (induction v arbitrary: w)
  case (PDict d t)
  then obtain d' where w: "w = PDict d' []" and all: "list_all2 (\<lambda>x y. serialize_member x = Inr y) d d'"
    unfolding serialize_dict by (auto simp: res_simps)
  have "serialize_member y = Inr y" if hyp: "x \<in> set d" "serialize_member x = Inr y" for x y
  proof -
    have IH: "serialize_identifiers (snd x) = Inr u \<Longrightarrow> serialize_identifiers u = Inr u" for u
      using PDict.IH [OF hyp(1), of "snd x" u] by (simp add: snds.intros prod_set_simps)
    obtain u where "y = (fst x, u)"
        "(if fst x \<in> IDENTIFIER_FIELDS then serialize_identifier (snd x) else serialize_identifiers (snd x)) = Inr u"
      using hyp(2) unfolding serialize_member_def bindR_Inr_iff by blast
    then show ?thesis
      using IH serialize_identifier_idem by (cases "fst x \<in> IDENTIFIER_FIELDS") (simp_all add: serialize_member_def)
  qed
  then have "list_all2 (\<lambda>y z. serialize_member y = Inr y \<and> z = y) d' d'"
    by (rule list_all2_range [OF all])
  then have "mapR serialize_member d' = Inr d'" unfolding mapR_Inr_iff by (rule list_all2_mono) simp
  then show ?case unfolding w serialize_dict by simp
next
  case (PList l t)
  then obtain l' where w: "w = PList l' []" and all: "list_all2 (\<lambda>x y. serialize_identifiers x = Inr y) l l'"
    by (auto simp: res_simps)
  have "list_all2 (\<lambda>y z. serialize_identifiers y = Inr y \<and> z = y) l' l'"
    by (rule list_all2_range [OF all]) (rule PList.IH)
  then have "mapR serialize_identifiers l' = Inr l'" unfolding mapR_Inr_iff by (rule list_all2_mono) simp
  then show ?case unfolding w by simp
qed (auto split: if_splits)

theorem serialization_idempotent_witness:
  "serialize_identifiers (PDict [(''order_id'', PStr ''9007199254740993''), (''qty'', PInt 2)] []) =
   Inr (PDict [(''order_id'', PStr ''9007199254740993''), (''qty'', PInt 2)] [])"
  by (rule serialization_idempotent [of "PDict [(''order_id'', PInt 9007199254740993), (''qty'', PInt 2)] []"]) code_simp

text \<open>C40. An integer identifier survives serialization exactly, whatever its size: the text that leaves reads
  back as the same integer, where a binary float would round it.\<close>
theorem identifier_roundtrip:
  assumes "serialize_identifiers (PDict d t) = Inr (PDict d' t')" "k \<in> IDENTIFIER_FIELDS"
    and "map_of d k = Some (PInt i)" "0 \<le> i" "length (int_text i) \<le> 4300"
  shows "\<exists>s. map_of d' k = Some (PStr s) \<and> int_of_text s = Inr i"
proof -
  have "list_all2 (\<lambda>x y. serialize_member x = Inr y) d d'"
    using assms(1) unfolding serialize_dict by (auto simp: res_simps)
  then have "map_of d' k = Some (PStr (int_text i))"
    using assms(2,3)
  proof (induction rule: list_all2_induct)
    case (Cons x xs y ys)
    then show ?case by (cases x) (auto simp: serialize_member_def res_simps split: if_splits)
  qed simp
  then show ?thesis using assms(4,5) by (simp add: int_of_text_int_text)
qed

theorem identifier_roundtrip_witness:
  "\<exists>s. map_of [(''order_id'', PStr ''9007199254740993''), (''qty'', PInt 2)] ''order_id'' = Some (PStr s)
     \<and> int_of_text s = Inr 9007199254740993"
proof (rule identifier_roundtrip)
  show "serialize_identifiers (PDict [(''order_id'', PInt 9007199254740993), (''qty'', PInt 2)] []) =
    Inr (PDict [(''order_id'', PStr ''9007199254740993''), (''qty'', PInt 2)] [])" by code_simp
  have "int_text 9007199254740993 = ''9007199254740993''" by code_simp
  then show "length (int_text 9007199254740993) \<le> 4300" by simp
qed (simp_all add: IDENTIFIER_FIELDS_def)

end
