(* ===== verification/Dispatch_Controls.thy ===== *)
theory Dispatch_Controls
  imports Control_Runs
begin

text \<open>
  The guard of \<open>services/trade_preparation.py\<close> between a mutation and the trading controls: the active
  operation a mutation opens, the contract and valuation its assessment leaves there, and the two calls
  that charge it and confirm the charge just before dispatch. \<open>repr\<close> of a float and \<open>Decimal(str(x))\<close> of a
  float are the arguments \<open>R\<close> and \<open>D\<close>.
\<close>

record active_operation =
  active_method :: string
  active_parameters :: pydict
  active_approval :: "string option"
  active_contract :: pyval
  active_valuation :: "(pydec \<times> string) option"
  reserved_parameters :: "pydict option"

text \<open>\<open>mutation_context\<close>: the outermost mutation opens the operation, an inner one keeps it.\<close>

definition open_mutation ::
    "string \<Rightarrow> pydict \<Rightarrow> string option \<Rightarrow> active_operation option \<Rightarrow> active_operation option" where
  "open_mutation meth ps approval active = (case active of
     Some a \<Rightarrow> Some a
   | None \<Rightarrow> Some \<lparr>active_method = meth, active_parameters = ps, active_approval = approval,
       active_contract = PNone, active_valuation = None, reserved_parameters = None\<rparr>)"

text \<open>\<open>assess_control_facts\<close>.\<close>

definition assess_control_facts ::
    "(pyfloat \<Rightarrow> string) \<Rightarrow> (pyfloat \<Rightarrow> pydec) \<Rightarrow> trading_policy \<Rightarrow> active_operation option \<Rightarrow> order_facts \<Rightarrow>
     active_operation option res" where
  "assess_control_facts R D p active f =
     bindR (assess_order p f) (\<lambda>_. case active of
       None \<Rightarrow> Inr None
     | Some a \<Rightarrow>
        bindR (contract_view R f) (\<lambda>c.
          if max_daily_notional p \<noteq> [] then
            bindR (estimate_order D f) (\<lambda>(amount, cur, _).
              Inr (Some (a\<lparr>active_contract := c, active_valuation := Some (amount, cur)\<rparr>)))
          else Inr (Some (a\<lparr>active_contract := c\<rparr>))))"

definition controlled :: "trading_policy \<Rightarrow> bool" where
  "controlled p \<longleftrightarrow> require_approval p \<or> max_daily_notional p \<noteq> []"

definition daily_caps :: "(pyfloat \<Rightarrow> pydec) \<Rightarrow> trading_policy \<Rightarrow> (string \<times> pydec) list" where
  "daily_caps D p = map (\<lambda>(cur, cap). (cur, D cap)) (max_daily_notional p)"

definition adds_exposure :: "active_operation \<Rightarrow> pydict \<Rightarrow> bool res" where
  "adds_exposure a ps =
     (if active_method a \<in> {''place_order'', ''place_combo_order''} then Inr True
      else if active_method a = ''modify_order'' then
        bindR (member ''modify_order_op'' (as_dict ps)) (\<lambda>v. Inr (norm_text (py_str v) \<in> {''NORMAL'', ''ENABLE''}))
      else Inr False)"

text \<open>The parameters that are charged: the resolved account and environment replace the supplied ones.\<close>

definition charged_parameters ::
    "trading_policy \<Rightarrow> active_operation \<Rightarrow> int \<Rightarrow> string \<Rightarrow> pydict res" where
  "charged_parameters p a acc env =
     bindR (member ''acc_id'' (as_dict (active_parameters a))) (\<lambda>supplied.
       if require_approval p \<and> py_str supplied \<noteq> int_text acc
       then raise TradingControlError ''explicit prepared account''
       else Inr (put_member ''trd_env'' (PStr env) (put_member ''acc_id'' (PStr (int_text acc)) (active_parameters a))))"

definition charge_arguments ::
    "trading_policy \<Rightarrow> active_operation \<Rightarrow> int \<Rightarrow> string \<Rightarrow> pydict res" where
  "charge_arguments p a acc env =
     bindR (charged_parameters p a acc env) (\<lambda>ps.
     bindR (adds_exposure a ps) (\<lambda>adds.
       if max_daily_notional p \<noteq> [] \<and> adds \<and> active_valuation a = None
       then raise TradingControlError ''fresh full-order valuation'' else Inr ps))"

text \<open>\<open>check_dispatch_controls\<close>: charge the active operation, before unlock and dispatch.\<close>

definition check_dispatch_controls ::
    "sdk_session \<Rightarrow> (pyfloat \<Rightarrow> pydec) \<Rightarrow> trading_policy \<Rightarrow> bool \<Rightarrow> controls option \<Rightarrow> active_operation option \<Rightarrow> int \<Rightarrow>
     string \<Rightarrow> rat \<Rightarrow> rat \<Rightarrow> active_operation option res \<times> controls option" where
  "check_dispatch_controls S D p io cs active acc env now now' =
     (if \<not> controlled p then (Inr active, cs)
      else case (cs, active) of
        (Some c, Some a) \<Rightarrow>
          (case charge_arguments p a acc env of
             Inl e \<Rightarrow> (Inl e, cs)
           | Inr ps \<Rightarrow>
              (case consume S io c (active_method a) ps (active_approval a) (require_approval p)
                      (map_option snd (active_valuation a))
                      (case active_valuation a of Some (amount, _) \<Rightarrow> amount | None \<Rightarrow> Dec False 0 0)
                      (daily_caps D p) (active_contract a) now now' of
                 (Inl e, c') \<Rightarrow> (Inl e, Some c')
               | (Inr _, c') \<Rightarrow> (Inr (Some (a\<lparr>reserved_parameters := Some ps\<rparr>)), Some c')))
      | _ \<Rightarrow> (raise TradingControlError ''no active prepared execution'', cs))"

text \<open>\<open>confirm_dispatch_controls\<close>: the committed charge still stands.\<close>

definition confirm_dispatch_controls ::
    "sdk_session \<Rightarrow> trading_policy \<Rightarrow> bool \<Rightarrow> controls option \<Rightarrow> active_operation option \<Rightarrow> rat \<Rightarrow> rat \<Rightarrow>
     unit res \<times> controls option" where
  "confirm_dispatch_controls S p io cs active now now' =
     (if \<not> controlled p then (ok, cs)
      else case (cs, active) of
        (Some c, Some a) \<Rightarrow>
          (case reserved_parameters a of
             None \<Rightarrow> (raise TradingControlError ''no committed reservation'', cs)
           | Some ps \<Rightarrow>
              (case confirm_reservation S io c (active_method a) ps (active_approval a) (require_approval p)
                      (active_contract a) now now' of (r, c') \<Rightarrow> (r, Some c')))
      | _ \<Rightarrow> (raise TradingControlError ''no committed reservation'', cs))"

text \<open>A charge of the operation that the active parameters name, on the given account and environment.\<close>

definition charged_for :: "active_operation \<Rightarrow> int \<Rightarrow> string \<Rightarrow> controls \<Rightarrow> charge_row \<Rightarrow> bool" where
  "charged_for a acc env c x \<longleftrightarrow> x \<in> set (charges (tables c)) \<and> charge_env x = env \<and> charge_account x = int_text acc
     \<and> sql_text (dict_get (active_parameters a) ''operation_id'' PNone) = Some (charge_operation x)
     \<and> charge_approval x = active_approval a"

lemma map_of_replace: "map_of (map (\<lambda>(k', v'). (k', if k' = k then v else v')) d) x =
   (if x = k \<and> k \<in> fst ` set d then Some v else map_of d x)"
proof (induction d)
  case (Cons p d)
  obtain k' v' where p: "p = (k', v')" by fastforce
  show ?case using Cons.IH unfolding p by (cases "k' = k"; cases "x = k"; cases "x = k'") simp_all
qed simp

lemma map_of_put_member: "map_of (put_member k v d) = (map_of d)(k \<mapsto> v)"
proof
  fix x
  show "map_of (put_member k v d) x = ((map_of d)(k \<mapsto> v)) x"
  proof (cases "k \<in> fst ` set d")
    case True
    then show ?thesis by (simp add: put_member_def map_of_replace)
  next
    case False
    then have "map_of d k = None" by (simp add: map_of_eq_None_iff)
    with False show ?thesis by (simp add: put_member_def map_add_def split: option.split)
  qed
qed

lemma consume_charges:
  assumes "consume S io s meth ps approval require cur amount caps contract now now' = (Inr u, t)"
  shows "\<exists>k. charge_key_of ps = Inr k \<and> (\<exists>x \<in> set (charges (tables t)). sql_text (key_env k) = Some (charge_env x)
    \<and> charge_account x = key_account k \<and> sql_text (key_operation k) = Some (charge_operation x)
    \<and> charge_approval x = approval)"
proof -
  obtain canon k where args: "consume_arguments S meth ps amount = Inr (canon, k)"
      and tr: "control_transaction io s (consume_body canon k approval require cur amount caps contract now now') = (Inr u, t)"
    using assms by (auto simp: consume_def split: sum.splits)
  have "charge_key_of ps = Inr k" using args by (auto simp: consume_arguments_def res_simps)
  moreover have "\<exists>x \<in> set (charges (tables t)). sql_text (key_env k) = Some (charge_env x)
    \<and> charge_account x = key_account k \<and> sql_text (key_operation k) = Some (charge_operation x)
    \<and> charge_approval x = approval"
    using control_transaction_Inr(1) [OF tr] by (cases rule: consume_bodyE) simp
  ultimately show ?thesis by blast
qed

lemma charged_parametersD:
  assumes "charge_arguments p a acc env = Inr ps"
  shows "map_of ps = (map_of (active_parameters a))(''acc_id'' \<mapsto> PStr (int_text acc), ''trd_env'' \<mapsto> PStr env)"
  using assms by (auto simp: charge_arguments_def charged_parameters_def res_simps map_of_put_member split: if_split_asm)

lemma int_of_text_nonneg: "int_of_text (int_text n) = Inr m \<Longrightarrow> 0 \<le> n \<and> m = n"
  by (auto simp: int_of_text_def int_text_def isdecimal_def decimal_char_def ord_of_def split: if_split_asm)

lemma charge_key_charged:
  assumes "charge_arguments p a acc env = Inr ps" "charge_key_of ps = Inr k"
  shows "sql_text (key_env k) = Some env" "key_account k = int_text acc"
    "key_operation k = dict_get (active_parameters a) ''operation_id'' PNone"
  using assms(2)
  by (auto simp: charge_key_of_def member_def charged_parametersD [OF assms(1)] res_simps dict_get_def
      split: option.splits if_split_asm dest: int_of_text_nonneg)

text \<open>A controlled dispatch that passes the guard has charged exactly the active operation.\<close>

lemma check_dispatch_controls_charged:
  assumes "check_dispatch_controls S D p io cs active acc env now now' = (Inr active', cs')" "controlled p"
  obtains a c x where "active = Some a" "cs' = Some c" "charged_for a acc env c x"
proof -
  obtain a c where ac: "active = Some a" "cs = Some c"
    using assms(1,2) by (auto simp: check_dispatch_controls_def split: option.splits)
  obtain ps where ps: "charge_arguments p a acc env = Inr ps"
    using assms(1,2) by (auto simp: check_dispatch_controls_def ac split: sum.splits)
  obtain c' u where c': "consume S io c (active_method a) ps (active_approval a) (require_approval p)
       (map_option snd (active_valuation a))
       (case active_valuation a of Some (amount, _) \<Rightarrow> amount | None \<Rightarrow> Dec False 0 0)
       (daily_caps D p) (active_contract a) now now' = (Inr u, c')" "cs' = Some c'"
    using assms(1,2) by (auto simp: check_dispatch_controls_def ac ps split: sum.splits prod.splits)
  obtain k x where k: "charge_key_of ps = Inr k" and x: "x \<in> set (charges (tables c'))" "sql_text (key_env k) = Some (charge_env x)"
      "charge_account x = key_account k" "sql_text (key_operation k) = Some (charge_operation x)"
      "charge_approval x = active_approval a"
    using consume_charges [OF c'(1)] by blast
  have "charged_for a acc env c' x"
    using charge_key_charged [OF ps k] x by (simp add: charged_for_def)
  then show thesis using that ac(1) c'(2) by blast
qed

lemma confirm_dispatch_controls_tables:
  assumes "confirm_dispatch_controls S p io (Some c) active now now' = (r, cs')"
  obtains c' where "cs' = Some c'" "tables c' = tables c"
  using assms
  by (auto simp: confirm_dispatch_controls_def split: if_split_asm option.splits prod.splits dest: confirm_tables)

end
