(* ===== verification/Paper_Execution.thy ===== *)
theory Paper_Execution
  imports Dispatch_Controls Serialization Order_Errors Client_Authorization Journal_Runs
begin

text \<open>
  \<open>services/paper_execution.py\<close>: the serialized lifecycle of a simulated order. A call checks its request,
  looks its operation up in the journal, admits it under the admission lock, prepares and marks the
  dispatch under the execution lock, calls the broker once and records the outcome. The phases between
  which other calls can interleave are separate definitions, and \<open>execute\<close> composes them.

  What the process keeps is a \<open>paper\<close> state: the journal's store, the trading controls, the outcomes that
  could not be stored, and a log of the broker calls started. The answers of the broker and its gateway
  (accounts, permits, the target order, instrument facts, the reply to the call), the clock, and whether
  storage works at each access are the \<open>world\<close> of one call. The texts of messages are not modelled.
\<close>

subsection \<open>State and environment\<close>

record broker_account =
  acct_env :: string
  acct_id :: int
  acct_markets :: "string list"

text \<open>The reply to a mutation: an exception, a refusal, or an acknowledgement with the order identifier that
  can be read off it and what \<open>_first_record\<close> makes of it.\<close>

datatype broker_reply =
    CallRaises exn
  | Refused string
  | Acknowledged "string option" "pydict res"

record world =
  grants :: "client_grants option"
  broker_accounts :: "broker_account list res"
  reserve_permit :: "unit res"
  protect_permit :: "unit res"
  connected :: bool
  target_order :: "pydict res"
  instrument_lookup :: "(string \<Rightarrow> instrument_facts list res) option"
  reply :: broker_reply
  io :: "string \<Rightarrow> bool"
  writable :: "string \<Rightarrow> bool"
  clock :: "string \<Rightarrow> rat"
  now :: int
  uuid :: string

record config =
  policy :: trading_policy
  allowlist :: "int set"
  sessions :: sdk_session
  float_repr :: "pyfloat \<Rightarrow> string"
  float_decimal :: "pyfloat \<Rightarrow> pydec"
  digest :: "string \<Rightarrow> string"

record stored_result =
  res_operation :: string
  res_tag :: "string option"
  res_recovery :: recovery_context
  res_checks :: "recovery_check list"
  res_updates :: "recovery_context list"
  res_epoch :: string
  res_state :: op_state
  res_disposition :: string
  res_in_flight :: bool
  res_account :: string
  res_receipt :: pydict
  res_broker_order :: "string option"
  res_broker_status :: "string option"
  res_error :: "string option"
  res_observations :: pyval
  res_modification_observed :: "bool option"
  res_facts :: "pydict option"

record late_result =
  late_operation :: string
  late_tag :: "string option"
  late_state :: op_state
  late_stored :: bool
  late_disposition :: string
  late_receipt :: pydict
  late_acknowledged :: bool

datatype paper_result = Stored stored_result | Late late_result

record paper =
  journal :: store
  controls_of :: "controls option"
  late_failure :: "(string \<times> late_result) list"
  late_identity :: "(string \<times> row_view) list"
  calls :: "(string \<times> pydict) list"

subsection \<open>Sequencing\<close>

text \<open>A fallible step that changes the state, and a call of the journal as such a step.\<close>

definition bindS :: "'a res \<times> 's \<Rightarrow> ('a \<Rightarrow> 's \<Rightarrow> 'b res \<times> 's) \<Rightarrow> 'b res \<times> 's" where
  "bindS m f = (case m of (Inl e, s) \<Rightarrow> (Inl e, s) | (Inr x, s) \<Rightarrow> f x s)"

definition on_journal :: "(store \<Rightarrow> 'a \<times> store) \<Rightarrow> paper \<Rightarrow> 'a \<times> paper" where
  "on_journal f s = (case f (journal s) of (r, j) \<Rightarrow> (r, s\<lparr>journal := j\<rparr>))"

definition put_key :: "string \<Rightarrow> 'v \<Rightarrow> (string \<times> 'v) list \<Rightarrow> (string \<times> 'v) list" where
  "put_key k v d = (if k \<in> fst ` set d then map (\<lambda>(k', v'). (k', if k' = k then v else v')) d else d @ [(k, v)])"

definition pop_key :: "string \<Rightarrow> (string \<times> 'v) list \<Rightarrow> (string \<times> 'v) list" where
  "pop_key k d = filter (\<lambda>(k', _). k' \<noteq> k) d"

subsection \<open>Health\<close>

text \<open>\<open>recovery.pending_outcome_health\<close>.\<close>

definition pending_outcome_health :: "health_report \<Rightarrow> string list \<Rightarrow> health_report" where
  "pending_outcome_health h pending =
     (if pending = [] then h
      else h\<lparr>health_state := JOURNAL_BLOCKED,
             blocking_reasons := sorted_set (blocking_reasons h @ [''OUTCOME_NOT_STORED'']),
             blocking := max (blocking h) (length pending),
             pending_operation_ids := sorted_set (pending_operation_ids h @ pending)\<rparr>)"

definition paper_health :: "world \<Rightarrow> string \<Rightarrow> paper \<Rightarrow> health_report \<times> paper" where
  "paper_health w site s = (case on_journal (health (writable w site) (io w site)) s of
     (h, s') \<Rightarrow> (pending_outcome_health h (map fst (late_failure s')), s'))"

definition ready :: "world \<Rightarrow> string \<Rightarrow> paper \<Rightarrow> unit res \<times> paper" where
  "ready w site s =
     (if late_failure s \<noteq> [] then (raise ExecutionStoreError ''OUTCOME_NOT_STORED'', s)
      else on_journal (require_ready (writable w site) (io w site)) s)"

subsection \<open>Request checks\<close>

fun kind_text :: "op_kind \<Rightarrow> string" where
  "kind_text PLACE = ''PLACE''"
| "kind_text PLACE_COMBO = ''PLACE_COMBO''"
| "kind_text MODIFY = ''MODIFY''"
| "kind_text CANCEL = ''CANCEL''"

fun whole_shares :: "pyval \<Rightarrow> unit res" where
  "whole_shares (PInt n) = (if 0 < n then ok else raise ValueError ''positive whole-share quantities'')"
| "whole_shares _ = raise ValueError ''positive whole-share quantities''"

definition schema_values :: "pydict \<Rightarrow> unit res" where
  "schema_values ps =
     bindR (case map_of ps ''price'' of None \<Rightarrow> ok | Some v \<Rightarrow> bindR (decimal_price v) (\<lambda>_. ok)) (\<lambda>_.
       case map_of ps ''qty'' of None \<Rightarrow> ok | Some v \<Rightarrow> whole_shares v)"

definition starts_with_us :: "pyval \<Rightarrow> bool res" where
  "starts_with_us v = (case v of PStr s \<Rightarrow> Inr (startswith s ''US.'') | _ \<Rightarrow> raise AttributeError ''startswith'')"

definition schema_place :: "pydict \<Rightarrow> unit res" where
  "schema_place ps =
     bindR (member ''order_type'' (as_dict ps)) (\<lambda>ot.
     if ot \<noteq> PStr ''NORMAL'' then raise ValueError ''NORMAL limit DAY orders only''
     else bindR (member ''time_in_force'' (as_dict ps)) (\<lambda>tif.
     if tif \<noteq> PStr ''DAY'' then raise ValueError ''NORMAL limit DAY orders only''
     else bindR (bindR (member ''code'' (as_dict ps)) starts_with_us) (\<lambda>us.
     if \<not> us then raise ValueError ''US stocks/ETFs and BUY/SELL only''
     else bindR (bindR (member ''trd_side'' (as_dict ps)) (\<lambda>v. in_text_set v {''BUY'', ''SELL''})) (\<lambda>side.
     if \<not> side then raise ValueError ''US stocks/ETFs and BUY/SELL only''
     else guardR (\<not> py_eq (dict_get ps ''adjust_limit'' (PInt 0)) (PInt 0)
         \<or> (\<exists>k \<in> set [''aux_price'', ''trail_type'', ''trail_value'', ''trail_spread'']. dict_get ps k PNone \<noteq> PNone))
       (Exn ValueError ''outside paper scope'')))))"

definition schema_mutation :: "op_kind \<Rightarrow> pydict \<Rightarrow> unit res" where
  "schema_mutation k ps =
     bindR (positive_decimal_id (dict_get ps ''order_id'' PNone)) (\<lambda>named.
     if \<not> named then raise ValueError ''one positive decimal order ID''
     else guardR (k = MODIFY \<and> ((map_of ps ''qty'' = None \<and> map_of ps ''price'' = None)
         \<or> \<not> py_eq (dict_get ps ''adjust_limit'' (PInt 0)) (PInt 0)))
       (Exn ValueError ''only price and total quantity''))"

definition schema :: "op_kind \<Rightarrow> pydict \<Rightarrow> unit res" where
  "schema k ps = bindR (schema_values ps) (\<lambda>_. if k = PLACE then schema_place ps else schema_mutation k ps)"

text \<open>The first block of \<open>_execute\<close>: authorization, tokens, the session of a placement, the schema.\<close>

definition request_checks :: "config \<Rightarrow> op_kind \<Rightarrow> pydict \<Rightarrow> pyval \<Rightarrow> pyval \<Rightarrow> pydict res" where
  "request_checks cfg k ps oid ep =
     bindR (check_write (policy cfg) ''SIMULATE'') (\<lambda>_.
     bindR (validate_token oid ep) (\<lambda>_.
     bindR (if k = PLACE
            then bindR (normalize_order_session (sessions cfg) (dict_get ps ''session'' (PStr ''N/A'')) ''SIMULATE'')
              (\<lambda>_. Inr (dict_pop ''session'' ps))
            else Inr ps) (\<lambda>ps'.
     bindR (schema k ps') (\<lambda>_. Inr ps'))))"

subsection \<open>Accounts\<close>

text \<open>\<open>TradeService._exact_account_id\<close>.\<close>

definition exact_account_id :: "bool \<Rightarrow> pyval \<Rightarrow> int res" where
  "exact_account_id allow_zero v =
     bindR (case v of
       PInt n \<Rightarrow> Inr n
     | PStr s \<Rightarrow> if \<not> isdecimal (strip s) then raise ValueError ''integer or decimal string'' else int_of_text (strip s)
     | _ \<Rightarrow> raise ValueError ''integer or decimal string'') (\<lambda>n.
     if n < (if allow_zero then 0 else 1) then raise ValueError ''acc_id'' else Inr n)"

fun eligible_accounts :: "config \<Rightarrow> world \<Rightarrow> broker_account list \<Rightarrow> int list res" where
  "eligible_accounts cfg w [] = Inr []"
| "eligible_accounts cfg w (a # as) =
     bindR (if acct_env a = ''SIMULATE'' \<and> acct_id a \<in> allowlist cfg \<and> ''US'' \<in> set (acct_markets a)
            then account_access_allowed (grants w) ''SIMULATE'' (PInt (acct_id a)) True else Inr False) (\<lambda>b.
     bindR (eligible_accounts cfg w as) (\<lambda>rest. Inr (if b then acct_id a # rest else rest)))"

definition resolve_account :: "config \<Rightarrow> world \<Rightarrow> pyval \<Rightarrow> int res" where
  "resolve_account cfg w acc =
     bindR (exact_account_id True acc) (\<lambda>requested.
     if requested \<noteq> 0 \<and> requested \<notin> allowlist cfg then raise ValueError ''simulated-account allowlist''
     else bindR (if requested \<noteq> 0 then check_account_access (grants w) ''SIMULATE'' (PInt requested) True else ok) (\<lambda>_.
     bindR (broker_accounts w) (\<lambda>accounts.
     bindR (eligible_accounts cfg w accounts) (\<lambda>eligible.
     if requested \<noteq> 0 then
       (if requested \<notin> set eligible then raise ValueError ''US simulated account'' else Inr requested)
     else (case sorted_set eligible of
         [only] \<Rightarrow> Inr only | _ \<Rightarrow> raise ValueError ''exactly one eligible account'')))))"

subsection \<open>Results and retries\<close>

definition result_of :: "world \<Rightarrow> string \<Rightarrow> paper \<Rightarrow> row_view \<Rightarrow> paper_result \<times> paper" where
  "result_of w site s v = (case paper_health w site s of (h, s') \<Rightarrow>
     let r = row v in
     (Stored \<lparr>res_operation = operation_id r, res_tag = order_tag r, res_recovery = recovery_context_of (journal s') v,
        res_checks = recovery_checks v,
        res_updates = (if map_of (visible_journal_health (grants w) [(''recovery_updates'', PNone)] ''SIMULATE'')
            ''recovery_updates'' = None then [] else recovery_updates h),
        res_epoch = admission_epoch r, res_state = state r, res_disposition = disposition r,
        res_in_flight = (state r \<in> {ADMITTED, DISPATCHING}), res_account = account r,
        res_receipt = (case receipt r of None \<Rightarrow> [] | Some d \<Rightarrow> d),
        res_broker_order = broker_order_id r, res_broker_status = broker_status r,
        res_error = visible_journal_error (grants w) (error r) ''SIMULATE'',
        res_observations = (case evidence r of None \<Rightarrow> PList [] [] | Some e \<Rightarrow> e),
        res_modification_observed = (if kind r = MODIFY then Some (modification_observed r) else None),
        res_facts = accounted_facts v\<rparr>, s'))"

definition retry ::
    "config \<Rightarrow> world \<Rightarrow> string \<Rightarrow> paper \<Rightarrow> row_view \<Rightarrow> op_kind \<Rightarrow> pydict \<Rightarrow> pyval \<Rightarrow> paper_result res \<times> paper" where
  "retry cfg w site s v k ps acc =
     (let r = row v; bound = digits_val (account r) in
      case bindR (exact_account_id True acc) (\<lambda>requested.
           bindR (check_account_access (grants w) ''SIMULATE'' (PInt bound) True) (\<lambda>_.
           bindR (canonicalize_request ''SIMULATE'' (if requested \<noteq> 0 then requested else bound) (kind_text k) ps) (\<lambda>proposed.
           bindR (differing_fields (operation.canonical r) proposed) (\<lambda>fields.
             guardR (fields \<noteq> []) (Exn ExecutionConflict ''Operation ID conflict''))))) of
        Inl e \<Rightarrow> (Inl e, s)
      | Inr _ \<Rightarrow>
         (case map_of (late_failure s) (operation_id r) of
            Some l \<Rightarrow> (Inr (Late l), s)
          | None \<Rightarrow> (case result_of w site s v of (res, s') \<Rightarrow> (Inr res, s'))))"

subsection \<open>Preparation of a dispatch\<close>

definition TERMINAL_BROKER :: "string set" where
  "TERMINAL_BROKER = {''FILLED_ALL'', ''CANCELLED_ALL'', ''CANCELLED_PART'', ''FAILED'', ''DELETED'', ''REJECTED''}"

text \<open>One pending modification: the broker's order shows its quantity and price.\<close>

definition modification_visible :: "pydict \<Rightarrow> operation \<Rightarrow> bool res" where
  "modification_visible order previous =
     bindR (case merged_request previous of None \<Rightarrow> raise TypeError ''json'' | Some d \<Rightarrow> Inr d) (\<lambda>expected.
     case (decimal_of_text (py_str (dict_get order ''qty'' PNone)), decimal_of_text (py_str (dict_get order ''price'' PNone))) of
       (Some q, Some p) \<Rightarrow>
         if \<not> dec_finite q \<or> \<not> dec_finite p then Inr False
         else bindR (member ''qty'' (as_dict expected)) (\<lambda>eq.
           (case decimal_of_text (py_str eq) of
              None \<Rightarrow> Inr False
            | Some dq \<Rightarrow>
               if \<not> dec_finite dq \<or> dec_val q \<noteq> dec_val dq then Inr False
               else bindR (member ''price'' (as_dict expected)) (\<lambda>ep.
                 (case decimal_of_text (py_str ep) of
                    None \<Rightarrow> Inr False
                  | Some dp \<Rightarrow> Inr (dec_finite dp \<and> dec_val p = dec_val dp)))))
     | _ \<Rightarrow> Inr False)"

fun all_visible :: "pydict \<Rightarrow> row_view list \<Rightarrow> unit res" where
  "all_visible order [] = ok"
| "all_visible order (v # vs) = bindR (modification_visible order (row v)) (\<lambda>b.
     if \<not> b then raise ValueError ''not yet observed'' else all_visible order vs)"

definition require_modification_visibility ::
    "world \<Rightarrow> int \<Rightarrow> pydict \<Rightarrow> paper \<Rightarrow> string list res \<times> paper" where
  "require_modification_visibility w acc order s =
     (case member ''order_id'' (as_dict order) of
        Inl e \<Rightarrow> (Inl e, s)
      | Inr oid \<Rightarrow>
         bindS (on_journal (\<lambda>j. unobserved_modifications (io w ''unobserved'') j acc (py_str oid)) s) (\<lambda>pending s.
           (bindR (all_visible order pending) (\<lambda>_. Inr (map (\<lambda>v. operation_id (row v)) pending)), s)))"

text \<open>A whole quantity, which the broker reports as a float; \<open>math.isfinite\<close> converts an integer to a float.\<close>

fun paper_quantity :: "pyval \<Rightarrow> int res" where
  "paper_quantity (PInt n) = bindR (float_of_int n) (\<lambda>_.
     if n \<le> 0 then raise ValueError ''positive whole number'' else Inr n)"
| "paper_quantity (PFloat f _) = (case f of
     Fin x \<Rightarrow> if x \<le> 0 \<or> x \<noteq> of_int \<lfloor>x\<rfloor> then raise ValueError ''positive whole number'' else Inr \<lfloor>x\<rfloor>
   | _ \<Rightarrow> raise ValueError ''positive whole number'')"
| "paper_quantity _ = raise ValueError ''positive whole number''"

definition check_usd_cap :: "config \<Rightarrow> pydec \<Rightarrow> pyval \<Rightarrow> unit res" where
  "check_usd_cap cfg number q = (case map_of (max_order_notional (policy cfg)) ''USD'' of
     None \<Rightarrow> ok
   | Some cap \<Rightarrow> (case decimal_of_text (py_str q) of
       None \<Rightarrow> raise InvalidOperation ''Decimal''
     | Some n \<Rightarrow> bindR (dec_mul number n) (\<lambda>value.
         guardR (dec_val (float_decimal cfg cap) < dec_val value) (Exn ValueError ''USD notional cap''))))"

definition check_target :: "op_kind \<Rightarrow> config \<Rightarrow> pydict \<Rightarrow> unit res" where
  "check_target k cfg order =
     (if k = PLACE then ok
      else if \<not> py_eq (dict_get order ''time_in_force'' PNone) (PStr ''DAY'')
           \<or> \<not> py_eq (dict_get order ''order_type'' PNone) (PStr ''NORMAL'')
           \<or> \<not> py_eq (dict_get order ''session'' PNone) (PStr (session_rth (sessions cfg)))
      then raise ValueError ''outside verified DAY/regular-hours paper scope''
      else if k = MODIFY then
        bindR (in_text_set (dict_get order ''order_status'' PNone) TERMINAL_BROKER) (\<lambda>terminal.
          guardR terminal (Exn ValueError ''Target order is terminal''))
      else ok)"

definition verified_instrument :: "world \<Rightarrow> string \<Rightarrow> instrument_facts res" where
  "verified_instrument w c = (case instrument_lookup w of
     None \<Rightarrow> raise ValueError ''classification cannot be verified''
   | Some f \<Rightarrow> bindR (f c) (\<lambda>found. case found of
       [i] \<Rightarrow> if code i \<noteq> c \<or> classification i \<notin> {Some ''STOCK'', Some ''ETF''}
              then raise ValueError ''verified US stock or ETF'' else Inr i
     | _ \<Rightarrow> raise ValueError ''verified US stock or ETF''))"

definition paper_facts :: "pydict \<Rightarrow> int \<Rightarrow> pydec \<Rightarrow> instrument_facts \<Rightarrow> order_facts" where
  "paper_facts order n number i =
     \<lparr>order_type = ''NORMAL'', trd_side = py_str (dict_get order ''trd_side'' PNone), qty = n,
      legs = [\<lparr>instrument = i, qty_ratio = 1\<rparr>], price = Some (round64 (dec_val number)), aux_price = None,
      is_combo = False\<rparr>"

definition merged_place :: "config \<Rightarrow> pydict \<Rightarrow> int \<Rightarrow> string \<Rightarrow> int \<Rightarrow> pyval \<Rightarrow> pydict" where
  "merged_place cfg ps acc c n p =
     [(''code'', PStr c), (''qty'', PInt n), (''price'', p), (''trd_side'', dict_get ps ''trd_side'' PNone),
      (''order_type'', PStr ''NORMAL''), (''time_in_force'', PStr ''DAY''), (''session'', PStr (session_rth (sessions cfg))),
      (''adjust_limit'', PInt 0), (''trd_env'', PStr ''SIMULATE''), (''acc_id'', PInt acc),
      (''remark'', dict_get ps ''remark'' (PStr []))]"

definition merged_modify :: "pydict \<Rightarrow> int \<Rightarrow> int \<Rightarrow> pyval \<Rightarrow> pydict" where
  "merged_modify ps acc n p =
     [(''modify_order_op'', PStr ''NORMAL''), (''order_id'', dict_get ps ''order_id'' PNone), (''qty'', PInt n), (''price'', p),
      (''adjust_limit'', PInt 0), (''trd_env'', PStr ''SIMULATE''), (''acc_id'', PInt acc)]"

definition merged_cancel :: "pydict \<Rightarrow> int \<Rightarrow> pydict" where
  "merged_cancel ps acc =
     [(''modify_order_op'', PStr ''CANCEL''), (''order_id'', dict_get ps ''order_id'' PNone), (''qty'', PInt 0), (''price'', PInt 0),
      (''trd_env'', PStr ''SIMULATE''), (''acc_id'', PInt acc)]"

text \<open>The part of \<open>_prepare\<close> after the target is known: no access to the journal.\<close>

definition prepare_order ::
    "config \<Rightarrow> world \<Rightarrow> op_kind \<Rightarrow> pydict \<Rightarrow> int \<Rightarrow> active_operation option \<Rightarrow> pydict \<Rightarrow>
     (pydict \<times> active_operation option) res" where
  "prepare_order cfg w k ps acc active order =
     (let c = py_str (dict_get order ''code'' (PStr [])) in
      if \<not> startswith c ''US.'' then raise ValueError ''outside US equity paper scope''
      else bindR (in_text_set (dict_get order ''trd_side'' PNone) {''BUY'', ''SELL''}) (\<lambda>side.
      if \<not> side then raise ValueError ''outside US equity paper scope''
      else if k = CANCEL then Inr (merged_cancel ps acc, active)
      else bindR (verified_instrument w c) (\<lambda>i.
      let q = dict_get ps ''qty'' (dict_get order ''qty'' PNone);
          p = dict_get ps ''price'' (PStr (py_str (dict_get order ''price'' PNone))) in
      bindR (paper_quantity q) (\<lambda>n.
      bindR (decimal_price p) (\<lambda>number.
      bindR (validate_instrument_order i q ''NORMAL'' p PNone) (\<lambda>_.
      bindR (check_usd_cap cfg number q) (\<lambda>_.
      bindR (assess_control_facts (float_repr cfg) (float_decimal cfg) (policy cfg) active (paper_facts order n number i)) (\<lambda>active'.
        Inr (if k = PLACE then merged_place cfg ps acc c n p else merged_modify ps acc n p, active')))))))))"

text \<open>\<open>_prepare\<close>: the merged request, the modifications it observed, and the active operation.\<close>

definition prepare_dispatch ::
    "config \<Rightarrow> world \<Rightarrow> op_kind \<Rightarrow> pydict \<Rightarrow> int \<Rightarrow> active_operation option \<Rightarrow> paper \<Rightarrow>
     (pydict \<times> string list \<times> active_operation option) res \<times> paper" where
  "prepare_dispatch cfg w k ps acc active s =
     (if \<not> connected w then (raise ValueError ''Trade context not connected'', s)
      else case (if k = PLACE then Inr ps else target_order w) of
        Inl e \<Rightarrow> (Inl e, s)
      | Inr order \<Rightarrow>
         bindS (check_target k cfg order, s) (\<lambda>_ s.
         bindS (if k = MODIFY then require_modification_visibility w acc order s else (Inr [], s)) (\<lambda>observed s.
           (bindR (prepare_order cfg w k ps acc active order) (\<lambda>(merged, active'). Inr (merged, observed, active')), s))))"

subsection \<open>Admission\<close>

datatype admission = Answered paper_result | Proceed row_view int

text \<open>The block under the admission lock.\<close>

definition admit_phase ::
    "config \<Rightarrow> world \<Rightarrow> op_kind \<Rightarrow> pydict \<Rightarrow> string \<Rightarrow> string \<Rightarrow> pyval \<Rightarrow> paper \<Rightarrow> admission res \<times> paper" where
  "admit_phase cfg w k ps oid ep acc s =
     bindS (on_journal (\<lambda>j. lookup (io w ''lookup2'') j oid) s) (\<lambda>found s.
       case found of
         Some v \<Rightarrow> bindS (retry cfg w ''retry2'' s v k ps acc) (\<lambda>r s. (Inr (Answered r), s))
       | None \<Rightarrow>
          bindS (guardR (ep \<noteq> epoch (journal s)) (Exn ExecutionConflict ''non-current-epoch token''), s) (\<lambda>_ s.
          bindS (ready w ''ready1'' s) (\<lambda>_ s.
          bindS (resolve_account cfg w acc, s) (\<lambda>account s.
          bindS (canonicalize_request ''SIMULATE'' account (kind_text k) ps, s) (\<lambda>canon s.
          bindS (reserve_permit w, s) (\<lambda>_ s.
          bindS (on_journal (\<lambda>j. admit (digest cfg) (io w ''admit'') j oid ep account k canon ps (uuid w) (now w)) s)
            (\<lambda>(v, admitted) s.
              if \<not> admitted then bindS (retry cfg w ''retry3'' s v k ps acc) (\<lambda>r s. (Inr (Answered r), s))
              else (Inr (Proceed v account), s))))))))"

subsection \<open>Dispatch\<close>

text \<open>The checks under the execution lock, up to the committed marker.\<close>

definition risk_check :: "world \<Rightarrow> op_kind \<Rightarrow> int \<Rightarrow> paper \<Rightarrow> unit res \<times> paper" where
  "risk_check w k acc s = (case controls_of s of
     None \<Rightarrow> (ok, s)
   | Some c \<Rightarrow>
      if k = CANCEL then (ok, s)
      else (case check_new_risk (io w ''risk'') c ''SIMULATE'' (PInt acc) of (r, c') \<Rightarrow> (r, s\<lparr>controls_of := Some c'\<rparr>)))"

definition charge_step ::
    "config \<Rightarrow> world \<Rightarrow> int \<Rightarrow> active_operation option \<Rightarrow> paper \<Rightarrow> unit res \<times> paper" where
  "charge_step cfg w acc active s =
     (case check_dispatch_controls (sessions cfg) (float_decimal cfg) (policy cfg) (io w ''charge'') (controls_of s)
             active acc ''SIMULATE'' (clock w ''charge'') (clock w ''approval'') of
        (Inl e, cs) \<Rightarrow> (Inl e, s\<lparr>controls_of := cs\<rparr>)
      | (Inr active', cs) \<Rightarrow>
         (case confirm_dispatch_controls (sessions cfg) (policy cfg) (io w ''confirm'') cs active'
                 (clock w ''confirm'') (clock w ''confirm approval'') of
            (r, cs') \<Rightarrow> (r, s\<lparr>controls_of := cs'\<rparr>)))"

definition before_marker ::
    "config \<Rightarrow> world \<Rightarrow> op_kind \<Rightarrow> pydict \<Rightarrow> row_view \<Rightarrow> int \<Rightarrow> active_operation option \<Rightarrow> paper \<Rightarrow>
     (pydict \<times> string list) res \<times> paper" where
  "before_marker cfg w k ps v acc active s =
     bindS (ready w ''ready2'' s) (\<lambda>_ s.
     bindS (prepare_dispatch cfg w k ps acc active s) (\<lambda>(merged, observed, active') s.
     let merged' = (if k = PLACE
           then put_member ''remark'' (case order_tag (row v) of None \<Rightarrow> PNone | Some t \<Rightarrow> PStr t) merged else merged) in
     bindS (protect_permit w, s) (\<lambda>_ s.
     bindS (risk_check w k acc s) (\<lambda>_ s.
     bindS (charge_step cfg w acc active' s) (\<lambda>_ s.
     bindS (on_journal (\<lambda>j. mark_dispatch (io w ''mark'') j (operation_id (row v)) merged') s) (\<lambda>_ s.
       (Inr (merged', observed), s)))))))"

text \<open>\<open>_finish\<close>: record the outcome; what could not be stored is remembered until the restart.\<close>

definition late_outcome :: "string \<Rightarrow> string option \<Rightarrow> bool \<Rightarrow> op_state \<Rightarrow> string \<Rightarrow> pydict option \<Rightarrow> late_result" where
  "late_outcome oid tag committed st disp rc =
     \<lparr>late_operation = oid, late_tag = tag, late_state = st, late_stored = committed,
      late_disposition = (if committed then disp else ''OBSERVED_NOT_STORED''),
      late_receipt = (case rc of None \<Rightarrow> [] | Some d \<Rightarrow> d), late_acknowledged = (st = ACKNOWLEDGED)\<rparr>"

definition remember_late :: "string \<Rightarrow> late_result \<Rightarrow> paper \<Rightarrow> paper_result \<times> paper" where
  "remember_late oid l s = (Late l, s\<lparr>late_failure := put_key oid l (late_failure s)\<rparr>)"

definition finish ::
    "world \<Rightarrow> row_view \<Rightarrow> op_state \<Rightarrow> string \<Rightarrow> pydict option \<Rightarrow> string option \<Rightarrow> string option \<Rightarrow> string list \<Rightarrow> paper \<Rightarrow>
     paper_result \<times> paper" where
  "finish w v st disp rc err why observed s =
     (let oid = operation_id (row v); tag = order_tag (row v) in
      case on_journal (\<lambda>j. outcome (io w ''outcome'') j oid st disp rc err why observed (now w)) s of
        (Inl e, s) \<Rightarrow> remember_late oid (late_outcome oid tag False st disp rc) s
      | (Inr _, s) \<Rightarrow>
         (case on_journal (\<lambda>j. lookup (io w ''lookup3'') j oid) s of
            (Inr (Some v'), s) \<Rightarrow>
              (case result_of w ''finish'' s v' of (r, s) \<Rightarrow> (r, s\<lparr>late_identity := pop_key oid (late_identity s)\<rparr>))
          | (_, s) \<Rightarrow> remember_late oid (late_outcome oid tag True st disp rc) s))"

text \<open>From the committed marker on: the broker call and its outcome. An exception raised by the call or a
  refusal leaves the outcome unknown; an acknowledgement stays one even when its receipt cannot be read.\<close>

definition readable_receipt :: "pydict res \<Rightarrow> pydict res" where
  "readable_receipt r = bindR r (\<lambda>d. bindR (serialize_identifiers (as_dict d)) (\<lambda>v. case v of
     PDict d' _ \<Rightarrow> bindR (json_check (as_dict d')) (\<lambda>_. Inr d') | _ \<Rightarrow> raise TypeError ''record''))"

definition call_broker ::
    "world \<Rightarrow> row_view \<Rightarrow> pydict \<Rightarrow> string list \<Rightarrow> paper \<Rightarrow> paper_result \<times> paper" where
  "call_broker w v merged observed s =
     (let s = s\<lparr>calls := calls s @ [(operation_id (row v), merged)]\<rparr> in
      case reply w of
        CallRaises e \<Rightarrow>
          finish w v UNKNOWN_OUTCOME ''POSSIBLY_SENT'' None (Some (exn_tag e)) (Some ''UNRESOLVED_OUTCOME'') [] s
      | Refused t \<Rightarrow>
          finish w v UNKNOWN_OUTCOME ''POSSIBLY_SENT'' None (Some t) (Some ''UNRESOLVED_OUTCOME'') [] s
      | Acknowledged order_id rec \<Rightarrow>
         (case readable_receipt rec of
            Inl e \<Rightarrow> finish w v ACKNOWLEDGED ''ACKNOWLEDGED''
              (Some (case order_id of None \<Rightarrow> [] | Some t \<Rightarrow> [(''order_id'', PStr t)]))
              (Some (exn_tag e)) (Some ''RECEIPT_UNREADABLE'') observed s
          | Inr rc \<Rightarrow> finish w v ACKNOWLEDGED ''ACKNOWLEDGED'' (Some rc) None None observed s))"

text \<open>A failure before the marker: the refusal is recorded and the exception goes on, classified.\<close>

definition refuse_dispatch :: "world \<Rightarrow> op_kind \<Rightarrow> row_view \<Rightarrow> exn \<Rightarrow> paper \<Rightarrow> paper_result outcome \<times> paper" where
  "refuse_dispatch w k v e s =
     (let oid = operation_id (row v) in
      case on_journal (\<lambda>j. outcome (io w ''refuse'') j oid REFUSED ''NOT_SENT'' None (Some (exn_tag e)) None [] (now w)) s of
        (Inl e', s) \<Rightarrow> (not_sent (kind_text k) True False (lift_res (Inl e')), s)
      | (Inr _, s) \<Rightarrow> (not_sent (kind_text k) True False (lift_res (Inl e)),
                       s\<lparr>late_identity := pop_key oid (late_identity s)\<rparr>))"

definition dispatch_phase ::
    "config \<Rightarrow> world \<Rightarrow> op_kind \<Rightarrow> pydict \<Rightarrow> row_view \<Rightarrow> int \<Rightarrow> active_operation option \<Rightarrow> paper \<Rightarrow>
     paper_result outcome \<times> paper" where
  "dispatch_phase cfg w k ps v acc active s =
     (let s = s\<lparr>late_identity := put_key (operation_id (row v)) v (late_identity s)\<rparr> in
      case before_marker cfg w k ps v acc active s of
        (Inl e, s) \<Rightarrow> refuse_dispatch w k v e s
      | (Inr (merged, observed), s) \<Rightarrow> (case call_broker w v merged observed s of (r, s) \<Rightarrow> (Inr r, s)))"

subsection \<open>A call\<close>

definition token_text :: "pyval \<Rightarrow> string" where
  "token_text v = (case v of PStr s \<Rightarrow> s | _ \<Rightarrow> [])"

definition retry_known ::
    "config \<Rightarrow> world \<Rightarrow> row_view \<Rightarrow> op_kind \<Rightarrow> pydict \<Rightarrow> pyval \<Rightarrow> paper \<Rightarrow> paper_result outcome \<times> paper" where
  "retry_known cfg w v k ps acc s = (case retry cfg w ''retry1'' s v k ps acc of (r, s) \<Rightarrow> (lift_res r, s))"

definition execute ::
    "config \<Rightarrow> world \<Rightarrow> op_kind \<Rightarrow> pydict \<Rightarrow> pyval \<Rightarrow> pyval \<Rightarrow> pyval \<Rightarrow> active_operation option \<Rightarrow> paper \<Rightarrow>
     paper_result outcome \<times> paper" where
  "execute cfg w k ps oid ep acc active s =
     (case not_sent (kind_text k) False False (lift_res (request_checks cfg k ps oid ep)) of
        Inl e \<Rightarrow> (Inl e, s)
      | Inr ps' \<Rightarrow>
         let t = token_text oid in
         if t \<in> fst ` set (late_failure s) then
           (case map_of (late_identity s) t of
              None \<Rightarrow> (raises KeyError t, s)
            | Some v \<Rightarrow> retry_known cfg w v k ps' acc s)
         else (case on_journal (\<lambda>j. lookup (io w ''lookup1'') j t) s of
           (Inl e, s) \<Rightarrow> (lift_res (Inl e), s)
         | (Inr (Some v), s) \<Rightarrow> retry_known cfg w v k ps' acc s
         | (Inr None, s) \<Rightarrow>
            (case admit_phase cfg w k ps' t (token_text ep) acc s of
               (Inl e, s) \<Rightarrow> (not_sent (kind_text k) False True (lift_res (Inl e)), s)
             | (Inr (Answered r), s) \<Rightarrow> (Inr r, s)
             | (Inr (Proceed v resolved), s) \<Rightarrow> dispatch_phase cfg w k ps' v resolved active s)))"

end
