(* ===== verification/Paper_Runs.thy ===== *)
theory Paper_Runs
  imports Paper_Execution
begin

text \<open>
  Properties of the paper lifecycle. A step that starts no broker call is \<open>quiet\<close>: it leaves the call log
  alone and moves the journal by journal calls only. Every phase is shown to be quiet except the broker call
  itself, which follows a committed dispatch marker; the properties of \<open>execute\<close> and of runs of the process
  rest on that.
\<close>

subsection \<open>Quiet steps\<close>

definition quiet :: "paper \<Rightarrow> paper \<Rightarrow> bool" where
  "quiet s t \<longleftrightarrow> calls t = calls s \<and> call_step\<^sup>*\<^sup>* (journal s) (journal t)"

lemma quiet_refl [simp, intro]: "quiet s s"
  by (simp add: quiet_def)

lemma quiet_trans [trans]: "quiet s t \<Longrightarrow> quiet t u \<Longrightarrow> quiet s u"
  by (auto simp: quiet_def)

lemma quiet_fields [simp]:
  "quiet s (t\<lparr>controls_of := c\<rparr>) = quiet s t" "quiet s (t\<lparr>late_failure := f\<rparr>) = quiet s t"
  "quiet s (t\<lparr>late_identity := i\<rparr>) = quiet s t"
  "quiet (s\<lparr>controls_of := c\<rparr>) t = quiet s t" "quiet (s\<lparr>late_failure := f\<rparr>) t = quiet s t"
  "quiet (s\<lparr>late_identity := i\<rparr>) t = quiet s t"
  by (simp_all add: quiet_def)

text \<open>A \<open>steady\<close> step touches the journal only.\<close>

definition steady :: "paper \<Rightarrow> paper \<Rightarrow> bool" where
  "steady s t \<longleftrightarrow> quiet s t \<and> controls_of t = controls_of s \<and> late_failure t = late_failure s
     \<and> late_identity t = late_identity s"

lemma steady_refl [simp, intro]: "steady s s"
  by (simp add: steady_def)

lemma steady_trans: "steady s t \<Longrightarrow> steady t u \<Longrightarrow> steady s u"
  by (auto simp: steady_def intro: quiet_trans)

lemma steady_quiet: "steady s t \<Longrightarrow> quiet s t"
  by (simp add: steady_def)

lemma bindS_related:
  assumes "\<And>a b c. Q a b \<Longrightarrow> Q b c \<Longrightarrow> Q a c"
    and "Q s (snd m)" "\<And>x u. m = (Inr x, u) \<Longrightarrow> Q u (snd (f x u))"
  shows "Q s (snd (bindS m f))"
  using assms by (fastforce simp: bindS_def split: prod.split sum.split)

lemma quiet_bindS:
  "quiet s (snd m) \<Longrightarrow> (\<And>x u. m = (Inr x, u) \<Longrightarrow> quiet u (snd (f x u))) \<Longrightarrow> quiet s (snd (bindS m f))"
  using quiet_trans by (rule bindS_related)

lemma steady_bindS:
  "steady s (snd m) \<Longrightarrow> (\<And>x u. m = (Inr x, u) \<Longrightarrow> steady u (snd (f x u))) \<Longrightarrow> steady s (snd (bindS m f))"
  using steady_trans by (rule bindS_related)

lemma steady_on_journal:
  assumes "\<And>r t. f (journal s) = (r, t) \<Longrightarrow> call_step\<^sup>*\<^sup>* (journal s) t"
  shows "steady s (snd (on_journal f s))"
  using assms by (cases "f (journal s)") (simp add: on_journal_def steady_def quiet_def)

lemmas quiet_on_journal = steady_quiet [OF steady_on_journal]

lemma require_ready_step: "require_ready wr i j = (r, t) \<Longrightarrow> call_step j t"
  by (auto simp: require_ready_def split: prod.splits intro: call_step.intros(7))

lemma steady_ready: "steady s (snd (ready w site s))"
  unfolding ready_def by (auto intro!: steady_on_journal r_into_rtranclp require_ready_step)

lemma steady_health: "steady s (snd (paper_health w site s))"
proof -
  have "steady s (snd (on_journal (health (writable w site) (io w site)) s))"
    by (rule steady_on_journal) (auto intro: call_step.intros(7))
  then show ?thesis by (auto simp: paper_health_def split: prod.split)
qed

lemma steady_result: "steady s (snd (result_of w site s v))"
  using steady_health [of s w site] by (auto simp: result_of_def Let_def split: prod.split)

lemma steady_retry: "steady s (snd (retry cfg w site s v k ps acc))"
  using steady_result [of s w site v] by (auto simp: retry_def Let_def split: sum.split option.split prod.split)

lemma steady_visibility: "steady s (snd (require_modification_visibility w acc order s))"
  unfolding require_modification_visibility_def
  by (auto split: sum.split intro!: steady_bindS steady_on_journal r_into_rtranclp intro: call_step.intros(9))

lemma steady_prepare: "steady s (snd (prepare_dispatch cfg w k ps acc active s))"
  unfolding prepare_dispatch_def
  by (auto split: sum.split intro!: steady_bindS steady_visibility)

lemma admit_step: "admit sha256 i j oid ep acc k canon req u n = (r, t) \<Longrightarrow> call_step j t"
  by (rule call_step.intros(1))

lemma steady_admit: "steady s (snd (admit_phase cfg w k ps oid ep acc s))"
  unfolding admit_phase_def
  by (auto split: option.split prod.split
      intro!: steady_bindS steady_ready steady_retry steady_on_journal r_into_rtranclp
      intro: call_step.intros(8)) (erule admit_step)

lemmas quiet_ready = steady_quiet [OF steady_ready]
lemmas quiet_result = steady_quiet [OF steady_result]
lemmas quiet_prepare = steady_quiet [OF steady_prepare]

lemma quiet_risk: "quiet s (snd (risk_check w k acc s))"
  by (auto simp: risk_check_def split: option.split prod.split)

lemma quiet_charge: "quiet s (snd (charge_step cfg w acc active s))"
  by (auto simp: charge_step_def split: sum.split prod.split)

lemma quiet_before_marker: "quiet s (snd (before_marker cfg w k ps v acc active s))"
  unfolding before_marker_def
  by (auto simp: Let_def split: prod.split
      intro!: quiet_bindS quiet_ready quiet_prepare quiet_risk quiet_charge quiet_on_journal r_into_rtranclp
      intro: call_step.intros(2))

text \<open>A \<open>kept\<close> step leaves the controls alone.\<close>

definition kept :: "paper \<Rightarrow> paper \<Rightarrow> bool" where
  "kept s t \<longleftrightarrow> quiet s t \<and> controls_of t = controls_of s"

lemma kept_trans: "kept s t \<Longrightarrow> kept t u \<Longrightarrow> kept s u"
  by (auto simp: kept_def intro: quiet_trans)

lemma steady_kept: "steady s t \<Longrightarrow> kept s t"
  by (simp add: steady_def kept_def)

lemma kept_fields [simp]:
  "kept s (t\<lparr>late_failure := f\<rparr>) = kept s t" "kept s (t\<lparr>late_identity := i\<rparr>) = kept s t"
  by (simp_all add: kept_def)

lemma kept_fst: "kept s (snd m) \<Longrightarrow> m = (r, t) \<Longrightarrow> kept s t"
  by simp

lemma steady_outcome:
  assumes "executor_outcome st why"
  shows "steady s (snd (on_journal (\<lambda>j. outcome i j oid st disp rc err why observed n) s))"
  using assms by (auto intro!: steady_on_journal r_into_rtranclp intro: call_step.intros(3))

lemma steady_lookup: "steady s (snd (on_journal (\<lambda>j. lookup i j oid) s))"
  by (auto intro!: steady_on_journal r_into_rtranclp intro: call_step.intros(8))

lemma kept_remember [simp]: "kept s (snd (remember_late oid l t)) = kept s t"
  by (simp add: remember_late_def)

lemma kept_finish:
  assumes "executor_outcome st why"
  shows "kept s (snd (finish w v st disp rc err why observed s))"
proof -
  let ?f = "\<lambda>j. outcome (io w ''outcome'') j (operation_id (row v)) st disp rc err why observed (now w)"
  obtain r1 s1 where 1: "on_journal ?f s = (r1, s1)" by fastforce
  obtain r2 s2 where 2: "on_journal (\<lambda>j. lookup (io w ''lookup3'') j (operation_id (row v))) s1 = (r2, s2)" by fastforce
  have q1: "kept s s1" by (rule kept_fst [OF steady_kept [OF steady_outcome [OF assms]] 1])
  have q2: "kept s s2" by (rule kept_trans [OF q1 kept_fst [OF steady_kept [OF steady_lookup] 2]])
  show ?thesis
  proof (cases r1)
    case (Inl e)
    then show ?thesis using q1 by (simp add: finish_def Let_def 1)
  next
    case ok1: (Inr u)
    show ?thesis
    proof (cases "\<exists>v'. r2 = Inr (Some v')")
      case True
      then obtain v' where r2: "r2 = Inr (Some v')" by blast
      obtain r3 s3 where 3: "result_of w ''finish'' s2 v' = (r3, s3)" by fastforce
      have "kept s s3" by (rule kept_trans [OF q2 kept_fst [OF steady_kept [OF steady_result] 3]])
      then show ?thesis by (simp add: finish_def Let_def 1 2 3 ok1 r2)
    next
      case False
      then show ?thesis using q2 by (auto simp: finish_def Let_def 1 2 ok1 split: sum.split option.split)
    qed
  qed
qed

lemma quiet_fst: "quiet s (snd m) \<Longrightarrow> m = (r, t) \<Longrightarrow> quiet s t"
  by simp

lemma quiet_refuse: "quiet s (snd (refuse_dispatch w k v e s))"
proof -
  have "executor_outcome REFUSED None" by (simp add: executor_outcome_def)
  from steady_quiet [OF steady_outcome [OF this], of s "io w ''refuse''" "operation_id (row v)" "''NOT_SENT''" None "Some (exn_tag e)" "[]" "now w"]
  show ?thesis by (auto simp: refuse_dispatch_def Let_def split: sum.split prod.split)
qed

text \<open>The broker call is the one step that is not quiet.\<close>

definition logged :: "string \<Rightarrow> pydict \<Rightarrow> paper \<Rightarrow> paper" where
  "logged oid merged s = s\<lparr>calls := calls s @ [(oid, merged)]\<rparr>"

lemma call_broker_logged:
  "kept (logged (operation_id (row v)) merged s) (snd (call_broker w v merged observed s))"
proof -
  have "executor_outcome UNKNOWN_OUTCOME (Some ''UNRESOLVED_OUTCOME'')" "executor_outcome ACKNOWLEDGED why" for why
    by (simp_all add: executor_outcome_def)
  then show ?thesis
    by (auto simp: call_broker_def logged_def [symmetric] Let_def split: broker_reply.split sum.split intro!: kept_finish)
qed

text \<open>Passing every check means that the marker was committed.\<close>

lemma bindS_Inr: "bindS m f = (Inr y, t) \<longleftrightarrow> (\<exists>x u. m = (Inr x, u) \<and> f x u = (Inr y, t))"
  by (auto simp: bindS_def split: prod.splits sum.splits)

lemma before_marker_marked:
  assumes "before_marker cfg w k ps v acc active s = (Inr (merged, observed), t)"
  shows "\<exists>u. quiet s u \<and> calls t = calls s
    \<and> mark_dispatch (io w ''mark'') (journal u) (operation_id (row v)) merged = (ok, journal t)"
proof -
  have calls: "calls t = calls s"
    using quiet_before_marker [of s cfg w k ps v acc active] assms by (simp add: quiet_def)
  obtain s1 m0 o0 a0 s2 s3 s4 s5 where steps:
      "ready w ''ready2'' s = (ok, s1)" "prepare_dispatch cfg w k ps acc active s1 = (Inr (m0, o0, a0), s2)"
      "protect_permit w = ok" "risk_check w k acc s2 = (ok, s3)" "charge_step cfg w acc a0 s3 = (ok, s4)"
      "on_journal (\<lambda>j. mark_dispatch (io w ''mark'') j (operation_id (row v)) merged) s4 = (ok, s5)" "t = s5"
    using assms unfolding before_marker_def Let_def by (force simp: bindS_Inr)
  have "quiet s s4"
    using quiet_fst [OF quiet_ready steps(1)] quiet_fst [OF quiet_prepare steps(2)] quiet_fst [OF quiet_risk steps(4)]
      quiet_fst [OF quiet_charge steps(5)] quiet_trans by metis
  moreover have "mark_dispatch (io w ''mark'') (journal s4) (operation_id (row v)) merged = (ok, journal t)"
    using steps(6,7) by (auto simp: on_journal_def split: prod.splits)
  ultimately show ?thesis using calls by blast
qed

subsection \<open>What a phase does to the call log\<close>

text \<open>A dispatch ends in an exception with no call made, or in a result after exactly one call whose marker
  had been committed.\<close>

lemma dispatch_phase_cases:
  assumes "dispatch_phase cfg w k ps v acc active s = (r, t)"
  obtains (refused) e where "r = Inl e" "quiet s t"
    | (called) merged res u m where "r = Inr res" "quiet s u"
        "mark_dispatch (io w ''mark'') (journal u) (operation_id (row v)) merged = (ok, journal m)"
        "calls m = calls s" "kept (logged (operation_id (row v)) merged m) t"
proof -
  define s0 where "s0 = s\<lparr>late_identity := put_key (operation_id (row v)) v (late_identity s)\<rparr>"
  have s0: "quiet s u = quiet s0 u" "calls s0 = calls s" for u by (simp_all add: s0_def)
  obtain b m where bm: "before_marker cfg w k ps v acc active s0 = (b, m)" by fastforce
  show thesis
  proof (cases b)
    case (Inl e)
    have rt: "refuse_dispatch w k v e m = (r, t)"
      using assms Inl bm by (simp add: dispatch_phase_def s0_def [symmetric] Let_def)
    have "quiet s0 m" by (rule quiet_fst [OF quiet_before_marker bm])
    then have "quiet s t" using quiet_fst [OF quiet_refuse rt] quiet_trans s0(1) by blast
    moreover have "\<exists>e'. r = Inl e'"
      using rt by (auto simp: refuse_dispatch_def Let_def not_sent_def split: prod.splits sum.splits if_split_asm)
    ultimately show thesis using refused by blast
  next
    case (Inr mo)
    obtain merged observed where mo: "mo = (merged, observed)" by fastforce
    obtain res where res: "call_broker w v merged observed m = (res, t)" "r = Inr res"
      using assms Inr bm by (auto simp: dispatch_phase_def s0_def [symmetric] Let_def mo split: prod.splits)
    obtain u where "quiet s0 u" "calls m = calls s0"
        "mark_dispatch (io w ''mark'') (journal u) (operation_id (row v)) merged = (ok, journal m)"
      using before_marker_marked [of cfg w k ps v acc active s0 merged observed m] bm Inr mo by blast
    then show thesis
      using called res(2) kept_fst [OF call_broker_logged res(1)] s0 by metis
  qed
qed

lemma dispatch_phase_calls:
  assumes "dispatch_phase cfg w k ps v acc active s = (r, t)"
  shows "(\<exists>e. r = Inl e) \<and> calls t = calls s
    \<or> (\<exists>res merged. r = Inr res \<and> calls t = calls s @ [(operation_id (row v), merged)])"
  using assms by (cases rule: dispatch_phase_cases) (auto simp: quiet_def kept_def logged_def)

lemma not_sent_Inl: "\<exists>e'. not_sent op adm look (Inl e) = Inl e'"
  by (auto simp: not_sent_def)

lemma steady_snd: "steady s (snd m) \<Longrightarrow> m = (r, t) \<Longrightarrow> steady s t"
  by simp

lemma retry_known_steady: "retry_known cfg w v k ps acc s = (r, t) \<Longrightarrow> steady s t"
  using steady_retry [of s cfg w "''retry1''" v k ps acc] by (auto simp: retry_known_def split: prod.splits)

lemma on_journal_iff: "on_journal f s = (r, t) \<longleftrightarrow> (\<exists>j. f (journal s) = (r, j) \<and> t = s\<lparr>journal := j\<rparr>)"
  by (auto simp: on_journal_def split: prod.splits)

lemma admit_row:
  assumes "admit sha256 i j oid ep acc k canon req u n = (Inr (v, b), t)"
  shows "operation_id (row v) = oid"
proof -
  from assms obtain d where "admit_body sha256 j oid ep acc k canon req u n (db j) = Done (v, b) d"
    unfolding admit_def by (auto elim: transaction_cases)
  then show ?thesis by (cases rule: admit_bodyE) (auto dest: row_of_SomeD)
qed

lemma admit_phase_row:
  assumes "admit_phase cfg w k ps oid ep acc s = (Inr (Proceed v resolved), t)"
  shows "operation_id (row v) = oid"
proof -
  obtain found s1 where 1: "on_journal (\<lambda>j. lookup (io w ''lookup2'') j oid) s = (Inr found, s1)"
    using assms unfolding admit_phase_def bindS_Inr by blast
  have "found = None" using assms 1 by (cases found) (auto simp: admit_phase_def bindS_Inr)
  then obtain account canon b s2 s3 where
      "on_journal (\<lambda>j. admit (digest cfg) (io w ''admit'') j oid ep account k canon ps (uuid w) (now w)) s2 = (Inr (v, b), s3)"
    using assms 1 unfolding admit_phase_def
    by (auto simp: bindS_Inr split: if_split_asm)
  then show ?thesis by (auto simp: on_journal_iff dest: admit_row)
qed

lemma lookup_found: "lookup i j oid = (Inr found, j') \<Longrightarrow> found = row_of (db j) oid \<and> db j' = db j"
  unfolding lookup_def by (auto elim: transaction_cases)

text \<open>The two ways a call ends: quietly, answered or refused, or through a dispatch that follows a quiet
  admission of the same operation.\<close>

lemma execute_cases:
  assumes "execute cfg w k ps oid ep acc active s = (r, t)"
  obtains (quiet) "steady s t"
    | (dispatch) ps' v resolved u where "steady s u" "operation_id (row v) = token_text oid"
        "dispatch_phase cfg w k ps' v resolved active u = (r, t)" "row_of (db (journal s)) (token_text oid) = None"
proof (cases "lift_res (request_checks cfg k ps oid ep)")
  case (Inl e)
  obtain e' where "not_sent (kind_text k) False False (Inl e :: pydict outcome) = Inl e'" using not_sent_Inl by blast
  then show thesis using assms quiet Inl by (simp add: execute_def)
next
  case (Inr ps')
  let ?t = "token_text oid"
  show thesis
  proof (cases "?t \<in> fst ` set (late_failure s)")
    case True
    then show thesis
      using assms Inr quiet by (auto simp: execute_def raises_def Let_def split: option.splits dest: retry_known_steady)
  next
    case False
    obtain f s1 where 1: "on_journal (\<lambda>j. lookup (io w ''lookup1'') j ?t) s = (f, s1)" by fastforce
    have s1: "steady s s1"
      by (rule steady_snd [OF _ 1]) (auto intro!: steady_on_journal r_into_rtranclp intro: call_step.intros(8))
    obtain a s2 where 2: "admit_phase cfg w k ps' ?t (token_text ep) acc s1 = (a, s2)" by fastforce
    have s2: "steady s s2" by (rule steady_trans [OF s1 steady_snd [OF steady_admit 2]])
    note rest = assms [unfolded execute_def Inr not_sent_Inr sum.case Let_def 1 if_not_P [OF False]]
    show thesis
    proof (cases f)
      case (Inl e)
      then show thesis using rest quiet s1 by simp
    next
      case f: (Inr found)
      show thesis
      proof (cases found)
        case (Some v)
        then have "steady s1 t" using rest f by (auto dest: retry_known_steady)
        then show thesis using quiet steady_trans [OF s1] by blast
      next
        case None
        show thesis
        proof (cases a)
          case (Inl e)
          then show thesis using rest f None 2 quiet s2 by simp
        next
          case ad: (Inr adm)
          show thesis
          proof (cases adm)
            case (Answered x)
            then show thesis using rest f None 2 ad quiet s2 by simp
          next
            case (Proceed v resolved)
            then have "dispatch_phase cfg w k ps' v resolved active s2 = (r, t)" using rest f None 2 ad by simp
            moreover have "row_of (db (journal s)) ?t = None" using 1 f None by (auto simp: on_journal_iff dest: lookup_found)
            ultimately show thesis using dispatch s2 admit_phase_row 2 ad Proceed by blast
          qed
        qed
      qed
    qed
  qed
qed

subsection \<open>A sample call\<close>

text \<open>A cancellation of an order of account 7 under a policy with a daily budget, on a reviewed journal: it is
  admitted, charged and acknowledged. Its result and the state it leaves are the concrete values of the
  witnesses.\<close>

definition sample_paper_policy :: trading_policy where
  "sample_paper_policy = \<lparr>mode = SIMULATE, max_order_qty = None, max_order_notional = [], real_acc_ids = {},
     symbol_allowlist = {}, max_daily_notional = [(''USD'', Fin 500)], require_approval = False\<rparr>"

definition sample_config :: config where
  "sample_config = \<lparr>policy = sample_paper_policy, allowlist = {7}, sessions = sample_session, float_repr = (\<lambda>_. ''500.0''),
     float_decimal = (\<lambda>_. Dec False 5000 (- 1)), digest = (\<lambda>t. t)\<rparr>"

definition sample_target :: pydict where
  "sample_target = [(''order_id'', PStr ''55''), (''code'', PStr ''US.AAPL''), (''trd_side'', PStr ''BUY''),
     (''time_in_force'', PStr ''DAY''), (''order_type'', PStr ''NORMAL''), (''session'', PStr ''RTH'')]"

definition sample_world :: world where
  "sample_world = \<lparr>grants = None, broker_accounts = Inr [\<lparr>acct_env = ''SIMULATE'', acct_id = 7, acct_markets = [''US'']\<rparr>],
     reserve_permit = ok, protect_permit = ok, connected = True, target_order = Inr sample_target,
     instrument_lookup = None, reply = Acknowledged (Some ''55'') (Inr [(''order_id'', PStr ''55'')]),
     io = (\<lambda>_. True), writable = (\<lambda>_. True), clock = (\<lambda>_. 1000), now = 100, uuid = ''tag1''\<rparr>"

definition sample_active :: active_operation where
  "sample_active = \<lparr>active_method = ''cancel_order'', active_parameters = [(''order_id'', PStr ''55''),
       (''trd_env'', PStr ''SIMULATE''), (''acc_id'', PStr ''7''), (''operation_id'', PStr ''op1''), (''admission_epoch'', PStr ''e1'')],
     active_approval = None, active_contract = PNone, active_valuation = None, reserved_parameters = None\<rparr>"

definition sample_paper :: paper where
  "sample_paper = \<lparr>journal = sample_ready, controls_of = Some sample_new, late_failure = [], late_identity = [], calls = []\<rparr>"

definition sample_execute :: "paper \<Rightarrow> paper_result outcome \<times> paper" where
  "sample_execute s = execute sample_config sample_world CANCEL [(''order_id'', PStr ''55'')] (PStr ''op1'') (PStr ''e1'') (PStr ''7'')
     (Some sample_active) s"

lemma sample_made:
  "case sample_execute sample_paper of (r, t) \<Rightarrow> \<not> isl r \<and> map fst (calls t) = [''op1'']"
  by code_simp

lemma sample_call:
  obtains x t where "execute sample_config sample_world CANCEL [(''order_id'', PStr ''55'')] (PStr ''op1'') (PStr ''e1'') (PStr ''7'')
     (Some sample_active) sample_paper = (Inr x, t)" "map fst (calls t) = [''op1'']" "calls t \<noteq> calls sample_paper"
proof -
  obtain r t where rt: "sample_execute sample_paper = (r, t)" by fastforce
  obtain x where "r = Inr x" using sample_made rt by (cases r) auto
  moreover have calls: "map fst (calls t) = [''op1'']" using sample_made rt by simp
  moreover from calls have "calls t \<noteq> calls sample_paper" by (auto simp: sample_paper_def)
  ultimately show thesis using that rt by (simp add: sample_execute_def)
qed

subsection \<open>Properties of a call\<close>

text \<open>A paper call that ends in an exception has started no broker call, and a call starts at most one:
  the request marked in the journal for that very operation. So a caller who is told \<open>not sent\<close> can rely on it,
  and no code path calls the broker twice or after an error.\<close>
theorem exception_means_no_call:
  assumes "execute cfg w k ps oid ep acc active s = (r, t)"
  shows "calls t = calls s \<or> (\<exists>res merged. r = Inr res \<and> calls t = calls s @ [(token_text oid, merged)])"
  using assms
proof (cases rule: execute_cases)
  case (dispatch ps' v resolved u)
  have "calls u = calls s" using dispatch(1) by (simp add: steady_def quiet_def)
  then show ?thesis using dispatch_phase_calls [OF dispatch(3)] dispatch(2) by auto
qed (simp add: steady_def quiet_def)

theorem exception_means_no_call_witness:
  "\<exists>x t merged. sample_execute sample_paper = (Inr x, t) \<and> calls t = [(''op1'', merged)]"
proof -
  obtain x t where xt: "execute sample_config sample_world CANCEL [(''order_id'', PStr ''55'')] (PStr ''op1'') (PStr ''e1'')
      (PStr ''7'') (Some sample_active) sample_paper = (Inr x, t)" "calls t \<noteq> calls sample_paper"
    using sample_call by metis
  from exception_means_no_call [OF xt(1)] xt show ?thesis
    by (auto simp: sample_execute_def sample_paper_def token_text_def)
qed

text \<open>An outcome that could not be stored stops the process: while one is pending, every further call
  leaves the broker alone, until a restart recovers the journal.\<close>
theorem unstored_outcome_blocks_dispatch:
  assumes "execute cfg w k ps oid ep acc active s = (r, t)" "late_failure s \<noteq> []"
  shows "calls t = calls s"
  using assms(1)
proof (cases rule: execute_cases)
  case (dispatch ps' v resolved u)
  have u: "late_failure u \<noteq> []" "calls u = calls s" using dispatch(1) assms(2) by (auto simp: steady_def quiet_def)
  let ?u = "u\<lparr>late_identity := put_key (operation_id (row v)) v (late_identity u)\<rparr>"
  have "fst (before_marker cfg w k ps' v resolved active ?u) = raise ExecutionStoreError ''OUTCOME_NOT_STORED''"
    using u(1) by (simp add: before_marker_def ready_def bindS_def)
  then have "\<exists>e. r = Inl e"
    using dispatch(3) dispatch_phase_calls [OF dispatch(3)]
    by (auto simp: dispatch_phase_def Let_def refuse_dispatch_def not_sent_def split: prod.splits sum.splits if_split_asm)
  then show ?thesis using dispatch_phase_calls [OF dispatch(3)] u(2) by auto
qed (simp add: steady_def quiet_def)

theorem unstored_outcome_blocks_dispatch_witness:
  "calls (snd (sample_execute (sample_paper\<lparr>late_failure := [(''op0'', late_outcome ''op0'' None False ACKNOWLEDGED ''ACKNOWLEDGED'' None)]\<rparr>))) = []"
  unfolding sample_execute_def
  by (rule trans [OF unstored_outcome_blocks_dispatch [OF prod.collapse [symmetric]]]) (simp_all add: sample_paper_def)

text \<open>The checks between preparation and marker have all passed when a call is made.\<close>

lemma call_made_checks:
  assumes "dispatch_phase cfg w k ps v acc active s = (r, t)" "calls t \<noteq> calls s"
  obtains merged observed active' s1 s2 s3 s4 where
    "controls_of s2 = controls_of s"
    "prepare_dispatch cfg w k ps acc active s1 = (Inr (merged, observed, active'), s2)"
    "risk_check w k acc s2 = (ok, s3)" "charge_step cfg w acc active' s3 = (ok, s4)" "controls_of t = controls_of s4"
proof -
  define s0 where "s0 = s\<lparr>late_identity := put_key (operation_id (row v)) v (late_identity s)\<rparr>"
  have r: "\<exists>res. r = Inr res" using dispatch_phase_calls [OF assms(1)] assms(2) by blast
  obtain mo m where bm: "before_marker cfg w k ps v acc active s0 = (Inr mo, m)"
    using assms(1) r
    by (auto simp: dispatch_phase_def s0_def [symmetric] Let_def refuse_dispatch_def not_sent_def
        split: prod.splits sum.splits if_split_asm)
  obtain merged' observed' where mo: "mo = (merged', observed')" by fastforce
  obtain res where res: "call_broker w v merged' observed' m = (res, t)"
    using assms(1) bm by (auto simp: dispatch_phase_def s0_def [symmetric] Let_def mo split: prod.splits)
  obtain s1 merged observed active' s2 s3 s4 where steps:
      "ready w ''ready2'' s0 = (ok, s1)" "prepare_dispatch cfg w k ps acc active s1 = (Inr (merged, observed, active'), s2)"
      "risk_check w k acc s2 = (ok, s3)" "charge_step cfg w acc active' s3 = (ok, s4)" "controls_of m = controls_of s4"
    using bm unfolding before_marker_def Let_def mo by (force simp: bindS_Inr on_journal_iff)
  have "controls_of s2 = controls_of s"
    using steady_snd [OF steady_ready steps(1)] steady_snd [OF steady_prepare steps(2)] by (simp add: steady_def s0_def)
  moreover have "controls_of t = controls_of m"
    using kept_fst [OF call_broker_logged res] by (simp add: kept_def logged_def)
  ultimately show thesis using that steps by metis
qed

text \<open>While an operator has paused simulated trading (account 0 of the environment), no call that would add
  exposure reaches the broker; only cancellations do.\<close>
theorem pause_stops_paper_orders:
  assumes "execute cfg w k ps oid ep acc active s = (r, t)" "controls_of s = Some c"
    and "pause_active ''SIMULATE'' ''0'' (tables c)" "k \<noteq> CANCEL"
  shows "calls t = calls s"
  using assms(1)
proof (cases rule: execute_cases)
  case (dispatch ps' v resolved u)
  have u: "controls_of u = Some c" "calls u = calls s" using dispatch(1) assms(2) by (auto simp: steady_def quiet_def)
  show ?thesis
  proof (rule ccontr)
    assume "calls t \<noteq> calls s"
    with u(2) have "calls t \<noteq> calls u" by simp
    then obtain s2 s3 where s2: "controls_of s2 = Some c" and risk: "risk_check w k resolved s2 = (ok, s3)"
      using call_made_checks [OF dispatch(3)] u(1) by metis
    have new: "fst (check_new_risk (io w ''risk'') c ''SIMULATE'' (PInt resolved)) = ok"
      using risk s2 assms(4) by (auto simp: risk_check_def split: prod.splits)
    then obtain env a where "pause_scope ''SIMULATE'' (PStr (py_str (PInt resolved))) = Inr (env, a)"
      by (auto simp: check_new_risk_def pause_state_def split: sum.splits prod.splits)
    moreover from this have "env = ''SIMULATE''"
    proof -
      have "norm_text ''SIMULATE'' = ''SIMULATE''" by code_simp
      then show "pause_scope ''SIMULATE'' (PStr (py_str (PInt resolved))) = Inr (env, a) \<Longrightarrow> env = ''SIMULATE''"
        by (auto simp: pause_scope_def res_simps split: if_split_asm)
    qed
    moreover have "pause_active ''SIMULATE'' a (tables c)" using assms(3) by (auto simp: pause_active_def)
    ultimately show False using check_new_risk_paused new by blast
  qed
qed (simp add: steady_def quiet_def)


definition sample_paused :: controls where
  "sample_paused = \<lparr>tables = \<lparr>prepared = [], charges = [], pauses =
       [\<lparr>pause_env = ''SIMULATE'', pause_account = ''0'', paused = True, pause_operator = ''bob'', pause_reason = ''halt'',
         pause_updated = 1000\<rparr>]\<rparr>, blocked = False, shut = False\<rparr>"

theorem pause_stops_paper_orders_witness:
  "calls (snd (execute sample_config sample_world MODIFY [(''order_id'', PStr ''55''), (''qty'', PInt 1)] (PStr ''op1'') (PStr ''e1'')
     (PStr ''7'') (Some sample_active) (sample_paper\<lparr>controls_of := Some sample_paused\<rparr>))) = []"
proof -
  have "controls_of (sample_paper\<lparr>controls_of := Some sample_paused\<rparr>) = Some sample_paused" by simp
  moreover have "pause_active ''SIMULATE'' ''0'' (tables sample_paused)" by (simp add: pause_active_def sample_paused_def)
  moreover have "MODIFY \<noteq> CANCEL" by simp
  ultimately show ?thesis
    by (rule trans [OF pause_stops_paper_orders [OF prod.collapse [symmetric]]]) (simp add: sample_paper_def)
qed

subsection \<open>Charges\<close>

text \<open>Preparation keeps what identifies the active operation.\<close>

definition same_operation :: "active_operation option \<Rightarrow> active_operation option \<Rightarrow> bool" where
  "same_operation a b \<longleftrightarrow> map_option active_parameters a = map_option active_parameters b
     \<and> map_option active_approval a = map_option active_approval b"

lemma assess_same: "assess_control_facts R D p a f = Inr b \<Longrightarrow> same_operation a b"
  by (cases a) (auto simp: assess_control_facts_def same_operation_def res_simps split: if_split_asm)

lemma prepare_order_same: "prepare_order cfg w k ps acc a order = Inr (merged, b) \<Longrightarrow> same_operation a b"
  by (auto simp: prepare_order_def Let_def res_simps split: if_split_asm dest: assess_same)
    (simp_all add: same_operation_def)

lemma prepare_same:
  "prepare_dispatch cfg w k ps acc a s = (Inr (merged, observed, b), t) \<Longrightarrow> same_operation a b"
  by (auto simp: prepare_dispatch_def bindS_Inr res_simps split: if_split_asm sum.splits dest: prepare_order_same)

lemma charge_step_charged:
  assumes "charge_step cfg w acc a s = (ok, t)" "controlled (policy cfg)"
  obtains b c x where "a = Some b" "controls_of t = Some c" "charged_for b acc ''SIMULATE'' c x"
proof -
  obtain a' cs cs' where check: "check_dispatch_controls (sessions cfg) (float_decimal cfg) (policy cfg) (io w ''charge'')
        (controls_of s) a acc ''SIMULATE'' (clock w ''charge'') (clock w ''approval'') = (Inr a', cs)"
      and confirm: "confirm_dispatch_controls (sessions cfg) (policy cfg) (io w ''confirm'') cs a' (clock w ''confirm'')
        (clock w ''confirm approval'') = (ok, cs')" "controls_of t = cs'"
    using assms(1) by (auto simp: charge_step_def split: sum.splits prod.splits)
  obtain b c x where b: "a = Some b" "cs = Some c" "charged_for b acc ''SIMULATE'' c x"
    using check_dispatch_controls_charged [OF check assms(2)] by metis
  obtain c' where c': "cs' = Some c'" "tables c' = tables c"
    using confirm_dispatch_controls_tables confirm(1) b(2) by metis
  have "charged_for b acc ''SIMULATE'' c' x" using b(3) c'(2) by (simp add: charged_for_def)
  then show thesis using that b(1) c'(1) confirm(2) by blast
qed

text \<open>Under a policy with approvals or daily budgets, a paper order reaches the broker only after its active
  operation has been charged: the controls then hold a durable charge of that very operation, on the account it
  was resolved to, under the approval it was given.\<close>
theorem paper_call_is_charged:
  assumes "execute cfg w k ps oid ep acc active s = (r, t)" "calls t \<noteq> calls s" "controlled (policy cfg)"
  shows "\<exists>a n c x. active = Some a \<and> controls_of t = Some c \<and> charged_for a n ''SIMULATE'' c x"
  using assms(1)
proof (cases rule: execute_cases)
  case (dispatch ps' v resolved u)
  have "calls t \<noteq> calls u" using dispatch(1) assms(2) by (auto simp: steady_def quiet_def)
  then obtain merged observed b s1 s2 s3 s4 where steps:
      "prepare_dispatch cfg w k ps' resolved active s1 = (Inr (merged, observed, b), s2)"
      "charge_step cfg w resolved b s3 = (ok, s4)" "controls_of t = controls_of s4"
    using call_made_checks [OF dispatch(3)] by metis
  obtain b' c x where b': "b = Some b'" "controls_of s4 = Some c" "charged_for b' resolved ''SIMULATE'' c x"
    using charge_step_charged [OF steps(2) assms(3)] by blast
  then obtain a where "active = Some a" "active_parameters a = active_parameters b'" "active_approval a = active_approval b'"
    using prepare_same [OF steps(1)] by (auto simp: same_operation_def)
  moreover from this have "charged_for a resolved ''SIMULATE'' c x" using b'(3) by (simp add: charged_for_def)
  ultimately show ?thesis using b'(2) steps(3) by auto
qed (use assms(2) in \<open>simp add: steady_def quiet_def\<close>)


theorem paper_call_is_charged_witness:
  "\<exists>n c x. controls_of (snd (sample_execute sample_paper)) = Some c \<and> charged_for sample_active n ''SIMULATE'' c x"
proof -
  obtain x t where xt: "execute sample_config sample_world CANCEL [(''order_id'', PStr ''55'')] (PStr ''op1'') (PStr ''e1'')
      (PStr ''7'') (Some sample_active) sample_paper = (Inr x, t)" "calls t \<noteq> calls sample_paper"
    using sample_call by metis
  have "controlled (policy sample_config)" by (simp add: sample_config_def sample_paper_policy_def controlled_def)
  from paper_call_is_charged [OF xt this] xt(1) show ?thesis by (auto simp: sample_execute_def)
qed

subsection \<open>Runs of the process\<close>

text \<open>One step of the process: a whole call, or one of its two phases between which others can run, with any
  request, gateway, clock and disk; any other journal call; any change of the controls; a restart, which forgets
  the outcomes that could not be stored.\<close>

inductive paper_step :: "paper \<Rightarrow> paper \<Rightarrow> bool" where
  "execute cfg w k ps oid ep acc active s = (r, t) \<Longrightarrow> paper_step s t"
| "admit_phase cfg w k ps oid ep acc s = (ra, t) \<Longrightarrow> paper_step s t"
| "dispatch_phase cfg w k ps v n active s = (rd, t) \<Longrightarrow> paper_step s t"
| "call_step (journal s) j \<Longrightarrow> paper_step s (s\<lparr>journal := j\<rparr>)"
| "paper_step s (s\<lparr>controls_of := c\<rparr>)"
| "open_store (environment (journal s)) create wait locked i ep (file_of (journal s)) = Inr j \<Longrightarrow>
   paper_step s (s\<lparr>journal := j, controls_of := c, late_failure := [], late_identity := []\<rparr>)"

definition paper_start :: "paper \<Rightarrow> bool" where
  "paper_start s \<longleftrightarrow> store_start (journal s) \<and> calls s = []"

text \<open>Every operation in the call log has left \<open>ADMITTED\<close> for good, and is logged once.\<close>

definition paper_ok :: "paper \<Rightarrow> bool" where
  "paper_ok s \<longleftrightarrow> store_ok (journal s) \<and> distinct (map fst (calls s))
     \<and> (\<forall>oid \<in> fst ` set (calls s). past_dispatch oid (journal s))"

lemma call_steps_stable:
  assumes "call_step\<^sup>*\<^sup>* j j'"
  shows "store_ok j \<Longrightarrow> store_ok j'" "past_dispatch oid j \<Longrightarrow> past_dispatch oid j'"
proof -
  have run: "store_step\<^sup>*\<^sup>* j j'" using assms by (induction rule: rtranclp_induct) (auto intro: store_step.call rtranclp.rtrancl_into_rtrancl)
  show "store_ok j \<Longrightarrow> store_ok j'" by (rule journal.run_invar [OF run])
  from run show "past_dispatch oid j \<Longrightarrow> past_dispatch oid j'"
    by (induction rule: rtranclp_induct) (auto intro: past_dispatch_step)
qed

lemma quiet_paper_ok: "quiet s t \<Longrightarrow> paper_ok s \<Longrightarrow> paper_ok t"
  using call_steps_stable by (auto simp: quiet_def paper_ok_def)

lemma mark_dispatch_past:
  assumes "mark_dispatch i j oid merged = (ok, j')"
  shows "\<not> past_dispatch oid j" "past_dispatch oid j'"
proof -
  let ?hit = "\<lambda>r. operation_id r = oid \<and> state r = ADMITTED"
  have hit: "length (filter ?hit (operations (db j))) = 1"
    and j': "operations (db j') = update_rows ?hit (dispatch_row merged) (operations (db j))"
    using assms unfolding mark_dispatch_def
    by (auto elim!: transaction_cases simp: mark_dispatch_body_def Let_def split: sum.splits if_splits)
  have "filter ?hit (operations (db j)) \<noteq> []" using hit by auto
  then obtain r where r: "r \<in> set (operations (db j))" "?hit r" by (auto simp: filter_empty_conv)
  then show "\<not> past_dispatch oid j" by (auto simp: past_dispatch_def)
  show "past_dispatch oid j'"
    using r by (auto simp: past_dispatch_def ids_def j' map_update_rows_keeps)
      (auto simp: set_update_rows dispatch_row_def)
qed

lemma dispatch_phase_ok:
  assumes "dispatch_phase cfg w k ps v acc active s = (r, t)" "paper_ok s"
  shows "paper_ok t"
  using assms(1)
proof (cases rule: dispatch_phase_cases)
  case (refused e)
  then show ?thesis using quiet_paper_ok assms(2) by blast
next
  case (called merged res u m)
  let ?oid = "operation_id (row v)"
  have u: "paper_ok u" by (rule quiet_paper_ok [OF called(2) assms(2)])
  note past = mark_dispatch_past [OF called(3)]
  have jm: "call_step (journal u) (journal m)" by (rule call_step.intros(2) [OF called(3)])
  have "calls u = calls m" using called(2,4) by (simp add: quiet_def)
  moreover have "?oid \<notin> fst ` set (calls u)" using u past(1) by (auto simp: paper_ok_def)
  ultimately have "paper_ok (logged ?oid merged m)"
    using u past(2) call_steps_stable [OF r_into_rtranclp [of call_step, OF jm]]
    by (auto simp: paper_ok_def logged_def)
  then show ?thesis using quiet_paper_ok called(5) by (auto simp: kept_def)
qed

lemma paper_step_ok: "paper_step s t \<Longrightarrow> paper_ok s \<Longrightarrow> paper_ok t"
proof (induction rule: paper_step.induct)
  case (1 cfg w k ps oid ep acc active s r t)
  from 1(1) show ?case
  proof (cases rule: execute_cases)
    case (dispatch ps' v resolved u)
    then show ?thesis using dispatch_phase_ok quiet_paper_ok steady_quiet 1(2) by blast
  qed (use 1(2) quiet_paper_ok steady_quiet in blast)
next
  case (2 cfg w k ps oid ep acc s r t)
  then show ?case using steady_snd [OF steady_admit] quiet_paper_ok steady_quiet by blast
next
  case (3 cfg w k ps v n active s r t)
  then show ?case using dispatch_phase_ok by blast
next
  case (4 s j)
  have "quiet s (s\<lparr>journal := j\<rparr>)" using 4(1) by (simp add: quiet_def)
  then show ?case using quiet_paper_ok 4(2) by blast
next
  case (5 s c)
  then show ?case by (simp add: paper_ok_def)
next
  case (6 s create wait locked i ep j c)
  have "store_step (journal s) j" by (rule store_step.restart [OF 6(1)])
  then show ?case using 6(2) journal.step_invar past_dispatch_step by (auto simp: paper_ok_def)
qed

interpretation papers: guarded_system paper_start paper_step paper_ok
proof
  fix s assume "paper_start s"
  then show "paper_ok s" using journal.start_invar by (auto simp: paper_start_def paper_ok_def)
qed (rule paper_step_ok)

text \<open>C1. In every run of the paper process, whatever the interleaving of calls, recovery, operator actions, storage
  failures and restarts, the broker is called at most once for an operation identifier.\<close>
theorem one_broker_call_per_operation:
  assumes "paper_start s0" "paper_step\<^sup>*\<^sup>* s0 s"
  shows "distinct (map fst (calls s))"
  using papers.reachable_invar [OF assms] by (simp add: paper_ok_def)

lemma sample_paper_run: "paper_start (sample_paper\<lparr>journal := sample_open\<rparr>)"
  "paper_step\<^sup>*\<^sup>* (sample_paper\<lparr>journal := sample_open\<rparr>) sample_paper"
  "paper_step s (snd (sample_execute s))"
proof -
  show "paper_start (sample_paper\<lparr>journal := sample_open\<rparr>)" using sample_start by (simp add: paper_start_def sample_paper_def)
  have "call_step sample_open sample_ready"
    unfolding sample_ready_def by (rule call_step.intros(6) [where writable = True and io = True]) (rule prod.collapse [symmetric])
  then have "paper_step (sample_paper\<lparr>journal := sample_open\<rparr>) ((sample_paper\<lparr>journal := sample_open\<rparr>)\<lparr>journal := sample_ready\<rparr>)"
    by (intro paper_step.intros(4)) (simp add: sample_paper_def)
  then show "paper_step\<^sup>*\<^sup>* (sample_paper\<lparr>journal := sample_open\<rparr>) sample_paper" by (simp add: sample_paper_def)
  show "paper_step s (snd (sample_execute s))"
    unfolding sample_execute_def by (rule paper_step.intros(1)) (rule prod.collapse [symmetric])
qed

theorem one_broker_call_per_operation_witness:
  "distinct (map fst (calls (snd (sample_execute (snd (sample_execute sample_paper))))))"
  by (rule one_broker_call_per_operation [OF sample_paper_run(1)])
    (rule rtranclp.rtrancl_into_rtrancl [OF rtranclp.rtrancl_into_rtrancl [OF sample_paper_run(2) sample_paper_run(3)]
        sample_paper_run(3)])

subsection \<open>What a caller is told\<close>

lemma lift_res_Inr: "lift_res r = Inr x \<longleftrightarrow> r = Inr x"
  by (cases r) auto

fun reported_state :: "paper_result \<Rightarrow> op_state" where
  "reported_state (Stored r) = res_state r"
| "reported_state (Late l) = late_state l"

fun reply_state :: "broker_reply \<Rightarrow> op_state" where
  "reply_state (Acknowledged oid rec) = ACKNOWLEDGED"
| "reply_state (CallRaises e) = UNKNOWN_OUTCOME"
| "reply_state (Refused t) = UNKNOWN_OUTCOME"

lemma outcome_state:
  assumes "outcome i j oid st disp rc err why observed n = (ok, j')" "row_of (db j') oid = Some v"
  shows "state (row v) = st"
proof -
  let ?rows = "update_rows (\<lambda>r. operation_id r = oid) (outcome_row st disp rc err n) (operations (db j))"
  let ?seen = "update_rows (\<lambda>r. operation_id r \<in> set observed \<and> kind r = MODIFY \<and> state r = ACKNOWLEDGED) observe_row ?rows"
  obtain d where d: "outcome_body oid st disp rc err why observed n (db j) = Done () d" "db j' = d"
    using assms(1) unfolding outcome_def by (auto elim!: transaction_cases split: sum.splits option.splits)
  have "operations d \<in> {?rows, ?seen}" using d(1) by (auto simp: outcome_body_def Let_def split: if_split_asm)
  then have "operations (db j') \<in> {?rows, ?seen}" by (simp add: d(2))
  moreover have v: "row v \<in> set (operations (db j'))" "operation_id (row v) = oid" using row_of_SomeD [OF assms(2)] by auto
  ultimately obtain q where q: "q \<in> set ?rows" "row v = q \<or> row v = observe_row q"
    unfolding set_update_rows by (elim insertE) (auto simp: set_update_rows split: if_split_asm)
  obtain p where "q = (if operation_id p = oid then outcome_row st disp rc err n p else p)"
    using q(1) unfolding set_update_rows by blast
  moreover have "operation_id q = oid" "state (row v) = state q" using q(2) v(2) by (auto simp: observe_row_def)
  ultimately show ?thesis by (simp add: outcome_row_def split: if_split_asm)
qed

lemma put_key_known: "k \<in> fst ` set (put_key k v d)"
  by (force simp: put_key_def image_iff)

lemma result_of_stored:
  assumes "result_of w site s v = (x, t)"
  obtains res where "x = Stored res" "res_operation res = operation_id (row v)" "res_state res = state (row v)"
    "res_broker_order res = broker_order_id (row v)" "res_disposition res = disposition (row v)"
  using assms by (auto simp: result_of_def Let_def split: prod.splits)

lemma finish_reports:
  assumes "finish w v st disp rc err why observed s = (x, t)"
  shows "reported_state x = st \<and> (\<forall>l. x = Late l \<longrightarrow> operation_id (row v) \<in> fst ` set (late_failure t))"
proof -
  let ?oid = "operation_id (row v)"
  have late: "remember_late ?oid (late_outcome ?oid tag c st disp rc) u = (x, t) \<Longrightarrow> ?thesis" for tag c u
    by (auto simp: remember_late_def late_outcome_def put_key_known)
  let ?f = "\<lambda>j. outcome (io w ''outcome'') j ?oid st disp rc err why observed (now w)"
  obtain r1 s1 where 1: "on_journal ?f s = (r1, s1)" by fastforce
  obtain r2 s2 where 2: "on_journal (\<lambda>j. lookup (io w ''lookup3'') j ?oid) s1 = (r2, s2)" by fastforce
  note rest = assms [unfolded finish_def Let_def 1 2 prod.case]
  show ?thesis
  proof (cases r1)
    case (Inl e)
    then show ?thesis using rest late by simp
  next
    case ok1: (Inr u)
    show ?thesis
    proof (cases "\<exists>v'. r2 = Inr (Some v')")
      case True
      then obtain v' where r2: "r2 = Inr (Some v')" by blast
      have v': "row_of (db (journal s1)) ?oid = Some v'" using 2 r2 by (auto simp: on_journal_iff dest: lookup_found)
      have "?f (journal s) = (ok, journal s1)" using 1 ok1 by (auto simp: on_journal_iff)
      then have st: "state (row v') = st" using outcome_state v' by blast
      obtain x' u' where res: "result_of w ''finish'' s2 v' = (x', u')" by fastforce
      then have "x = x'" using rest 2 ok1 r2 by simp
      moreover obtain y where "x' = Stored y" "res_state y = state (row v')" using res by (rule result_of_stored)
      ultimately show ?thesis by (simp add: st)
    next
      case False
      then show ?thesis using rest 2 ok1 late by (auto split: sum.splits option.splits)
    qed
  qed
qed

lemma call_broker_finish:
  assumes "call_broker w v merged observed s = (x, t)"
  obtains disp rc err why seen u where "finish w v (reply_state (reply w)) disp rc err why seen u = (x, t)"
proof (cases "reply w")
  case (Acknowledged order_id rec)
  then show thesis using assms that by (cases "readable_receipt rec") (auto simp: call_broker_def Let_def)
qed (use assms that in \<open>auto simp: call_broker_def Let_def\<close>)

text \<open>C22. What the caller is told after a broker call is what the broker answered: an acknowledged request is
  reported acknowledged, even when its receipt cannot be read or its outcome cannot be stored, and every error or
  refusal is an unknown outcome, never \<open>not sent\<close>. A result that is not the journal's is remembered, so that it
  blocks further orders.\<close>
theorem reported_outcome_is_the_reply:
  assumes "execute cfg w k ps oid ep acc active s = (Inr x, t)" "calls t \<noteq> calls s"
  shows "reported_state x = reply_state (reply w)
    \<and> (\<forall>l. x = Late l \<longrightarrow> token_text oid \<in> fst ` set (late_failure t))"
  using assms(1)
proof (cases rule: execute_cases)
  case (dispatch ps' v resolved u)
  define u0 where "u0 = u\<lparr>late_identity := put_key (operation_id (row v)) v (late_identity u)\<rparr>"
  obtain merged observed m where "before_marker cfg w k ps' v resolved active u0 = (Inr (merged, observed), m)"
      "call_broker w v merged observed m = (x, t)"
    using dispatch(3) not_sent_Inl
    by (auto simp: dispatch_phase_def u0_def [symmetric] Let_def refuse_dispatch_def not_sent_def
        split: prod.splits sum.splits if_split_asm)
  then obtain disp rc err why seen u' where "finish w v (reply_state (reply w)) disp rc err why seen u' = (x, t)"
    using call_broker_finish by metis
  from finish_reports [OF this] show ?thesis by (simp add: dispatch(2))
qed (use assms(2) in \<open>simp add: steady_def quiet_def\<close>)

theorem reported_outcome_is_the_reply_witness:
  "\<exists>x. fst (sample_execute sample_paper) = Inr x \<and> reported_state x = ACKNOWLEDGED"
proof -
  obtain x t where xt: "execute sample_config sample_world CANCEL [(''order_id'', PStr ''55'')] (PStr ''op1'') (PStr ''e1'')
      (PStr ''7'') (Some sample_active) sample_paper = (Inr x, t)" "calls t \<noteq> calls sample_paper"
    using sample_call by metis
  from reported_outcome_is_the_reply [OF xt] xt(1) show ?thesis by (simp add: sample_execute_def sample_world_def)
qed

lemma retry_answers:
  assumes "retry_known cfg w v k ps acc s = (Inr x, t)"
  shows "(\<exists>res. x = Stored res \<and> res_operation res = operation_id (row v) \<and> res_state res = state (row v)
      \<and> res_broker_order res = broker_order_id (row v)) \<or> (\<exists>l. x = Late l \<and> map_of (late_failure s) (operation_id (row v)) = Some l)"
    "\<exists>n proposed. canonicalize_request ''SIMULATE'' n (kind_text k) ps = Inr proposed
      \<and> differing_fields (operation.canonical (row v)) proposed = Inr []"
  using assms
  by (auto simp: retry_known_def retry_def Let_def lift_res_Inr res_simps split: prod.splits sum.splits option.splits if_split_asm
      elim!: result_of_stored)

text \<open>A request whose operation identifier the journal knows is never sent again: it is answered from its row,
  and only when the request agrees with the recorded one in every field; otherwise the call ends in an
  exception.\<close>
theorem known_operation_is_not_resent:
  assumes "execute cfg w k ps oid ep acc active s = (r, t)" "row_of (db (journal s)) (token_text oid) = Some v"
    and "token_text oid \<notin> fst ` set (late_failure s)"
  shows "calls t = calls s \<and> controls_of t = controls_of s \<and> (\<forall>x. r = Inr x \<longrightarrow>
      (\<exists>res. x = Stored res \<and> res_operation res = token_text oid \<and> res_state res = state (row v)
        \<and> res_broker_order res = broker_order_id (row v))
    \<and> (\<exists>n ps' proposed. request_checks cfg k ps oid ep = Inr ps'
        \<and> canonicalize_request ''SIMULATE'' n (kind_text k) ps' = Inr proposed
        \<and> differing_fields (operation.canonical (row v)) proposed = Inr []))"
proof -
  have "steady s t" using assms(1) by (cases rule: execute_cases) (use assms(2) in auto)
  moreover have "\<exists>ps' s'. request_checks cfg k ps oid ep = Inr ps' \<and> late_failure s' = late_failure s
      \<and> retry_known cfg w v k ps' acc s' = (Inr x, t)" if x: "r = Inr x" for x
  proof -
    obtain ps' where ps': "request_checks cfg k ps oid ep = Inr ps'"
    proof (cases "request_checks cfg k ps oid ep")
      case (Inl e)
      moreover obtain e' where "not_sent (kind_text k) False False (lift_res (Inl e) :: pydict outcome) = Inl e'"
        using not_sent_Inl by fastforce
      ultimately show thesis using assms(1) x by (simp add: execute_def)
    qed (rule that)
    obtain f s1 where 1: "on_journal (\<lambda>j. lookup (io w ''lookup1'') j (token_text oid)) s = (f, s1)" by fastforce
    have s1: "late_failure s1 = late_failure s" using 1 by (auto simp: on_journal_iff)
    note rest = assms(1) [unfolded execute_def ps' Let_def 1 if_not_P [OF assms(3)] lift_res.simps sum.case not_sent_Inr prod.case x]
    have "f = Inr (Some v)"
      using rest 1 assms(2) by (cases f) (auto simp: on_journal_iff dest: lookup_found)
    then have "retry_known cfg w v k ps' acc s1 = (Inr x, t)" using rest by simp
    then show ?thesis using ps' s1 by blast
  qed
  moreover have "map_of (late_failure s) (token_text oid) = None" using assms(3) by (simp add: map_of_eq_None_iff)
  moreover have "operation_id (row v) = token_text oid" using row_of_SomeD [OF assms(2)] by simp
  ultimately show ?thesis using retry_answers by (fastforce simp: steady_def quiet_def)
qed

theorem known_operation_is_not_resent_witness:
  "calls (snd (sample_execute (sample_paper\<lparr>journal := sample_admitted\<rparr>))) = []"
proof -
  have "''op1'' \<in> ids (db sample_admitted)" by code_simp
  then obtain v where v: "row_of (db sample_admitted) ''op1'' = Some v"
    by (cases "row_of (db sample_admitted) ''op1''") (simp_all add: row_of_None_iff)
  from known_operation_is_not_resent [OF prod.collapse [symmetric], of "sample_paper\<lparr>journal := sample_admitted\<rparr>" "PStr ''op1''" v] v
  show ?thesis by (simp add: sample_execute_def sample_paper_def token_text_def)
qed

end
