(* ===== verification/Paper_Recovery.thy ===== *)
theory Paper_Recovery
  imports Paper_Runs
begin

text \<open>
  \<open>services/paper_recovery.py\<close>: the read-only recovery of a paper operation whose outcome is not known. A check
  queries the broker's current and past orders, correlates them with the operation by identifier and tag, and
  records what it found; evidence that is incomplete or contradicts itself resolves nothing. The answers of the
  gateway, the three clock readings and the stop flag are the \<open>recovery_world\<close> of one check. The dates of the
  history query are not modelled.
\<close>

subsection \<open>Numbers\<close>

definition NEGATIVE_GAPS :: "rat list" where
  "NEGATIVE_GAPS = [5, 5, 10, 20]"

definition MONITOR_INTERVAL :: rat where
  "MONITOR_INTERVAL = 60"

definition ACTIVE_BROKER :: "string set" where
  "ACTIVE_BROKER = {''UNSUBMITTED'', ''WAITING_SUBMIT'', ''SUBMITTING'', ''SUBMIT_FAILED'', ''SUBMITTED'', ''FILLED_PART'',
     ''CANCELLING_PART'', ''CANCELLING_ALL'', ''DISABLED''}"

text \<open>\<open>RecoveryEvidenceError\<close> is a \<open>ValueError\<close>.\<close>

definition evidence_number :: "pyval \<Rightarrow> pydec res" where
  "evidence_number v = (case v of
     PNone \<Rightarrow> raise ValueError ''numeric broker evidence''
   | PBool _ \<Rightarrow> raise ValueError ''numeric broker evidence''
   | _ \<Rightarrow> (case decimal_of_text (py_str v) of
       None \<Rightarrow> raise ValueError ''numeric broker evidence''
     | Some d \<Rightarrow> if dec_finite d then Inr d else raise ValueError ''Nonfinite broker evidence''))"

text \<open>\<open>str(d)\<close> of a finite decimal, and subtraction in the default context of 28 digits.\<close>

definition dec_text :: "pydec \<Rightarrow> string" where
  "dec_text d =
     (let ds = int_text (dcoef d); n = int (length ds); left = dexp d + n;
          dot = (if dexp d \<le> 0 \<and> - 6 < left then left else 1);
          whole = (if dot \<le> 0 then ''0'' else if n \<le> dot then ds @ replicate (nat (dot - n)) (CHR ''0'') else take (nat dot) ds);
          frac = (if dot \<le> 0 then ''.'' @ replicate (nat (- dot)) (CHR ''0'') @ ds
                  else if n \<le> dot then [] else ''.'' @ drop (nat dot) ds);
          ex = (if left = dot then [] else ''E'' @ (if left < dot then int_text (left - dot) else ''+'' @ int_text (left - dot))) in
      (if dneg d then ''-'' else []) @ whole @ frac @ ex)"

fun dec_neg :: "pydec \<Rightarrow> pydec" where
  "dec_neg (Dec s c e) = Dec (\<not> s) c e"
| "dec_neg (DecInf s) = DecInf (\<not> s)"
| "dec_neg DecNaN = DecNaN"

definition dec_sub :: "pydec \<Rightarrow> pydec \<Rightarrow> pydec" where
  "dec_sub a b = dec_add 28 a (dec_neg b)"

subsection \<open>Observations\<close>

record recovery_world =
  current_orders :: "pyval res"
  history_orders :: "pyval res"
  positions_of :: "string \<Rightarrow> pyval res"
  due_clock :: rat
  start_clock :: rat
  done_clock :: rat
  stopping :: bool

fun observed_orders :: "string \<Rightarrow> int \<Rightarrow> pyval list \<Rightarrow> pydict list res" where
  "observed_orders env acc [] = Inr []"
| "observed_orders env acc (v # vs) = (case v of
     PDict d _ \<Rightarrow>
       bindR (positive_decimal_id (dict_get d ''order_id'' PNone)) (\<lambda>named.
       if \<not> named then raise ValueError ''Missing broker order identity''
       else if dict_get d ''trd_env'' (PStr env) \<noteq> PStr env
            \<or> py_str (dict_get d ''acc_id'' (PInt acc)) \<noteq> int_text acc
       then raise ValueError ''account/environment mismatch''
       else bindR (observed_orders env acc vs) (\<lambda>rest. Inr (d # rest)))
   | _ \<Rightarrow> raise ValueError ''Malformed broker order'')"

definition observations :: "string \<Rightarrow> recovery_world \<Rightarrow> operation \<Rightarrow> pydict list res" where
  "observations env rw r =
     bindR (int_of_text (account r)) (\<lambda>acc.
     bindR (current_orders rw) (\<lambda>cur.
     bindR (history_orders rw) (\<lambda>past.
       case (cur, past) of
         (PList xs _, PList ys _) \<Rightarrow>
           bindR (serialize_identifiers (PList (xs @ ys) [])) (\<lambda>v. case v of
             PList zs _ \<Rightarrow> observed_orders env acc zs
           | _ \<Rightarrow> raise TypeError ''not iterable'')
       | _ \<Rightarrow> raise ValueError ''complete lists'')))"

text \<open>\<open>_matches\<close>: the orders that carry the operation's broker identifier (of a modification or cancellation:
  its target) or its tag. The kinds that place an order are \<open>placements\<close>.\<close>

definition correlation_target :: "op_kind set \<Rightarrow> operation \<Rightarrow> pyval res" where
  "correlation_target placements r =
     (if kind r \<in> placements then Inr (case broker_order_id r of None \<Rightarrow> PNone | Some t \<Rightarrow> PStr t)
      else member ''order_id'' (as_dict (request r)))"

definition correlates :: "operation \<Rightarrow> pyval \<Rightarrow> pydict \<Rightarrow> bool" where
  "correlates r target d \<longleftrightarrow>
     truthy target \<and> dict_get d ''order_id'' PNone = PStr (py_str target)
     \<or> truthy_text (order_tag r) \<and> dict_get d ''remark'' PNone = PStr (the (order_tag r))"

definition matches :: "op_kind set \<Rightarrow> operation \<Rightarrow> pydict list \<Rightarrow> pydict list res" where
  "matches placements r orders = bindR (correlation_target placements r) (\<lambda>target. Inr (filter (correlates r target) orders))"

subsection \<open>Accounting\<close>

text \<open>One observation against the first: the tag, the fields and the numbers agree.\<close>

definition remark_agrees :: "operation \<Rightarrow> pydict \<Rightarrow> unit res" where
  "remark_agrees r d =
     (if truthy_text (order_tag r) then
        (let tag = the (order_tag r); rem = dict_get d ''remark'' PNone in
         bindR (in_text_set rem {[], tag}) (\<lambda>b.
           guardR (\<not> (b \<or> rem = PNone) \<or> \<not> truthy_text (broker_order_id r) \<and> rem \<noteq> PStr tag)
             (Exn ValueError ''remark disagrees'')))
      else ok)"

definition field_agrees :: "pydict \<Rightarrow> pydict \<Rightarrow> string \<Rightarrow> unit res" where
  "field_agrees final d key = guardR (\<not> py_eq (dict_get d key PNone) (dict_get final key PNone)
     \<or> dict_get final key PNone = PNone) (Exn ValueError ''observations disagree'')"

definition number_agrees :: "pydict \<Rightarrow> pydict \<Rightarrow> string \<Rightarrow> unit res" where
  "number_agrees final d key =
     bindR (evidence_number (dict_get d key PNone)) (\<lambda>a.
     bindR (evidence_number (dict_get final key PNone)) (\<lambda>b.
       guardR (dec_val a \<noteq> dec_val b) (Exn ValueError ''observations disagree'')))"

definition observation_agrees :: "operation \<Rightarrow> pydict \<Rightarrow> pydict \<Rightarrow> unit res" where
  "observation_agrees r final d =
     bindR (remark_agrees r d) (\<lambda>_.
     bindR (forR [''order_status'', ''code'', ''trd_side'', ''order_type''] (field_agrees final d)) (\<lambda>_.
       forR [''qty'', ''price'', ''dealt_qty'', ''dealt_avg_price''] (number_agrees final d)))"

record fill =
  fill_qty :: pydec
  fill_price :: pydec
  filled :: pydec
  fill_average :: pydec

text \<open>The numbers of the order and the check of its status, amounts and scope.\<close>

definition fill_of :: "pydict \<Rightarrow> fill res" where
  "fill_of final =
     bindR (evidence_number (dict_get final ''qty'' PNone)) (\<lambda>q.
     bindR (evidence_number (dict_get final ''price'' PNone)) (\<lambda>p.
     bindR (evidence_number (dict_get final ''dealt_qty'' PNone)) (\<lambda>f.
     bindR (evidence_number (dict_get final ''dealt_avg_price'' PNone)) (\<lambda>a.
       Inr \<lparr>fill_qty = q, fill_price = p, filled = f, fill_average = a\<rparr>))))"

definition check_fill :: "pydict \<Rightarrow> fill \<Rightarrow> unit res" where
  "check_fill final x =
     bindR (in_text_set (dict_get final ''order_status'' PNone) (TERMINAL_BROKER \<union> ACTIVE_BROKER)) (\<lambda>known.
       guardR (\<not> known \<or> dec_val (fill_qty x) \<le> 0 \<or> dec_val (fill_qty x) \<noteq> of_int \<lfloor>dec_val (fill_qty x)\<rfloor>
         \<or> dec_val (fill_price x) \<le> 0 \<or> dec_val (filled x) < 0 \<or> dec_val (fill_qty x) < dec_val (filled x)
         \<or> dec_val (fill_average x) < 0) (Exn ValueError ''status or fill evidence''))"

definition check_scope :: "pydict \<Rightarrow> unit res" where
  "check_scope final =
     (if \<not> startswith (py_str (dict_get final ''code'' PNone)) ''US.'' then raise ValueError ''outside paper scope''
      else bindR (in_text_set (dict_get final ''trd_side'' PNone) {''BUY'', ''SELL''}) (\<lambda>side.
        guardR (\<not> side \<or> dict_get final ''order_type'' PNone \<noteq> PStr ''NORMAL'') (Exn ValueError ''outside paper scope'')))"

text \<open>A quantity or price of the request, compared when it is reached.\<close>

definition same_number :: "pydec \<Rightarrow> pydict \<Rightarrow> string \<Rightarrow> bool res" where
  "same_number d expected key =
     bindR (member key (as_dict expected)) (\<lambda>v. bindR (evidence_number v) (\<lambda>e. Inr (dec_val d = dec_val e)))"

definition same_order :: "fill \<Rightarrow> pydict \<Rightarrow> bool res" where
  "same_order x expected =
     bindR (same_number (fill_qty x) expected ''qty'') (\<lambda>b. if \<not> b then Inr False else same_number (fill_price x) expected ''price'')"

definition expected_request :: "operation \<Rightarrow> pydict" where
  "expected_request r = (case merged_request r of None \<Rightarrow> request r | Some d \<Rightarrow> d)"

definition placement_matches :: "operation \<Rightarrow> pydict \<Rightarrow> fill \<Rightarrow> bool res" where
  "placement_matches r final x =
     bindR (member ''code'' (as_dict (request r))) (\<lambda>c.
     if \<not> py_eq (dict_get final ''code'' PNone) c then Inr False
     else bindR (member ''trd_side'' (as_dict (request r))) (\<lambda>side.
     if \<not> py_eq (dict_get final ''trd_side'' PNone) side then Inr False
     else same_order x (expected_request r)))"

definition resolution_of :: "operation \<Rightarrow> pydict \<Rightarrow> fill \<Rightarrow> string option res" where
  "resolution_of r final x =
     (if kind r = PLACE then
        bindR (placement_matches r final x) (\<lambda>b.
          if \<not> b then raise ValueError ''Correlated placement disagrees'' else Inr (Some ''BROKER_CONFIRMED''))
      else bindR (in_text_set (dict_get final ''order_status'' PNone) TERMINAL_BROKER) (\<lambda>terminal.
        if terminal then Inr (Some ''TERMINAL_ACCOUNTED'')
        else if kind r = MODIFY then
          bindR (same_order x (expected_request r)) (\<lambda>b. Inr (if b then Some ''CURRENT_STATE_ACCOUNTED'' else None))
        else Inr None))"

text \<open>The position in the symbol, summed in the default context.\<close>

fun position_total :: "string \<Rightarrow> operation \<Rightarrow> pyval \<Rightarrow> pydec \<Rightarrow> pyval list \<Rightarrow> pydec res" where
  "position_total env r c sofar [] = Inr sofar"
| "position_total env r c sofar (v # vs) = (case v of
     PDict d _ \<Rightarrow>
       if \<not> py_eq (dict_get d ''code'' PNone) c then raise ValueError ''Position query scope mismatch''
       else if dict_get d ''trd_env'' (PStr env) \<noteq> PStr env
            \<or> py_str (dict_get d ''acc_id'' (PStr (account r))) \<noteq> account r
       then raise ValueError ''account/environment mismatch''
       else bindR (evidence_number (dict_get d ''qty'' PNone)) (\<lambda>n. position_total env r c (dec_add 28 sofar n) vs)
   | _ \<Rightarrow> raise ValueError ''Position query scope mismatch'')"

definition accounted_position :: "recovery_world \<Rightarrow> operation \<Rightarrow> pydict \<Rightarrow> pydec res" where
  "accounted_position rw r final =
     (let c = dict_get final ''code'' PNone in
      bindR (int_of_text (account r)) (\<lambda>_.
      bindR (positions_of rw (py_str c)) (\<lambda>v. case v of
        PList vs _ \<Rightarrow> position_total ''SIMULATE'' r c (Dec False 0 0) vs
      | _ \<Rightarrow> raise ValueError ''Malformed position query'')))"

definition facts_of :: "operation \<Rightarrow> pydict \<Rightarrow> fill \<Rightarrow> bool \<Rightarrow> pydec \<Rightarrow> pydict" where
  "facts_of r final x terminal position =
     [(''code'', dict_get final ''code'' PNone), (''acc_id'', PStr (account r)), (''trd_env'', PStr ''SIMULATE''),
      (''broker_status'', dict_get final ''order_status'' PNone), (''filled_quantity'', PStr (dec_text (filled x))),
      (''average_fill_price'', PStr (dec_text (fill_average x))),
      (''remaining_executable_quantity'',
         PStr (if terminal then ''0'' else dec_text (dec_sub (fill_qty x) (filled x)))),
      (''current_symbol_position'', PStr (dec_text position)),
      (''mutation_success_proven'', PBool (kind r = PLACE))]"

text \<open>\<open>_account\<close>: the order, the facts and the resolution; \<open>None\<close> while a live target proves nothing.\<close>

definition account_matches ::
    "recovery_world \<Rightarrow> operation \<Rightarrow> pydict list \<Rightarrow> (pydict \<times> pydict \<times> string) option res" where
  "account_matches rw r found = (case found of
     [] \<Rightarrow> raise ValueError ''multiple broker orders''
   | final # _ \<Rightarrow>
      if \<exists>d \<in> set found. dict_get d ''order_id'' PNone \<noteq> dict_get final ''order_id'' PNone
      then raise ValueError ''multiple broker orders''
      else bindR (forR found (observation_agrees r final)) (\<lambda>_.
      if truthy_text (broker_order_id r) \<and> dict_get final ''order_id'' PNone \<noteq> PStr (the (broker_order_id r))
      then raise ValueError ''Tag disagrees with recorded broker identity''
      else bindR (fill_of final) (\<lambda>x.
      bindR (check_fill final x) (\<lambda>_.
      bindR (check_scope final) (\<lambda>_.
      bindR (resolution_of r final x) (\<lambda>res. case res of
        None \<Rightarrow> Inr None
      | Some resolution \<Rightarrow>
         bindR (accounted_position rw r final) (\<lambda>position.
         bindR (in_text_set (dict_get final ''order_status'' PNone) TERMINAL_BROKER) (\<lambda>terminal.
           Inr (Some (final, facts_of r final x terminal position, resolution))))))))))"

subsection \<open>A check\<close>

text \<open>What a check found: the outcome it records, the delay until the next one, and the disposition.\<close>

record finding =
  found_outcome :: string
  found_details :: pydict
  found_delay :: rat
  found_resolution :: "string option"
  found_receipt :: "pydict option"
  found_facts :: "pydict option"

definition open_finding :: "string \<Rightarrow> pydict \<Rightarrow> finding" where
  "open_finding outc details = \<lparr>found_outcome = outc, found_details = put_member ''reason'' (PStr outc) details, found_delay = 5,
     found_resolution = None, found_receipt = None, found_facts = None\<rparr>"

definition error_finding :: "pydict \<Rightarrow> exn \<Rightarrow> finding res" where
  "error_finding details e =
     (if instance_of e ExecutionStoreError then Inl e
      else Inr ((open_finding ''ERROR'' details)\<lparr>found_details := put_member ''reason'' (PStr (exn_tag e)) details\<rparr>))"

definition order_list :: "pydict list \<Rightarrow> pyval" where
  "order_list ds = PList (map as_dict ds) []"

text \<open>Nothing correlates with the operation.\<close>

definition seen_before :: "row_view \<Rightarrow> bool" where
  "seen_before v \<longleftrightarrow> (\<exists>c \<in> set (recovery_checks v). truthy (dict_get (check_details c) ''correlated_order_seen'' PNone))"

definition negative_checks :: "row_view \<Rightarrow> nat" where
  "negative_checks v = length (filter (\<lambda>c. check_outcome c = ''NOT_FOUND'') (recovery_checks v))"

definition absence_searchable :: "row_view \<Rightarrow> bool" where
  "absence_searchable v \<longleftrightarrow> kind (row v) = PLACE \<and> truthy_text (order_tag (row v)) \<and> \<not> truthy_text (broker_order_id (row v))
     \<and> state (row v) \<in> {ADMITTED, UNKNOWN_OUTCOME} \<and> \<not> seen_before v"

definition nothing_found :: "row_view \<Rightarrow> pydict \<Rightarrow> finding" where
  "nothing_found v details =
     (if absence_searchable v then
        if recovery_disposition (row v) = Some ASSUMED_ABSENT
        then (open_finding ''MONITOR_NOT_FOUND'' details)\<lparr>found_delay := MONITOR_INTERVAL\<rparr>
        else let negatives = negative_checks v + 1 in
          if 5 \<le> negatives
          then (open_finding ''NOT_FOUND'' details)\<lparr>found_delay := MONITOR_INTERVAL, found_resolution := Some ASSUMED_ABSENT\<rparr>
          else (open_finding ''NOT_FOUND'' details)\<lparr>found_delay := NEGATIVE_GAPS ! (negatives - 1)\<rparr>
      else open_finding ''IDENTITY_NOT_FOUND'' details)"

definition account_found :: "recovery_world \<Rightarrow> row_view \<Rightarrow> pydict list \<Rightarrow> finding res" where
  "account_found rw v found =
     (let seen = [(''orders'', PList [] []), (''correlated_order_seen'', PBool True)];
          details = put_member ''orders'' (order_list found) seen in
      case json_check (order_list found) of
        Inl e \<Rightarrow> error_finding seen e
      | Inr _ \<Rightarrow> (case account_matches rw (row v) found of
          Inl e \<Rightarrow> error_finding details e
        | Inr None \<Rightarrow> Inr (open_finding ''TARGET_PENDING'' details)
        | Inr (Some (final, facts, resolution)) \<Rightarrow>
            Inr ((open_finding ''FOUND'' details)\<lparr>found_delay := MONITOR_INTERVAL,
              found_resolution := Some (if recovery_disposition (row v) = Some ASSUMED_ABSENT then ''LATE_BROKER_ORDER_FOUND''
                                        else resolution),
              found_receipt := Some final, found_facts := Some facts\<rparr>)))"

text \<open>The \<open>try\<close> block of \<open>check\<close>. A late order blocks admissions before anything else is looked at.\<close>

definition investigate :: "recovery_world \<Rightarrow> world \<Rightarrow> row_view \<Rightarrow> paper \<Rightarrow> finding res \<times> paper" where
  "investigate rw w v s =
     (case bindR (observations ''SIMULATE'' rw (row v)) (matches {PLACE} (row v)) of
        Inl e \<Rightarrow> (error_finding [(''orders'', PList [] [])] e, s)
      | Inr [] \<Rightarrow> (Inr (nothing_found v [(''orders'', PList [] []), (''correlated_order_seen'', PBool False)]), s)
      | Inr found \<Rightarrow>
         bindS (if recovery_disposition (row v) = Some ASSUMED_ABSENT
                then on_journal (\<lambda>j. block_late_order (io w ''late'') j (operation_id (row v))) s else (ok, s))
           (\<lambda>_ s. (account_found rw v found, s)))"

definition record_finding :: "recovery_world \<Rightarrow> world \<Rightarrow> row_view \<Rightarrow> finding \<Rightarrow> paper \<Rightarrow> unit res \<times> paper" where
  "record_finding rw w v x =
     on_journal (\<lambda>j. record_recovery (io w ''record'') j (operation_id (row v)) (state (row v)) (start_clock rw) (done_clock rw)
       (found_outcome x) (found_details x) (done_clock rw + found_delay x) (found_resolution x) (found_receipt x)
       (found_facts x) (now w))"

text \<open>\<open>PaperRecovery.check\<close>.\<close>

definition check_operation_now :: "recovery_world \<Rightarrow> world \<Rightarrow> string \<Rightarrow> paper \<Rightarrow> paper_result res \<times> paper" where
  "check_operation_now rw w oid s =
     bindS (on_journal (\<lambda>j. lookup (io w ''lookup'') j oid) s) (\<lambda>known s. case known of
       None \<Rightarrow> (raise ValueError ''not owned by this journal'', s)
     | Some v \<Rightarrow>
        if late_failure s \<noteq> [] then (raise ExecutionStoreError ''OUTCOME_NOT_STORED'', s)
        else bindS (on_journal (\<lambda>j. recovery_rows (io w ''due'') j (due_clock rw)) s) (\<lambda>due s.
          if oid \<notin> (\<lambda>x. operation_id (row x)) ` set due
          then (case result_of w ''result'' s v of (r, s) \<Rightarrow> (Inr r, s))
          else bindS (investigate rw w v s) (\<lambda>x s.
            if stopping rw then (case result_of w ''result'' s v of (r, s) \<Rightarrow> (Inr r, s))
            else bindS (record_finding rw w v x s) (\<lambda>_ s.
              bindS (on_journal (\<lambda>j. lookup (io w ''lookup4'') j oid) s) (\<lambda>again s. case again of
                None \<Rightarrow> (raise AssertionError ''result'', s)
              | Some v' \<Rightarrow> (case result_of w ''result'' s v' of (r, s) \<Rightarrow> (Inr r, s)))))))"

text \<open>\<open>run_once\<close>: one round of the worker over the operations that are due, each with its own readings. An
  exception ends the round.\<close>

fun run_checks :: "(string \<Rightarrow> recovery_world) \<Rightarrow> world \<Rightarrow> (string \<Rightarrow> bool) \<Rightarrow> row_view list \<Rightarrow> paper \<Rightarrow> unit res \<times> paper" where
  "run_checks rws w stopped [] s = (ok, s)"
| "run_checks rws w stopped (v # vs) s =
     (let oid = operation_id (row v) in
      if stopped oid then (ok, s)
      else bindS (check_operation_now (rws oid) w oid s) (\<lambda>_ s. run_checks rws w stopped vs s))"

definition run_once :: "(string \<Rightarrow> recovery_world) \<Rightarrow> rat \<Rightarrow> world \<Rightarrow> (string \<Rightarrow> bool) \<Rightarrow> paper \<Rightarrow> unit res \<times> paper" where
  "run_once rws clock_now w stopped s =
     (if late_failure s \<noteq> [] then (ok, s)
      else bindS (on_journal (\<lambda>j. recovery_rows (io w ''due'') j clock_now) s) (\<lambda>due s. run_checks rws w stopped due s))"

end
