(* ===== verification/Recovery_Runs.thy ===== *)
theory Recovery_Runs
  imports Paper_Recovery
begin

text \<open>
  Properties of paper recovery: what an accounted order proves, that inconclusive evidence resolves nothing, that
  a check starts no broker call, and that a placement of which the broker has no trace is settled after five
  checks.
\<close>

subsection \<open>Evidence\<close>

text \<open>Accounting a placement identifies one broker order, and that order is the one that was asked for.\<close>

definition same_amount :: "pydict \<Rightarrow> pydict \<Rightarrow> string \<Rightarrow> bool" where
  "same_amount final expected key \<longleftrightarrow> (\<exists>a v b. evidence_number (dict_get final key PNone) = Inr a
     \<and> map_of expected key = Some v \<and> evidence_number v = Inr b \<and> dec_val a = dec_val b)"

lemma same_orderD:
  assumes "same_order x expected = Inr True" "fill_of final = Inr x"
  shows "same_amount final expected ''qty'' \<and> same_amount final expected ''price''"
  using assms
  by (auto simp: same_order_def same_number_def fill_of_def same_amount_def member_def res_simps split: option.splits if_split_asm)

lemma remark_agreesD:
  assumes "remark_agrees r d = Inr u" "truthy_text (order_tag r)" "\<not> truthy_text (broker_order_id r)"
  shows "dict_get d ''remark'' PNone = PStr (the (order_tag r))"
  using assms by (auto simp: remark_agrees_def Let_def res_simps)

text \<open>Recovery confirms a placement only from evidence that identifies it: every observation that correlates
  carries the same broker identifier, which is the recorded one where there is one, and otherwise carries the
  placement's own tag; the instrument and side are those of the request, quantity and price are those that were
  sent, and no more is filled than was ordered.\<close>
theorem accounted_placement_is_the_request:
  assumes "account_matches rw r found = Inr (Some (final, facts, resolution))" "kind r = PLACE"
  shows "resolution = ''BROKER_CONFIRMED'' \<and> final \<in> set found
    \<and> (\<forall>d \<in> set found. dict_get d ''order_id'' PNone = dict_get final ''order_id'' PNone)
    \<and> (if truthy_text (broker_order_id r) then dict_get final ''order_id'' PNone = PStr (the (broker_order_id r))
       else truthy_text (order_tag r) \<longrightarrow> (\<forall>d \<in> set found. dict_get d ''remark'' PNone = PStr (the (order_tag r))))
    \<and> (\<exists>c side. map_of (request r) ''code'' = Some c \<and> py_eq (dict_get final ''code'' PNone) c
        \<and> map_of (request r) ''trd_side'' = Some side \<and> py_eq (dict_get final ''trd_side'' PNone) side)
    \<and> same_amount final (expected_request r) ''qty'' \<and> same_amount final (expected_request r) ''price''
    \<and> (\<exists>q f. evidence_number (dict_get final ''qty'' PNone) = Inr q \<and> evidence_number (dict_get final ''dealt_qty'' PNone) = Inr f
        \<and> 0 \<le> dec_val f \<and> dec_val f \<le> dec_val q)"
proof -
  obtain rest where found: "found = final # rest"
    using assms(1) by (auto simp: account_matches_def res_simps split: list.splits if_split_asm option.splits)
  obtain x where x: "fill_of final = Inr x" "check_fill final x = ok" "resolution_of r final x = Inr (Some resolution)"
    and agree: "\<forall>d \<in> set found. observation_agrees r final d = ok"
    and one: "\<forall>d \<in> set found. dict_get d ''order_id'' PNone = dict_get final ''order_id'' PNone"
    and recorded: "truthy_text (broker_order_id r) \<longrightarrow> dict_get final ''order_id'' PNone = PStr (the (broker_order_id r))"
    using assms(1) by (auto simp: account_matches_def found res_simps split: if_split_asm option.splits)
  have pm: "placement_matches r final x = Inr True" "resolution = ''BROKER_CONFIRMED''"
    using x(3) assms(2) by (auto simp: resolution_of_def res_simps split: if_split_asm)
  then have "same_order x (expected_request r) = Inr True"
    by (auto simp: placement_matches_def res_simps split: if_split_asm)
  note amounts = same_orderD [OF this x(1)]
  have request: "\<exists>c side. map_of (request r) ''code'' = Some c \<and> py_eq (dict_get final ''code'' PNone) c
        \<and> map_of (request r) ''trd_side'' = Some side \<and> py_eq (dict_get final ''trd_side'' PNone) side"
    using pm(1) by (auto simp: placement_matches_def member_def res_simps split: if_split_asm option.splits)
  have remark: "truthy_text (order_tag r) \<Longrightarrow> \<not> truthy_text (broker_order_id r) \<Longrightarrow>
      \<forall>d \<in> set found. dict_get d ''remark'' PNone = PStr (the (order_tag r))"
    using agree by (auto simp: observation_agrees_def res_simps intro: remark_agreesD)
  have "\<exists>q f. evidence_number (dict_get final ''qty'' PNone) = Inr q \<and> evidence_number (dict_get final ''dealt_qty'' PNone) = Inr f
        \<and> 0 \<le> dec_val f \<and> dec_val f \<le> dec_val q"
    using x(1,2) by (auto simp: fill_of_def check_fill_def res_simps split: if_split_asm)
  then show ?thesis using pm(2) found one recorded request remark amounts by auto
qed

definition sample_order :: pydict where
  "sample_order = [(''order_id'', PStr ''55''), (''remark'', PStr ''tag1''), (''order_status'', PStr ''SUBMITTED''), (''code'', PStr ''US.AAPL''),
     (''trd_side'', PStr ''BUY''), (''order_type'', PStr ''NORMAL''), (''qty'', PInt 3), (''price'', PStr ''10.50''), (''dealt_qty'', PInt 1),
     (''dealt_avg_price'', PStr ''10.5'')]"

definition sample_placement :: operation where
  "sample_placement = (new_operation ''op1'' ''e1'' 7 PLACE ''c'' ''c'' [(''code'', PStr ''US.AAPL''), (''trd_side'', PStr ''BUY''),
     (''qty'', PInt 3), (''price'', PStr ''10.5'')] (Some ''tag1'') 100)"

definition sample_answer :: recovery_world where
  "sample_answer = \<lparr>current_orders = Inr (PList [] []), history_orders = Inr (PList [] []), positions_of = (\<lambda>_. Inr (PList [] [])),
     due_clock = 0, start_clock = 1, done_clock = 2, stopping = False\<rparr>"

theorem accounted_placement_is_the_request_witness:
  "same_amount sample_order (expected_request sample_placement) ''price''"
proof -
  have "case account_matches sample_answer sample_placement [sample_order] of Inr (Some x) \<Rightarrow> True | _ \<Rightarrow> False"
    by code_simp
  then obtain final facts resolution where
      a: "account_matches sample_answer sample_placement [sample_order] = Inr (Some (final, facts, resolution))"
    by (auto split: sum.splits option.splits)
  have "kind sample_placement = PLACE" by (simp add: sample_placement_def new_operation_def)
  from accounted_placement_is_the_request [OF a this] show ?thesis by auto
qed

subsection \<open>Recording a check\<close>

text \<open>The row after a check that resolves nothing.\<close>

definition checked_row :: "rat \<Rightarrow> rat \<Rightarrow> string \<Rightarrow> pydict \<Rightarrow> rat \<Rightarrow> int \<Rightarrow> row_view \<Rightarrow> row_view" where
  "checked_row started completed outc details due n v =
     v\<lparr>row := (row v)\<lparr>evidence := Some (dict_get details ''orders'' (PList [] ''[]'')), next_recovery_at := due, updated_at := n\<rparr>,
       recovery_checks := recovery_checks v @ [\<lparr>check_operation = operation_id (row v), started_at = started,
         completed_at = completed, check_outcome = outc, check_details = details\<rparr>]\<rparr>"

lemma row_of_record_check:
  assumes "row_of d oid = Some v"
  shows "row_of (record_check oid a b outc details due n d) oid = Some (checked_row a b outc details due n v)"
proof -
  have find: "find_row operation_id oid (operations d) = Some (row v)" "operation_id (row v) = oid"
    using row_of_SomeD [OF assms] by auto
  show ?thesis
    using assms
    using find(2) by (cases v) (auto simp: row_of_def record_check_def find_row_update_rows find checked_row_def)
qed

lemma record_recovery_open:
  assumes "\<not> closed j" "\<not> failed j" "row_of (db j) oid = Some v" "json_check (as_dict details) = ok"
  shows "record_recovery True j oid (state (row v)) a b outc details due None rc facts n
    = (ok, j\<lparr>db := record_check oid a b outc details due n (db j)\<rparr>)"
  unfolding record_recovery_def transaction_healthy [OF assms(1,2) TrueI] record_recovery_body_def assms(3,4) sum.case option.case Let_def
  by simp

lemma checks_of_row: "row_of d oid = Some v \<Longrightarrow> recovery_checks v = filter (\<lambda>c. check_operation c = oid) (checks d)"
  by (auto simp: row_of_def split: option.splits)

lemma record_recovery_absent:
  assumes "\<not> closed j" "\<not> failed j" "environment j = ''SIMULATE''" and v: "row_of (db j) oid = Some v"
    and details: "json_check (as_dict details) = ok"
    and search: "absence_searchable v" "recovery_disposition (row v) = None" "5 \<le> negative_checks v + 1"
  shows "\<exists>t w. record_recovery True j oid (state (row v)) a b ''NOT_FOUND'' details due (Some ASSUMED_ABSENT) None None n = (ok, t)
    \<and> row_of (db t) oid = Some w \<and> recovery_disposition (row w) = Some ASSUMED_ABSENT \<and> \<not> recovery_pending w
    \<and> state (row w) = UNKNOWN_OUTCOME"
proof -
  define d1 where "d1 = record_check oid a b ''NOT_FOUND'' details due n (db j)"
  define r1 where "r1 = row (checked_row a b ''NOT_FOUND'' details due n v)"
  have id: "operation_id (row v) = oid" using row_of_SomeD [OF v] by simp
  have find: "find_row operation_id oid (operations d1) = Some r1"
    using row_of_SomeD [OF row_of_record_check [OF v, of a b "''NOT_FOUND''" details due n]] by (simp add: d1_def r1_def)
  have "length (filter (\<lambda>c. check_operation c = oid \<and> check_outcome c = ''NOT_FOUND'') (checks d1)) = negative_checks v + 1"
    by (simp add: d1_def record_check_def negative_checks_def checks_of_row [OF v] conj_commute)
  then have "absence_evidence v (length (filter (\<lambda>c. check_operation c = oid \<and> check_outcome c = ''NOT_FOUND'') (checks d1)))"
    using search by (auto simp: absence_evidence_def absence_searchable_def seen_before_def)
  then obtain audit where "apply_resolution ''SIMULATE'' (epoch j) v ASSUMED_ABSENT ''NOT_FOUND'' details (state (row v)) None None d1
      = Inr (d1\<lparr>audits := audits d1 @ [audit],
          operations := update_rows (\<lambda>x. operation_id x = oid)
            (recovery_row UNKNOWN_OUTCOME ''POSSIBLY_SENT'' ASSUMED_ABSENT None None None) (operations d1),
          reviews := filter (\<lambda>x. fst x \<noteq> oid) (reviews d1)\<rparr>)" (is "_ = Inr ?d2")
    using search(1)
    by (auto simp: apply_resolution_def resolve_def Let_def id evidence_reference_text_def receipt_field_def given_def
        absence_searchable_def json_check.simps)
  then have "record_recovery True j oid (state (row v)) a b ''NOT_FOUND'' details due (Some ASSUMED_ABSENT) None None n
      = (ok, j\<lparr>db := ?d2\<rparr>)"
    unfolding record_recovery_def transaction_healthy [OF assms(1,2) TrueI] record_recovery_body_def v details sum.case option.case
      Let_def assms(3) d1_def [symmetric]
    by simp
  moreover have "find_row operation_id oid (operations ?d2)
      = Some (recovery_row UNKNOWN_OUTCOME ''POSSIBLY_SENT'' ASSUMED_ABSENT None None None r1)"
    using find by (simp add: find_row_update_rows recovery_row_def r1_def checked_row_def id)
  ultimately show ?thesis
    by (intro exI [of _ "j\<lparr>db := ?d2\<rparr>"] exI [of _ "the (row_of ?d2 oid)"]) (simp add: row_of_def recovery_row_def)
qed

subsection \<open>A broker without a trace\<close>

text \<open>A check whose queries succeed and list no order, on working storage.\<close>

definition empty_answer :: "recovery_world \<Rightarrow> bool" where
  "empty_answer rw \<longleftrightarrow> current_orders rw = Inr (PList [] []) \<and> history_orders rw = Inr (PList [] []) \<and> \<not> stopping rw"

definition working :: "world \<Rightarrow> bool" where
  "working w \<longleftrightarrow> (\<forall>x. io w x) \<and> (\<forall>x. writable w x)"

text \<open>A placement under recovery of which nothing has been seen in \<open>n\<close> checks, due by the given time.\<close>

definition usable :: "paper \<Rightarrow> bool" where
  "usable s \<longleftrightarrow> late_failure s = [] \<and> \<not> closed (journal s) \<and> \<not> failed (journal s) \<and> environment (journal s) = ''SIMULATE''"

definition searching :: "string \<Rightarrow> nat \<Rightarrow> rat \<Rightarrow> paper \<Rightarrow> bool" where
  "searching oid n due s \<longleftrightarrow> usable s \<and> (\<exists>v. row_of (db (journal s)) oid = Some v \<and> absence_searchable v
     \<and> recovery_disposition (row v) = None \<and> recovery_pending v \<and> negative_checks v = n
     \<and> (\<exists>k. int_of_text (account (row v)) = Inr k) \<and> next_recovery_at (row v) \<le> due)"

definition assumed_absent :: "string \<Rightarrow> paper \<Rightarrow> bool" where
  "assumed_absent oid s \<longleftrightarrow> (\<exists>v. row_of (db (journal s)) oid = Some v \<and> recovery_disposition (row v) = Some ASSUMED_ABSENT
     \<and> \<not> recovery_pending v \<and> state (row v) = UNKNOWN_OUTCOME)"

lemma lookup_healthy: "\<not> closed j \<Longrightarrow> \<not> failed j \<Longrightarrow> lookup True j oid = (Inr (row_of (db j) oid), j)"
  by (simp add: lookup_def transaction_healthy)

lemma on_journal_healthy: "f (journal s) = (r, j) \<Longrightarrow> on_journal f s = (r, s\<lparr>journal := j\<rparr>)"
  by (simp add: on_journal_def)

lemma result_of_healthy:
  assumes "working w" "usable s"
  shows "\<exists>r. result_of w site s v = (r, s)"
  using assms by (auto simp: result_of_def Let_def paper_health_def on_journal_def health_def connection_def working_def usable_def
      split: prod.splits)

lemma due_row:
  assumes "row_of (db j) oid = Some v" "recovery_pending v" "next_recovery_at (row v) \<le> c" "\<not> closed j" "\<not> failed j"
  shows "\<exists>vs. recovery_rows True j c = (Inr vs, j) \<and> oid \<in> (\<lambda>x. operation_id (row x)) ` set vs"
proof -
  let ?rows = "sort_key next_recovery_at (sort_key created_at (filter (recovery_due (db j) c) (operations (db j))))"
  have r: "row v \<in> set (operations (db j))" "operation_id (row v) = oid" using row_of_SomeD [OF assms(1)] by auto
  have "oid \<in> fst ` set (reviews (db j))"
    using assms(1,2) by (force simp: row_of_def split: option.splits)
  then have "row v \<in> set ?rows" using r assms(3) by (simp add: recovery_due_def)
  then have "v \<in> set (List.map_filter (\<lambda>r. row_of (db j) (operation_id r)) ?rows)"
    using assms(1) r(2) by (force simp: List.map_filter_def)
  then show ?thesis using assms(4,5) r(2) by (auto simp: recovery_rows_def transaction_healthy)
qed

lemma investigate_empty:
  assumes "empty_answer rw" "int_of_text (account (row v)) = Inr k" "kind (row v) = PLACE"
  shows "investigate rw w v s
    = (Inr (nothing_found v [(''orders'', PList [] []), (''correlated_order_seen'', PBool False)]), s)"
  using assms
  by (simp add: investigate_def observations_def empty_answer_def matches_def correlation_target_def)

definition negative_details :: pydict where
  "negative_details = [(''orders'', PList [] []), (''correlated_order_seen'', PBool False), (''reason'', PStr ''NOT_FOUND'')]"

lemma negative_details_json: "json_check (as_dict negative_details) = ok"
  by (simp add: negative_details_def)

lemma put_reason: "put_member ''reason'' (PStr ''NOT_FOUND'') [(''orders'', PList [] []), (''correlated_order_seen'', PBool False)]
   = negative_details"
  by (simp add: put_member_def negative_details_def)

lemma negative_check:
  assumes "searching oid n (due_clock rw) s" "empty_answer rw" "working w"
  shows "if n + 1 < 5 then searching oid (n + 1) (done_clock rw + 20) (snd (check_operation_now rw w oid s))
    else assumed_absent oid (snd (check_operation_now rw w oid s))"
proof -
  obtain v k where v: "row_of (db (journal s)) oid = Some v" "absence_searchable v" "recovery_disposition (row v) = None"
      "recovery_pending v" "negative_checks v = n" "int_of_text (account (row v)) = Inr k" "next_recovery_at (row v) \<le> due_clock rw"
    and u: "usable s"
    using assms(1) by (auto simp: searching_def)
  have io: "io w x" "writable w x" for x using assms(3) by (auto simp: working_def)
  have healthy: "\<not> closed (journal s)" "\<not> failed (journal s)" "environment (journal s) = ''SIMULATE''" "late_failure s = []"
    using u by (auto simp: usable_def)
  have id: "operation_id (row v) = oid" using row_of_SomeD [OF v(1)] by simp
  obtain vs where due: "recovery_rows True (journal s) (due_clock rw) = (Inr vs, journal s)" "oid \<in> (\<lambda>x. operation_id (row x)) ` set vs"
    using due_row [OF v(1,4,7) healthy(1,2)] by blast
  have place: "kind (row v) = PLACE" using v(2) by (simp add: absence_searchable_def)
  let ?x = "nothing_found v [(''orders'', PList [] []), (''correlated_order_seen'', PBool False)]"
  obtain j where rec: "record_finding rw w v ?x s = (ok, s\<lparr>journal := j\<rparr>)"
    and usable: "usable (s\<lparr>journal := j\<rparr>)"
    and after: "if n + 1 < 5 then searching oid (n + 1) (done_clock rw + 20) (s\<lparr>journal := j\<rparr>) else assumed_absent oid (s\<lparr>journal := j\<rparr>)"
    and known: "\<exists>v'. row_of (db j) oid = Some v'"
  proof (cases "n + 1 < 5")
    case True
    let ?due = "done_clock rw + NEGATIVE_GAPS ! n"
    let ?d = "record_check oid (start_clock rw) (done_clock rw) ''NOT_FOUND'' negative_details ?due (now w) (db (journal s))"
    let ?v = "checked_row (start_clock rw) (done_clock rw) ''NOT_FOUND'' negative_details ?due (now w) v"
    have x: "?x = (open_finding ''NOT_FOUND'' [(''orders'', PList [] []), (''correlated_order_seen'', PBool False)])
        \<lparr>found_delay := NEGATIVE_GAPS ! n\<rparr>"
      using True v(2,3,5) by (simp add: nothing_found_def Let_def)
    have rec: "record_finding rw w v ?x s = (ok, s\<lparr>journal := (journal s)\<lparr>db := ?d\<rparr>\<rparr>)"
      unfolding record_finding_def
      by (rule on_journal_healthy) (simp add: x open_finding_def io id put_reason record_recovery_open [OF healthy(1,2) v(1) negative_details_json])
    have "n \<in> {0, 1, 2, 3}" using True by auto
    then have gap: "NEGATIVE_GAPS ! n \<le> 20" by (auto simp: NEGATIVE_GAPS_def)
    have "absence_searchable ?v" "recovery_disposition (row ?v) = None" "recovery_pending ?v" "negative_checks ?v = n + 1"
        "account (row ?v) = account (row v)" "next_recovery_at (row ?v) = ?due"
      using v(2-5) by (auto simp: checked_row_def absence_searchable_def seen_before_def negative_checks_def negative_details_def dict_get_def)
    then have "searching oid (n + 1) (done_clock rw + 20) (s\<lparr>journal := (journal s)\<lparr>db := ?d\<rparr>\<rparr>)"
      using u v(6) gap row_of_record_check [OF v(1)] by (auto simp: searching_def usable_def)
    then show thesis using that [of "(journal s)\<lparr>db := ?d\<rparr>"] rec True u row_of_record_check [OF v(1)] by (auto simp: usable_def)
  next
    case False
    have x: "?x = (open_finding ''NOT_FOUND'' [(''orders'', PList [] []), (''correlated_order_seen'', PBool False)])
        \<lparr>found_delay := MONITOR_INTERVAL, found_resolution := Some ASSUMED_ABSENT\<rparr>"
      using False v(2,3,5) by (simp add: nothing_found_def Let_def)
    have five: "5 \<le> negative_checks v + 1" using False v(5) by simp
    obtain t y where t: "record_recovery True (journal s) oid (state (row v)) (start_clock rw) (done_clock rw) ''NOT_FOUND'' negative_details
        (done_clock rw + MONITOR_INTERVAL) (Some ASSUMED_ABSENT) None None (now w) = (ok, t)"
        "row_of (db t) oid = Some y" "recovery_disposition (row y) = Some ASSUMED_ABSENT" "\<not> recovery_pending y"
        "state (row y) = UNKNOWN_OUTCOME"
      using record_recovery_absent [OF healthy(1-3) v(1) negative_details_json v(2,3) five] by blast
    have rec: "record_finding rw w v ?x s = (ok, s\<lparr>journal := t\<rparr>)"
      unfolding record_finding_def
      by (rule on_journal_healthy) (simp add: x open_finding_def io id put_reason t(1))
    obtain d where "t = (journal s)\<lparr>db := d\<rparr>"
      using t(1) unfolding record_recovery_def by (auto elim: transaction_cases)
    then have "usable (s\<lparr>journal := t\<rparr>)" using u by (simp add: usable_def)
    then show thesis using that [of t] rec False t by (auto simp: assumed_absent_def)
  qed
  have first: "on_journal (\<lambda>j. lookup (io w ''lookup'') j oid) s = (Inr (Some v), s)"
    using lookup_healthy [OF healthy(1,2)] v(1) by (simp add: on_journal_def io)
  have second: "on_journal (\<lambda>j. recovery_rows (io w ''due'') j (due_clock rw)) s = (Inr vs, s)"
    using due(1) by (simp add: on_journal_def io)
  obtain v' where v': "row_of (db j) oid = Some v'" using known by blast
  have third: "on_journal (\<lambda>j. lookup (io w ''lookup4'') j oid) (s\<lparr>journal := j\<rparr>) = (Inr (Some v'), s\<lparr>journal := j\<rparr>)"
    using usable v' by (simp add: on_journal_def io lookup_healthy usable_def)
  have "snd (check_operation_now rw w oid s) = s\<lparr>journal := j\<rparr>"
    using result_of_healthy [OF assms(3) usable, of "''result''" v'] assms(2) due(2)
    by (auto simp: check_operation_now_def bindS_def first second third healthy(4) investigate_empty [OF assms(2) v(6) place] rec
        empty_answer_def)
  then show ?thesis using after by (simp only:)
qed

text \<open>Recovery of an untraced placement ends: if the broker, asked successfully and at the scheduled intervals,
  never lists an order with the placement's tag, then after its fifth check (the gaps between checks are at most
  20 seconds) the placement is recorded as assumed absent, its outcome unknown, and blocks admissions no more.\<close>
theorem untraced_placement_is_settled:
  assumes "searching oid n (due_clock (hd rws)) s" "n < 5" "length rws = 5 - n" "\<forall>rw \<in> set rws. empty_answer rw"
    and "successively (\<lambda>a b. done_clock a + 20 \<le> due_clock b) rws" "working w"
  shows "assumed_absent oid (foldl (\<lambda>s rw. snd (check_operation_now rw w oid s)) s rws)"
  using assms(1-5)
proof (induction rws arbitrary: n s)
  case (Cons rw rws)
  let ?t = "snd (check_operation_now rw w oid s)"
  note check = negative_check [OF Cons.prems(1) [simplified list.sel] _ assms(6)]
  show ?case
  proof (cases rws)
    case Nil
    then have "\<not> n + 1 < 5" using Cons.prems(3) by simp
    then show ?thesis using check Cons.prems(4) Nil by simp
  next
    case (Cons rw' rest)
    have "n + 1 < 5" using Cons.prems(3) Cons by simp
    then have "searching oid (n + 1) (done_clock rw + 20) ?t" using check Cons.prems(4) by simp
    moreover have "done_clock rw + 20 \<le> due_clock rw'" using Cons.prems(5) Cons by simp
    ultimately have "searching oid (n + 1) (due_clock (hd rws)) ?t" using Cons by (force simp: searching_def)
    then have "assumed_absent oid (foldl (\<lambda>s rw. snd (check_operation_now rw w oid s)) ?t rws)"
      using Cons.prems Cons by (intro Cons.IH [of "n + 1"]) auto
    then show ?thesis by simp
  qed
qed simp

text \<open>A restarted process with a placement that four checks did not find.\<close>

definition sample_lost :: paper where
  "sample_lost = sample_paper\<lparr>journal := sample_reopened\<rparr>"

lemma sample_searching: "searching ''op1'' 4 (due_clock sample_answer) sample_lost"
proof -
  have "case row_of (db sample_reopened) ''op1'' of None \<Rightarrow> False | Some v \<Rightarrow> absence_searchable v
      \<and> recovery_disposition (row v) = None \<and> recovery_pending v \<and> negative_checks v = 4
      \<and> \<not> isl (int_of_text (account (row v))) \<and> next_recovery_at (row v) \<le> 0"
    by code_simp
  moreover have "\<not> closed sample_reopened" "\<not> failed sample_reopened" "environment sample_reopened = ''SIMULATE''" by code_simp+
  ultimately show ?thesis
    by (auto simp: searching_def usable_def sample_lost_def sample_paper_def sample_answer_def split: option.splits)
      (metis sum.disc(1) sum.exhaust)
qed

lemma sample_empty: "empty_answer sample_answer" "working sample_world"
  by (simp_all add: empty_answer_def sample_answer_def working_def sample_world_def)

theorem untraced_placement_is_settled_witness:
  "assumed_absent ''op1'' (snd (check_operation_now sample_answer sample_world ''op1'' sample_lost))"
  using untraced_placement_is_settled [of "''op1''" 4 "[sample_answer]" sample_lost sample_world] sample_searching sample_empty
  by simp

subsection \<open>Nothing is resolved without evidence\<close>

text \<open>Between the two states the operation stays as undecided as it was.\<close>

definition undecided :: "string \<Rightarrow> paper \<Rightarrow> paper \<Rightarrow> bool" where
  "undecided oid s t \<longleftrightarrow> (\<forall>v. row_of (db (journal s)) oid = Some v \<longrightarrow> (\<exists>v'. row_of (db (journal t)) oid = Some v'
     \<and> state (row v') = state (row v) \<and> recovery_disposition (row v') = recovery_disposition (row v)
     \<and> (recovery_pending v \<longrightarrow> recovery_pending v')))"

lemma undecided_refl [simp]: "undecided oid s s"
  by (simp add: undecided_def)

lemma undecided_trans: "undecided oid s t \<Longrightarrow> undecided oid t u \<Longrightarrow> undecided oid s u"
  unfolding undecided_def by fastforce

lemma undecided_bindS:
  "undecided oid s (snd m) \<Longrightarrow> (\<And>x u. m = (Inr x, u) \<Longrightarrow> undecided oid u (snd (f x u))) \<Longrightarrow> undecided oid s (snd (bindS m f))"
  using undecided_trans by (rule bindS_related)

lemma undecided_same: "db (journal t) = db (journal s) \<Longrightarrow> undecided oid s t"
  by (simp add: undecided_def)

lemma undecided_on_journal: "(\<And>r j. f (journal s) = (r, j) \<Longrightarrow> db j = db (journal s)) \<Longrightarrow> undecided oid s (snd (on_journal f s))"
  by (cases "f (journal s)") (auto simp: on_journal_def intro: undecided_same)

lemma lookup_db: "lookup i j oid = (r, j') \<Longrightarrow> db j' = db j"
  unfolding lookup_def by (auto elim: transaction_cases)

lemma recovery_rows_db: "recovery_rows i j c = (r, j') \<Longrightarrow> db j' = db j"
  unfolding recovery_rows_def by (auto elim: transaction_cases)

lemma undecided_result: "undecided oid s (snd (result_of w site s v))"
proof -
  have "db j = db (journal s)" if "health (writable w site) (io w site) (journal s) = (h, j)" for h j
    using health_flags [OF that] by auto
  then show ?thesis
    by (cases "health (writable w site) (io w site) (journal s)")
      (auto simp: result_of_def Let_def paper_health_def on_journal_def intro: undecided_same)
qed

lemma undecided_block:
  assumes "block_late_order i j oid' = (r, j')"
  shows "undecided oid s (s\<lparr>journal := j'\<rparr>) \<or> journal s \<noteq> j"
proof -
  have "operations (db j') = operations (db j)" "set (reviews (db j)) \<subseteq> set (reviews (db j'))"
    using assms unfolding block_late_order_def by (auto elim!: transaction_cases simp: insert_ignore_def split: if_split_asm)
  then show ?thesis by (auto simp: undecided_def row_of_def split: option.splits)
qed

lemma undecided_investigate: "undecided oid s (snd (investigate rw w v s))"
proof -
  have "undecided oid s (snd (on_journal (\<lambda>j. block_late_order (io w ''late'') j oid') s))" for oid'
    using undecided_block [of "io w ''late''" "journal s" oid'] by (cases "block_late_order (io w ''late'') (journal s) oid'") (auto simp: on_journal_def)
  then show ?thesis
    by (auto simp: investigate_def split: sum.split list.split intro!: undecided_bindS)
qed

lemma undecided_record:
  assumes "found_resolution x = None"
  shows "undecided oid s (snd (record_finding rw w v x s))"
proof -
  obtain r j where j: "record_recovery (io w ''record'') (journal s) (operation_id (row v)) (state (row v)) (start_clock rw) (done_clock rw)
       (found_outcome x) (found_details x) (done_clock rw + found_delay x) None (found_receipt x) (found_facts x) (now w) = (r, j)"
    by fastforce
  define d where "d = record_check (operation_id (row v)) (start_clock rw) (done_clock rw) (found_outcome x) (found_details x)
       (done_clock rw + found_delay x) (now w) (db (journal s))"
  have "db j = db (journal s) \<or> db j = d"
    using j unfolding record_recovery_def
    by (auto elim!: transaction_cases simp: record_recovery_body_def Let_def d_def split: option.splits if_split_asm sum.splits)
  moreover have "undecided oid s (s\<lparr>journal := j\<rparr>)" if "db j = d"
    unfolding undecided_def
    by (auto simp: that d_def row_of_def record_check_def find_row_update_rows split: option.splits)
  ultimately show ?thesis
    using j assms by (auto simp: record_finding_def on_journal_def intro: undecided_same)
qed

lemma check_undecided:
  assumes "\<And>v u x u'. row_of (db (journal s)) oid = Some v \<Longrightarrow> investigate rw w v u = (Inr x, u') \<Longrightarrow> found_resolution x = None"
  shows "undecided oid s (snd (check_operation_now rw w oid s))"
proof -
  have looked: "undecided oid' t (snd (on_journal (\<lambda>j. lookup i j q) t))" for oid' i q t
    by (rule undecided_on_journal) (rule lookup_db)
  have listed: "undecided oid' t (snd (on_journal (\<lambda>j. recovery_rows i j c) t))" for oid' i c t
    by (rule undecided_on_journal) (rule recovery_rows_db)
  have result: "undecided oid' t (snd (case result_of w site u v of (r, s) \<Rightarrow> (Inr r, s)))" if "undecided oid' t u" for oid' site t u v
    using undecided_trans [OF that undecided_result [of oid' u w site v]] by (cases "result_of w site u v") simp
  show ?thesis
    unfolding check_operation_now_def
  proof (rule undecided_bindS)
    show "undecided oid s (snd (on_journal (\<lambda>j. lookup (io w ''lookup'') j oid) s))" by (rule looked)
  next
    fix known u assume "on_journal (\<lambda>j. lookup (io w ''lookup'') j oid) s = (Inr known, u)"
    then have known: "known = row_of (db (journal s)) oid" by (auto simp: on_journal_iff dest: lookup_found)
    show "undecided oid u (snd (case known of None \<Rightarrow> (raise ValueError ''not owned by this journal'', u)
     | Some v \<Rightarrow>
        if late_failure u \<noteq> [] then (raise ExecutionStoreError ''OUTCOME_NOT_STORED'', u)
        else bindS (on_journal (\<lambda>j. recovery_rows (io w ''due'') j (due_clock rw)) u) (\<lambda>due s.
          if oid \<notin> (\<lambda>x. operation_id (row x)) ` set due
          then (case result_of w ''result'' s v of (r, s) \<Rightarrow> (Inr r, s))
          else bindS (investigate rw w v s) (\<lambda>x s.
            if stopping rw then (case result_of w ''result'' s v of (r, s) \<Rightarrow> (Inr r, s))
            else bindS (record_finding rw w v x s) (\<lambda>_ s.
              bindS (on_journal (\<lambda>j. lookup (io w ''lookup4'') j oid) s) (\<lambda>again s. case again of
                None \<Rightarrow> (raise AssertionError ''result'', s)
              | Some v' \<Rightarrow> (case result_of w ''result'' s v' of (r, s) \<Rightarrow> (Inr r, s))))))))"
      using assms known
      by (auto split: option.split intro!: undecided_bindS looked listed undecided_record undecided_investigate result)
  qed
qed

text \<open>C29. Recovery decides only on evidence. If a check gives an operation a disposition, or releases it from
  review, then the broker's answers were complete and either accounted for the correlated order, or contained
  no correlated order for a tagged, never seen placement with at least four negative checks before this one.\<close>
theorem recovery_needs_evidence:
  assumes "check_operation_now rw w oid s = (r, t)" "row_of (db (journal s)) oid = Some v" "\<not> undecided oid s t"
  shows "\<exists>orders found. observations ''SIMULATE'' rw (row v) = Inr orders \<and> matches {PLACE} (row v) orders = Inr found
    \<and> ((\<exists>final facts resolution. account_matches rw (row v) found = Inr (Some (final, facts, resolution)))
       \<or> found = [] \<and> absence_searchable v \<and> recovery_disposition (row v) \<noteq> Some ASSUMED_ABSENT \<and> 4 \<le> negative_checks v)"
proof -
  have "\<not> undecided oid s (snd (check_operation_now rw w oid s))" using assms(1,3) by simp
  moreover have "undecided oid s (snd (check_operation_now rw w oid s))"
    if "\<And>u x u'. investigate rw w v u = (Inr x, u') \<Longrightarrow> found_resolution x = None"
    by (rule check_undecided) (use assms(2) that in auto)
  ultimately obtain u x u' where x: "investigate rw w v u = (Inr x, u')" "found_resolution x \<noteq> None"
    by blast
  have err: "error_finding d e = Inr x \<Longrightarrow> found_resolution x = None" for d e
    by (auto simp: error_finding_def open_finding_def split: if_split_asm)
  have none: "found_resolution (nothing_found v d) \<noteq> None \<Longrightarrow> absence_searchable v
      \<and> recovery_disposition (row v) \<noteq> Some ASSUMED_ABSENT \<and> 4 \<le> negative_checks v" for d
    by (auto simp: nothing_found_def open_finding_def Let_def split: if_split_asm)
  show ?thesis
  proof (cases "bindR (observations ''SIMULATE'' rw (row v)) (matches {PLACE} (row v))")
    case (Inl e)
    then have "error_finding [(''orders'', PList [] [])] e = Inr x" using x(1) by (simp add: investigate_def)
    then have "found_resolution x = None" by (rule err)
    then show ?thesis using x(2) by simp
  next
    case (Inr found)
    then obtain orders where o: "observations ''SIMULATE'' rw (row v) = Inr orders" "matches {PLACE} (row v) orders = Inr found"
      by (auto simp: res_simps)
    show ?thesis
    proof (cases found)
      case Nil
      then have "x = nothing_found v [(''orders'', PList [] []), (''correlated_order_seen'', PBool False)]"
        using x(1) Inr by (simp add: investigate_def)
      then show ?thesis using o none x(2) Nil by blast
    next
      case (Cons y ys)
      then have "account_found rw v found = Inr x" using x(1) Inr by (auto simp: investigate_def bindS_Inr)
      then have "\<exists>final facts resolution. account_matches rw (row v) found = Inr (Some (final, facts, resolution))"
        using x(2) by (auto simp: account_found_def Let_def open_finding_def split: sum.splits option.splits dest!: err)
      then show ?thesis using o by blast
    qed
  qed
qed

theorem recovery_needs_evidence_witness:
  "\<exists>v orders found. row_of (db sample_reopened) ''op1'' = Some v \<and> observations ''SIMULATE'' sample_answer (row v) = Inr orders
     \<and> matches {PLACE} (row v) orders = Inr found"
proof -
  let ?t = "snd (check_operation_now sample_answer sample_world ''op1'' sample_lost)"
  obtain v where v: "row_of (db (journal sample_lost)) ''op1'' = Some v" "recovery_disposition (row v) = None"
    using sample_searching by (auto simp: searching_def)
  have "assumed_absent ''op1'' ?t" using negative_check [OF sample_searching sample_empty] by simp
  then have "\<not> undecided ''op1'' sample_lost ?t" using v by (auto simp: undecided_def assumed_absent_def)
  from recovery_needs_evidence [OF prod.collapse [symmetric] v(1) this] v(1) show ?thesis
    unfolding sample_lost_def by auto
qed

end
