(* ===== verification/Journal_Ledger.thy ===== *)
theory Journal_Ledger
  imports Journal_Runs
begin

text \<open>
  What the journal promises, without its tables: a ledger that gives every operation a phase and keeps
  the set of operations that need review. An operation is admitted only while nothing needs review, is
  sent only from the admitted phase, and a settled operation stays settled; a restart settles what was
  being sent and marks it for review. The execution store refines this ledger.
\<close>

subsection \<open>The ledger\<close>

datatype phase = Unseen | Awaiting | Sending | Settled

record ledger =
  phase_of :: "string \<Rightarrow> phase"
  needing_review :: "string set"

inductive ledger_step :: "ledger \<Rightarrow> ledger \<Rightarrow> bool" where
  admission: "phase_of l oid = Unseen \<Longrightarrow> needing_review l = {} \<Longrightarrow>
    ledger_step l (l\<lparr>phase_of := (phase_of l)(oid := Awaiting)\<rparr>)"
| sending: "phase_of l oid = Awaiting \<Longrightarrow> ledger_step l (l\<lparr>phase_of := (phase_of l)(oid := Sending)\<rparr>)"
| settlement: "phase_of l oid \<noteq> Unseen \<Longrightarrow>
    R \<in> {needing_review l, insert oid (needing_review l), needing_review l - {oid}} \<Longrightarrow>
    ledger_step l (l\<lparr>phase_of := (phase_of l)(oid := Settled), needing_review := R\<rparr>)"
| objection: "Unseen \<notin> phase_of l ` A \<Longrightarrow> ledger_step l (l\<lparr>needing_review := needing_review l \<union> A\<rparr>)"
| interruption: "ledger_step l (l\<lparr>phase_of := (\<lambda>oid. if phase_of l oid = Sending then Settled else phase_of l oid),
    needing_review := needing_review l \<union> {oid. phase_of l oid = Sending}\<rparr>)"

text \<open>The ledger of a journal's tables.\<close>

fun phase_of_state :: "op_state \<Rightarrow> phase" where
  "phase_of_state ADMITTED = Awaiting"
| "phase_of_state DISPATCHING = Sending"
| "phase_of_state _ = Settled"

definition ledger_of :: "journal \<Rightarrow> ledger" where
  "ledger_of d = \<lparr>phase_of = (\<lambda>oid. case find_row operation_id oid (operations d) of
       None \<Rightarrow> Unseen | Some r \<Rightarrow> phase_of_state (state r)), needing_review = fst ` set (reviews d)\<rparr>"

lemma phase_of_state_simps:
  "phase_of_state st \<noteq> Unseen" "phase_of_state st = Awaiting \<longleftrightarrow> st = ADMITTED"
  "phase_of_state st = Sending \<longleftrightarrow> st = DISPATCHING"
  "st \<notin> {ADMITTED, DISPATCHING} \<Longrightarrow> phase_of_state st = Settled"
  by (cases st; simp)+

lemma ledger_of_simps:
  "phase_of (ledger_of d) oid = (case find_row operation_id oid (operations d) of
     None \<Rightarrow> Unseen | Some r \<Rightarrow> phase_of_state (state r))"
  "needing_review (ledger_of d) = fst ` set (reviews d)"
  by (simp_all add: ledger_of_def)

lemma phase_Unseen_iff: "phase_of (ledger_of d) oid = Unseen \<longleftrightarrow> oid \<notin> ids d"
  by (auto simp: ledger_of_simps phase_of_state_simps ids_def find_row_None_iff [symmetric] split: option.splits)

lemma ledger_eqI:
  "(\<And>oid. phase_of l oid = phase_of l' oid) \<Longrightarrow> needing_review l = needing_review (l' :: ledger) \<Longrightarrow> l = l'"
  by (cases l; cases l') auto

text \<open>An update of rows that only changes the phase of the rows it hits.\<close>

lemma phase_of_update:
  assumes "operations d' = update_rows p f (operations d)" "\<And>r. operation_id (f r) = operation_id r"
  shows "phase_of (ledger_of d') oid = (case find_row operation_id oid (operations d) of
     None \<Rightarrow> Unseen | Some r \<Rightarrow> phase_of_state (state (if p r then f r else r)))"
  using assms(2) by (simp add: ledger_of_simps assms(1) find_row_update_rows split: option.splits)

subsection \<open>Every method of the store is a number of ledger steps\<close>

lemma admission_ledger:
  assumes "admit_body sha256 s oid ep acc k canon req uuid now d = Done x d'"
  shows "ledger_step\<^sup>*\<^sup>* (ledger_of d) (ledger_of d')"
  using assms
proof (cases rule: admit_bodyE)
  case (fresh r v)
  have new: "operation_id r = oid" "state r = ADMITTED" "find_row operation_id oid (operations d) = None"
    using fresh(2) by (simp_all add: fresh(1) new_operation_def row_of_None_iff ids_def find_row_None_iff)
  have "ledger_of d' = (ledger_of d)\<lparr>phase_of := (phase_of (ledger_of d))(oid := Awaiting)\<rparr>"
    by (intro ledger_eqI) (use new in \<open>auto simp: fresh(8) ledger_of_simps split: option.splits\<close>)
  moreover have "ledger_step (ledger_of d) ((ledger_of d)\<lparr>phase_of := (phase_of (ledger_of d))(oid := Awaiting)\<rparr>)"
    by (intro ledger_step.admission) (simp_all add: ledger_of_simps new(3) fresh(5))
  ultimately show ?thesis by auto
qed simp

lemma dispatch_ledger:
  assumes "mark_dispatch_body oid merged d = Done x d'" "journal_ok env d"
  shows "ledger_step\<^sup>*\<^sup>* (ledger_of d) (ledger_of d')"
proof -
  let ?hit = "\<lambda>r. operation_id r = oid \<and> state r = ADMITTED"
  have d': "operations d' = update_rows ?hit (dispatch_row merged) (operations d)" "reviews d' = reviews d"
    and "length (filter ?hit (operations d)) = 1"
    using assms(1) by (auto simp: mark_dispatch_body_def Let_def split: sum.splits if_splits)
  then have "filter ?hit (operations d) \<noteq> []" by force
  then obtain r where r: "r \<in> set (operations d)" "?hit r" by (auto simp: filter_empty_conv)
  then have row: "find_row operation_id oid (operations d) = Some r"
    using find_row_distinct [OF journal_okD(1) [OF assms(2)] r(1)] by simp
  note phase = phase_of_update [OF d'(1)]
  have "ledger_of d' = (ledger_of d)\<lparr>phase_of := (phase_of (ledger_of d))(oid := Sending)\<rparr>"
    by (intro ledger_eqI) (use r row in \<open>auto simp: phase dispatch_row_def ledger_of_simps [of d] ledger_of_simps(2) d'(2)
        split: option.splits dest: find_row_SomeD\<close>)
  moreover have "phase_of (ledger_of d) oid = Awaiting" using r row by (simp add: ledger_of_simps)
  ultimately show ?thesis using ledger_step.sending by auto
qed

lemma settlement_ledger:
  assumes ops: "operations d' = update_rows (\<lambda>r. operation_id r = oid) f (operations d)"
    and f: "\<And>r. operation_id (f r) = operation_id r" "\<And>r. state (f r) \<notin> {ADMITTED, DISPATCHING}"
    and oid: "oid \<in> ids d"
    and R: "fst ` set (reviews d') \<in> {fst ` set (reviews d), insert oid (fst ` set (reviews d)), fst ` set (reviews d) - {oid}}"
  shows "ledger_step (ledger_of d) (ledger_of d')"
proof -
  have "ledger_of d' = (ledger_of d)\<lparr>phase_of := (phase_of (ledger_of d))(oid := Settled),
      needing_review := fst ` set (reviews d')\<rparr>"
    by (intro ledger_eqI) (use oid f(2) in \<open>auto simp: phase_of_update [OF ops f(1)] ledger_of_simps [of d] ledger_of_simps(2)
        phase_of_state_simps ids_def find_row_None_iff split: option.splits dest: find_row_SomeD\<close>)
  moreover have "ledger_step (ledger_of d) ((ledger_of d)\<lparr>phase_of := (phase_of (ledger_of d))(oid := Settled),
      needing_review := fst ` set (reviews d')\<rparr>)"
    by (rule ledger_step.settlement) (use oid R in \<open>simp_all add: phase_Unseen_iff ledger_of_simps(2)\<close>)
  ultimately show ?thesis by simp
qed

lemma same_ledger:
  assumes "operations d' = update_rows p f (operations d)" "\<And>r. operation_id (f r) = operation_id r"
    "\<And>r. state (f r) = state r" "reviews d' = reviews d"
  shows "ledger_of d' = ledger_of d"
  by (intro ledger_eqI) (use assms(3,4) in \<open>auto simp: phase_of_update [OF assms(1,2)] ledger_of_simps [of d] ledger_of_simps(2)
      split: option.splits\<close>)

lemma outcome_ledger:
  assumes "executor_outcome st reason" "outcome_body oid st disp rc err reason observed now d = Done x d'"
  shows "ledger_step\<^sup>*\<^sup>* (ledger_of d) (ledger_of d')"
proof -
  define d1 where "d1 = d\<lparr>operations := update_rows (\<lambda>r. operation_id r = oid) (outcome_row st disp rc err now) (operations d),
      reviews := reviews d'\<rparr>"
  have d': "operations d' = update_rows (\<lambda>r. st = ACKNOWLEDGED \<and> operation_id r \<in> set observed \<and> kind r = MODIFY
      \<and> state r = ACKNOWLEDGED) observe_row (operations d1)"
    using assms(2) by (auto simp: d1_def outcome_body_def Let_def split: if_splits)
  have same: "ledger_of d' = ledger_of d1"
    by (rule same_ledger [OF d']) (simp_all add: observe_row_def d1_def)
  have revs: "reviews d' = reviews d \<or> oid \<in> ids d \<and> fst ` set (reviews d') = insert oid (fst ` set (reviews d))"
    using assms(2) by (auto simp: outcome_body_def Let_def ids_def split: if_splits)
  show ?thesis
  proof (cases "oid \<in> ids d")
    case True
    have "ledger_step (ledger_of d) (ledger_of d1)"
      by (rule settlement_ledger [where oid = oid and f = "outcome_row st disp rc err now"])
        (use True revs assms(1) in \<open>auto simp: d1_def outcome_row_def executor_outcome_def\<close>)
    then show ?thesis by (simp add: same)
  next
    case False
    then have "operations d1 = operations d"
      by (auto simp: d1_def ids_def intro!: update_rows_no_hit)
    with False revs have "ledger_of d1 = ledger_of d" by (auto simp: ledger_of_def d1_def)
    then show ?thesis by (simp add: same)
  qed
qed

lemma recovery_ledger:
  assumes "record_recovery_body env ep oid obs started completed outc details next_at res rc facts now d = Done x d'"
  shows "ledger_step\<^sup>*\<^sup>* (ledger_of d) (ledger_of d')"
proof -
  define d1 where "d1 = record_check oid started completed outc details next_at now d"
  have same: "ledger_of d1 = ledger_of d"
    unfolding d1_def by (rule same_ledger [where p = "\<lambda>r. operation_id r = oid" and f = "\<lambda>r. r\<lparr>evidence :=
        Some (dict_get details ''orders'' (PList [] ''[]'')), next_recovery_at := next_at, updated_at := now\<rparr>"])
      (simp_all add: record_check_def)
  obtain v where v: "row_of d oid = Some v" and
    "res = None \<and> d' = d1 \<or> (\<exists>q. res = Some q \<and> apply_resolution env ep v q outc details obs rc facts d1 = Inr d')"
    using assms by (auto simp: record_recovery_body_def Let_def d1_def split: option.splits if_splits sum.splits)
  then consider "d' = d1" | q where "apply_resolution env ep v q outc details obs rc facts d1 = Inr d'" by auto
  then show ?thesis
  proof cases
    case 1
    with same show ?thesis by simp
  next
    case (2 q)
    have oid: "operation_id (row v) = oid" "oid \<in> ids d1"
      using row_of_SomeD [OF v] by (auto simp: d1_def ids_def record_check_def map_update_rows_keeps keeps_identity_def)
    from 2 obtain st disp a b au where st: "resolve env v (negatives_of d1 (operation_id (row v))) q rc facts = Inr (st, disp)"
      and d': "d' = d1\<lparr>audits := audits d1 @ [au],
         operations := update_rows (\<lambda>x. operation_id x = oid) (recovery_row st disp q rc a b) (operations d1),
         reviews := filter (\<lambda>x. fst x \<noteq> oid) (reviews d1)\<rparr>"
      by (elim apply_resolution_InrE) (auto simp: oid)
    have "ledger_step (ledger_of d1) (ledger_of d')"
      by (rule settlement_ledger [where oid = oid and f = "recovery_row st disp q rc a b"])
        (use resolve_state [OF st] oid(2) in \<open>force simp: d' recovery_row_def\<close>)+
    then show ?thesis by (simp add: same)
  qed
qed

lemma objection_ledger:
  assumes "operations d' = operations d" "fst ` set (reviews d') = fst ` set (reviews d) \<union> A" "A \<subseteq> ids d"
  shows "ledger_step\<^sup>*\<^sup>* (ledger_of d) (ledger_of d')"
proof -
  have "ledger_of d' = (ledger_of d)\<lparr>needing_review := needing_review (ledger_of d) \<union> A\<rparr>"
    using assms(1,2) by (simp add: ledger_of_def)
  moreover have "Unseen \<notin> phase_of (ledger_of d) ` A" using assms(3) phase_Unseen_iff by (metis imageE subsetD)
  ultimately show ?thesis using ledger_step.objection by auto
qed

lemma startup_reviews_ledger: "ledger_step\<^sup>*\<^sup>* (ledger_of d) (ledger_of (add_startup_reviews d))"
  by (rule objection_ledger [where A = "operation_id ` {r \<in> set (operations d). awaiting_startup_review r}"])
    (force simp: add_startup_reviews_def reviews_add_startup ids_def)+

lemma startup_ledger:
  assumes "distinct (map operation_id (operations d))"
  shows "ledger_step\<^sup>*\<^sup>* (ledger_of d) (ledger_of (startup ep d))"
proof -
  define d1 where "d1 = d\<lparr>epochs := epochs d @ [ep],
      operations := update_rows (\<lambda>r. state r = DISPATCHING) interrupted_row (operations d),
      reviews := insert_all_ignore (map (\<lambda>r. (operation_id r, ''RECOVERED_DISPATCH''))
              (filter (\<lambda>r. state r = DISPATCHING) (operations d))) (reviews d)\<rparr>"
  let ?l = "ledger_of d"
  have "phase_of ?l oid = Sending \<longleftrightarrow> (\<exists>r \<in> set (operations d). operation_id r = oid \<and> state r = DISPATCHING)" for oid
  proof (cases "find_row operation_id oid (operations d)")
    case None
    then have "oid \<notin> operation_id ` set (operations d)" by (simp add: find_row_None_iff)
    with None show ?thesis by (auto simp: ledger_of_simps)
  next
    case (Some r)
    then have "q = r" if "q \<in> set (operations d)" "operation_id q = oid" for q
      using find_row_distinct [OF assms that(1)] that(2) by simp
    then show ?thesis using Some find_row_SomeD [OF Some] by (auto simp: ledger_of_simps phase_of_state_simps)
  qed
  then have "{oid. phase_of ?l oid = Sending} = operation_id ` {r \<in> set (operations d). state r = DISPATCHING}" by auto
  moreover have "fst ` set (reviews d1) = fst ` set (reviews d) \<union> operation_id ` {r \<in> set (operations d). state r = DISPATCHING}"
    by (simp add: d1_def image_Un image_image Un_commute)
  ultimately have revs: "fst ` set (reviews d1) = needing_review ?l \<union> {oid. phase_of ?l oid = Sending}"
    by (simp add: ledger_of_simps(2))
  have ops: "operations d1 = update_rows (\<lambda>r. state r = DISPATCHING) interrupted_row (operations d)"
    by (simp add: d1_def)
  have interrupted: "operation_id (interrupted_row r) = operation_id r" "state (interrupted_row r) = UNKNOWN_OUTCOME" for r
    by (simp_all add: interrupted_row_def)
  have "phase_of (ledger_of d1) oid = (if phase_of ?l oid = Sending then Settled else phase_of ?l oid)" for oid
    unfolding phase_of_update [OF ops interrupted(1)] ledger_of_simps(1) [of d]
    by (cases "find_row operation_id oid (operations d)") (simp_all add: interrupted(2) phase_of_state_simps)
  then have "ledger_of d1 = ?l\<lparr>phase_of := (\<lambda>oid. if phase_of ?l oid = Sending then Settled else phase_of ?l oid),
      needing_review := needing_review ?l \<union> {oid. phase_of ?l oid = Sending}\<rparr>"
    by (intro ledger_eqI) (simp_all add: ledger_of_simps(2) [of d1] revs)
  then have "ledger_step ?l (ledger_of d1)" using ledger_step.interruption [of ?l] by simp
  moreover have "startup ep d = add_startup_reviews d1" by (simp add: startup_def d1_def Let_def)
  ultimately show ?thesis using startup_reviews_ledger [of d1] by (simp add: converse_rtranclp_into_rtranclp)
qed

lemma transaction_ledger:
  assumes "transaction io s f = (r, t)"
    and "\<And>x d. f (db s) = Done x d \<Longrightarrow> ledger_step\<^sup>*\<^sup>* (ledger_of (db s)) (ledger_of d)"
  shows "ledger_step\<^sup>*\<^sup>* (ledger_of (db s)) (ledger_of (db t))"
  using assms(1) by (cases rule: transaction_cases) (use assms(2) in auto)

lemma call_step_ledger:
  assumes "call_step s t" "store_ok s"
  shows "ledger_step\<^sup>*\<^sup>* (ledger_of (db s)) (ledger_of (db t))"
  using assms
proof (induction rule: call_step.induct)
  case (1 sha256 io s oid ep acc k canon req uuid now r t)
  then show ?case unfolding admit_def by (elim transaction_ledger) (rule admission_ledger)
next
  case (2 io s oid merged u t)
  then show ?case
    unfolding mark_dispatch_def store_ok_def by (elim transaction_ledger) (blast intro: dispatch_ledger)
next
  case (3 st reason io s oid disp rc err observed now u t)
  then show ?case
    by (auto simp: outcome_def split: sum.splits elim!: transaction_ledger intro: outcome_ledger)
next
  case (4 io s oid u t)
  then show ?case
    unfolding block_late_order_def
    by (elim transaction_ledger) (auto split: if_splits simp: ids_def intro!: objection_ledger [where A = "{oid}"])
next
  case (5 io s oid obs started completed outc details next_at resolution rc facts now u t)
  then show ?case
    by (auto simp: record_recovery_def Let_def split: sum.splits elim!: transaction_ledger intro: recovery_ledger)
next
  case (6 writable io s h t)
  from 6(1) obtain r s' where tr: "transaction io s (\<lambda>d. Done () (add_startup_reviews d)) = (r, s')" and "db t = db s'"
    by (auto simp: review_def split: prod.splits sum.splits dest!: health_flags)
  with transaction_ledger [OF tr] startup_reviews_ledger show ?case by simp
next
  case (7 writable io s hr t)
  then show ?case by (auto dest!: health_flags)
qed (auto simp: lookup_def unobserved_modifications_def recovery_rows_def close_def split: sum.splits
    elim!: transaction_ledger)

interpretation journal_ledger: refined_system store_start store_step store_ok "\<lambda>s. ledger_of (db s)" ledger_step
proof unfold_locales
  show "ledger_step\<^sup>*\<^sup>* (ledger_of (db s)) (ledger_of (db t))" if "store_ok s" "store_step s t" for s t
    using that(2)
  proof cases
    case call
    then show ?thesis using that(1) by (rule call_step_ledger)
  next
    case (restart create wait locked io ep)
    have "db t = startup ep (db s)"
      using open_store_Inr(1) [OF restart] by (simp add: file_of_def migrate_def)
    with that(1) show ?thesis by (auto simp: store_ok_def intro!: startup_ledger dest: journal_okD(1))
  qed
qed

subsection \<open>The refinement\<close>

text \<open>C27. The execution journal refines the ledger: every run of the store, through calls, storage failures
  and restarts, is a run of the abstract ledger, in which an operation is admitted only while nothing needs
  review, is sent only from the admitted phase, and never leaves the settled one.\<close>

theorem journal_refines_ledger:
  assumes "store_start s" "store_step\<^sup>*\<^sup>* s t"
  shows "ledger_step\<^sup>*\<^sup>* (ledger_of (db s)) (ledger_of (db t))"
  using assms by (rule journal_ledger.reachable_refines)

theorem journal_refines_ledger_witness:
  "ledger_step\<^sup>*\<^sup>* (ledger_of (db sample_open)) (ledger_of (db sample_dispatched))
   \<and> phase_of (ledger_of (db sample_open)) ''op1'' = Unseen
   \<and> phase_of (ledger_of (db sample_dispatched)) ''op1'' = Sending"
proof -
  have "phase_of (ledger_of (db sample_open)) ''op1'' = Unseen"
    "phase_of (ledger_of (db sample_dispatched)) ''op1'' = Sending"
    unfolding ledger_of_simps by code_simp+
  with journal_refines_ledger [OF sample_start rtranclp.rtrancl_into_rtrancl [OF sample_run sample_dispatch_step]]
  show ?thesis by simp
qed

end
