(* ===== verification/Trade_Orders.thy ===== *)
theory Trade_Orders
  imports Paper_Execution
begin

text \<open>
  The order methods of \<open>services/trade_service.py\<close> up to the dispatch of a REAL write: the account an order
  goes to, the legs of a combination, the facts its assessment needs, and the request each method makes of
  its arguments. The arguments are the dictionary the journal wrapper binds, in which every parameter of the
  method is present; the answers of the gateway are the \<open>gateway_world\<close>.
\<close>

subsection \<open>The gateway\<close>

text \<open>What the gateway answers to one write: the rows of the order a modification names (none when
  the query is refused), the facts of instruments, and the replies to an unlock and to a lock request. \<open>halt_time\<close> is
  the time recorded with a halt.\<close>

record gateway_world =
  order_rows :: "pydict list option res"
  instruments :: "(string list \<Rightarrow> instrument_facts list res) option"
  unlock_reply :: "unit res"
  lock_reply :: "unit res"
  halt_time :: string

subsection \<open>Accounts\<close>

text \<open>\<open>_get_market_from_code\<close>: \<open>"." in code\<close> of a value that is neither text nor a collection raises.\<close>

definition market_from_code :: "pyval \<Rightarrow> string option res" where
  "market_from_code v =
     (if \<not> truthy v then Inr None
      else case v of
        PStr s \<Rightarrow> Inr (if CHR ''.'' \<in> set s then Some (upper (hd (split_on (CHR ''.'') s))) else None)
      | PList l _ \<Rightarrow> if PStr ''.'' \<in> set l then raise AttributeError ''split'' else Inr None
      | PDict d _ \<Rightarrow> if ''.'' \<in> fst ` set d then raise AttributeError ''split'' else Inr None
      | _ \<Rightarrow> raise TypeError ''not iterable'')"

definition allowlist_applies :: "trading_policy \<Rightarrow> string \<Rightarrow> bool" where
  "allowlist_applies p env \<longleftrightarrow> env = ''REAL'' \<and> mode p = REAL"

definition check_real_allowlist :: "trading_policy \<Rightarrow> int \<Rightarrow> unit res" where
  "check_real_allowlist p n =
     (if trading_policy.real_acc_ids p = {} then raise ValueError ''No REAL accounts are configured''
      else if n \<notin> trading_policy.real_acc_ids p then raise ValueError ''not listed'' else ok)"

text \<open>\<open>_eligible_accounts\<close>. Any failure to read the account list is a \<open>ValueError\<close>.\<close>

definition eligible_for :: "trading_policy \<Rightarrow> client_grants option \<Rightarrow> string \<Rightarrow> string option \<Rightarrow> broker_account \<Rightarrow> bool" where
  "eligible_for p g env market a \<longleftrightarrow> acct_env a = env
     \<and> (case market of None \<Rightarrow> True | Some m \<Rightarrow> m = [] \<or> norm_text m \<in> set (acct_markets a))
     \<and> (allowlist_applies p env \<longrightarrow> acct_id a \<in> trading_policy.real_acc_ids p)
     \<and> (case g of None \<Rightarrow> True | Some gr \<Rightarrow>
          (case env_accounts gr env of None \<Rightarrow> True | Some accs \<Rightarrow> acct_id a \<in> accs))"

definition eligible_trade_accounts ::
    "trading_policy \<Rightarrow> client_grants option \<Rightarrow> broker_account list res \<Rightarrow> string \<Rightarrow> string option \<Rightarrow> broker_account list res" where
  "eligible_trade_accounts p g accounts env market = (case accounts of
     Inl e \<Rightarrow> raise ValueError ''Could not retrieve the account list''
   | Inr as \<Rightarrow> Inr (filter (eligible_for p g env market) as))"

text \<open>\<open>_resolve_account\<close>, of an account identifier that is already an integer.\<close>

definition resolve_trade_account ::
    "config \<Rightarrow> world \<Rightarrow> string \<Rightarrow> string option \<Rightarrow> int \<Rightarrow> bool \<Rightarrow> int res" where
  "resolve_trade_account cfg w trd_env market n write =
     (let env = norm_text trd_env in
      if n \<noteq> 0 then
        bindR (if allowlist_applies (policy cfg) env then check_real_allowlist (policy cfg) n else ok) (\<lambda>_.
        bindR (check_account_access (grants w) env (PInt n) write) (\<lambda>_. Inr n))
      else bindR (eligible_trade_accounts (policy cfg) (grants w) (broker_accounts w) env market) (\<lambda>accounts.
        case accounts of
          [only] \<Rightarrow> bindR (check_account_access (grants w) env (PInt (acct_id only)) write) (\<lambda>_. Inr (acct_id only))
        | _ \<Rightarrow> raise ValueError ''accounts are eligible''))"

subsection \<open>Legs of a combination\<close>

record combo_leg =
  leg_code :: string
  leg_side :: string
  leg_ratio :: int
  leg_position :: "int option"

fun position_argument :: "pyval \<Rightarrow> int option res" where
  "position_argument PNone = Inr None"
| "position_argument (PInt n) = Inr (Some n)"
| "position_argument (PStr s) =
     (if isdigit (strip s) then bindR (int_of_text (strip s)) (\<lambda>n. Inr (Some n))
      else raise ValueError ''position_id'')"
| "position_argument v = raise ValueError ''position_id''"

fun ratio_argument :: "pyval \<Rightarrow> int res" where
  "ratio_argument (PInt n) = (if n \<le> 0 then raise ValueError ''qty_ratio'' else Inr n)"
| "ratio_argument v = raise ValueError ''qty_ratio''"

text \<open>One leg, with the market its code names.\<close>

definition build_leg :: "pyval \<Rightarrow> (combo_leg \<times> string option) res" where
  "build_leg v = (case v of
     PDict d _ \<Rightarrow>
       (let c = strip (py_str (py_or (dict_get d ''code'' PNone) (PStr [])));
            side = norm_text (py_str (py_or (dict_get d ''trd_side'' PNone) (PStr []))) in
        if c = [] then raise ValueError ''non-empty code''
        else if side \<notin> {''BUY'', ''SELL''} then raise ValueError ''Invalid trd_side''
        else (case map_of d ''qty_ratio'' of
            None \<Rightarrow> raise ValueError ''missing qty_ratio''
          | Some r \<Rightarrow>
             bindR (ratio_argument r) (\<lambda>ratio.
             bindR (market_from_code (PStr c)) (\<lambda>market.
             bindR (position_argument (dict_get d ''position_id'' PNone)) (\<lambda>position.
               Inr (\<lparr>leg_code = c, leg_side = side, leg_ratio = ratio, leg_position = position\<rparr>, market))))))
   | _ \<Rightarrow> raise AttributeError ''get'')"

definition build_combo_legs :: "pyval \<Rightarrow> combo_leg list res" where
  "build_combo_legs v = (case v of
     PList l _ \<Rightarrow>
       if length l < 2 then raise ValueError ''at least two legs''
       else bindR (mapR build_leg l) (\<lambda>built.
         let markets = sorted_set (List.map_filter (\<lambda>(_, m). if m \<in> {None, Some []} then None else m) built) in
         if 1 < length markets then raise ValueError ''the same market'' else Inr (map fst built))
   | _ \<Rightarrow> raise TypeError ''legs'')"

subsection \<open>Facts of an order\<close>

definition lookup_facts :: "gateway_world \<Rightarrow> string list \<Rightarrow> instrument_facts list res" where
  "lookup_facts g codes = (case instruments g of
     None \<Rightarrow> raise ValueError ''no instrument lookup wired'' | Some f \<Rightarrow> f codes)"

fun optional_price :: "pyval \<Rightarrow> pyfloat option res" where
  "optional_price PNone = Inr None"
| "optional_price v = bindR (float_of_number v) (\<lambda>x. Inr (Some x))"

text \<open>\<open>float(price)\<close> of a price that is given: a number, or a text as in a paper request.\<close>

fun price_number :: "pyval \<Rightarrow> pyfloat option res" where
  "price_number (PStr s) = (case float_of_text s of None \<Rightarrow> raise ValueError ''float'' | Some f \<Rightarrow> Inr (Some f))"
| "price_number v = optional_price v"

text \<open>\<open>_single_leg_facts\<close>. The quantity is the whole number \<open>validate_instrument_order\<close> accepts.\<close>

definition single_leg_facts ::
    "sdk_session \<Rightarrow> gateway_world \<Rightarrow> string \<Rightarrow> string \<Rightarrow> string \<Rightarrow> pyval \<Rightarrow> pyval \<Rightarrow> pyval \<Rightarrow> string \<Rightarrow> order_facts res" where
  "single_leg_facts S g c ot side q p aux session =
     bindR (lookup_facts g [c]) (\<lambda>found. case found of
       [i] \<Rightarrow>
         if code i \<noteq> c then raise ValueError ''exact instrument classification is unavailable''
         else bindR (validate_instrument_order i q ot p aux) (\<lambda>_.
         bindR (validate_order_session S c (classification i) ot session) (\<lambda>_.
         bindR (whole_quantity q) (\<lambda>n.
         bindR (price_number p) (\<lambda>number.
         bindR (optional_price aux) (\<lambda>trigger.
           Inr \<lparr>order_type = ot, trd_side = side, qty = n, legs = [\<lparr>instrument = i, qty_ratio = 1\<rparr>],
                price = number, aux_price = trigger, is_combo = False\<rparr>)))))
     | _ \<Rightarrow> raise ValueError ''exact instrument classification is unavailable'')"

definition unknown_instrument :: "string \<Rightarrow> instrument_facts" where
  "unknown_instrument c = \<lparr>code = c, classification = None, monetary_multiplier = None, contract_size = None,
     last_price = None, bid_price = None, ask_price = None, currency = None, lot_size = None\<rparr>"

text \<open>The facts of the legs: looked up when the order will be valued, bare codes otherwise. Of two facts of
  one code the later is used.\<close>

definition leg_facts_of :: "instrument_facts list \<Rightarrow> combo_leg \<Rightarrow> leg_facts res" where
  "leg_facts_of found l = (case find (\<lambda>i. code i = leg_code l) (rev found) of
     None \<Rightarrow> raise ValueError ''no instrument facts for leg''
   | Some i \<Rightarrow> Inr \<lparr>instrument = i, qty_ratio = leg_ratio l\<rparr>)"

definition combo_facts ::
    "trading_policy \<Rightarrow> gateway_world \<Rightarrow> combo_leg list \<Rightarrow> pyval \<Rightarrow> int \<Rightarrow> string \<Rightarrow> order_facts res" where
  "combo_facts p g ls v n ot =
     bindR (if notional_cap_configured p \<or> max_daily_notional p \<noteq> []
            then bindR (lookup_facts g (map leg_code ls)) (\<lambda>found. mapR (leg_facts_of found) ls)
            else Inr (map (\<lambda>l. \<lparr>instrument = unknown_instrument (leg_code l), qty_ratio = leg_ratio l\<rparr>) ls)) (\<lambda>facts.
     bindR (optional_price v) (\<lambda>number.
       Inr \<lparr>order_type = ot, trd_side = [], qty = n, legs = facts, price = number, aux_price = None, is_combo = True\<rparr>))"

text \<open>\<open>_optional_float\<close>; \<open>R\<close> is the \<open>repr\<close> of a float.\<close>

fun broker_float :: "(pyfloat \<Rightarrow> string) \<Rightarrow> pyval \<Rightarrow> pyval res" where
  "broker_float R (PStr s) = Inr (case float_of_text (strip s) of
     None \<Rightarrow> PNone | Some f \<Rightarrow> if isfinite f then PFloat f (R f) else PNone)"
| "broker_float R (PInt n) = bindR (float_of_int n) (\<lambda>f. Inr (if isfinite f then PFloat f (R f) else PNone))"
| "broker_float R (PFloat f t) = Inr (if isfinite f then PFloat f t else PNone)"
| "broker_float R v = Inr PNone"

end
