(* ===== verification/Real_Execution.thy ===== *)
theory Real_Execution
  imports Trade_Orders
begin

text \<open>
  \<open>services/real_execution.py\<close> and the write path of \<open>services/trade_service.py\<close>: a REAL order is checked,
  admitted to the journal, prepared by its method, charged, and dispatched inside an unlock window that the
  server opens and closes itself; the marker is committed before the one broker call, and the outcome after
  it. \<open>_ExecutionState\<close> halts new exposure when the gateway could not be locked again.

  The state of the service is the lifecycle state of \<open>RealExecution\<close> (journal, trading controls, outcomes not
  stored, identities, and the log of broker calls), the execution state, the operation that is active under
  the execution lock, and a log of the lock requests and writes sent to the gateway.
\<close>

subsection \<open>State\<close>

record execution_state =
  halted_since :: "string option"
  last_lock_error :: "string option"

definition halted :: "execution_state \<Rightarrow> bool" where
  "halted x \<longleftrightarrow> halted_since x \<noteq> None"

definition record_relock_failure :: "string \<Rightarrow> string \<Rightarrow> execution_state \<Rightarrow> execution_state" where
  "record_relock_failure started err x =
     x\<lparr>halted_since := (if halted_since x = None then Some started else halted_since x), last_lock_error := Some err\<rparr>"

definition record_lock_result :: "string option \<Rightarrow> execution_state \<Rightarrow> bool \<times> execution_state" where
  "record_lock_result err x = (case err of
     Some t \<Rightarrow> (False, x\<lparr>last_lock_error := Some t\<rparr>)
   | None \<Rightarrow> (halted_since x \<noteq> None, x\<lparr>halted_since := None, last_lock_error := None\<rparr>))"

text \<open>\<open>RealExecution._active.operation\<close>.\<close>

record real_active =
  active_row :: row_view
  marked :: bool
  ack_evidence :: pydict
  seen_modifications :: "string list"

text \<open>Requests sent to the gateway: an unlock or a lock with whether it was accepted, and a write.\<close>

datatype gateway_event = Unlock bool | Lock bool | Write string

record service =
  real :: paper
  execution :: execution_state
  active_real :: "real_active option"
  gateway :: "gateway_event list"

definition on_real :: "(paper \<Rightarrow> 'a \<times> paper) \<Rightarrow> service \<Rightarrow> 'a \<times> service" where
  "on_real f s = (case f (real s) of (r, p) \<Rightarrow> (r, s\<lparr>real := p\<rparr>))"

text \<open>\<open>with not_sent(operation)\<close> around a step, where the \<open>admitted\<close> mark of the exception is of no interest.\<close>

definition classified :: "string \<Rightarrow> 'a res \<times> 's \<Rightarrow> 'a res \<times> 's" where
  "classified op m = (case m of (r, s) \<Rightarrow> (map_sum cause id (not_sent op False False (lift_res r)), s))"

subsection \<open>Locking and unlocking\<close>

definition unlock_gateway :: "gateway_world \<Rightarrow> service \<Rightarrow> unit res \<times> service" where
  "unlock_gateway g s = (unlock_reply g, s\<lparr>gateway := gateway s @ [Unlock (\<not> isl (unlock_reply g))]\<rparr>)"

definition lock_gateway :: "gateway_world \<Rightarrow> service \<Rightarrow> unit res \<times> service" where
  "lock_gateway g s = (lock_reply g, s\<lparr>gateway := gateway s @ [Lock (\<not> isl (lock_reply g))]\<rparr>)"

definition unlock_trade :: "config \<Rightarrow> bool \<Rightarrow> world \<Rightarrow> gateway_world \<Rightarrow> bool \<Rightarrow> service \<Rightarrow> unit res \<times> service" where
  "unlock_trade cfg credential w g supplied s =
     bindS (check_unlock (policy cfg), s) (\<lambda>_ s.
     if credential then (raise TradingPolicyError ''manages the gateway lock itself'', s)
     else if \<not> supplied then (raise ValueError ''requires a password'', s)
     else if \<not> connected w then (raise RuntimeError ''not connected'', s)
     else unlock_gateway g s)"

definition lock_trade :: "world \<Rightarrow> gateway_world \<Rightarrow> service \<Rightarrow> bool res \<times> service" where
  "lock_trade w g s =
     (if \<not> connected w then (raise RuntimeError ''not connected'', s)
      else case lock_gateway g s of
        (Inl e, s) \<Rightarrow> (Inl e, s\<lparr>execution := snd (record_lock_result (Some (exn_tag e)) (execution s))\<rparr>)
      | (Inr _, s) \<Rightarrow> (case record_lock_result None (execution s) of
          (cleared, x) \<Rightarrow> (Inr cleared, s\<lparr>execution := x\<rparr>)))"

text \<open>\<open>_enforce_gateway_lock\<close>, on connect and reconnect; \<open>busy\<close> says that a write holds the lock.\<close>

definition locks_gateway_at_rest :: "config \<Rightarrow> bool \<Rightarrow> bool" where
  "locks_gateway_at_rest cfg credential \<longleftrightarrow>
     mode (policy cfg) = READ_ONLY \<or> mode (policy cfg) = REAL \<and> credential"

definition enforce_gateway_lock :: "config \<Rightarrow> bool \<Rightarrow> bool \<Rightarrow> gateway_world \<Rightarrow> service \<Rightarrow> service" where
  "enforce_gateway_lock cfg credential busy g s =
     (if \<not> locks_gateway_at_rest cfg credential \<or> busy then s else snd (lock_gateway g s))"

text \<open>\<open>_relock_after_write\<close>: the error, or none. It never raises.\<close>

definition relock_after_write :: "bool \<Rightarrow> gateway_world \<Rightarrow> service \<Rightarrow> string option \<times> service" where
  "relock_after_write jit g s =
     (if \<not> jit then (None, s)
      else case lock_gateway g s of
        (Inr _, s) \<Rightarrow> (None, s)
      | (Inl e, s) \<Rightarrow> (Some (exn_tag e), s\<lparr>execution := record_relock_failure (halt_time g) (exn_tag e) (execution s)\<rparr>))"

definition check_execution_halt :: "service \<Rightarrow> unit res" where
  "check_execution_halt s = guardR (halted (execution s)) (Exn TradingPolicyError ''order execution is halted'')"

subsection \<open>The target of a modification\<close>

text \<open>\<open>validate_target\<close>: an acknowledged modification shows in the quantity and price of the order.\<close>

definition target_shows :: "pydict \<Rightarrow> pydict \<Rightarrow> string \<Rightarrow> bool" where
  "target_shows order expected name =
     (if dict_get expected name PNone = PNone then True
      else case (decimal_of_text (py_str (dict_get order name PNone)),
                 decimal_of_text (py_str (dict_get expected name PNone))) of
        (Some c, Some x) \<Rightarrow> dec_finite c \<and> dec_finite x \<and> dec_val c = dec_val x
      | _ \<Rightarrow> False)"

fun observe_pending :: "pydict \<Rightarrow> row_view list \<Rightarrow> string list \<Rightarrow> unit res \<times> string list" where
  "observe_pending order [] seen = (ok, seen)"
| "observe_pending order (v # vs) seen = (case merged_request (row v) of
     None \<Rightarrow> (raise TypeError ''json'', seen)
   | Some expected \<Rightarrow>
      if target_shows order expected ''qty'' \<and> target_shows order expected ''price''
      then observe_pending order vs (seen @ [operation_id (row v)])
      else (raise ValueError ''not yet observed'', seen))"

definition validate_target :: "world \<Rightarrow> pydict \<Rightarrow> service \<Rightarrow> unit res \<times> service" where
  "validate_target w order s = (case active_real s of
     None \<Rightarrow> (ok, s)
   | Some a \<Rightarrow>
      let acc = account (row (active_row a)) in
      if \<not> py_eq (dict_get order ''trd_env'' (PStr ''REAL'')) (PStr ''REAL'')
         \<or> py_str (dict_get order ''acc_id'' (PStr acc)) \<noteq> acc
      then (raise ValueError ''disagrees with admission'', s)
      else case member ''order_id'' (as_dict order) of
        Inl e \<Rightarrow> (Inl e, s)
      | Inr oid \<Rightarrow>
         bindS (on_real (on_journal (\<lambda>j. unobserved_modifications (io w ''unobserved'') j (digits_val acc) (py_str oid))) s)
           (\<lambda>pending s. case observe_pending order pending (seen_modifications a) of
              (r, seen) \<Rightarrow> (r, s\<lparr>active_real := Some (a\<lparr>seen_modifications := seen\<rparr>)\<rparr>)))"

definition fetch_order :: "world \<Rightarrow> gateway_world \<Rightarrow> pyval \<Rightarrow> service \<Rightarrow> pydict res \<times> service" where
  "fetch_order w g oid s = (case order_rows g of
     Inl e \<Rightarrow> (Inl e, s)
   | Inr None \<Rightarrow> (raise ValueError ''could not retrieve order'', s)
   | Inr (Some rows) \<Rightarrow>
      (case filter (\<lambda>d. py_str (dict_get d ''order_id'' PNone) = py_str oid) rows of
         [order] \<Rightarrow> bindS (validate_target w order s) (\<lambda>_ s. (Inr order, s))
       | _ \<Rightarrow> (raise ValueError ''not found or ambiguous'', s)))"

subsection \<open>What each method asks of the broker\<close>

text \<open>The account a write goes to, whether it adds exposure, and the request that is journalled and sent.\<close>

record write_request =
  write_account :: int
  write_exposing :: bool
  write_merged :: pydict

definition EXPOSING_MODIFY_OPS :: "string set" where
  "EXPOSING_MODIFY_OPS = {''NORMAL'', ''ENABLE''}"

abbreviation arg :: "pydict \<Rightarrow> string \<Rightarrow> pyval" where
  "arg ps k \<equiv> dict_get ps k PNone"

definition pick :: "string list \<Rightarrow> pydict \<Rightarrow> pydict" where
  "pick ks ps = map (\<lambda>k. (k, arg ps k)) ks"

definition assess_write ::
    "config \<Rightarrow> active_operation option \<Rightarrow> order_facts res \<Rightarrow> active_operation option res" where
  "assess_write cfg active facts =
     bindR facts (assess_control_facts (float_repr cfg) (float_decimal cfg) (policy cfg) active)"

definition place_merged :: "config \<Rightarrow> pydict \<Rightarrow> string \<Rightarrow> string \<Rightarrow> int \<Rightarrow> pydict" where
  "place_merged cfg ps tif session acc =
     pick [''code'', ''price'', ''qty'', ''trd_side'', ''order_type''] ps @ [(''time_in_force'', PStr tif)]
     @ pick [''adjust_limit'', ''aux_price'', ''trail_type'', ''trail_value'', ''trail_spread''] ps
     @ [(''trd_env'', PStr ''REAL''), (''acc_id'', PInt acc), (''remark'', arg ps ''remark'')]
     @ (if session \<noteq> session_none (sessions cfg) then [(''session'', PStr session)] else [])"

text \<open>\<open>place_order\<close> up to its dispatch.\<close>

definition place_checks :: "config \<Rightarrow> world \<Rightarrow> pydict \<Rightarrow> service \<Rightarrow> (string \<times> string) res" where
  "place_checks cfg w ps s =
     bindR (check_write (policy cfg) ''REAL'') (\<lambda>_.
     if is_str (arg ps ''price'') then raise ValueError ''REAL price must be numeric''
     else bindR (validate_single_order_request
         (pick [''order_type'', ''qty'', ''price'', ''aux_price'', ''trail_type'', ''trail_value'', ''trail_spread''] ps)) (\<lambda>_.
     bindR (normalize_order_session (sessions cfg) (arg ps ''session'') ''REAL'') (\<lambda>session.
     bindR (validate_choice (arg ps ''time_in_force'') [''DAY'', ''GTC'']) (\<lambda>tif.
     if \<not> connected w then raise RuntimeError ''Trade context not connected''
     else bindR (check_execution_halt s) (\<lambda>_. Inr (tif, session))))))"

definition prepare_place ::
    "config \<Rightarrow> world \<Rightarrow> gateway_world \<Rightarrow> pydict \<Rightarrow> int \<Rightarrow> active_operation option \<Rightarrow> service \<Rightarrow>
     (write_request \<times> active_operation option) res" where
  "prepare_place cfg w g ps acc active s =
     bindR (place_checks cfg w ps s) (\<lambda>(tif, session).
     bindR (market_from_code (arg ps ''code'')) (\<lambda>market.
     bindR (resolve_trade_account cfg w ''REAL'' market acc True) (\<lambda>resolved.
     bindR (assess_write cfg active (single_leg_facts (sessions cfg) g (py_str (arg ps ''code'')) (py_str (arg ps ''order_type''))
         (py_str (arg ps ''trd_side'')) (arg ps ''qty'') (arg ps ''price'') (arg ps ''aux_price'') session)) (\<lambda>active'.
       Inr (\<lparr>write_account = resolved, write_exposing = True, write_merged = place_merged cfg ps tif session resolved\<rparr>,
         active')))))"

text \<open>\<open>place_combo_order\<close> up to its dispatch.\<close>

fun package_count :: "pyval \<Rightarrow> int res" where
  "package_count (PInt n) = Inr n"
| "package_count v = raise TypeError ''qty''"

definition combo_checks :: "config \<Rightarrow> world \<Rightarrow> pydict \<Rightarrow> service \<Rightarrow> combo_leg list res" where
  "combo_checks cfg w ps s =
     bindR (check_write (policy cfg) ''REAL'') (\<lambda>_.
     bindR (validate_token (arg ps ''operation_id'') (arg ps ''admission_epoch'')) (\<lambda>_.
     bindR (validate_order_values (py_str (arg ps ''order_type'')) (arg ps ''qty'') PNone PNone PNone PNone (arg ps ''price'')) (\<lambda>_.
     bindR (in_text_set (arg ps ''order_type'') {''NORMAL'', ''MARKET''}) (\<lambda>b.
     if \<not> b then raise ValueError ''NORMAL and MARKET only''
     else bindR (in_text_set (arg ps ''time_in_force'') {''DAY'', ''GTC''}) (\<lambda>b.
     if \<not> b then raise ValueError ''DAY and GTC only''
     else if \<not> connected w then raise RuntimeError ''Trade context not connected''
     else bindR (build_combo_legs (arg ps ''combo_legs'')) (\<lambda>ls.
     bindR (check_execution_halt s) (\<lambda>_. Inr ls)))))))"

definition prepare_combo ::
    "config \<Rightarrow> world \<Rightarrow> gateway_world \<Rightarrow> pydict \<Rightarrow> int \<Rightarrow> active_operation option \<Rightarrow> service \<Rightarrow>
     (write_request \<times> active_operation option) res" where
  "prepare_combo cfg w g ps acc active s =
     bindR (combo_checks cfg w ps s) (\<lambda>ls.
     bindR (market_from_code (PStr (leg_code (hd ls)))) (\<lambda>market.
     bindR (resolve_trade_account cfg w ''REAL'' market acc True) (\<lambda>resolved.
     bindR (assess_write cfg active (bindR (package_count (arg ps ''qty'')) (\<lambda>n.
         combo_facts (policy cfg) g ls (arg ps ''price'') n (py_str (arg ps ''order_type''))))) (\<lambda>active'.
       Inr (\<lparr>write_account = resolved, write_exposing = True,
             write_merged = pick [''combo_legs'', ''price'', ''qty'', ''order_type'', ''time_in_force''] ps
               @ [(''trd_env'', PStr ''REAL''), (''acc_id'', PInt resolved), (''remark'', arg ps ''remark'')]\<rparr>,
         active')))))"

text \<open>\<open>modify_order\<close> up to its dispatch. An exposing modification is assessed as the order that results.\<close>

definition modify_merged :: "string \<Rightarrow> pydict \<Rightarrow> int \<Rightarrow> pyval \<Rightarrow> pyval \<Rightarrow> pydict" where
  "modify_merged op ps acc q p =
     [(''modify_order_op'', PStr op), (''order_id'', arg ps ''order_id''), (''qty'', q), (''price'', p),
      (''adjust_limit'', arg ps ''adjust_limit''), (''trd_env'', PStr ''REAL''), (''acc_id'', PInt acc)]"

definition none_or :: "pyval \<Rightarrow> pyval \<Rightarrow> pyval" where
  "none_or v d = (if v \<noteq> PNone then v else d)"

definition assess_modification ::
    "config \<Rightarrow> gateway_world \<Rightarrow> pyval \<Rightarrow> pyval \<Rightarrow> active_operation option \<Rightarrow> pydict \<Rightarrow> active_operation option res" where
  "assess_modification cfg g q p active existing =
     bindR (whole_quantity q) (\<lambda>n.
     let ot = py_str (py_or (dict_get existing ''order_type'' PNone) (PStr ''NORMAL'')) in
     bindR (broker_float (float_repr cfg) (dict_get existing ''aux_price'' PNone)) (\<lambda>aux.
     bindR (validate_order_values ot (PInt n) p aux PNone PNone PNone) (\<lambda>_.
     bindR (optional_price p) (\<lambda>number.
       assess_write cfg active (single_leg_facts (sessions cfg) g (py_str (dict_get existing ''code'' PNone)) ot
         (py_str (py_or (dict_get existing ''trd_side'' PNone) (PStr []))) (PInt n)
         (case number of None \<Rightarrow> PNone | Some f \<Rightarrow> PFloat f (float_repr cfg f)) aux (session_none (sessions cfg)))))))"

definition prepare_modify ::
    "config \<Rightarrow> world \<Rightarrow> gateway_world \<Rightarrow> pydict \<Rightarrow> int \<Rightarrow> active_operation option \<Rightarrow> service \<Rightarrow>
     (write_request \<times> active_operation option) res \<times> service" where
  "prepare_modify cfg w g ps acc active s =
     (let op = norm_text (py_str (arg ps ''modify_order_op'')); exposing = (op \<in> EXPOSING_MODIFY_OPS) in
      bindS (check_write (policy cfg) ''REAL'', s) (\<lambda>_ s.
      if \<not> connected w then (raise RuntimeError ''Trade context not connected'', s)
      else bindS (if exposing then check_execution_halt s else ok, s) (\<lambda>_ s.
      bindS (resolve_trade_account cfg w ''REAL'' None acc True, s) (\<lambda>resolved s.
      if \<not> exposing then
        (Inr (\<lparr>write_account = resolved, write_exposing = False,
           write_merged = modify_merged op ps resolved (none_or (arg ps ''qty'') (PInt 0)) (none_or (arg ps ''price'') (PInt 0))\<rparr>,
           active), s)
      else bindS (fetch_order w g (arg ps ''order_id'') s) (\<lambda>existing s.
        let q = none_or (arg ps ''qty'') (dict_get existing ''qty'' PNone);
            p = none_or (arg ps ''price'') (dict_get existing ''price'' PNone) in
        (bindR (assess_modification cfg g q p active existing) (\<lambda>active'.
          Inr (\<lparr>write_account = resolved, write_exposing = True, write_merged = modify_merged op ps resolved q p\<rparr>,
            active')), s))))))"

text \<open>\<open>cancel_order\<close> up to its dispatch.\<close>

definition prepare_cancel ::
    "config \<Rightarrow> world \<Rightarrow> pydict \<Rightarrow> int \<Rightarrow> active_operation option \<Rightarrow> (write_request \<times> active_operation option) res" where
  "prepare_cancel cfg w ps acc active =
     bindR (check_write (policy cfg) ''REAL'') (\<lambda>_.
     if \<not> connected w then raise RuntimeError ''Trade context not connected''
     else bindR (resolve_trade_account cfg w ''REAL'' None acc True) (\<lambda>resolved.
       Inr (\<lparr>write_account = resolved, write_exposing = False,
         write_merged = [(''modify_order_op'', PStr ''CANCEL''), (''order_id'', arg ps ''order_id''), (''qty'', PInt 0),
           (''price'', PInt 0), (''adjust_limit'', PInt 0), (''trd_env'', PStr ''REAL''), (''acc_id'', PInt resolved)]\<rparr>, active)))"

definition prepare_write ::
    "config \<Rightarrow> world \<Rightarrow> gateway_world \<Rightarrow> string \<Rightarrow> pydict \<Rightarrow> int \<Rightarrow> active_operation option \<Rightarrow> service \<Rightarrow>
     (write_request \<times> active_operation option) res \<times> service" where
  "prepare_write cfg w g meth ps acc active s = classified meth
     (if meth = ''place_order'' then (prepare_place cfg w g ps acc active s, s)
      else if meth = ''place_combo_order'' then (prepare_combo cfg w g ps acc active s, s)
      else if meth = ''modify_order'' then prepare_modify cfg w g ps acc active s
      else (prepare_cancel cfg w ps acc active, s))"

subsection \<open>The dispatch boundary\<close>

definition require_active :: "service \<Rightarrow> unit res" where
  "require_active s = guardR (active_real s = None) (Exn OrderNotSentError ''no active durable admission'')"

definition real_risk :: "world \<Rightarrow> int \<Rightarrow> service \<Rightarrow> unit res \<times> service" where
  "real_risk w acc s = (case controls_of (real s) of
     None \<Rightarrow> (ok, s)
   | Some c \<Rightarrow> (case check_new_risk (io w ''risk'') c ''REAL'' (PInt acc) of
       (r, c') \<Rightarrow> (r, s\<lparr>real := (real s)\<lparr>controls_of := Some c'\<rparr>\<rparr>)))"

definition real_charge ::
    "config \<Rightarrow> world \<Rightarrow> int \<Rightarrow> active_operation option \<Rightarrow> service \<Rightarrow> active_operation option res \<times> service" where
  "real_charge cfg w acc active s =
     (case check_dispatch_controls (sessions cfg) (float_decimal cfg) (policy cfg) (io w ''charge'') (controls_of (real s))
             active acc ''REAL'' (clock w ''charge'') (clock w ''approval'') of
        (r, cs) \<Rightarrow> (r, s\<lparr>real := (real s)\<lparr>controls_of := cs\<rparr>\<rparr>))"

definition real_confirm :: "config \<Rightarrow> world \<Rightarrow> active_operation option \<Rightarrow> service \<Rightarrow> unit res \<times> service" where
  "real_confirm cfg w active s =
     (case confirm_dispatch_controls (sessions cfg) (policy cfg) (io w ''confirm'') (controls_of (real s)) active
             (clock w ''confirm'') (clock w ''confirm approval'') of
        (r, cs) \<Rightarrow> (r, s\<lparr>real := (real s)\<lparr>controls_of := cs\<rparr>\<rparr>))"

text \<open>\<open>before_dispatch\<close>: the last checks and the committed marker.\<close>

definition commit_marker :: "world \<Rightarrow> real_active \<Rightarrow> pydict \<Rightarrow> service \<Rightarrow> unit res \<times> service" where
  "commit_marker w a merged s =
     on_real (on_journal (\<lambda>j. mark_dispatch (io w ''mark'') j (operation_id (row (active_row a))) merged)) s"

definition before_dispatch ::
    "config \<Rightarrow> world \<Rightarrow> pydict \<Rightarrow> active_operation option \<Rightarrow> service \<Rightarrow> unit res \<times> service" where
  "before_dispatch cfg w merged active s = (case active_real s of
     None \<Rightarrow> (raise OrderNotSentError ''no active durable admission'', s)
   | Some a \<Rightarrow>
      bindS (classified ''REAL journal dispatch''
        (bindS (guardR (marked a) (Exn ExecutionConflict ''more than once''), s) (\<lambda>_ s.
         bindS (on_real (ready w ''ready3'') s) (\<lambda>_ s.
         bindS (guardR (dict_get merged ''trd_env'' PNone \<noteq> PStr ''REAL''
             \<or> py_str (dict_get merged ''acc_id'' PNone) \<noteq> account (row (active_row a)))
             (Exn ExecutionConflict ''disagrees with admission''), s) (\<lambda>_ s.
         bindS (real_confirm cfg w active s) (\<lambda>_ s. commit_marker w a merged s))))))
        (\<lambda>_ s. (ok, s\<lparr>active_real := Some (a\<lparr>marked := True\<rparr>)\<rparr>)))"

text \<open>\<open>observe_acknowledgement\<close>: the order identifier of an acknowledgement, where one can be read.\<close>

definition observe_acknowledgement :: "string option \<Rightarrow> service \<Rightarrow> service" where
  "observe_acknowledgement identity s = (case (active_real s, identity) of
     (Some a, Some t) \<Rightarrow>
       if positive_decimal_id (PStr t) = Inr True
       then s\<lparr>active_real := Some (a\<lparr>ack_evidence := put_member ''order_id'' (PStr t) (ack_evidence a)\<rparr>)\<rparr> else s
   | _ \<Rightarrow> s)"

text \<open>The call and the reading of its reply.\<close>

definition send_write :: "world \<Rightarrow> pydict \<Rightarrow> service \<Rightarrow> pydict res \<times> service" where
  "send_write w merged s = (case active_real s of
     None \<Rightarrow> (raise OrderNotSentError ''no active durable admission'', s)
   | Some a \<Rightarrow>
      let oid = operation_id (row (active_row a));
          s = s\<lparr>real := (real s)\<lparr>calls := calls (real s) @ [(oid, merged)]\<rparr>, gateway := gateway s @ [Write oid]\<rparr> in
      case reply w of
        CallRaises e \<Rightarrow> (raise OrderOutcomeUnknownError (exn_tag e), s)
      | Refused t \<Rightarrow> (raise OrderOutcomeUnknownError t, s)
      | Acknowledged identity rec \<Rightarrow>
          (let s = observe_acknowledgement identity s in
           case rec of Inl e \<Rightarrow> (raise OrderReceiptUnreadableError (exn_tag e), s) | Inr d \<Rightarrow> (Inr d, s)))"

text \<open>Between unlock and relock.\<close>

definition write_window ::
    "config \<Rightarrow> world \<Rightarrow> pydict \<Rightarrow> active_operation option \<Rightarrow> service \<Rightarrow> pydict res \<times> service" where
  "write_window cfg w merged active s =
     bindS (before_dispatch cfg w merged active s) (\<lambda>_ s. send_write w merged s)"

text \<open>The just-in-time unlock.\<close>

definition jit_unlock :: "bool \<Rightarrow> world \<Rightarrow> gateway_world \<Rightarrow> service \<Rightarrow> unit res \<times> service" where
  "jit_unlock jit w g s =
     (if \<not> jit then (ok, s)
      else if \<not> connected w then (raise OrderNotSentError ''unlock'', s)
      else case unlock_gateway g s of
        (Inl e, s) \<Rightarrow> (raise OrderNotSentError ''unlock'', s)
      | (Inr _, s) \<Rightarrow> (ok, s))"

text \<open>Everything of \<open>_dispatch_write\<close> before the unlock.\<close>

definition admit_write ::
    "config \<Rightarrow> world \<Rightarrow> string \<Rightarrow> write_request \<Rightarrow> active_operation option \<Rightarrow> service \<Rightarrow>
     active_operation option res \<times> service" where
  "admit_write cfg w meth q active s =
     classified meth
       (bindS (require_active s, s) (\<lambda>_ s.
        bindS (if write_exposing q
               then bindS (check_execution_halt s, s) (\<lambda>_ s. real_risk w (write_account q) s) else (ok, s)) (\<lambda>_ s.
        bindS (reserve_permit w, s) (\<lambda>_ s.
        bindS (protect_permit w, s) (\<lambda>_ s.
          real_charge cfg w (write_account q) active s)))))"

text \<open>\<open>_dispatch_write\<close>, of a REAL write: the receipt and the relock error. The relock follows the window on
  every path out of it, and keeps the class of its exception.\<close>

definition dispatch_write ::
    "config \<Rightarrow> bool \<Rightarrow> world \<Rightarrow> gateway_world \<Rightarrow> string \<Rightarrow> write_request \<Rightarrow> active_operation option \<Rightarrow> service \<Rightarrow>
     (pydict \<times> string option) res \<times> service" where
  "dispatch_write cfg jit w g meth q active s =
     bindS (admit_write cfg w meth q active s) (\<lambda>active' s.
     bindS (jit_unlock jit w g s) (\<lambda>_ s.
     case write_window cfg w (write_merged q) active' s of (r, s) \<Rightarrow>
     case relock_after_write jit g s of (relock_error, s) \<Rightarrow>
       (bindR r (\<lambda>receipt. Inr (receipt, relock_error)), s)))"

definition with_routing :: "pydict \<Rightarrow> int \<Rightarrow> string option \<Rightarrow> pydict" where
  "with_routing rc acc relock_error =
     (let d = put_member ''trd_env'' (PStr ''REAL'') (put_member ''acc_id'' (PInt acc) rc) in
      case relock_error of None \<Rightarrow> d
      | Some e \<Rightarrow> put_member ''execution_halted'' (PBool True) (put_member ''gateway_relock_error'' (PStr e) d))"

text \<open>A method of the trade service in REAL: \<open>call(fixed)\<close>.\<close>

definition real_method ::
    "config \<Rightarrow> bool \<Rightarrow> world \<Rightarrow> gateway_world \<Rightarrow> string \<Rightarrow> pydict \<Rightarrow> int \<Rightarrow> active_operation option \<Rightarrow> service \<Rightarrow>
     pydict res \<times> service" where
  "real_method cfg jit w g meth ps acc active s =
     bindS (prepare_write cfg w g meth ps acc active s) (\<lambda>(q, active') s.
     bindS (dispatch_write cfg jit w g meth q active' s) (\<lambda>(rc, relock_error) s.
       (Inr (with_routing rc (write_account q) relock_error), s)))"

subsection \<open>Identity of a REAL request\<close>

text \<open>\<open>_identity_value\<close>: equal numbers have one text.\<close>

definition number_text :: "pydec \<Rightarrow> string" where
  "number_text d = (let t = drop_zeros (format_f d) in if t = ''-0'' then ''0'' else t)"

fun identity_value :: "pyval \<Rightarrow> pyval res" where
  "identity_value (PInt n) = bindR (number_argument (PInt n)) (\<lambda>d. Inr (as_dict [(''number'', PStr (number_text d))]))"
| "identity_value (PFloat f t) =
     (if \<not> isfinite f then raise ValueError ''REAL request numbers must be finite''
      else case decimal_of_text t of
        None \<Rightarrow> raise InvalidOperation ''Decimal''
      | Some d \<Rightarrow> Inr (as_dict [(''number'', PStr (number_text d))]))"
| "identity_value (PDict d t) =
     bindR (mapR (\<lambda>(k, v). bindR (identity_value v) (\<lambda>w. Inr (k, w))) d) (\<lambda>d'. Inr (PDict d' []))"
| "identity_value (PList l t) = bindR (mapR identity_value l) (\<lambda>l'. Inr (PList l' []))"
| "identity_value v = Inr v"

definition canonical_real_request :: "sdk_session \<Rightarrow> int \<Rightarrow> op_kind \<Rightarrow> pydict \<Rightarrow> string res" where
  "canonical_real_request S acc k ps =
     bindR (if k = PLACE \<and> map_of ps ''session'' \<noteq> None
            then bindR (normalize_order_session S (arg ps ''session'') ''REAL'') (\<lambda>selected.
              Inr (if selected = ''N/A'' then dict_pop ''session'' ps else put_member ''session'' (PStr selected) ps))
            else Inr ps) (\<lambda>ps'.
     bindR (identity_value (as_dict ps')) (\<lambda>p.
       json_text canonical_style (as_dict [(''env'', PStr ''REAL''), (''account'', PStr (int_text acc)),
         (''op_type'', PStr (kind_text k)), (''params'', p)])))"

definition ROUTING :: "string set" where
  "ROUTING = {''trd_env'', ''acc_id'', ''operation_id'', ''admission_epoch'', ''approval_id''}"

text \<open>\<open>_original\<close> and \<open>_kind\<close>.\<close>

definition original_request :: "pydict \<Rightarrow> pydict" where
  "original_request ps = filter (\<lambda>(k, _). k \<notin> ROUTING) ps"

definition real_kind :: "string \<Rightarrow> pydict \<Rightarrow> op_kind res" where
  "real_kind meth ps =
     (if meth = ''place_order'' then Inr PLACE
      else if meth = ''place_combo_order'' then Inr PLACE_COMBO
      else if meth = ''cancel_order'' \<or> meth = ''modify_order''
          \<and> norm_text (py_str (dict_get ps ''modify_order_op'' (PStr []))) = ''CANCEL'' then Inr CANCEL
      else if meth = ''modify_order'' then Inr MODIFY
      else raise ValueError ''Unsupported REAL mutation method'')"

subsection \<open>Results and retries\<close>

record real_result =
  real_operation :: string
  real_epoch :: string
  real_tag :: "string option"
  real_account :: string
  real_state :: op_state
  real_in_flight :: bool
  real_disposition :: string
  real_receipt :: pydict
  real_broker_order :: "string option"
  real_broker_status :: "string option"
  real_error :: "string option"
  real_acknowledged :: bool
  real_recovery :: recovery_context
  real_checks :: "recovery_check list"
  real_observations :: pyval
  real_modification_observed :: "bool option"
  real_facts :: "pydict option"

datatype real_answer = Recorded real_result | Unrecorded late_result

definition real_result_of :: "world \<Rightarrow> service \<Rightarrow> row_view \<Rightarrow> real_answer" where
  "real_result_of w s v = (let r = row v in case map_of (late_failure (real s)) (operation_id r) of
     Some l \<Rightarrow> Unrecorded l
   | None \<Rightarrow> Recorded \<lparr>real_operation = operation_id r, real_epoch = admission_epoch r, real_tag = order_tag r,
       real_account = account r, real_state = state r, real_in_flight = (state r \<in> {ADMITTED, DISPATCHING}),
       real_disposition = disposition r, real_receipt = (case receipt r of None \<Rightarrow> [] | Some d \<Rightarrow> d),
       real_broker_order = broker_order_id r, real_broker_status = broker_status r,
       real_error = visible_journal_error (grants w) (error r) ''REAL'',
       real_acknowledged = (disposition r = ''ACKNOWLEDGED'' \<or> (case accounted_facts v of None \<Rightarrow> False
         | Some d \<Rightarrow> truthy (dict_get d ''mutation_success_proven'' PNone))),
       real_recovery = recovery_context_of (journal (real s)) v, real_checks = recovery_checks v,
       real_observations = (case evidence r of None \<Rightarrow> PList [] [] | Some e \<Rightarrow> e),
       real_modification_observed = (if kind r = MODIFY then Some (modification_observed r) else None),
       real_facts = accounted_facts v\<rparr>)"

text \<open>\<open>_retry\<close>: a known operation is answered when the request agrees with the recorded one.\<close>

definition real_retry_row ::
    "config \<Rightarrow> world \<Rightarrow> row_view \<Rightarrow> op_kind \<Rightarrow> pydict \<Rightarrow> service \<Rightarrow> real_answer res" where
  "real_retry_row cfg w v k ps s =
     (let r = row v; bound = digits_val (account r) in
      bindR (check_account_access (grants w) ''REAL'' (PStr (account r)) True) (\<lambda>_.
      bindR (exact_account_id True (dict_get ps ''acc_id'' (PStr ''0''))) (\<lambda>requested.
      bindR (canonical_real_request (sessions cfg) (if requested \<noteq> 0 then requested else bound) k (original_request ps)) (\<lambda>proposed.
      bindR (differing_fields (operation.canonical r) proposed) (\<lambda>fields.
        if fields \<noteq> [] then raise ExecutionConflict ''Operation ID conflict''
        else Inr (real_result_of w s v))))))"

text \<open>\<open>retry\<close>: first the whole request is checked, then the operation is looked up.\<close>

definition retry_checks :: "config \<Rightarrow> string \<Rightarrow> pydict \<Rightarrow> op_kind res" where
  "retry_checks cfg meth ps =
     bindR (check_write (policy cfg) ''REAL'') (\<lambda>_.
     bindR (validate_token (arg ps ''operation_id'') (arg ps ''admission_epoch'')) (\<lambda>_.
     bindR (real_kind meth ps) (\<lambda>k.
     bindR (canonical_real_request (sessions cfg) 1 k (original_request ps)) (\<lambda>_. Inr k))))"

definition known_row :: "world \<Rightarrow> string \<Rightarrow> string \<Rightarrow> service \<Rightarrow> row_view option res \<times> service" where
  "known_row w site oid s =
     (if oid \<in> fst ` set (late_failure (real s)) then
        (case map_of (late_identity (real s)) oid of None \<Rightarrow> raise KeyError oid | Some v \<Rightarrow> Inr (Some v), s)
      else on_real (on_journal (\<lambda>j. lookup (io w site) j oid)) s)"

definition real_retry ::
    "config \<Rightarrow> world \<Rightarrow> string \<Rightarrow> string \<Rightarrow> pydict \<Rightarrow> service \<Rightarrow> real_answer option outcome \<times> service" where
  "real_retry cfg w site meth ps s =
     (case not_sent meth False False (lift_res (retry_checks cfg meth ps)) of
        Inl e \<Rightarrow> (Inl e, s)
      | Inr k \<Rightarrow>
         (case known_row w site (token_text (arg ps ''operation_id'')) s of
            (Inl e, s) \<Rightarrow> (lift_res (Inl e), s)
          | (Inr None, s) \<Rightarrow> (Inr None, s)
          | (Inr (Some v), s) \<Rightarrow> (lift_res (bindR (real_retry_row cfg w v k ps s) (\<lambda>x. Inr (Some x))), s)))"

subsection \<open>Admission\<close>

definition exposing_request :: "op_kind \<Rightarrow> pydict \<Rightarrow> bool" where
  "exposing_request k ps \<longleftrightarrow> k \<in> {PLACE, PLACE_COMBO}
     \<or> k = MODIFY \<and> norm_text (py_str (dict_get ps ''modify_order_op'' (PStr []))) \<in> EXPOSING_MODIFY_OPS"

definition request_market :: "op_kind \<Rightarrow> pydict \<Rightarrow> string option res" where
  "request_market k ps =
     (if k = PLACE then bindR (dict_item ps ''code'') market_from_code
      else if k = PLACE_COMBO then bindR (bindR (dict_item ps ''combo_legs'') build_combo_legs) (\<lambda>ls.
        market_from_code (PStr (leg_code (hd ls))))
      else Inr None)"

text \<open>The block of \<open>preflight\<close> after the retry: the account a new operation is admitted for.\<close>

definition preflight_account ::
    "config \<Rightarrow> world \<Rightarrow> string \<Rightarrow> pydict \<Rightarrow> service \<Rightarrow> (op_kind \<times> int) res \<times> service" where
  "preflight_account cfg w meth ps s =
     bindS (validate_real_request meth ps, s) (\<lambda>_ s.
     bindS (guardR (token_text (arg ps ''admission_epoch'') \<noteq> epoch (journal (real s)))
       (Exn ExecutionConflict ''non-current-epoch token''), s) (\<lambda>_ s.
     bindS (on_real (ready w ''ready1'') s) (\<lambda>_ s.
     if \<not> connected w then (raise RuntimeError ''Trade context not connected'', s)
     else bindS (real_kind meth ps, s) (\<lambda>k s.
     bindS (if exposing_request k ps then check_execution_halt s else ok, s) (\<lambda>_ s.
     (bindR (request_market k ps) (\<lambda>market.
      bindR (exact_account_id True (dict_get ps ''acc_id'' (PStr ''0''))) (\<lambda>requested.
      bindR (resolve_trade_account cfg w ''REAL'' market requested True) (\<lambda>resolved. Inr (k, resolved)))), s))))))"

datatype real_admission = Settled_by real_answer | Go row_view op_kind int

text \<open>The block of \<open>execute\<close> under the admission lock.\<close>

definition real_admit_phase ::
    "config \<Rightarrow> world \<Rightarrow> string \<Rightarrow> pydict \<Rightarrow> service \<Rightarrow> real_admission outcome \<times> service" where
  "real_admit_phase cfg w meth ps s =
     (case real_retry cfg w ''lookup2'' meth ps s of
        (Inl e, s) \<Rightarrow> (Inl e, s)
      | (Inr (Some x), s) \<Rightarrow> (Inr (Settled_by x), s)
      | (Inr None, s) \<Rightarrow>
         (case preflight_account cfg w meth ps s of
            (Inl e, s) \<Rightarrow> (not_sent meth False False (lift_res (Inl e)), s)
          | (Inr (k, resolved), s) \<Rightarrow>
             (case bindS (canonical_real_request (sessions cfg) resolved k (original_request ps), s) (\<lambda>canon s.
                on_real (on_journal (\<lambda>j. admit (digest cfg) (io w ''admit'') j (token_text (arg ps ''operation_id''))
                  (token_text (arg ps ''admission_epoch'')) resolved k canon (original_request ps) (uuid w) (now w))) s) of
                (Inl e, s) \<Rightarrow> (not_sent meth False False (lift_res (Inl e)), s)
              | (Inr (v, True), s) \<Rightarrow> (Inr (Go v k resolved), s)
              | (Inr (v, False), s) \<Rightarrow>
                 (lift_res (bindR (real_retry_row cfg w v k ps s) (\<lambda>x. Inr (Settled_by x))), s))))"

subsection \<open>Outcome\<close>

text \<open>\<open>_finish\<close>.\<close>

definition real_finish ::
    "world \<Rightarrow> row_view \<Rightarrow> op_state \<Rightarrow> string \<Rightarrow> pydict option \<Rightarrow> string option \<Rightarrow> string option \<Rightarrow> string list \<Rightarrow> service \<Rightarrow>
     real_answer \<times> service" where
  "real_finish w v st disp rc err why observed s =
     (let oid = operation_id (row v); tag = order_tag (row v);
          late = (\<lambda>committed s. let l = late_outcome oid tag committed st disp rc in
            (Unrecorded l, s\<lparr>real := (real s)\<lparr>late_failure := put_key oid l (late_failure (real s))\<rparr>\<rparr>)) in
      case on_real (on_journal (\<lambda>j. outcome (io w ''outcome'') j oid st disp rc err why observed (now w))) s of
        (Inl e, s) \<Rightarrow> late False s
      | (Inr _, s) \<Rightarrow>
         (case on_real (on_journal (\<lambda>j. lookup (io w ''lookup3'') j oid)) s of
            (Inr (Some v'), s) \<Rightarrow>
              (real_result_of w s v', s\<lparr>real := (real s)\<lparr>late_identity := pop_key oid (late_identity (real s))\<rparr>\<rparr>)
          | (_, s) \<Rightarrow> late True s))"

text \<open>The block of \<open>execute\<close> under the execution lock. Before the marker every failure is a refusal; after it
  every failure is an unknown outcome, unless the broker acknowledged the request.\<close>

definition conclude ::
    "world \<Rightarrow> row_view \<Rightarrow> real_active \<Rightarrow> pydict res \<Rightarrow> service \<Rightarrow> real_answer outcome \<times> service" where
  "conclude w v a r s =
     (let unmarked = (\<lambda>t. case real_finish w v REFUSED ''NOT_SENT'' None (Some t) None (seen_modifications a) s of
            (_, s) \<Rightarrow> (Inl \<lparr>cause = Exn OrderNotSentError t, admitted = True\<rparr>, s)) in
      case r of
        Inr rc \<Rightarrow>
          if \<not> marked a then unmarked ''Durable dispatch boundary was not entered''
          else (case readable_receipt (Inr rc) of
            Inl e \<Rightarrow> (case real_finish w v ACKNOWLEDGED ''ACKNOWLEDGED'' (Some (ack_evidence a)) (Some (exn_tag e))
                (Some ''RECEIPT_UNREADABLE'') (seen_modifications a) s of (x, s) \<Rightarrow> (Inr x, s))
          | Inr rc' \<Rightarrow> (case real_finish w v ACKNOWLEDGED ''ACKNOWLEDGED'' (Some rc') None None (seen_modifications a) s of
                (x, s) \<Rightarrow> (Inr x, s)))
      | Inl e \<Rightarrow>
          if \<not> marked a then unmarked (exn_tag e)
          else let ack = instance_of e OrderReceiptUnreadableError in
            (case real_finish w v (if ack then ACKNOWLEDGED else UNKNOWN_OUTCOME)
                (if ack then ''ACKNOWLEDGED'' else ''POSSIBLY_SENT'')
                (if ack_evidence a = [] then None else Some (ack_evidence a)) (Some (exn_tag e))
                (Some (if ack then ''RECEIPT_UNREADABLE'' else ''UNRESOLVED_OUTCOME'')) (seen_modifications a) s of
               (x, s) \<Rightarrow> (Inr x, s)))"

definition fixed_request :: "op_kind \<Rightarrow> row_view \<Rightarrow> int \<Rightarrow> pydict \<Rightarrow> pydict" where
  "fixed_request k v acc ps =
     (let d = put_member ''acc_id'' (PInt acc) (put_member ''trd_env'' (PStr ''REAL'') ps) in
      if k \<in> {PLACE, PLACE_COMBO}
      then put_member ''remark'' (case order_tag (row v) of None \<Rightarrow> PNone | Some t \<Rightarrow> PStr t) d else d)"

definition open_active :: "row_view \<Rightarrow> service \<Rightarrow> service" where
  "open_active v s = s\<lparr>real := (real s)\<lparr>late_identity := put_key (operation_id (row v)) v (late_identity (real s))\<rparr>,
     active_real := Some \<lparr>active_row = v, marked = False, ack_evidence = [], seen_modifications = []\<rparr>\<rparr>"

definition real_dispatch_phase ::
    "config \<Rightarrow> bool \<Rightarrow> world \<Rightarrow> gateway_world \<Rightarrow> string \<Rightarrow> pydict \<Rightarrow> row_view \<Rightarrow> op_kind \<Rightarrow> int \<Rightarrow>
     active_operation option \<Rightarrow> service \<Rightarrow> real_answer outcome \<times> service" where
  "real_dispatch_phase cfg jit w g meth ps v k acc active s =
     (case bindS (classified meth (on_real (ready w ''ready2'') (open_active v s))) (\<lambda>_ s.
        real_method cfg jit w g meth (fixed_request k v acc ps) acc active s) of
        (r, s) \<Rightarrow>
         (case active_real s of
            None \<Rightarrow> (raises AttributeError ''operation'', s)
          | Some a \<Rightarrow> (case conclude w v a r s of (x, s) \<Rightarrow> (x, s\<lparr>active_real := None\<rparr>))))"

text \<open>\<open>execute\<close>, inside the mutation context that \<open>journal_real_mutation\<close> opens.\<close>

definition real_execute ::
    "config \<Rightarrow> bool \<Rightarrow> world \<Rightarrow> gateway_world \<Rightarrow> string \<Rightarrow> pydict \<Rightarrow> active_operation option \<Rightarrow> service \<Rightarrow>
     real_answer outcome \<times> service" where
  "real_execute cfg jit w g meth ps active s =
     (case real_retry cfg w ''lookup1'' meth ps s of
        (Inl e, s) \<Rightarrow> (Inl e, s)
      | (Inr (Some x), s) \<Rightarrow> (Inr x, s)
      | (Inr None, s) \<Rightarrow>
         (case real_admit_phase cfg w meth ps s of
            (Inl e, s) \<Rightarrow> (Inl e, s)
          | (Inr (Settled_by x), s) \<Rightarrow> (Inr x, s)
          | (Inr (Go v k resolved), s) \<Rightarrow> real_dispatch_phase cfg jit w g meth ps v k resolved active s))"

text \<open>\<open>journal_real_mutation\<close> of a request whose environment is REAL; \<open>ps\<close> are the bound parameters without the
  approval.\<close>

definition journal_real_mutation ::
    "config \<Rightarrow> bool \<Rightarrow> world \<Rightarrow> gateway_world \<Rightarrow> string \<Rightarrow> pydict \<Rightarrow> string option \<Rightarrow> active_operation option \<Rightarrow> service option \<Rightarrow>
     real_answer outcome \<times> service option" where
  "journal_real_mutation cfg jit w g meth ps approval active so =
     (case not_sent meth False False (lift_res (bindR (check_write (policy cfg) ''REAL'') (\<lambda>_.
         guardR (so = None) (Exn ValueError ''Persistent REAL journal is not configured'')))) of
        Inl e \<Rightarrow> (Inl e, so)
      | Inr _ \<Rightarrow>
         (case so of None \<Rightarrow> (raises AttributeError ''execute'', so)
          | Some s \<Rightarrow> (case real_execute cfg jit w g meth ps (open_mutation meth ps approval active) s of
              (r, s) \<Rightarrow> (r, Some s))))"

end
