(* ===== verification/Real_Runs.thy ===== *)
theory Real_Runs
  imports Real_Execution Paper_Runs
begin

text \<open>
  Properties of the REAL lifecycle and of the gateway lock around it. A step is \<open>silent\<close> when it sends
  nothing to the gateway and keeps the execution state and the identity of the active operation. A
  dispatch is silent up to its unlock; the case analysis of a method call says what each of its ends leaves
  in the journal, in the log of writes and in the log of lock requests.
\<close>

subsection \<open>Silent steps\<close>

definition silent :: "service \<Rightarrow> service \<Rightarrow> bool" where
  "silent s t \<longleftrightarrow> quiet (real s) (real t) \<and> late_failure (real t) = late_failure (real s)
     \<and> execution t = execution s \<and> gateway t = gateway s
     \<and> map_option active_row (active_real t) = map_option active_row (active_real s)
     \<and> map_option marked (active_real t) = map_option marked (active_real s)"

lemma silent_refl [simp, intro]: "silent s s"
  by (simp add: silent_def)

lemma silent_trans: "silent s t \<Longrightarrow> silent t u \<Longrightarrow> silent s u"
  by (auto simp: silent_def intro: quiet_trans)

lemma silent_snd: "silent s (snd m) \<Longrightarrow> m = (r, t) \<Longrightarrow> silent s t"
  by simp

lemma silent_bindS:
  "silent s (snd m) \<Longrightarrow> (\<And>x u. m = (Inr x, u) \<Longrightarrow> silent u (snd (f x u))) \<Longrightarrow> silent s (snd (bindS m f))"
  using silent_trans by (rule bindS_related)

lemma silent_pure [simp]: "silent s (snd (r, s))"
  by simp

lemma classified_snd [simp]: "snd (classified op m) = snd m"
  by (cases m) (simp add: classified_def)

lemma classified_Inr: "classified op m = (Inr x, t) \<longleftrightarrow> m = (Inr x, t)"
  by (cases m; cases "fst m") (auto simp: classified_def not_sent_def)

lemma classified_cases:
  assumes "classified op m = (r, t)"
  obtains (Inl) e e' where "m = (Inl e, t)" "r = Inl e'" | (Inr) x where "m = (Inr x, t)" "r = Inr x"
  using assms by (cases m; cases "fst m") (auto simp: classified_def not_sent_def split: if_split_asm)

lemma on_real_iff: "on_real f s = (r, t) \<longleftrightarrow> (\<exists>p. f (real s) = (r, p) \<and> t = s\<lparr>real := p\<rparr>)"
  by (auto simp: on_real_def split: prod.splits)

lemma silent_on_real: "steady (real s) (snd (f (real s))) \<Longrightarrow> silent s (snd (on_real f s))"
  by (auto simp: on_real_def silent_def steady_def split: prod.split)

lemma silent_ready: "silent s (snd (on_real (ready w site) s))"
  by (rule silent_on_real) (rule steady_ready)

lemma silent_controls [simp]: "silent s (s\<lparr>real := (real s)\<lparr>controls_of := c\<rparr>\<rparr>)"
  by (simp add: silent_def)

lemma silent_lookup: "silent s (snd (on_real (on_journal (\<lambda>j. lookup i j oid)) s))"
  by (rule silent_on_real) (rule steady_lookup)

lemma silent_validate_target: "silent s (snd (validate_target w order s))"
proof (cases "active_real s")
  case (Some a)
  have "silent s (snd (on_real (on_journal (\<lambda>j. unobserved_modifications i j n oid)) s))" for i n oid
    by (rule silent_on_real, rule steady_on_journal) (blast intro: call_step.intros(9))
  moreover have "silent u (u\<lparr>active_real := Some (a\<lparr>seen_modifications := seen\<rparr>)\<rparr>)"
    if "on_real (on_journal (\<lambda>j. unobserved_modifications i j n oid)) s = (x, u)" for i n oid x u seen
    using that Some by (auto simp: on_real_iff silent_def)
  ultimately show ?thesis
    by (auto simp: validate_target_def Some Let_def split: sum.split prod.split intro!: silent_bindS)
qed (simp add: validate_target_def)

lemma silent_fetch: "silent s (snd (fetch_order w g oid s))"
  by (auto simp: fetch_order_def split: sum.split option.split list.split intro!: silent_bindS silent_validate_target)

lemma silent_prepare: "silent s (snd (prepare_write cfg w g meth ps acc active s))"
  by (auto simp: prepare_write_def prepare_modify_def Let_def intro!: silent_bindS silent_fetch)

lemma silent_admit_write: "silent s (snd (admit_write cfg w meth q active s))"
  by (auto simp: admit_write_def real_risk_def real_charge_def split: option.split prod.split intro!: silent_bindS)

lemma silent_confirm: "silent s (snd (real_confirm cfg w active s))"
  by (auto simp: real_confirm_def split: prod.split)

lemma silent_commit: "silent s (snd (commit_marker w a merged s))"
  unfolding commit_marker_def
  by (rule silent_on_real, rule steady_on_journal) (blast intro: call_step.intros(2))

subsection \<open>The window\<close>

lemma bindS_cases:
  assumes "bindS m f = (r, t)"
  obtains (Inl) e where "m = (Inl e, t)" "r = Inl e" | (Inr) x u where "m = (Inr x, u)" "f x u = (r, t)"
  using assms by (cases m; cases "fst m") (auto simp: bindS_def)

text \<open>The checks before the marker either fail silently, or commit it.\<close>

lemma before_dispatch_cases:
  assumes "before_dispatch cfg w merged active s = (r, t)" "active_real s = Some a"
  obtains (refused) e where "r = Inl e" "silent s t"
    | (marked) u b where "r = ok" "silent s u" "\<not> marked a"
        "mark_dispatch (io w ''mark'') (journal (real u)) (operation_id (row (active_row a))) merged = (ok, journal (real t))"
        "real t = (real u)\<lparr>journal := journal (real t)\<rparr>" "execution t = execution s" "gateway t = gateway s"
        "active_real t = Some (a\<lparr>marked := True\<rparr>)"
        "dict_get merged ''trd_env'' PNone = PStr ''REAL''"
        "py_str (dict_get merged ''acc_id'' PNone) = account (row (active_row a))"
        "late_failure (real s) = []"
        "real_confirm cfg w active b = (ok, u)" "silent s b" "controls_of (real b) = controls_of (real s)"
proof -
  let ?m = "bindS (guardR (marked a) (Exn ExecutionConflict ''more than once''), s) (\<lambda>_ s.
         bindS (on_real (ready w ''ready3'') s) (\<lambda>_ s.
         bindS (guardR (dict_get merged ''trd_env'' PNone \<noteq> PStr ''REAL''
             \<or> py_str (dict_get merged ''acc_id'' PNone) \<noteq> account (row (active_row a)))
             (Exn ExecutionConflict ''disagrees with admission''), s) (\<lambda>_ s.
         bindS (real_confirm cfg w active s) (\<lambda>_ s. commit_marker w a merged s))))"
  have sil: "silent s (snd ?m)" by (intro silent_bindS silent_pure silent_ready silent_confirm silent_commit)
  note eq = assms(1) [unfolded before_dispatch_def assms(2) option.case]
  from eq show thesis
  proof (cases rule: bindS_cases)
    case (Inl e)
    then obtain e0 where "?m = (Inl e0, t)" by (cases rule: classified_cases) auto
    then show thesis using refused Inl(2) silent_snd [OF sil] by blast
  next
    case (Inr x v)
    then have m: "?m = (Inr x, v)" by (simp add: classified_Inr)
    have t: "r = ok" "t = v\<lparr>active_real := Some (a\<lparr>marked := True\<rparr>)\<rparr>" using Inr(2) by auto
    from m obtain b u where steps: "\<not> marked a" "on_real (ready w ''ready3'') s = (ok, b)"
        "dict_get merged ''trd_env'' PNone = PStr ''REAL''"
        "py_str (dict_get merged ''acc_id'' PNone) = account (row (active_row a))"
        "real_confirm cfg w active b = (ok, u)" "commit_marker w a merged u = (ok, v)"
      by (auto simp: bindS_Inr guardR_def split: if_split_asm)
    have b: "silent s b" by (rule silent_snd [OF silent_ready steps(2)])
    have u: "silent s u" by (rule silent_trans [OF b silent_snd [OF silent_confirm steps(5)]])
    have v: "real v = (real u)\<lparr>journal := journal (real v)\<rparr>" "execution v = execution u" "gateway v = gateway u"
      "mark_dispatch (io w ''mark'') (journal (real u)) (operation_id (row (active_row a))) merged = (ok, journal (real v))"
      using steps(6) by (auto simp: commit_marker_def on_real_iff on_journal_iff)
    have "late_failure (real s) = []"
      using steps(2) by (auto simp: on_real_iff ready_def split: if_split_asm)
    moreover have "controls_of (real b) = controls_of (real s)"
      using steady_snd [OF steady_ready] steps(2) by (auto simp: on_real_iff steady_def)
    ultimately show thesis using marked [of u b] t steps u b v by (auto simp: silent_def)
  qed
qed

text \<open>What a write leaves: one logged call of the active operation, and its acknowledgement.\<close>

lemma send_write_sent:
  assumes "send_write w merged s = (r, t)" "active_real s = Some a"
  shows "real t = logged (operation_id (row (active_row a))) merged (real s)"
    "gateway t = gateway s @ [Write (operation_id (row (active_row a)))]" "execution t = execution s"
    "\<exists>b. active_real t = Some b \<and> active_row b = active_row a \<and> marked b = marked a
      \<and> seen_modifications b = seen_modifications a"
    "case reply w of Acknowledged i rec \<Rightarrow> (case rec of Inl e \<Rightarrow> r = raise OrderReceiptUnreadableError (exn_tag e) | Inr d \<Rightarrow> r = Inr d)
      | _ \<Rightarrow> (\<exists>x. r = raise OrderOutcomeUnknownError x)"
  using assms
  by (auto simp: send_write_def observe_acknowledgement_def logged_def Let_def
      split: broker_reply.splits sum.splits option.splits if_split_asm)

lemma relock_after_write_cases:
  assumes "relock_after_write jit g s = (err, t)"
  shows "real t = real s" "active_real t = active_real s"
    "gateway t = gateway s @ (if jit then [Lock (err = None)] else [])"
    "execution t = (if err = None then execution s else record_relock_failure (halt_time g) (the err) (execution s))"
    "\<not> jit \<Longrightarrow> err = None"
  using assms by (auto simp: relock_after_write_def lock_gateway_def split: if_split_asm sum.splits)

lemma jit_unlock_cases:
  assumes "jit_unlock jit w g s = (r, t)"
  obtains (refused) e b where "r = Inl e" "t = s \<or> jit \<and> t = s\<lparr>gateway := gateway s @ [Unlock False]\<rparr>"
    | (open_window) "r = ok" "t = s\<lparr>gateway := gateway s @ (if jit then [Unlock True] else [])\<rparr>"
  using assms by (auto simp: jit_unlock_def unlock_gateway_def split: if_split_asm sum.splits)

text \<open>What a dispatch leaves in the log of requests, with the execution state: nothing, a refused unlock, or a
  window around the writes, which is closed by a lock request whose refusal halts execution.\<close>

definition opened :: "bool \<Rightarrow> gateway_event list \<Rightarrow> service \<Rightarrow> service \<Rightarrow> bool" where
  "opened jit writes s t \<longleftrightarrow>
     writes = [] \<and> gateway t = gateway s \<and> execution t = execution s
   \<or> jit \<and> writes = [] \<and> gateway t = gateway s @ [Unlock False] \<and> execution t = execution s
   \<or> \<not> jit \<and> gateway t = gateway s @ writes \<and> execution t = execution s
   \<or> jit \<and> (\<exists>b. gateway t = gateway s @ Unlock True # writes @ [Lock b]
        \<and> (if b then execution t = execution s else halted (execution t)))"

lemma opened_cong:
  "gateway s = gateway s' \<Longrightarrow> execution s = execution s' \<Longrightarrow> gateway t = gateway t' \<Longrightarrow> execution t = execution t' \<Longrightarrow>
   opened jit ws s t = opened jit ws s' t'"
  by (simp only: opened_def)

lemma opened_none: "gateway t = gateway s \<Longrightarrow> execution t = execution s \<Longrightarrow> opened jit [] s t"
  by (simp add: opened_def)

lemma halted_relock_failure [simp]: "halted (record_relock_failure a e x)"
  by (simp add: halted_def record_relock_failure_def)

lemma opened_window:
  assumes "u1 = u\<lparr>gateway := gateway u @ (if jit then [Unlock True] else [])\<rparr>"
    and "gateway v = gateway u1 @ writes" "execution v = execution u1" "relock_after_write jit g v = (err, t)"
    and "gateway u = gateway s" "execution u = execution s"
  shows "opened jit writes s t"
proof -
  note t = relock_after_write_cases [OF assms(4)]
  show ?thesis
  proof (cases jit)
    case True
    then have "gateway t = gateway s @ Unlock True # writes @ [Lock (err = None)]"
      using t(3) assms by simp
    moreover have "if err = None then execution t = execution s else halted (execution t)"
      using t(4) assms by simp
    ultimately show ?thesis using True unfolding opened_def by blast
  next
    case False
    then show ?thesis using t assms by (simp add: opened_def)
  qed
qed

lemma dispatch_write_cases:
  assumes "dispatch_write cfg jit w g meth q active s = (r, t)" "active_real s = Some a" "\<not> marked a"
  obtains (refused) e b where "r = Inl e" "quiet (real s) (real t)" "late_failure (real t) = late_failure (real s)"
        "active_real t = Some b" "active_row b = active_row a" "\<not> marked b" "opened jit [] s t"
    | (sent) active' s1 u0 u m b a' where
        "admit_write cfg w meth q active s = (Inr active', s1)"
        "quiet (real s) u"
        "mark_dispatch (io w ''mark'') (journal u) (operation_id (row (active_row a))) (write_merged q) = (ok, journal m)"
        "calls m = calls u" "controls_of m = controls_of u" "late_failure m = late_failure u" "real t = logged (operation_id (row (active_row a))) (write_merged q) m"
        "active_real t = Some b" "active_row b = active_row a" "marked b"
        "opened jit [Write (operation_id (row (active_row a)))] s t"
        "py_str (dict_get (write_merged q) ''acc_id'' PNone) = account (row (active_row a))"
        "late_failure (real s) = []" "late_failure u = []"
        "controls_of (real u0) = controls_of (real s1)" "real_confirm cfg w active' u0 = (ok, a')" "controls_of u = controls_of (real a')"
        "case reply w of Acknowledged i rec \<Rightarrow> (case rec of Inl e \<Rightarrow> \<exists>x. r = raise OrderReceiptUnreadableError x
            | Inr d \<Rightarrow> \<exists>err. r = Inr (d, err)) | _ \<Rightarrow> \<exists>x. r = raise OrderOutcomeUnknownError x"
proof -
  from assms(1) [unfolded dispatch_write_def] show thesis
  proof (cases rule: bindS_cases)
    case (Inl e)
    have "silent s t" by (rule silent_snd [OF silent_admit_write Inl(1)])
    then show thesis using refused [of e] opened_none [of t s jit] assms(2,3) Inl(2) by (auto simp: silent_def)
  next
    case admitted: (Inr active' s1)
    have s1: "silent s s1" by (rule silent_snd [OF silent_admit_write admitted(1)])
    then obtain a1 where a1: "active_real s1 = Some a1" "active_row a1 = active_row a" "\<not> marked a1"
      using assms(2,3) by (auto simp: silent_def)
    from admitted(2) show thesis
    proof (cases rule: bindS_cases)
      case (Inl e)
      have "t = s1 \<or> jit \<and> t = s1\<lparr>gateway := gateway s1 @ [Unlock False]\<rparr>"
        by (rule jit_unlock_cases [OF Inl(1)]) auto
      then show thesis using refused [of e a1] s1 a1 Inl(2) by (auto simp: silent_def opened_def)
    next
      case unlocked: (Inr x s2)
      have s2: "s2 = s1\<lparr>gateway := gateway s1 @ (if jit then [Unlock True] else [])\<rparr>"
        by (rule jit_unlock_cases [OF unlocked(1)]) auto
      have a2: "active_real s2 = Some a1" by (simp add: s2 a1)
      obtain wr s3 where window: "write_window cfg w (write_merged q) active' s2 = (wr, s3)" by fastforce
      obtain err where relock: "relock_after_write jit g s3 = (err, t)" and r: "r = bindR wr (\<lambda>rc. Inr (rc, err))"
        using unlocked(2) window by (auto split: prod.splits)
      note rl = relock_after_write_cases [OF relock]
      from window [unfolded write_window_def] show thesis
      proof (cases rule: bindS_cases)
        case (Inl e)
        from Inl(1) a2 have s3: "silent s2 s3" by (cases rule: before_dispatch_cases) auto
        then have "opened jit [] s t"
          using s1 by (intro opened_window [OF s2 _ _ relock]) (simp_all add: silent_def)
        moreover obtain b where "active_real s3 = Some b" "active_row b = active_row a" "\<not> marked b"
          using s3 a2 a1(2,3) by (auto simp: silent_def)
        moreover have "quiet (real s) (real s3)" "late_failure (real s3) = late_failure (real s)"
          using s1 s3 by (auto simp: silent_def s2 intro: quiet_trans)
        ultimately show thesis using refused [of e b] r Inl(2) rl(1,2) by (simp add: bindR_def)
      next
        case sending: (Inr y s4)
        from sending(1) a2 show thesis
        proof (cases rule: before_dispatch_cases)
          case (marked u0 b0)
          note sent = send_write_sent [OF sending(2) marked(8)]
          have q: "quiet (real s) (real u0)"
            using s1 marked(2) by (auto simp: silent_def s2 intro: quiet_trans)
          have o: "opened jit [Write (operation_id (row (active_row a)))] s t"
            using s1 sent(2,3) marked(6,7) a1(2) by (intro opened_window [OF s2 _ _ relock]) (simp_all add: silent_def)
          obtain b where b: "active_real s3 = Some b" "active_row b = active_row a" "marked b"
            using sent(4) a1(2) by auto
          have lf: "late_failure (real s) = []" "late_failure (real u0) = []"
            using s1 marked(2,11) by (auto simp: silent_def s2)
          have "case reply w of Acknowledged i rec \<Rightarrow> (case rec of Inl e \<Rightarrow> \<exists>x. r = raise OrderReceiptUnreadableError x
            | Inr d \<Rightarrow> \<exists>err. r = Inr (d, err)) | _ \<Rightarrow> \<exists>x. r = raise OrderOutcomeUnknownError x"
            using sent(5) r by (cases "reply w") (auto simp: bindR_def split: sum.splits)
          moreover have "real t = logged (operation_id (row (active_row a))) (write_merged q) (real s4)"
            using sent(1) rl(1) a1(2) by simp
          moreover have "controls_of (real b0) = controls_of (real s1)" using marked(14) by (simp add: s2)
          moreover have "calls (real s4) = calls (real u0)" "controls_of (real s4) = controls_of (real u0)"
            "late_failure (real s4) = late_failure (real u0)"
            by (subst marked(5), simp)+
          ultimately show thesis
            using that(2) [of active' s1 "real u0" "real s4" b b0 u0] admitted(1) q marked(4,10,12) a1(2) b rl(2) o lf by simp
        qed (use sending in auto)
      qed
    qed
  qed
qed

subsection \<open>Outcomes\<close>

fun answer_state :: "real_answer \<Rightarrow> op_state" where
  "answer_state (Recorded r) = real_state r"
| "answer_state (Unrecorded l) = late_state l"

lemma real_result_of_state:
  "late_failure (real s) = [] \<Longrightarrow> answer_state (real_result_of w s v) = state (row v)
     \<and> (\<forall>l. real_result_of w s v \<noteq> Unrecorded l)"
  by (simp add: real_result_of_def Let_def)

lemma real_finish_effect:
  assumes "real_finish w v st disp rc err why observed s = (x, t)" "executor_outcome st why"
  shows "kept (real s) (real t)" "gateway t = gateway s" "execution t = execution s" "active_real t = active_real s"
    "late_failure (real s) = [] \<Longrightarrow> answer_state x = st
       \<and> (\<forall>l. x = Unrecorded l \<longrightarrow> operation_id (row v) \<in> fst ` set (late_failure (real t)))"
proof -
  let ?oid = "operation_id (row v)"
  let ?f = "\<lambda>j. outcome (io w ''outcome'') j ?oid st disp rc err why observed (now w)"
  obtain r1 p1 where 1: "on_journal ?f (real s) = (r1, p1)" by fastforce
  obtain r2 p2 where 2: "on_journal (\<lambda>j. lookup (io w ''lookup3'') j ?oid) p1 = (r2, p2)" by fastforce
  have st1: "steady (real s) p1" by (rule steady_snd [OF steady_outcome [OF assms(2)] 1])
  have st2: "steady (real s) p2" by (rule steady_trans [OF st1 steady_snd [OF steady_lookup 2]])
  have on1: "on_real (on_journal ?f) s = (r1, s\<lparr>real := p1\<rparr>)" by (simp add: on_real_def 1)
  have on2: "on_real (on_journal (\<lambda>j. lookup (io w ''lookup3'') j ?oid)) (s\<lparr>real := p1\<rparr>) = (r2, s\<lparr>real := p2\<rparr>)"
    by (simp add: on_real_def 2)
  note eq = assms(1) [unfolded real_finish_def Let_def on1 on2 prod.case]
  show "kept (real s) (real t)" "gateway t = gateway s" "execution t = execution s" "active_real t = active_real s"
    using eq steady_kept [OF st1] steady_kept [OF st2] by (auto split: sum.splits option.splits simp: on2)
  assume none: "late_failure (real s) = []"
  show "answer_state x = st \<and> (\<forall>l. x = Unrecorded l \<longrightarrow> ?oid \<in> fst ` set (late_failure (real t)))"
  proof (cases "\<exists>u v'. r1 = Inr u \<and> r2 = Inr (Some v')")
    case True
    then obtain u v' where r: "r1 = Inr u" "r2 = Inr (Some v')" by blast
    have v': "row_of (db (journal p1)) ?oid = Some v'" using 2 r(2) by (auto simp: on_journal_iff dest: lookup_found)
    have "?f (journal (real s)) = (ok, journal p1)" using 1 r(1) by (auto simp: on_journal_iff)
    then have "state (row v') = st" using outcome_state v' by blast
    moreover have "x = real_result_of w (s\<lparr>real := p2\<rparr>) v'" using eq r by (simp add: on2)
    moreover have "late_failure (real (s\<lparr>real := p2\<rparr>)) = []" using st2 none by (simp add: steady_def)
    ultimately show ?thesis using real_result_of_state by metis
  next
    case False
    then show ?thesis
      using eq by (auto split: sum.splits option.splits simp: on2 late_outcome_def put_key_known)
  qed
qed

text \<open>The reply a method reports.\<close>

definition method_reports :: "broker_reply \<Rightarrow> pydict res \<Rightarrow> bool" where
  "method_reports rp r = (case rp of
     Acknowledged i rec \<Rightarrow> (case rec of Inl e \<Rightarrow> \<exists>x. r = raise OrderReceiptUnreadableError x | Inr d \<Rightarrow> \<exists>d'. r = Inr d')
   | _ \<Rightarrow> \<exists>x. r = raise OrderOutcomeUnknownError x)"

lemma conclude_unmarked:
  assumes "conclude w v a r s = (x, t)" "\<not> marked a"
  shows "\<exists>e. x = Inl \<lparr>cause = Exn OrderNotSentError e, admitted = True\<rparr>" "kept (real s) (real t)"
    "gateway t = gateway s" "execution t = execution s" "active_real t = active_real s"
proof -
  obtain e y where f: "real_finish w v REFUSED ''NOT_SENT'' None (Some e) None (seen_modifications a) s = (y, t)"
    and "x = Inl \<lparr>cause = Exn OrderNotSentError e, admitted = True\<rparr>"
    using assms by (auto simp: conclude_def Let_def split: sum.splits prod.splits)
  then show "\<exists>e. x = Inl \<lparr>cause = Exn OrderNotSentError e, admitted = True\<rparr>" by blast
  have "executor_outcome REFUSED None" by (simp add: executor_outcome_def)
  from real_finish_effect [OF f this] show "kept (real s) (real t)"
    "gateway t = gateway s" "execution t = execution s" "active_real t = active_real s" by blast+
qed

lemma conclude_marked:
  assumes "conclude w v a r s = (x, t)" "marked a" "method_reports (reply w) r" "late_failure (real s) = []"
  obtains y where "x = Inr y" "kept (real s) (real t)" "gateway t = gateway s" "execution t = execution s"
    "answer_state y = reply_state (reply w)"
    "\<forall>l. y = Unrecorded l \<longrightarrow> operation_id (row v) \<in> fst ` set (late_failure (real t))"
proof -
  have unreadable: "instance_of (Exn OrderReceiptUnreadableError e) OrderReceiptUnreadableError"
    "\<not> instance_of (Exn OrderOutcomeUnknownError e) OrderReceiptUnreadableError" for e
    by (simp_all add: instance_of_def)
  obtain y st disp rc err why where f: "real_finish w v st disp rc err why (seen_modifications a) s = (y, t)" "x = Inr y"
    and st: "st = reply_state (reply w)" "executor_outcome st why"
  proof (cases "reply w")
    case (Acknowledged i rec)
    then show thesis
      using assms(1,2,3) that
      by (cases rec; cases "readable_receipt rec")
        (auto simp: conclude_def Let_def method_reports_def executor_outcome_def unreadable
          split: prod.splits sum.splits)
  qed (use assms(1,2,3) that in \<open>auto simp: conclude_def Let_def method_reports_def executor_outcome_def unreadable
      split: prod.splits\<close>)
  from real_finish_effect [OF f(1) st(2)] assms(4) show thesis using that f(2) st(1) by blast
qed

subsection \<open>A dispatch\<close>

lemma opened_silent: "silent s u \<Longrightarrow> opened jit ws u t \<Longrightarrow> opened jit ws s t"
  using opened_cong [of s u t t jit ws] by (simp add: silent_def)

text \<open>What had passed when a write was sent: the preparation of its request, the halt and pause checks, the
  charge and its confirmation.\<close>

definition passed_checks ::
    "config \<Rightarrow> world \<Rightarrow> gateway_world \<Rightarrow> string \<Rightarrow> pydict \<Rightarrow> int \<Rightarrow> active_operation option \<Rightarrow> service \<Rightarrow> write_request \<Rightarrow>
     service \<Rightarrow> bool" where
  "passed_checks cfg w g meth ps acc active s q t \<longleftrightarrow> (\<exists>s0 active1 s1 active2 s2 u0 u1.
     silent s s0 \<and> controls_of (real s0) = controls_of (real s)
     \<and> prepare_write cfg w g meth ps acc active s0 = (Inr (q, active1), s1)
     \<and> admit_write cfg w meth q active1 s1 = (Inr active2, s2)
     \<and> controls_of (real u0) = controls_of (real s2) \<and> real_confirm cfg w active2 u0 = (ok, u1)
     \<and> controls_of (real t) = controls_of (real u1))"

lemma real_method_cases:
  assumes "real_method cfg jit w g meth ps acc active s = (r, t)" "active_real s = Some a" "\<not> marked a"
  obtains (refused) e b where "r = Inl e" "quiet (real s) (real t)" "late_failure (real t) = late_failure (real s)"
        "active_real t = Some b" "active_row b = active_row a" "\<not> marked b" "opened jit [] s t"
    | (sent) q b u m where "passed_checks cfg w g meth ps acc active s q t" "quiet (real s) u"
        "mark_dispatch (io w ''mark'') (journal u) (operation_id (row (active_row a))) (write_merged q) = (ok, journal m)"
        "calls m = calls u" "controls_of m = controls_of u" "late_failure m = late_failure u" "real t = logged (operation_id (row (active_row a))) (write_merged q) m"
        "active_real t = Some b" "active_row b = active_row a" "marked b"
        "opened jit [Write (operation_id (row (active_row a)))] s t"
        "py_str (dict_get (write_merged q) ''acc_id'' PNone) = account (row (active_row a))"
        "late_failure (real s) = []" "late_failure u = []" "method_reports (reply w) r"
proof -
  from assms(1) [unfolded real_method_def] show thesis
  proof (cases rule: bindS_cases)
    case (Inl e)
    have "silent s t" by (rule silent_snd [OF silent_prepare Inl(1)])
    then show thesis using refused [of e] opened_none [of t s jit] assms(2,3) Inl(2) by (auto simp: silent_def)
  next
    case prepared: (Inr x s1)
    obtain q active1 where x: "x = (q, active1)" by fastforce
    have s1: "silent s s1" by (rule silent_snd [OF silent_prepare prepared(1)])
    then obtain a1 where a1: "active_real s1 = Some a1" "active_row a1 = active_row a" "\<not> marked a1"
      using assms(2,3) by (auto simp: silent_def)
    obtain dr where d: "dispatch_write cfg jit w g meth q active1 s1 = (dr, t)"
      and r: "r = bindR dr (\<lambda>(rc, err). Inr (with_routing rc (write_account q) err))"
      using prepared(2) unfolding x by (auto simp: bindS_def bindR_def split: prod.splits sum.splits)
    from d a1(1,3) show thesis
    proof (cases rule: dispatch_write_cases)
      case (refused e b)
      then show thesis
        using that(1) [of e b] s1 a1(2) r opened_silent [OF s1 refused(7)]
        by (auto simp: silent_def bindR_def intro: quiet_trans)
    next
      case (sent active2 s2 u0 u m b a')
      have "passed_checks cfg w g meth ps acc active s q t"
        unfolding passed_checks_def
        by (intro exI [of _ s] exI [of _ active1] exI [of _ s1] exI [of _ active2] exI [of _ s2] exI [of _ u0] exI [of _ a'])
          (use sent(1,5,7,15,16,17) prepared(1) x in \<open>simp add: logged_def\<close>)
      moreover have "quiet (real s) u" using s1 sent(2) by (auto simp: silent_def intro: quiet_trans)
      moreover have "method_reports (reply w) r"
        using sent(18) r by (cases "reply w") (auto simp: method_reports_def bindR_def split: sum.splits)
      ultimately show thesis
        using that(2) [of q u m b] sent opened_silent [OF s1] s1 a1(2) by (simp add: silent_def)
    qed
  qed
qed

lemma real_dispatch_phase_cases:
  assumes "real_dispatch_phase cfg jit w g meth ps v k acc active s = (r, t)"
  obtains (refused) e where "r = Inl \<lparr>cause = Exn OrderNotSentError e, admitted = True\<rparr>" "quiet (real s) (real t)"
        "opened jit [] s t" "active_real t = None"
    | (sent) q x s0 u m t0 where "r = Inr x" "passed_checks cfg w g meth (fixed_request k v acc ps) acc active s0 q t0"
        "execution s0 = execution s" "controls_of (real s0) = controls_of (real s)"
        "controls_of (real t) = controls_of (real t0)" "quiet (real s) u"
        "mark_dispatch (io w ''mark'') (journal u) (operation_id (row v)) (write_merged q) = (ok, journal m)"
        "calls m = calls (real s)" "kept (logged (operation_id (row v)) (write_merged q) m) (real t)"
        "opened jit [Write (operation_id (row v))] s t" "active_real t = None"
        "py_str (dict_get (write_merged q) ''acc_id'' PNone) = account (row v)"
        "answer_state x = reply_state (reply w)"
        "\<forall>l. x = Unrecorded l \<longrightarrow> operation_id (row v) \<in> fst ` set (late_failure (real t))"
        "late_failure (real s) = []"
proof -
  define opn where "opn = open_active v s"
  have opn: "quiet (real s) p = quiet (real opn) p" "opened jit ws opn t = opened jit ws s t" "late_failure (real opn) = late_failure (real s)"
    "calls (real opn) = calls (real s)" "execution opn = execution s" "controls_of (real opn) = controls_of (real s)"
    "active_real opn = Some \<lparr>active_row = v, marked = False, ack_evidence = [], seen_modifications = []\<rparr>" for p ws t
    by (simp_all add: opn_def open_active_def cong: opened_cong)
  have opn_gateway: "gateway opn = gateway s" by (simp add: opn_def open_active_def)
  obtain r1 s1 where first: "bindS (classified meth (on_real (ready w ''ready2'') opn)) (\<lambda>_ s.
        real_method cfg jit w g meth (fixed_request k v acc ps) acc active s) = (r1, s1)" by fastforce
  note eq = assms [unfolded real_dispatch_phase_def opn_def [symmetric] first prod.case]
  have refuse: thesis if "quiet (real s) (real s1)" "opened jit [] s s1" "active_real s1 = Some a" "\<not> marked a" for a
  proof -
    obtain x t1 where c: "conclude w v a r1 s1 = (x, t1)" by fastforce
    note c' = conclude_unmarked [OF c that(4)]
    from eq that(3) c have t: "t = t1\<lparr>active_real := None\<rparr>" "r = x" by auto
    have "quiet (real s) (real t)" using that(1) c'(2) by (auto simp: t kept_def intro: quiet_trans)
    moreover have "opened jit [] s t" using that(2) c'(3,4) opened_cong [of s s t s1] by (simp add: t)
    ultimately show thesis using refused c'(1) t by auto
  qed
  from first show thesis
  proof (cases rule: bindS_cases)
    case (Inl e)
    then obtain e0 where "on_real (ready w ''ready2'') opn = (Inl e0, s1)" by (cases rule: classified_cases) auto
    then have "silent opn s1" by (rule silent_snd [OF silent_ready])
    then show thesis using refuse opn(1,7) opn_gateway by (auto simp: silent_def opn(5) intro!: opened_none)
  next
    case (Inr u0 s0)
    then have ready: "on_real (ready w ''ready2'') opn = (ok, s0)" by (simp add: classified_Inr)
    have s0: "silent opn s0" by (rule silent_snd [OF silent_ready ready])
    have ctl: "controls_of (real s0) = controls_of (real s)"
      using ready steady_snd [OF steady_ready] opn(6) by (auto simp: on_real_iff steady_def)
    obtain a0 where a0: "active_real s0 = Some a0" "active_row a0 = v" "\<not> marked a0"
      using s0 opn(7) by (auto simp: silent_def)
    from Inr(2) a0(1,3) show thesis
    proof (cases rule: real_method_cases)
      case (refused e b)
      have "quiet (real s) (real s1)" using s0 refused(2) opn(1) by (auto simp: silent_def intro: quiet_trans)
      moreover have "opened jit [] s s1" using opened_silent [OF s0 refused(7)] opn(2) by simp
      ultimately show thesis using refuse refused(4,6) by blast
    next
      case (sent q b u m)
      obtain x t1 where c: "conclude w v b r1 s1 = (x, t1)" by fastforce
      have "late_failure (real s1) = []" using sent(6,7,14) by (simp add: logged_def)
      from conclude_marked [OF c sent(10,15) this] obtain y where y: "x = Inr y" "kept (real s1) (real t1)"
          "gateway t1 = gateway s1" "execution t1 = execution s1" "answer_state y = reply_state (reply w)"
          "\<forall>l. y = Unrecorded l \<longrightarrow> operation_id (row v) \<in> fst ` set (late_failure (real t1))" by blast
      have t: "t = t1\<lparr>active_real := None\<rparr>" "r = x" using eq sent(8) c by auto
      have "quiet (real s) u" using s0 sent(2) opn(1) by (auto simp: silent_def intro: quiet_trans)
      moreover have "calls m = calls (real s)"
        using \<open>quiet (real s) u\<close> sent(4) by (simp add: quiet_def)
      moreover have "opened jit [Write (operation_id (row v))] s t"
        using opened_silent [OF s0 sent(11)] opn(2) a0(2) y(3,4) opened_cong [of s s t s1] by (simp add: t)
      moreover have "execution s0 = execution s" "late_failure (real s) = []" using s0 opn(3,5) sent(13) by (auto simp: silent_def)
      ultimately show thesis
        using that(2) [of y s0 q s1 u m] sent(1,3,7,12) y t ctl a0(2) by (simp add: kept_def)
    qed
  qed
qed

subsection \<open>A call\<close>

text \<open>A \<open>calm\<close> step reads and admits: it touches the journal only.\<close>

definition calm :: "service \<Rightarrow> service \<Rightarrow> bool" where
  "calm s t \<longleftrightarrow> steady (real s) (real t) \<and> execution t = execution s \<and> gateway t = gateway s \<and> active_real t = active_real s"

lemma calm_refl [simp, intro]: "calm s s"
  by (simp add: calm_def)

lemma calm_trans: "calm s t \<Longrightarrow> calm t u \<Longrightarrow> calm s u"
  by (auto simp: calm_def intro: steady_trans)

lemma calm_snd: "calm s (snd m) \<Longrightarrow> m = (r, t) \<Longrightarrow> calm s t"
  by simp

lemma calm_bindS:
  "calm s (snd m) \<Longrightarrow> (\<And>x u. m = (Inr x, u) \<Longrightarrow> calm u (snd (f x u))) \<Longrightarrow> calm s (snd (bindS m f))"
  using calm_trans by (rule bindS_related)

lemma calm_on_real: "steady (real s) (snd (f (real s))) \<Longrightarrow> calm s (snd (on_real f s))"
  by (auto simp: on_real_def calm_def split: prod.split)

lemma calm_ready: "calm s (snd (on_real (ready w site) s))"
  by (rule calm_on_real) (rule steady_ready)

lemma calm_known_row: "calm s (snd (known_row w site oid s))"
  by (auto simp: known_row_def split: option.split intro!: calm_on_real steady_lookup)

lemma calm_retry: "calm s (snd (real_retry cfg w site meth ps s))"
  using calm_known_row [of s w site "token_text (arg ps ''operation_id'')"]
  by (auto simp: real_retry_def split: sum.split prod.split option.split)

lemma calm_preflight: "calm s (snd (preflight_account cfg w meth ps s))"
  unfolding preflight_account_def by (auto intro!: calm_bindS calm_ready)

lemma calm_admit:
  "calm s (snd (bindS (c, s) (\<lambda>canon s. on_real (on_journal (\<lambda>j. admit h i j oid ep n k canon ps u x)) s)))"
  by (intro calm_bindS calm_on_real steady_on_journal) (auto intro: admit_step)

lemma calm_admit_phase: "calm s (snd (real_admit_phase cfg w meth ps s))"
proof -
  obtain r1 s1 where 1: "real_retry cfg w ''lookup2'' meth ps s = (r1, s1)" by fastforce
  obtain r2 s2 where 2: "preflight_account cfg w meth ps s1 = (r2, s2)" by fastforce
  have s1: "calm s s1" by (rule calm_snd [OF calm_retry 1])
  have s2: "calm s s2" by (rule calm_trans [OF s1 calm_snd [OF calm_preflight 2]])
  have s3: "calm s t3" if "bindS (c, s2) (\<lambda>canon s. on_real (on_journal (\<lambda>j. admit h i j oid ep n k canon q u x)) s) = (r3, t3)"
    for c h i oid ep n k q u x r3 t3 by (rule calm_trans [OF s2 calm_snd [OF calm_admit that]])
  show ?thesis
    using s1 s2
    by (auto simp: real_admit_phase_def 1 2 split: sum.split option.split prod.split bool.split dest: s3)
qed

text \<open>A new operation is admitted for the account that was resolved for it, which its client may trade.\<close>

lemma admit_row_account:
  assumes "admit sha256 i j oid ep acc k canon req u n = (Inr (v, True), t)"
  shows "operation_id (row v) = oid \<and> account (row v) = int_text acc \<and> kind (row v) = k \<and> row_of (db j) oid = None
    \<and> recorded_for oid (int_text acc) t"
proof -
  from assms obtain d where d: "admit_body sha256 j oid ep acc k canon req u n (db j) = Done (v, True) d" "db t = d"
    unfolding admit_def by (auto elim: transaction_cases)
  from d(1) show ?thesis
  proof (cases rule: admit_bodyE)
    case (fresh r v')
    have "find_row operation_id oid (operations d) = Some r"
      using fresh(1,2,8) by (simp add: new_operation_def row_of_None_iff ids_def find_row_None_iff [symmetric])
    with fresh(9) have "row v' = r" by (auto dest: row_of_SomeD)
    moreover have "recorded_for oid (int_text acc) t"
      using fresh(1,2,8) d(2) by (auto simp: recorded_for_def ids_def new_operation_def row_of_None_iff)
    ultimately show ?thesis using fresh by (simp add: new_operation_def)
  qed simp
qed

lemma real_admit_phase_Go:
  assumes "real_admit_phase cfg w meth ps s = (Inr (Go v k resolved), t)"
  shows "operation_id (row v) = token_text (arg ps ''operation_id'')" "account (row v) = int_text resolved"
    "real_kind meth ps = Inr k" "exposing_request k ps \<Longrightarrow> \<not> halted (execution s)"
    "row_of (db (journal (real s))) (token_text (arg ps ''operation_id'')) = None"
    "\<exists>market requested. resolve_trade_account cfg w ''REAL'' market requested True = Inr resolved"
    "recorded_for (token_text (arg ps ''operation_id'')) (int_text resolved) (journal (real t))"
    "validate_token (arg ps ''operation_id'') (arg ps ''admission_epoch'') = ok"
proof -
  let ?oid = "token_text (arg ps ''operation_id'')"
  obtain s1 where 1: "real_retry cfg w ''lookup2'' meth ps s = (Inr None, s1)"
    using assms by (auto simp: real_admit_phase_def split: prod.splits sum.splits option.splits)
  have s1: "calm s s1" by (rule calm_snd [OF calm_retry 1])
  obtain k' n s2 where 2: "preflight_account cfg w meth ps s1 = (Inr (k', n), s2)"
    using assms 1 by (auto simp: real_admit_phase_def not_sent_def split: prod.splits sum.splits if_split_asm)
  have steps: "real_kind meth ps = Inr k'" "exposing_request k' ps \<Longrightarrow> \<not> halted (execution s1)"
    "\<exists>market requested. resolve_trade_account cfg w ''REAL'' market requested True = Inr n"
    using 2 calm_snd [OF calm_ready]
    by (auto simp: preflight_account_def bindS_Inr res_simps check_execution_halt_def guardR_def calm_def on_real_iff
        split: if_split_asm)
  define f where "f = (\<lambda>canon. on_real (on_journal (\<lambda>j. admit (digest cfg) (io w ''admit'') j ?oid
        (token_text (arg ps ''admission_epoch'')) n k' canon (original_request ps) (uuid w) (now w))))"
  obtain ar s3 where ar: "bindS (canonical_real_request (sessions cfg) n k' (original_request ps), s2) f = (ar, s3)"
    by fastforce
  note eq = assms [unfolded real_admit_phase_def 1 2 prod.case sum.case option.case f_def [symmetric] ar]
  have "ar = Inr (v, True) \<and> k = k' \<and> resolved = n \<and> t = s3"
  proof (cases ar)
    case (Inl e)
    then show ?thesis using eq by (simp add: not_sent_Inr_iff)
  next
    case (Inr vb)
    then show ?thesis using eq by (cases vb; cases "snd vb") (auto simp: lift_res_Inr res_simps)
  qed
  then obtain canon where 3: "f canon s2 = (Inr (v, True), s3)" "k = k'" "resolved = n" "t = s3"
    using ar by (auto simp: bindS_Inr)
  from 3(1) have ad: "operation_id (row v) = ?oid \<and> account (row v) = int_text n \<and> kind (row v) = k' \<and>
      row_of (db (journal (real s2))) ?oid = None \<and> recorded_for ?oid (int_text n) (journal (real s3))"
    by (auto simp: f_def on_real_iff on_journal_iff dest!: admit_row_account)
  show "operation_id (row v) = ?oid" "account (row v) = int_text resolved"
    "real_kind meth ps = Inr k" "exposing_request k ps \<Longrightarrow> \<not> halted (execution s)"
    "\<exists>market requested. resolve_trade_account cfg w ''REAL'' market requested True = Inr resolved"
    "recorded_for ?oid (int_text resolved) (journal (real t))"
    using ad 3(2-4) steps s1 by (auto simp: calm_def)
  show "validate_token (arg ps ''operation_id'') (arg ps ''admission_epoch'') = ok"
    using 1 by (auto simp: real_retry_def retry_checks_def lift_res_Inr not_sent_Inr_iff res_simps split: sum.splits)
  have "known_row w ''lookup2'' ?oid s = (Inr None, s1)"
    using 1 by (auto simp: real_retry_def lift_res_Inr res_simps split: sum.splits prod.splits option.splits)
  then show "row_of (db (journal (real s))) ?oid = None"
    by (auto simp: known_row_def on_real_iff on_journal_iff split: if_split_asm option.splits dest: lookup_found)
qed

lemma real_execute_cases:
  assumes "real_execute cfg jit w g meth ps active s = (r, t)"
  obtains (calm) "calm s t"
    | (dispatch) v k resolved u where "calm s u" "operation_id (row v) = token_text (arg ps ''operation_id'')"
        "account (row v) = int_text resolved" "real_kind meth ps = Inr k" "exposing_request k ps \<longrightarrow> \<not> halted (execution s)"
        "\<exists>market requested. resolve_trade_account cfg w ''REAL'' market requested True = Inr resolved"
        "row_of (db (journal (real s))) (token_text (arg ps ''operation_id'')) = None"
        "real_dispatch_phase cfg jit w g meth ps v k resolved active u = (r, t)"
        "recorded_for (token_text (arg ps ''operation_id'')) (int_text resolved) (journal (real u))"
        "validate_token (arg ps ''operation_id'') (arg ps ''admission_epoch'') = ok"
proof -
  obtain r1 s1 where 1: "real_retry cfg w ''lookup1'' meth ps s = (r1, s1)" by fastforce
  have s1: "calm s s1" by (rule calm_snd [OF calm_retry 1])
  obtain r2 s2 where 2: "real_admit_phase cfg w meth ps s1 = (r2, s2)" by fastforce
  have s2: "calm s s2" by (rule calm_trans [OF s1 calm_snd [OF calm_admit_phase 2]])
  show thesis
  proof (cases "r1 = Inr None \<and> (\<exists>v k n. r2 = Inr (Go v k n))")
    case True
    then obtain v k n where r: "r1 = Inr None" "r2 = Inr (Go v k n)" by blast
    have d: "real_dispatch_phase cfg jit w g meth ps v k n active s2 = (r, t)"
      using assms by (simp add: real_execute_def 1 2 r)
    have row: "row_of (db (journal (real s))) (token_text (arg ps ''operation_id'')) = None"
    proof -
      have "known_row w ''lookup1'' (token_text (arg ps ''operation_id'')) s = (Inr None, s1)"
        using 1 r(1) by (auto simp: real_retry_def lift_res_Inr res_simps split: sum.splits prod.splits option.splits)
      then show ?thesis
        by (auto simp: known_row_def on_real_iff on_journal_iff split: if_split_asm option.splits dest: lookup_found)
    qed
    note go = real_admit_phase_Go [OF 2 [unfolded r(2)]]
    show thesis
      using dispatch [OF s2 go(1,2,3) _ go(6) row d go(7,8)] go(4) s1 by (auto simp: calm_def)
  next
    case False
    then have "t = s1 \<or> t = s2"
      using assms by (auto simp: real_execute_def 1 2 split: sum.splits option.splits real_admission.splits)
    then show thesis using calm s1 s2 by blast
  qed
qed

end
