(* ===== verification/Real_Safety.thy ===== *)
theory Real_Safety
  imports Real_Runs
begin

text \<open>
  Runs of a process that trades REAL accounts, and the properties of the REAL path: one broker call per
  operation through interleavings and restarts, unlock windows that are always closed or halt execution,
  a halt that only an explicit lock ends, and what must have passed before a write is sent.
\<close>

subsection \<open>Runs\<close>

text \<open>A step of one process, which has one configuration and either stores a credential or does not: a whole
  call or one of its phases, with any request, gateway, clock and disk; another journal call; a change of the
  trading controls; an explicit lock or unlock; the lock asserted on a reconnect.\<close>

inductive serve_step :: "config \<Rightarrow> bool \<Rightarrow> service \<Rightarrow> service \<Rightarrow> bool" for cfg jit where
  execution: "real_execute cfg jit w g meth ps active s = (r, t) \<Longrightarrow> serve_step cfg jit s t"
| admission: "real_admit_phase cfg w meth ps s = (ra, t) \<Longrightarrow> serve_step cfg jit s t"
| dispatch: "real_dispatch_phase cfg jit w g meth ps v k n active s = (rd, t) \<Longrightarrow> serve_step cfg jit s t"
| journal: "call_step (journal (real s)) j \<Longrightarrow> serve_step cfg jit s (s\<lparr>real := (real s)\<lparr>journal := j\<rparr>\<rparr>)"
| controls: "serve_step cfg jit s (s\<lparr>real := (real s)\<lparr>controls_of := c\<rparr>\<rparr>)"
| locking: "lock_trade w g s = (rl, t) \<Longrightarrow> serve_step cfg jit s t"
| unlocking: "unlock_trade cfg jit w g supplied s = (ru, t) \<Longrightarrow> serve_step cfg jit s t"
| reconnect: "serve_step cfg jit s (enforce_gateway_lock cfg jit busy g s)"

definition armed :: execution_state where
  "armed = \<lparr>halted_since = None, last_lock_error = None\<rparr>"

text \<open>A restart opens the journal the last process left, and forgets what was in memory.\<close>

inductive service_step :: "service \<Rightarrow> service \<Rightarrow> bool" where
  serve: "serve_step cfg jit s t \<Longrightarrow> service_step s t"
| restart: "open_store (environment (journal (real s))) create wait locked i ep (file_of (journal (real s))) = Inr j \<Longrightarrow>
    service_step s (s\<lparr>real := (real s)\<lparr>journal := j, controls_of := c, late_failure := [], late_identity := []\<rparr>,
      execution := armed, active_real := None\<rparr>)"

definition service_start :: "service \<Rightarrow> bool" where
  "service_start s \<longleftrightarrow> paper_start (real s)"

definition service_ok :: "service \<Rightarrow> bool" where
  "service_ok s \<longleftrightarrow> paper_ok (real s)"

lemma calm_service_ok: "calm s t \<Longrightarrow> service_ok s \<Longrightarrow> service_ok t"
  using quiet_paper_ok steady_quiet by (auto simp: calm_def service_ok_def)

text \<open>A call that follows a committed marker of its own operation keeps the log of calls in order.\<close>

lemma logged_paper_ok:
  assumes "paper_ok s" "quiet s u" "mark_dispatch i (journal u) oid merged = (ok, journal m)" "calls m = calls s"
    and "kept (logged oid merged m) t"
  shows "paper_ok t"
proof -
  have u: "paper_ok u" by (rule quiet_paper_ok [OF assms(2,1)])
  note past = mark_dispatch_past [OF assms(3)]
  have jm: "call_step (journal u) (journal m)" by (rule call_step.intros(2) [OF assms(3)])
  have "calls m = calls u" using assms(2,4) by (simp add: quiet_def)
  moreover have "oid \<notin> fst ` set (calls u)" using u past(1) by (auto simp: paper_ok_def)
  ultimately have "paper_ok (logged oid merged m)"
    using u past(2) call_steps_stable [OF r_into_rtranclp [of call_step, OF jm]]
    by (auto simp: paper_ok_def logged_def)
  then show ?thesis using quiet_paper_ok assms(5) by (auto simp: kept_def)
qed

lemma dispatch_service_ok:
  assumes "real_dispatch_phase cfg jit w g meth ps v k acc active s = (r, t)" "service_ok s"
  shows "service_ok t"
  using assms(1)
proof (cases rule: real_dispatch_phase_cases)
  case (refused e)
  then show ?thesis using assms(2) quiet_paper_ok by (auto simp: service_ok_def)
next
  case (sent q x s0 u m t0)
  then show ?thesis using assms(2) logged_paper_ok unfolding service_ok_def by blast
qed

lemma serve_step_ok: "serve_step cfg jit s t \<Longrightarrow> service_ok s \<Longrightarrow> service_ok t"
proof (induction rule: serve_step.induct)
  case (execution w g meth ps active s r t)
  from execution(1) show ?case
  proof (cases rule: real_execute_cases)
    case (dispatch v k resolved u)
    then show ?thesis using dispatch_service_ok calm_service_ok execution(2) by blast
  qed (use execution(2) calm_service_ok in blast)
next
  case (admission w meth ps s ra t)
  then show ?case using calm_snd [OF calm_admit_phase] calm_service_ok by blast
next
  case (dispatch w g meth ps v k n active s rd t)
  then show ?case using dispatch_service_ok by blast
next
  case (journal s j)
  then have "quiet (real s) ((real s)\<lparr>journal := j\<rparr>)" by (simp add: quiet_def)
  then show ?case using quiet_paper_ok journal(2) by (auto simp: service_ok_def)
qed (auto simp: service_ok_def paper_ok_def lock_trade_def unlock_trade_def enforce_gateway_lock_def lock_gateway_def
    unlock_gateway_def bindS_def record_lock_result_def split: if_split_asm sum.splits prod.splits)

lemma service_step_ok: "service_step s t \<Longrightarrow> service_ok s \<Longrightarrow> service_ok t"
proof (induction rule: service_step.induct)
  case (serve cfg jit s t)
  then show ?case by (rule serve_step_ok)
next
  case (restart s create wait locked i ep j c)
  have "store_step (journal (real s)) j" by (rule store_step.restart [OF restart(1)])
  then show ?case using restart(2) journal.step_invar past_dispatch_step by (auto simp: service_ok_def paper_ok_def)
qed

interpretation services: guarded_system service_start service_step service_ok
proof
  fix s assume "service_start s"
  then show "service_ok s" using papers.start_invar by (simp add: service_start_def service_ok_def)
qed (rule service_step_ok)

text \<open>C2. In every run of a process that trades REAL accounts, whatever the interleaving of calls, recovery,
  operator actions, lock requests, storage failures and restarts, the broker is asked at most once to perform an
  operation.\<close>

theorem one_real_write_per_operation:
  assumes "service_start s0" "service_step\<^sup>*\<^sup>* s0 s"
  shows "distinct (map fst (calls (real s)))"
  using services.reachable_invar [OF assms] by (simp add: service_ok_def paper_ok_def)

subsection \<open>The gateway lock\<close>

text \<open>Whether the last lock request that was accepted is an unlock.\<close>

fun lock_state :: "bool \<Rightarrow> gateway_event list \<Rightarrow> bool" where
  "lock_state u [] = u"
| "lock_state u (Unlock b # es) = lock_state (b \<or> u) es"
| "lock_state u (Lock b # es) = lock_state (\<not> b \<and> u) es"
| "lock_state u (Write oid # es) = lock_state u es"

definition unlocked :: "gateway_event list \<Rightarrow> bool" where
  "unlocked es = lock_state False es"

text \<open>Every write directly follows an accepted unlock and is directly followed by a lock request.\<close>

fun windowed :: "gateway_event list \<Rightarrow> bool" where
  "windowed [] = True"
| "windowed (Lock b # es) = windowed es"
| "windowed (Unlock False # es) = windowed es"
| "windowed (Unlock True # Lock b # es) = windowed es"
| "windowed (Unlock True # Write oid # Lock b # es) = windowed es"
| "windowed es = False"

lemma lock_state_append: "lock_state u (xs @ ys) = lock_state (lock_state u xs) ys"
  by (induction u xs rule: lock_state.induct) simp_all

lemma windowed_append: "windowed xs \<Longrightarrow> windowed ys \<Longrightarrow> windowed (xs @ ys)"
  by (induction xs rule: windowed.induct) simp_all

definition closed_or_halted :: "service \<Rightarrow> bool" where
  "closed_or_halted s \<longleftrightarrow> windowed (gateway s) \<and> (unlocked (gateway s) \<longrightarrow> halted (execution s))"

lemma calm_closed: "calm s t \<Longrightarrow> closed_or_halted s \<Longrightarrow> closed_or_halted t"
  by (simp add: calm_def closed_or_halted_def)

lemma opened_closed:
  assumes "opened True ws s t" "ws = [] \<or> (\<exists>oid. ws = [Write oid])" "closed_or_halted s"
  shows "closed_or_halted t"
proof -
  have win: "windowed (Unlock True # ws @ [Lock b])" "unlocked (gateway s @ Unlock True # ws @ [Lock b]) = (\<not> b)" for b
    using assms(2) by (auto simp: unlocked_def lock_state_append)
  have refused: "windowed (gateway s @ [Unlock False])" "unlocked (gateway s @ [Unlock False]) = unlocked (gateway s)"
    using assms(3) by (auto simp: closed_or_halted_def unlocked_def lock_state_append intro: windowed_append)
  have gs: "windowed (gateway s)" "unlocked (gateway s) \<longrightarrow> halted (execution s)"
    using assms(3) by (simp_all add: closed_or_halted_def)
  from assms(1) consider "gateway t = gateway s" "execution t = execution s"
    | "gateway t = gateway s @ [Unlock False]" "execution t = execution s"
    | b where "gateway t = gateway s @ Unlock True # ws @ [Lock b]" "if b then execution t = execution s else halted (execution t)"
    unfolding opened_def by blast
  then show ?thesis
  proof cases
    case (3 b)
    have "windowed (gateway t)" unfolding 3(1) by (rule windowed_append [OF gs(1) win(1)])
    moreover have "unlocked (gateway t) = (\<not> b)" unfolding 3(1) by (rule win(2))
    ultimately show ?thesis using 3(2) by (cases b) (simp_all add: closed_or_halted_def)
  qed (use gs refused in \<open>simp_all add: closed_or_halted_def\<close>)
qed

lemma lock_closed: "closed_or_halted s \<Longrightarrow> closed_or_halted (s\<lparr>gateway := gateway s @ [Lock b]\<rparr>)"
  by (auto simp: closed_or_halted_def unlocked_def lock_state_append intro: windowed_append)

lemma lock_trade_closed: "lock_trade w g s = (r, t) \<Longrightarrow> closed_or_halted s \<Longrightarrow> closed_or_halted t"
  using lock_closed [of s True] lock_closed [of s False]
  by (auto simp: lock_trade_def lock_gateway_def record_lock_result_def closed_or_halted_def halted_def unlocked_def
      lock_state_append split: if_split_asm sum.splits)

lemma serve_step_closed: "serve_step cfg True s t \<Longrightarrow> closed_or_halted s \<Longrightarrow> closed_or_halted t"
proof (induction rule: serve_step.induct)
  case (execution w g meth ps active s r t)
  from execution(1) show ?case
  proof (cases rule: real_execute_cases)
    case (dispatch v k resolved u)
    from dispatch(8) calm_closed [OF dispatch(1) execution(2)] show ?thesis
      by (cases rule: real_dispatch_phase_cases) (blast intro: opened_closed)+
  qed (use execution(2) calm_closed in blast)
next
  case (admission w meth ps s ra t)
  then show ?case using calm_snd [OF calm_admit_phase] calm_closed by blast
next
  case (dispatch w g meth ps v k n active s rd t)
  from dispatch show ?case by (cases rule: real_dispatch_phase_cases) (blast intro: opened_closed)+
next
  case (locking w g s rl t)
  then show ?case by (rule lock_trade_closed)
next
  case (unlocking w g supplied s ru t)
  then show ?case by (auto simp: unlock_trade_def bindS_def split: sum.splits)
next
  case (reconnect s busy g)
  then show ?case using lock_closed by (auto simp: enforce_gateway_lock_def lock_gateway_def)
qed (auto simp: closed_or_halted_def)

definition process_start :: "service \<Rightarrow> bool" where
  "process_start s \<longleftrightarrow> gateway s = [] \<and> execution s = armed"

interpretation windows: guarded_system process_start "serve_step cfg True" closed_or_halted for cfg
proof
  show "closed_or_halted s" if "process_start s" for s
    using that by (simp add: process_start_def closed_or_halted_def unlocked_def)
qed (rule serve_step_closed)

text \<open>C3. A server that stores the trade credential never leaves the gateway open unnoticed. Through every run of
  the process each write is sent inside its own window: an accepted unlock directly before it and a lock request
  directly after it, and whenever the last accepted request is an unlock, execution is halted.\<close>

theorem gateway_closed_or_halted:
  assumes "process_start s0" "(serve_step cfg True)\<^sup>*\<^sup>* s0 s"
  shows "windowed (gateway s) \<and> (unlocked (gateway s) \<longrightarrow> halted (execution s))"
  using windows.reachable_invar [OF assms] by (simp add: closed_or_halted_def)

lemma opened_halted: "opened jit ws s t \<Longrightarrow> halted (execution s) \<Longrightarrow> halted (execution t)"
  by (auto simp: opened_def split: if_split_asm)

lemma dispatch_halted:
  "real_dispatch_phase cfg jit w g meth ps v k n active s = (r, t) \<Longrightarrow> halted (execution s) \<Longrightarrow> halted (execution t)"
  by (cases rule: real_dispatch_phase_cases [consumes 1]) (blast intro: opened_halted)+

text \<open>C9. A halt ends in one way only: of all the steps of a process, none but an explicit \<open>lock_trade\<close> that the
  gateway accepts takes the service out of it. No later write, reconnect or refused lock does.\<close>

theorem halt_ends_only_by_lock:
  assumes "serve_step cfg jit s t" "halted (execution s)" "\<not> halted (execution t)"
  shows "\<exists>w g. lock_trade w g s = (Inr True, t) \<and> connected w \<and> lock_reply g = ok"
  using assms
proof (induction rule: serve_step.induct)
  case (execution w g meth ps active s r t)
  from execution(1) show ?case
  proof (cases rule: real_execute_cases)
    case (dispatch v k resolved u)
    then show ?thesis using dispatch_halted execution(2,3) by (auto simp: calm_def)
  qed (use execution(2,3) in \<open>auto simp: calm_def\<close>)
next
  case (admission w meth ps s ra t)
  then show ?case using calm_snd [OF calm_admit_phase] by (fastforce simp: calm_def)
next
  case (dispatch w g meth ps v k n active s rd t)
  then show ?case using dispatch_halted by blast
next
  case (locking w g s rl t)
  have "connected w" "lock_reply g = ok" "rl = Inr True"
    using locking by (auto simp: lock_trade_def lock_gateway_def record_lock_result_def halted_def
        split: if_split_asm sum.splits)
  with locking(1) show ?case by blast
qed (auto simp: unlock_trade_def enforce_gateway_lock_def lock_gateway_def unlock_gateway_def bindS_def
    split: if_split_asm sum.splits)

subsection \<open>What has passed before a write\<close>

text \<open>Preparation reports exposure as the request states it.\<close>

lemma dict_get_put: "dict_get (put_member k v d) x y = (if x = k then v else dict_get d x y)"
  by (simp add: dict_get_def map_of_put_member)

lemma fixed_request_get:
  "dict_get (fixed_request k v acc ps) ''modify_order_op'' d = dict_get ps ''modify_order_op'' d"
  by (simp add: fixed_request_def Let_def dict_get_put)

lemma merged_account:
  "dict_get (place_merged cfg ps tif session acc) ''acc_id'' PNone = PInt acc"
  "dict_get (modify_merged op ps acc q p) ''acc_id'' PNone = PInt acc"
  by (simp_all add: place_merged_def modify_merged_def pick_def dict_get_def)

lemma prepare_place_Inr:
  assumes "prepare_place cfg w g ps acc active s = Inr (q, active')"
  obtains tif session market facts where "place_checks cfg w ps s = Inr (tif, session)"
    "resolve_trade_account cfg w ''REAL'' market acc True = Inr (write_account q)" "write_exposing q"
    "write_merged q = place_merged cfg ps tif session (write_account q)"
    "single_leg_facts (sessions cfg) g (py_str (arg ps ''code'')) (py_str (arg ps ''order_type'')) (py_str (arg ps ''trd_side''))
       (arg ps ''qty'') (arg ps ''price'') (arg ps ''aux_price'') session = Inr facts"
    "assess_control_facts (float_repr cfg) (float_decimal cfg) (policy cfg) active facts = Inr active'"
proof -
  from assms obtain tif session market resolved active'' where steps: "place_checks cfg w ps s = Inr (tif, session)"
      "resolve_trade_account cfg w ''REAL'' market acc True = Inr resolved"
      "assess_write cfg active (single_leg_facts (sessions cfg) g (py_str (arg ps ''code'')) (py_str (arg ps ''order_type''))
         (py_str (arg ps ''trd_side'')) (arg ps ''qty'') (arg ps ''price'') (arg ps ''aux_price'') session) = Inr active''"
      "q = \<lparr>write_account = resolved, write_exposing = True, write_merged = place_merged cfg ps tif session resolved\<rparr>"
      "active'' = active'"
    unfolding prepare_place_def by (auto simp: res_simps)
  then show thesis using that unfolding assess_write_def by (auto simp: res_simps)
qed

lemma prepare_combo_Inr:
  assumes "prepare_combo cfg w g ps acc active s = Inr (q, active')"
  obtains ls market where "combo_checks cfg w ps s = Inr ls"
    "resolve_trade_account cfg w ''REAL'' market acc True = Inr (write_account q)" "write_exposing q"
    "dict_get (write_merged q) ''acc_id'' PNone = PInt (write_account q)"
proof -
  from assms obtain ls market resolved merged where steps: "combo_checks cfg w ps s = Inr ls"
      "resolve_trade_account cfg w ''REAL'' market acc True = Inr resolved"
      "q = \<lparr>write_account = resolved, write_exposing = True, write_merged = merged\<rparr>"
      "merged = pick [''combo_legs'', ''price'', ''qty'', ''order_type'', ''time_in_force''] ps
               @ [(''trd_env'', PStr ''REAL''), (''acc_id'', PInt resolved), (''remark'', arg ps ''remark'')]"
    unfolding prepare_combo_def by (auto simp: res_simps)
  then show thesis using that [OF steps(1)] by (simp add: pick_def dict_get_def)
qed

lemma prepare_modify_Inr:
  assumes "prepare_modify cfg w g ps acc active s = (Inr (q, active'), t)"
  shows "check_write (policy cfg) ''REAL'' = ok" "resolve_trade_account cfg w ''REAL'' None acc True = Inr (write_account q)"
    "dict_get (write_merged q) ''acc_id'' PNone = PInt (write_account q)"
    "write_exposing q = (norm_text (py_str (arg ps ''modify_order_op'')) \<in> EXPOSING_MODIFY_OPS)"
  using assms unfolding prepare_modify_def Let_def
  by (auto simp: bindS_Inr res_simps merged_account split: if_split_asm)

lemma prepare_cancel_Inr:
  assumes "prepare_cancel cfg w ps acc active = Inr (q, active')"
  shows "check_write (policy cfg) ''REAL'' = ok" "resolve_trade_account cfg w ''REAL'' None acc True = Inr (write_account q)"
    "dict_get (write_merged q) ''acc_id'' PNone = PInt (write_account q)" "\<not> write_exposing q"
  using assms unfolding prepare_cancel_def by (auto simp: res_simps dict_get_def split: if_split_asm)

lemma check_write_real: "check_write p ''REAL'' = ok \<longleftrightarrow> mode p = REAL"
proof -
  have "norm_text ''REAL'' = ''REAL''" by code_simp
  then show ?thesis by (cases "mode p") (auto simp: check_write_def Let_def)
qed

lemma prepare_write_Inr:
  assumes "prepare_write cfg w g meth ps acc active s = (Inr (q, active'), t)"
  shows "mode (policy cfg) = REAL \<and> (\<exists>market. resolve_trade_account cfg w ''REAL'' market acc True = Inr (write_account q))
    \<and> dict_get (write_merged q) ''acc_id'' PNone = PInt (write_account q)"
    "write_exposing q \<longleftrightarrow> meth = ''place_order'' \<or> meth = ''place_combo_order''
       \<or> meth = ''modify_order'' \<and> norm_text (py_str (arg ps ''modify_order_op'')) \<in> EXPOSING_MODIFY_OPS"
proof -
  note eq = assms [unfolded prepare_write_def classified_Inr]
  have "(mode (policy cfg) = REAL \<and> (\<exists>market. resolve_trade_account cfg w ''REAL'' market acc True = Inr (write_account q))
    \<and> dict_get (write_merged q) ''acc_id'' PNone = PInt (write_account q))
    \<and> (write_exposing q \<longleftrightarrow> meth = ''place_order'' \<or> meth = ''place_combo_order''
       \<or> meth = ''modify_order'' \<and> norm_text (py_str (arg ps ''modify_order_op'')) \<in> EXPOSING_MODIFY_OPS)"
  proof (cases "meth = ''place_order''")
    case True
    with eq have "prepare_place cfg w g ps acc active s = Inr (q, active')" by auto
    then show ?thesis
      by (rule prepare_place_Inr) (use True check_write_real in \<open>auto simp: place_checks_def res_simps merged_account\<close>)
  next
    case np: False
    show ?thesis
    proof (cases "meth = ''place_combo_order''")
      case True
      with eq have "prepare_combo cfg w g ps acc active s = Inr (q, active')" by auto
      then show ?thesis
        by (rule prepare_combo_Inr) (use True check_write_real in \<open>auto simp: combo_checks_def res_simps\<close>)
    next
      case nc: False
      show ?thesis
      proof (cases "meth = ''modify_order''")
        case True
        with eq have "prepare_modify cfg w g ps acc active s = (Inr (q, active'), t)" by simp
        from prepare_modify_Inr [OF this] show ?thesis using True check_write_real by auto
      next
        case False
        with eq np nc have "prepare_cancel cfg w ps acc active = Inr (q, active')" by simp
        from prepare_cancel_Inr [OF this] show ?thesis using np nc False check_write_real by auto
      qed
    qed
  qed
  then show "mode (policy cfg) = REAL \<and> (\<exists>market. resolve_trade_account cfg w ''REAL'' market acc True = Inr (write_account q))
    \<and> dict_get (write_merged q) ''acc_id'' PNone = PInt (write_account q)"
    "write_exposing q \<longleftrightarrow> meth = ''place_order'' \<or> meth = ''place_combo_order''
       \<or> meth = ''modify_order'' \<and> norm_text (py_str (arg ps ''modify_order_op'')) \<in> EXPOSING_MODIFY_OPS"
    by blast+
qed

lemma exposing_method:
  assumes "real_kind meth ps = Inr k" "exposing_request k ps"
  shows "meth = ''place_order'' \<or> meth = ''place_combo_order''
     \<or> meth = ''modify_order'' \<and> norm_text (py_str (arg (fixed_request k' v acc ps) ''modify_order_op'')) \<in> EXPOSING_MODIFY_OPS"
proof (cases "meth = ''modify_order''")
  case True
  have "norm_text [] \<notin> EXPOSING_MODIFY_OPS" "''CANCEL'' \<notin> EXPOSING_MODIFY_OPS"
    by (simp_all add: EXPOSING_MODIFY_OPS_def norm_text_def strip_def upper_def)
  then show ?thesis
    using assms True unfolding fixed_request_get
    by (cases "map_of ps ''modify_order_op''")
      (auto simp: real_kind_def exposing_request_def dict_get_def split: if_split_asm)
next
  case False
  show ?thesis
    using assms False by (cases k) (simp_all add: real_kind_def exposing_request_def split: if_split_asm)
qed

text \<open>What a write that was sent had passed, in one step of preparation and admission.\<close>

lemma passed_checksD:
  assumes "passed_checks cfg w g meth ps acc active s q t"
  obtains s0 active1 s1 active2 s2 u0 u1 where "silent s s0" "controls_of (real s0) = controls_of (real s)"
    "prepare_write cfg w g meth ps acc active s0 = (Inr (q, active1), s1)" "silent s s1"
    "admit_write cfg w meth q active1 s1 = (Inr active2, s2)"
    "controls_of (real u0) = controls_of (real s2)" "real_confirm cfg w active2 u0 = (ok, u1)"
    "controls_of (real t) = controls_of (real u1)" "execution s1 = execution s"
proof -
  obtain s0 active1 s1 active2 s2 u0 u1 where steps: "silent s s0" "controls_of (real s0) = controls_of (real s)"
    "prepare_write cfg w g meth ps acc active s0 = (Inr (q, active1), s1)"
    "admit_write cfg w meth q active1 s1 = (Inr active2, s2)"
    "controls_of (real u0) = controls_of (real s2)" "real_confirm cfg w active2 u0 = (ok, u1)"
    "controls_of (real t) = controls_of (real u1)"
    using assms unfolding passed_checks_def by blast
  have "silent s s1" by (rule silent_trans [OF steps(1) silent_snd [OF silent_prepare steps(3)]])
  then show thesis using that steps by (auto simp: silent_def)
qed

text \<open>C4. A halted service adds no exposure. Even when a request passed every earlier check, because it was
  admitted before the halt began, its dispatch sends no write while execution is halted, unless it only reduces
  exposure.\<close>

theorem halted_service_adds_no_exposure:
  assumes "real_dispatch_phase cfg jit w g meth ps v k acc active s = (r, t)"
    and "halted (execution s)" "real_kind meth ps = Inr k" "exposing_request k ps"
  shows "calls (real t) = calls (real s) \<and> (\<exists>e. r = Inl e \<and> cause e = Exn OrderNotSentError (exn_tag (cause e)))"
  using assms(1)
proof (cases rule: real_dispatch_phase_cases)
  case (refused e)
  then show ?thesis by (simp add: quiet_def)
next
  case (sent q x s0 u m t0)
  obtain s0' active1 s1 active2 s2 where steps: "prepare_write cfg w g meth (fixed_request k v acc ps) acc active s0' = (Inr (q, active1), s1)"
      "admit_write cfg w meth q active1 s1 = (Inr active2, s2)" "execution s1 = execution s0"
    using sent(2) by (rule passed_checksD)
  have "write_exposing q" using prepare_write_Inr(2) [OF steps(1)] exposing_method [OF assms(3,4)] by blast
  then have "\<not> halted (execution s1)"
    using steps(2) by (auto simp: admit_write_def classified_Inr bindS_Inr check_execution_halt_def guardR_def split: if_split_asm)
  then show ?thesis using steps(3) sent(3) assms(2) by simp
qed

lemma resolved_account_allowed:
  assumes "resolve_trade_account cfg w ''REAL'' market n True = Inr a" "mode (policy cfg) = REAL"
  shows "a \<in> trading_policy.real_acc_ids (policy cfg) \<and> account_access_allowed (grants w) ''REAL'' (PInt a) True = Inr True"
proof -
  have real: "norm_text ''REAL'' = ''REAL''" by code_simp
  show ?thesis
    using assms
    by (auto simp: resolve_trade_account_def real Let_def res_simps allowlist_applies_def check_real_allowlist_def
        check_account_access_def eligible_trade_accounts_def eligible_for_def filter_eq_Cons_iff
        split: if_split_asm sum.splits list.splits)
qed

text \<open>What a call that sent a write has done: the admission it recorded, the request that passed, and the account both are
  for.\<close>

lemma real_execute_sent:
  assumes "real_execute cfg jit w g meth ps active s = (r, t)" "calls (real t) \<noteq> calls (real s)"
  obtains v k resolved u q s0 t0 where
    "calls (real t) = calls (real s) @ [(token_text (arg ps ''operation_id''), write_merged q)]"
    "passed_checks cfg w g meth (fixed_request k v resolved ps) resolved active s0 q t0"
    "controls_of (real t) = controls_of (real t0)" "dict_get (write_merged q) ''acc_id'' PNone = PInt (write_account q)"
    "int_text (write_account q) = int_text resolved" "mode (policy cfg) = REAL"
    "\<exists>market n. resolve_trade_account cfg w ''REAL'' market n True = Inr (write_account q)"
    "recorded_for (token_text (arg ps ''operation_id'')) (int_text resolved) (journal (real t))"
    "validate_token (arg ps ''operation_id'') (arg ps ''admission_epoch'') = ok"
  using assms(1)
proof (cases rule: real_execute_cases)
  case calm
  then show ?thesis using assms(2) by (simp add: calm_def steady_def quiet_def)
next
  case (dispatch v k resolved u)
  have u: "calls (real u) = calls (real s)" using dispatch(1) by (simp add: calm_def steady_def quiet_def)
  from dispatch(8) show ?thesis
  proof (cases rule: real_dispatch_phase_cases)
    case (refused e)
    then show ?thesis using assms(2) u by (simp add: quiet_def)
  next
    case (sent q x s0 p m t0)
    obtain s0' active1 s1 where prepared: "prepare_write cfg w g meth (fixed_request k v resolved ps) resolved active s0' = (Inr (q, active1), s1)"
      using sent(2) by (rule passed_checksD)
    note acc = prepare_write_Inr(1) [OF prepared]
    have "recorded_for (token_text (arg ps ''operation_id'')) (int_text resolved) (journal p)"
      using sent(6) dispatch(9) by (auto simp: quiet_def intro: recorded_for_calls)
    then have "recorded_for (token_text (arg ps ''operation_id'')) (int_text resolved) (journal m)"
      using sent(7) by (blast intro: recorded_for_step store_step.call call_step.intros(2))
    then have "recorded_for (token_text (arg ps ''operation_id'')) (int_text resolved) (journal (real t))"
      using sent(9) by (auto simp: kept_def quiet_def logged_def intro: recorded_for_calls)
    moreover have "calls (real t) = calls (real s) @ [(token_text (arg ps ''operation_id''), write_merged q)]"
      using sent(8,9) u dispatch(2) by (simp add: kept_def quiet_def logged_def)
    moreover have "int_text (write_account q) = int_text resolved"
      using sent(12) acc dispatch(3) by simp
    ultimately show ?thesis using that [OF _ sent(2)] acc sent(5) dispatch(10) by blast
  qed
qed

text \<open>C5. A REAL write is authorized. It happens only in REAL mode; it carries the account its operation is recorded for in
  the journal, which is the account that was resolved when the operation was admitted; that account is on the
  allowlist of the deployment, and the client that asked may write to it.\<close>

theorem real_write_is_authorized:
  assumes "real_execute cfg jit w g meth ps active s = (r, t)" "calls (real t) \<noteq> calls (real s)"
  shows "\<exists>merged n v. calls (real t) = calls (real s) @ [(token_text (arg ps ''operation_id''), merged)]
    \<and> dict_get merged ''acc_id'' PNone = PInt n
    \<and> row_of (db (journal (real t))) (token_text (arg ps ''operation_id'')) = Some v \<and> account (row v) = int_text n
    \<and> mode (policy cfg) = REAL \<and> n \<in> trading_policy.real_acc_ids (policy cfg)
    \<and> account_access_allowed (grants w) ''REAL'' (PInt n) True = Inr True"
proof -
  obtain v k resolved u q s0 t0 where q: "calls (real t) = calls (real s) @ [(token_text (arg ps ''operation_id''), write_merged q)]"
    "passed_checks cfg w g meth (fixed_request k v resolved ps) resolved active s0 q t0"
    "controls_of (real t) = controls_of (real t0)" "dict_get (write_merged q) ''acc_id'' PNone = PInt (write_account q)"
    "int_text (write_account q) = int_text resolved" "mode (policy cfg) = REAL"
    "\<exists>market n. resolve_trade_account cfg w ''REAL'' market n True = Inr (write_account q)"
    "recorded_for (token_text (arg ps ''operation_id'')) (int_text resolved) (journal (real t))"
    using assms by (rule real_execute_sent)
  have "write_account q \<in> trading_policy.real_acc_ids (policy cfg)
      \<and> account_access_allowed (grants w) ''REAL'' (PInt (write_account q)) True = Inr True"
    using q(6,7) resolved_account_allowed by blast
  moreover obtain v' where "row_of (db (journal (real t))) (token_text (arg ps ''operation_id'')) = Some v'"
      "account (row v') = int_text (write_account q)"
    using recorded_for_row [OF q(8)] q(5) by auto
  ultimately show ?thesis using q(1,4,6) by blast
qed

text \<open>C7. What a caller of a REAL mutation is told is the truth: an exception means that this call started no write,
  and after a write the caller gets a result whose state is the broker's reply, acknowledged or unknown, never
  refused. A result that is not the journal's is remembered, so that it blocks further orders.\<close>

theorem real_outcome_is_the_reply:
  assumes "real_execute cfg jit w g meth ps active s = (r, t)"
  shows "((\<exists>e. r = Inl e) \<longrightarrow> calls (real t) = calls (real s))
    \<and> (calls (real t) \<noteq> calls (real s) \<longrightarrow> (\<exists>x. r = Inr x \<and> answer_state x = reply_state (reply w)
      \<and> (\<forall>l. x = Unrecorded l \<longrightarrow> token_text (arg ps ''operation_id'') \<in> fst ` set (late_failure (real t)))))"
  using assms
proof (cases rule: real_execute_cases)
  case calm
  then show ?thesis by (simp add: calm_def steady_def quiet_def)
next
  case (dispatch v k resolved u)
  have u: "calls (real u) = calls (real s)" using dispatch(1) by (simp add: calm_def steady_def quiet_def)
  from dispatch(8) show ?thesis
    by (cases rule: real_dispatch_phase_cases) (use u dispatch(2) in \<open>auto simp: quiet_def\<close>)
qed

text \<open>Preparation keeps the operation the charge is made for.\<close>

lemma assess_write_same: "assess_write cfg a f = Inr b \<Longrightarrow> same_operation a b"
  by (auto simp: assess_write_def res_simps dest: assess_same)

lemma same_operation_refl [simp]: "same_operation a a"
  by (simp add: same_operation_def)

lemma prepare_write_same:
  assumes "prepare_write cfg w g meth ps acc a s = (Inr (q, b), t)"
  shows "same_operation a b"
proof -
  have "prepare_place cfg w g ps acc a s = Inr (q, b) \<or> prepare_combo cfg w g ps acc a s = Inr (q, b)
    \<or> prepare_modify cfg w g ps acc a s = (Inr (q, b), t) \<or> prepare_cancel cfg w ps acc a = Inr (q, b)"
    using assms by (auto simp: prepare_write_def classified_Inr split: if_split_asm)
  moreover have "assess_modification cfg g x y a existing = Inr b \<Longrightarrow> same_operation a b" for x y existing
    by (auto simp: assess_modification_def Let_def res_simps dest: assess_write_same)
  ultimately show ?thesis
    by (auto simp: prepare_place_def prepare_combo_def prepare_modify_def prepare_cancel_def bindS_Inr res_simps Let_def
        split: if_split_asm dest: assess_write_same)
qed

text \<open>A charge is made for the account of the request that is sent.\<close>

lemma sent_was_charged:
  assumes "passed_checks cfg w g meth ps acc active s q t" "controlled (policy cfg)"
  obtains a c x where "active = Some a" "controls_of (real t) = Some c" "charged_for a (write_account q) ''REAL'' c x"
proof -
  obtain s0' a1 s1 a2 s2 u0 u1 where steps: "prepare_write cfg w g meth ps acc active s0' = (Inr (q, a1), s1)"
      "admit_write cfg w meth q a1 s1 = (Inr a2, s2)" "controls_of (real u0) = controls_of (real s2)"
      "real_confirm cfg w a2 u0 = (ok, u1)" "controls_of (real t) = controls_of (real u1)"
    using assms(1) by (rule passed_checksD)
  obtain sA where "real_charge cfg w (write_account q) a1 sA = (Inr a2, s2)"
    using steps(2) by (auto simp: admit_write_def classified_Inr bindS_Inr)
  then have "check_dispatch_controls (sessions cfg) (float_decimal cfg) (policy cfg) (io w ''charge'') (controls_of (real sA)) a1
      (write_account q) ''REAL'' (clock w ''charge'') (clock w ''approval'') = (Inr a2, controls_of (real s2))"
    by (auto simp: real_charge_def split: prod.splits)
  then obtain b c y where b: "a1 = Some b" "controls_of (real s2) = Some c" "charged_for b (write_account q) ''REAL'' c y"
    using check_dispatch_controls_charged assms(2) by metis
  have "confirm_dispatch_controls (sessions cfg) (policy cfg) (io w ''confirm'') (Some c) a2 (clock w ''confirm'')
      (clock w ''confirm approval'') = (ok, controls_of (real u1))"
    using steps(3,4) b(2) by (auto simp: real_confirm_def split: prod.splits)
  then obtain c' where c': "controls_of (real u1) = Some c'" "tables c' = tables c"
    by (rule confirm_dispatch_controls_tables)
  obtain a where "active = Some a" "active_parameters a = active_parameters b" "active_approval a = active_approval b"
    using prepare_write_same [OF steps(1)] b(1) by (auto simp: same_operation_def)
  moreover from this have "charged_for a (write_account q) ''REAL'' c' y" using b(3) c'(2) by (simp add: charged_for_def)
  ultimately show thesis using that c'(1) steps(5) by simp
qed

lemma validated_operation_text:
  assumes "validate_token oid ep = ok" "sql_text oid = Some t"
  shows "t = token_text oid"
  using assms by (cases oid) (auto simp: validate_token_def validate_identity_token_def token_text_def res_simps)

text \<open>C8. Under a policy with approvals or daily budgets, a REAL write is sent only after it has been charged: the controls
  then hold a durable charge in REAL of the operation that is sent, on the account that the sent request carries,
  under the approval that was given with the request.\<close>

theorem real_write_is_charged:
  assumes "journal_real_mutation cfg jit w g meth ps approval None (Some s) = (r, Some t)"
    and "calls (real t) \<noteq> calls (real s)" "controlled (policy cfg)"
  shows "\<exists>oid merged n c x. calls (real t) = calls (real s) @ [(oid, merged)] \<and> dict_get merged ''acc_id'' PNone = PInt n
    \<and> controls_of (real t) = Some c \<and> x \<in> set (charges (tables c)) \<and> charge_env x = ''REAL''
    \<and> charge_operation x = oid \<and> charge_account x = int_text n \<and> charge_approval x = approval"
proof -
  let ?a = "\<lparr>active_method = meth, active_parameters = ps, active_approval = approval,
       active_contract = PNone, active_valuation = None, reserved_parameters = None\<rparr>"
  obtain r' where run: "real_execute cfg jit w g meth ps (Some ?a) s = (r', t)"
    using assms(1,2) by (auto simp: journal_real_mutation_def open_mutation_def split: sum.splits prod.splits)
  obtain v k resolved q s0 t0 where q: "calls (real t) = calls (real s) @ [(token_text (arg ps ''operation_id''), write_merged q)]"
    "passed_checks cfg w g meth (fixed_request k v resolved ps) resolved (Some ?a) s0 q t0"
    "controls_of (real t) = controls_of (real t0)" "dict_get (write_merged q) ''acc_id'' PNone = PInt (write_account q)"
    "validate_token (arg ps ''operation_id'') (arg ps ''admission_epoch'') = ok"
    using run assms(2) by (rule real_execute_sent)
  obtain a c x where x: "Some ?a = Some a" "controls_of (real t0) = Some c" "charged_for a (write_account q) ''REAL'' c x"
    using q(2) assms(3) by (rule sent_was_charged)
  have "charge_operation x = token_text (arg ps ''operation_id'')"
    using validated_operation_text [OF q(5)] x(1,3) by (auto simp: charged_for_def)
  then show ?thesis using q(1,3,4) x by (auto simp: charged_for_def)
qed

lemma place_merged_args:
  "arg (place_merged cfg ps tif session acc) ''code'' = arg ps ''code''"
  "arg (place_merged cfg ps tif session acc) ''price'' = arg ps ''price''"
  "arg (place_merged cfg ps tif session acc) ''qty'' = arg ps ''qty''"
  "arg (place_merged cfg ps tif session acc) ''trd_side'' = arg ps ''trd_side''"
  "arg (place_merged cfg ps tif session acc) ''order_type'' = arg ps ''order_type''"
  "arg (place_merged cfg ps tif session acc) ''aux_price'' = arg ps ''aux_price''"
  by (simp_all add: place_merged_def pick_def dict_get_def)

lemma fixed_request_args:
  "x \<notin> {''remark'', ''acc_id'', ''trd_env''} \<Longrightarrow> arg (fixed_request k v acc ps) x = arg ps x"
  by (simp add: fixed_request_def Let_def dict_get_put)

lemma assessed_order: "assess_control_facts R D p a f = Inr b \<Longrightarrow> assess_order p f = ok"
  by (auto simp: assess_control_facts_def res_simps)

text \<open>The facts that a request to the broker stands for. A placement has one leg, of the instrument it names; a combination
  has the legs it names; a modification is the order it results in: the one order of the broker with its identifier,
  with the quantity and price of the modification.\<close>

definition one_leg_of :: "gateway_world \<Rightarrow> string \<Rightarrow> order_facts \<Rightarrow> bool" where
  "one_leg_of g c f \<longleftrightarrow> \<not> is_combo f
     \<and> (\<exists>i. lookup_facts g [c] = Inr [i] \<and> code i = c \<and> legs f = [\<lparr>instrument = i, qty_ratio = 1\<rparr>])"

definition placed_facts :: "gateway_world \<Rightarrow> pydict \<Rightarrow> order_facts \<Rightarrow> bool" where
  "placed_facts g merged f \<longleftrightarrow> one_leg_of g (py_str (arg merged ''code'')) f
     \<and> order_type f = py_str (arg merged ''order_type'') \<and> trd_side f = py_str (arg merged ''trd_side'')
     \<and> whole_quantity (arg merged ''qty'') = Inr (qty f) \<and> price_number (arg merged ''price'') = Inr (price f)
     \<and> optional_price (arg merged ''aux_price'') = Inr (aux_price f)"

definition combined_facts :: "pydict \<Rightarrow> order_facts \<Rightarrow> bool" where
  "combined_facts merged f \<longleftrightarrow> is_combo f \<and> order_type f = py_str (arg merged ''order_type'')
     \<and> arg merged ''qty'' = PInt (qty f) \<and> optional_price (arg merged ''price'') = Inr (price f)
     \<and> (\<exists>ls. build_combo_legs (arg merged ''combo_legs'') = Inr ls
          \<and> map (\<lambda>l. (code (instrument l), qty_ratio l)) (legs f) = map (\<lambda>l. (leg_code l, leg_ratio l)) ls)"

definition modified_facts :: "gateway_world \<Rightarrow> pydict \<Rightarrow> order_facts \<Rightarrow> bool" where
  "modified_facts g merged f \<longleftrightarrow> (\<exists>rows target. order_rows g = Inr (Some rows)
     \<and> filter (\<lambda>d. py_str (arg d ''order_id'') = py_str (arg merged ''order_id'')) rows = [target]
     \<and> one_leg_of g (py_str (arg target ''code'')) f
     \<and> order_type f = py_str (py_or (arg target ''order_type'') (PStr ''NORMAL''))
     \<and> trd_side f = py_str (py_or (arg target ''trd_side'') (PStr []))
     \<and> whole_quantity (arg merged ''qty'') = Inr (qty f) \<and> optional_price (arg merged ''price'') = Inr (price f))"

definition facts_of_request :: "gateway_world \<Rightarrow> string \<Rightarrow> pydict \<Rightarrow> order_facts \<Rightarrow> bool" where
  "facts_of_request g meth merged f =
     (if meth = ''place_order'' then placed_facts g merged f
      else if meth = ''place_combo_order'' then combined_facts merged f
      else modified_facts g merged f)"

lemma single_leg_factsD:
  assumes "single_leg_facts S g c ot side q p aux session = Inr f"
  shows "one_leg_of g c f" "order_type f = ot" "trd_side f = side" "whole_quantity q = Inr (qty f)"
    "price_number p = Inr (price f)" "optional_price aux = Inr (aux_price f)"
proof -
  obtain i where i: "lookup_facts g [c] = Inr [i]"
    using assms
    by (cases "lookup_facts g [c]") (simp_all add: single_leg_facts_def split: list.split_asm)
  show "one_leg_of g c f" "order_type f = ot" "trd_side f = side" "whole_quantity q = Inr (qty f)"
    "price_number p = Inr (price f)" "optional_price aux = Inr (aux_price f)"
    using assms by (auto simp: single_leg_facts_def one_leg_of_def i res_simps split: if_split_asm)
qed

lemma whole_quantity_int: "whole_quantity (PInt n) = Inr m \<Longrightarrow> m = n"
  by (auto simp: whole_quantity_def number_argument_def res_simps dec_of_int_def pow10_def split: if_split_asm)

lemma leg_facts_ofD: "leg_facts_of found l = Inr x \<Longrightarrow> code (instrument x) = leg_code l \<and> qty_ratio x = leg_ratio l"
  by (auto simp: leg_facts_of_def find_Some_iff split: option.splits)

lemma combo_factsD:
  assumes "combo_facts p g ls v n ot = Inr f"
  shows "is_combo f" "order_type f = ot" "qty f = n" "optional_price v = Inr (price f)"
    "map (\<lambda>l. (code (instrument l), qty_ratio l)) (legs f) = map (\<lambda>l. (leg_code l, leg_ratio l)) ls"
proof -
  have "map (\<lambda>l. (code (instrument l), qty_ratio l)) xs = map (\<lambda>l. (leg_code l, leg_ratio l)) ls"
    if "mapR (leg_facts_of found) ls = Inr xs" for found xs
    using that by (auto simp: res_simps list_all2_conv_all_nth intro!: nth_equalityI dest!: leg_facts_ofD)
  then show "is_combo f" "order_type f = ot" "qty f = n" "optional_price v = Inr (price f)"
    "map (\<lambda>l. (code (instrument l), qty_ratio l)) (legs f) = map (\<lambda>l. (leg_code l, leg_ratio l)) ls"
    using assms by (auto simp: combo_facts_def bindR_Inr_iff unknown_instrument_def o_def split: if_split_asm)
qed

lemma prepare_place_assessed:
  assumes "prepare_place cfg w g ps acc active s = Inr (q, active')"
  shows "\<exists>f. placed_facts g (write_merged q) f \<and> assess_order (policy cfg) f = ok"
proof -
  obtain tif session facts where p: "write_merged q = place_merged cfg ps tif session (write_account q)"
      "single_leg_facts (sessions cfg) g (py_str (arg ps ''code'')) (py_str (arg ps ''order_type'')) (py_str (arg ps ''trd_side''))
         (arg ps ''qty'') (arg ps ''price'') (arg ps ''aux_price'') session = Inr facts"
      "assess_control_facts (float_repr cfg) (float_decimal cfg) (policy cfg) active facts = Inr active'"
    using assms by (rule prepare_place_Inr)
  have "placed_facts g (write_merged q) facts"
    using single_leg_factsD [OF p(2)] by (simp add: placed_facts_def p(1) place_merged_args)
  then show ?thesis using assessed_order [OF p(3)] by blast
qed

lemma prepare_combo_assessed:
  assumes "prepare_combo cfg w g ps acc active s = Inr (q, active')"
  shows "\<exists>f. combined_facts (write_merged q) f \<and> assess_order (policy cfg) f = ok"
proof -
  obtain ls n f resolved where ls: "build_combo_legs (arg ps ''combo_legs'') = Inr ls" and n: "package_count (arg ps ''qty'') = Inr n"
    and f: "combo_facts (policy cfg) g ls (arg ps ''price'') n (py_str (arg ps ''order_type'')) = Inr f"
    and a: "assess_control_facts (float_repr cfg) (float_decimal cfg) (policy cfg) active f = Inr active'"
    and q: "write_merged q = pick [''combo_legs'', ''price'', ''qty'', ''order_type'', ''time_in_force''] ps
               @ [(''trd_env'', PStr ''REAL''), (''acc_id'', PInt resolved), (''remark'', arg ps ''remark'')]"
    using assms by (auto simp: prepare_combo_def combo_checks_def assess_write_def bindR_Inr_iff guardR_Inr_iff split: if_split_asm)
  have "arg ps ''qty'' = PInt n" using n by (cases "arg ps ''qty''") simp_all
  then have "combined_facts (write_merged q) f"
    using combo_factsD [OF f] ls by (simp add: combined_facts_def q pick_def dict_get_def)
  then show ?thesis using assessed_order [OF a] by blast
qed

lemma prepare_modify_assessed:
  assumes "prepare_modify cfg w g ps acc active s = (Inr (q, active'), t)" "write_exposing q"
  shows "\<exists>f. modified_facts g (write_merged q) f \<and> assess_order (policy cfg) f = ok"
proof -
  obtain target s0 s1 where fetch: "fetch_order w g (arg ps ''order_id'') s0 = (Inr target, s1)"
    and a: "assess_modification cfg g (none_or (arg ps ''qty'') (arg target ''qty'')) (none_or (arg ps ''price'') (arg target ''price''))
        active target = Inr active'"
    and q: "write_merged q = modify_merged (norm_text (py_str (arg ps ''modify_order_op''))) ps (write_account q)
        (none_or (arg ps ''qty'') (arg target ''qty'')) (none_or (arg ps ''price'') (arg target ''price''))"
    using assms by (auto simp: prepare_modify_def Let_def bindS_Inr bindR_Inr_iff split: if_split_asm)
  obtain rows where rows: "order_rows g = Inr (Some rows)"
      "filter (\<lambda>d. py_str (arg d ''order_id'') = py_str (arg ps ''order_id'')) rows = [target]"
    using fetch by (auto simp: fetch_order_def bindS_Inr split: sum.splits option.splits list.splits)
  let ?q = "none_or (arg ps ''qty'') (arg target ''qty'')" and ?p = "none_or (arg ps ''price'') (arg target ''price'')"
  obtain n aux number f where n: "whole_quantity ?q = Inr n" and number: "optional_price ?p = Inr number"
    and f: "single_leg_facts (sessions cfg) g (py_str (arg target ''code'')) (py_str (py_or (arg target ''order_type'') (PStr ''NORMAL'')))
         (py_str (py_or (arg target ''trd_side'') (PStr []))) (PInt n)
         (case number of None \<Rightarrow> PNone | Some f \<Rightarrow> PFloat f (float_repr cfg f)) aux (session_none (sessions cfg)) = Inr f"
    and ok: "assess_control_facts (float_repr cfg) (float_decimal cfg) (policy cfg) active f = Inr active'"
    using a by (auto simp: assess_modification_def Let_def assess_write_def bindR_Inr_iff)
  note facts = single_leg_factsD [OF f]
  have "qty f = n" "price f = number"
    using facts(4,5) by (auto simp: res_simps dest: whole_quantity_int split: option.splits)
  then have "modified_facts g (write_merged q) f"
    using rows facts(1-3) n number by (simp add: modified_facts_def q modify_merged_def dict_get_def)
  then show ?thesis using assessed_order [OF ok] by blast
qed

lemma prepare_write_assessed:
  assumes "prepare_write cfg w g meth ps acc active s = (Inr (q, active'), t)" "write_exposing q"
  shows "\<exists>f. facts_of_request g meth (write_merged q) f \<and> assess_order (policy cfg) f = ok"
proof -
  note eq = assms(1) [unfolded prepare_write_def classified_Inr]
  consider "meth = ''place_order''" | "meth = ''place_combo_order''" | "meth = ''modify_order''"
    using prepare_write_Inr(2) [OF assms(1)] assms(2) by blast
  then show ?thesis
  proof cases
    case 1
    then show ?thesis using eq prepare_place_assessed [of cfg w g ps acc active s q active'] by (auto simp: facts_of_request_def)
  next
    case 2
    then show ?thesis using eq prepare_combo_assessed [of cfg w g ps acc active s q active'] by (auto simp: facts_of_request_def)
  next
    case 3
    then show ?thesis
      using eq prepare_modify_assessed [of cfg w g ps acc active s q active' t] assms(2) by (auto simp: facts_of_request_def)
  qed
qed


subsection \<open>A sample call\<close>

text \<open>A REAL cancellation for account 7 by a server that stores the credential, under a policy with a daily budget,
  on a reviewed journal; the gateway accepts the unlock and the lock. Its result and the state it leaves are the
  concrete values of the witnesses.\<close>

definition sample_real_store :: store where
  "sample_real_store = projr (open_store ''REAL'' True 5000 False True ''e1'' no_file)"

definition sample_real_config :: config where
  "sample_real_config = sample_config\<lparr>policy := \<lparr>mode = REAL, max_order_qty = None, max_order_notional = [], real_acc_ids = {7},
     symbol_allowlist = {}, max_daily_notional = [(''USD'', Fin 500)], require_approval = False\<rparr>\<rparr>"

definition sample_gateway :: gateway_world where
  "sample_gateway = \<lparr>order_rows = Inr (Some []), instruments = Some (\<lambda>_. Inr [sample_stock]),
     unlock_reply = ok, lock_reply = ok, halt_time = ''t''\<rparr>"

definition sample_cancel :: pydict where
  "sample_cancel = [(''order_id'', PStr ''55''), (''trd_env'', PStr ''REAL''), (''acc_id'', PStr ''7''), (''operation_id'', PStr ''op1''),
     (''admission_epoch'', PStr ''e1'')]"

definition sample_real_active :: active_operation where
  "sample_real_active = sample_active\<lparr>active_parameters := sample_cancel\<rparr>"

definition sample_service :: service where
  "sample_service = \<lparr>real = sample_paper\<lparr>journal := snd (review True True sample_real_store)\<rparr>, execution = armed,
     active_real = None, gateway = []\<rparr>"

definition sample_real_call :: "service \<Rightarrow> real_answer outcome \<times> service" where
  "sample_real_call s = real_execute sample_real_config True sample_world sample_gateway ''cancel_order'' sample_cancel
     (Some sample_real_active) s"

lemma sample_real_made:
  "case sample_real_call sample_service of (r, t) \<Rightarrow> \<not> isl r \<and> map fst (calls (real t)) = [''op1'']"
  by code_simp

lemma sample_real_call_obtain:
  obtains x t where "real_execute sample_real_config True sample_world sample_gateway ''cancel_order'' sample_cancel
     (Some sample_real_active) sample_service = (Inr x, t)" "calls (real t) \<noteq> calls (real sample_service)" "map fst (calls (real t)) = [''op1'']"
proof -
  obtain r t where rt: "sample_real_call sample_service = (r, t)" by fastforce
  obtain x where "r = Inr x" using sample_real_made rt by (cases r) auto
  moreover have made: "map fst (calls (real t)) = [''op1'']" using sample_real_made rt by simp
  moreover from made have "calls (real t) \<noteq> calls (real sample_service)" by (auto simp: sample_service_def sample_paper_def)
  ultimately show thesis using that rt by (simp add: sample_real_call_def)
qed

lemma sample_real_runs:
  "service_start (sample_service\<lparr>real := (real sample_service)\<lparr>journal := sample_real_store\<rparr>\<rparr>)"
  "service_step (sample_service\<lparr>real := (real sample_service)\<lparr>journal := sample_real_store\<rparr>\<rparr>) sample_service"
  "serve_step sample_real_config True s (snd (sample_real_call s))" "process_start sample_service"
proof -
  have "store_start sample_real_store"
    unfolding store_start_def
    by (rule exI [of _ "''REAL''"], rule exI [of _ True], rule exI [of _ 5000], rule exI [of _ False],
        rule exI [of _ True], rule exI [of _ "''e1''"], rule exI [of _ no_file])
      (simp add: sample_real_store_def open_store_def no_file_def empty_journal_def)
  then show "service_start (sample_service\<lparr>real := (real sample_service)\<lparr>journal := sample_real_store\<rparr>\<rparr>)"
    by (simp add: service_start_def paper_start_def sample_service_def sample_paper_def)
  let ?s = "sample_service\<lparr>real := (real sample_service)\<lparr>journal := sample_real_store\<rparr>\<rparr>"
  have "call_step sample_real_store (snd (review True True sample_real_store))"
    by (rule call_step.intros(6) [where writable = True and io = True]) (rule prod.collapse [symmetric])
  then have "serve_step sample_real_config True ?s (?s\<lparr>real := (real ?s)\<lparr>journal := snd (review True True sample_real_store)\<rparr>\<rparr>)"
    by (intro serve_step.journal) (simp add: sample_service_def)
  then show "service_step ?s sample_service"
    by (intro service_step.serve [of sample_real_config True]) (simp add: sample_service_def)
  show "serve_step sample_real_config True s (snd (sample_real_call s))"
    unfolding sample_real_call_def by (rule serve_step.execution) (rule prod.collapse [symmetric])
  show "process_start sample_service" by (simp add: process_start_def sample_service_def)
qed

theorem one_real_write_per_operation_witness:
  "distinct (map fst (calls (real (snd (sample_real_call (snd (sample_real_call sample_service)))))))"
  by (rule one_real_write_per_operation [OF sample_real_runs(1)])
    (rule rtranclp.rtrancl_into_rtrancl [OF rtranclp.rtrancl_into_rtrancl [OF r_into_rtranclp [of service_step, OF sample_real_runs(2)]
        service_step.serve [OF sample_real_runs(3)]] service_step.serve [OF sample_real_runs(3)]])

theorem gateway_closed_or_halted_witness:
  "windowed (gateway (snd (sample_real_call sample_service)))"
  using gateway_closed_or_halted [OF sample_real_runs(4) r_into_rtranclp [of "serve_step sample_real_config True", OF sample_real_runs(3)]]
  by simp

theorem real_write_is_authorized_witness:
  "\<exists>merged n. calls (real (snd (sample_real_call sample_service))) = [(''op1'', merged)] \<and> dict_get merged ''acc_id'' PNone = PInt n
     \<and> n \<in> trading_policy.real_acc_ids (policy sample_real_config)"
proof -
  obtain x t where xt: "real_execute sample_real_config True sample_world sample_gateway ''cancel_order'' sample_cancel
     (Some sample_real_active) sample_service = (Inr x, t)" "calls (real t) \<noteq> calls (real sample_service)"
    using sample_real_call_obtain by metis
  have "token_text (arg sample_cancel ''operation_id'') = ''op1''" by code_simp
  with real_write_is_authorized [OF xt] xt(1) show ?thesis
    by (auto simp: sample_real_call_def sample_service_def sample_paper_def)
qed

theorem real_outcome_is_the_reply_witness:
  "\<exists>x. fst (sample_real_call sample_service) = Inr x \<and> answer_state x = ACKNOWLEDGED"
proof -
  obtain x t where xt: "real_execute sample_real_config True sample_world sample_gateway ''cancel_order'' sample_cancel
     (Some sample_real_active) sample_service = (Inr x, t)" "calls (real t) \<noteq> calls (real sample_service)"
    using sample_real_call_obtain by metis
  from real_outcome_is_the_reply [OF xt(1)] xt show ?thesis by (simp add: sample_real_call_def sample_world_def)
qed

theorem real_write_is_charged_witness:
  "\<exists>t merged c x. journal_real_mutation sample_real_config True sample_world sample_gateway ''cancel_order'' sample_cancel None None
       (Some sample_service) = (fst (sample_real_call sample_service), Some t) \<and> calls (real t) = [(''op1'', merged)]
     \<and> controls_of (real t) = Some c \<and> x \<in> set (charges (tables c)) \<and> charge_operation x = ''op1''"
proof -
  obtain x t where xt: "real_execute sample_real_config True sample_world sample_gateway ''cancel_order'' sample_cancel
     (Some sample_real_active) sample_service = (Inr x, t)" "calls (real t) \<noteq> calls (real sample_service)"
    "map fst (calls (real t)) = [''op1'']"
    using sample_real_call_obtain by metis
  have opened: "open_mutation ''cancel_order'' sample_cancel None None = Some sample_real_active"
    by (simp add: open_mutation_def sample_real_active_def sample_active_def)
  have "check_write (policy sample_real_config) ''REAL'' = ok" by code_simp
  then have run: "journal_real_mutation sample_real_config True sample_world sample_gateway ''cancel_order'' sample_cancel None None
      (Some sample_service) = (Inr x, Some t)"
    using xt(1) by (simp add: journal_real_mutation_def opened not_sent_def guardR_def)
  have "controlled (policy sample_real_config)" by (simp add: sample_real_config_def controlled_def)
  from real_write_is_charged [OF run xt(2) this] run xt(1,3) show ?thesis
    by (force simp: sample_real_call_def sample_service_def sample_paper_def)
qed

text \<open>A halted service: a lock request ends the halt, a dispatch of an earlier admission sends nothing.\<close>

definition sample_halted :: service where
  "sample_halted = sample_service\<lparr>execution := record_relock_failure ''t'' ''refused'' armed\<rparr>"

theorem halt_ends_only_by_lock_witness:
  "\<exists>w g. lock_trade w g sample_halted = (Inr True, snd (lock_trade sample_world sample_gateway sample_halted))"
proof -
  have "serve_step sample_real_config True sample_halted (snd (lock_trade sample_world sample_gateway sample_halted))"
    by (rule serve_step.locking) (rule prod.collapse [symmetric])
  moreover have "halted (execution sample_halted)" by (simp add: sample_halted_def)
  moreover have "\<not> halted (execution (snd (lock_trade sample_world sample_gateway sample_halted)))"
    by (simp add: lock_trade_def sample_world_def sample_gateway_def lock_gateway_def record_lock_result_def halted_def)
  ultimately show ?thesis using halt_ends_only_by_lock by blast
qed

definition sample_place :: pydict where
  "sample_place = [(''code'', PStr ''US.AAPL''), (''price'', PFloat (Fin 10) ''10.0''), (''qty'', PInt 1), (''trd_side'', PStr ''BUY''),
     (''order_type'', PStr ''NORMAL''), (''time_in_force'', PStr ''DAY''), (''adjust_limit'', PInt 0), (''aux_price'', PNone),
     (''trail_type'', PNone), (''trail_value'', PNone), (''trail_spread'', PNone), (''trd_env'', PStr ''REAL''),
     (''acc_id'', PStr ''7''), (''remark'', PStr []), (''operation_id'', PStr ''op1''), (''admission_epoch'', PStr ''e1''),
     (''session'', PStr ''N/A'')]"

definition sample_placing :: service where
  "sample_placing = sample_service\<lparr>real := (real sample_service)\<lparr>journal :=
     snd (admit (\<lambda>t. t) True (journal (real sample_service)) ''op1'' ''e1'' 7 PLACE ''c'' [] ''tag1'' 100)\<rparr>\<rparr>"

definition sample_placed_row :: row_view where
  "sample_placed_row = \<lparr>row = sample_row, accounted_facts = None, recovery_pending = False, recovery_checks = []\<rparr>"

definition sample_place_config :: config where
  "sample_place_config = sample_config\<lparr>policy := \<lparr>mode = REAL, max_order_qty = Some (Fin 100), max_order_notional = [],
     real_acc_ids = {7}, symbol_allowlist = {}, max_daily_notional = [], require_approval = False\<rparr>\<rparr>"

definition sample_real_placement :: "real_answer outcome \<times> service" where
  "sample_real_placement = real_dispatch_phase sample_place_config True sample_world sample_gateway ''place_order'' sample_place
     sample_placed_row PLACE 7 None sample_placing"

theorem halted_service_adds_no_exposure_witness:
  "calls (real (snd (real_dispatch_phase sample_place_config True sample_world sample_gateway ''place_order'' sample_place
     sample_placed_row PLACE 7 None (sample_placing\<lparr>execution := execution sample_halted\<rparr>)))) = []"
proof -
  let ?s = "sample_placing\<lparr>execution := execution sample_halted\<rparr>"
  have "halted (execution ?s)" "real_kind ''place_order'' sample_place = Inr PLACE" "exposing_request PLACE sample_place"
    by (simp_all add: sample_halted_def real_kind_def exposing_request_def)
  from halted_service_adds_no_exposure [OF prod.collapse [symmetric] this] show ?thesis
    by (simp add: sample_placing_def sample_service_def sample_paper_def)
qed

lemma sample_real_placement_made: "map fst (calls (real (snd sample_real_placement))) = [''op1'']"
  by code_simp


end
