(* ===== verification/Real_Recovery.thy ===== *)
theory Real_Recovery
  imports Recovery_Runs Real_Runs
begin

text \<open>
  \<open>services/real_recovery.py\<close>: the read-only recovery of a REAL operation, and the construction of \<open>RealExecution\<close>,
  which settles admissions that were never dispatched. The observations and their correlation are those of the
  paper worker in the REAL environment; the accounting also reads combinations, and an order that is not found
  proves nothing. The dates of the history query are not modelled.
\<close>

subsection \<open>Legs\<close>

definition CHECK_INTERVAL :: rat where
  "CHECK_INTERVAL = 30"

abbreviation placements :: "op_kind set" where
  "placements \<equiv> {PLACE, PLACE_COMBO}"

record leg_identity =
  identity_code :: string
  identity_side :: string
  identity_ratio :: string
  identity_position :: "string option"

fun position_identity :: "pyval \<Rightarrow> string option res" where
  "position_identity PNone = Inr None"
| "position_identity (PInt n) = Inr (Some (int_text n))"
| "position_identity (PStr s) =
     (if isdecimal (strip s) then bindR (int_of_text (strip s)) (\<lambda>n. Inr (Some (int_text n)))
      else raise ValueError ''combo position identity'')"
| "position_identity v = raise ValueError ''combo position identity''"

definition leg_evidence :: "pyval \<Rightarrow> leg_identity res" where
  "leg_evidence v = (case v of
     PDict d _ \<Rightarrow> (case dict_get d ''code'' PNone of
       PStr c \<Rightarrow>
         if strip c = [] then raise ValueError ''combo leg evidence''
         else bindR (evidence_number (dict_get d ''qty_ratio'' PNone)) (\<lambda>ratio.
           case dict_get d ''trd_side'' PNone of
             PStr side \<Rightarrow>
               if norm_text side \<notin> {''BUY'', ''SELL''} \<or> dec_val ratio \<le> 0 \<or> dec_val ratio \<noteq> of_int \<lfloor>dec_val ratio\<rfloor>
               then raise ValueError ''combo leg evidence''
               else bindR (position_identity (dict_get d ''position_id'' PNone)) (\<lambda>position.
                 Inr \<lparr>identity_code = strip c, identity_side = norm_text side,
                   identity_ratio = int_text \<lfloor>dec_val ratio\<rfloor>, identity_position = position\<rparr>)
           | _ \<Rightarrow> raise ValueError ''combo leg evidence'')
     | _ \<Rightarrow> raise ValueError ''combo leg evidence'')
   | _ \<Rightarrow> raise ValueError ''combo leg evidence'')"

text \<open>\<open>_leg_identity\<close>, and the legs an order shows.\<close>

definition leg_identities :: "pyval \<Rightarrow> leg_identity list res" where
  "leg_identities v = (case v of
     PList l _ \<Rightarrow> if l = [] then raise ValueError ''Missing REAL combo leg evidence'' else mapR leg_evidence l
   | _ \<Rightarrow> raise ValueError ''Missing REAL combo leg evidence'')"

definition shown_legs :: "pydict \<Rightarrow> pyval" where
  "shown_legs d = dict_get d ''combo_legs'' (dict_get d ''combo_leg_list'' PNone)"

definition same_legs :: "pyval \<Rightarrow> pyval \<Rightarrow> bool res" where
  "same_legs a b = bindR (leg_identities a) (\<lambda>x. bindR (leg_identities b) (\<lambda>y. Inr (x = y)))"

subsection \<open>Positions\<close>

text \<open>\<open>_positions\<close>: the position in each code, in the order of first mention.\<close>

definition position_of :: "recovery_world \<Rightarrow> operation \<Rightarrow> string \<Rightarrow> (string \<times> pyval) res" where
  "position_of rw r c =
     bindR (int_of_text (account r)) (\<lambda>_.
     bindR (positions_of rw c) (\<lambda>v. case v of
       PList vs _ \<Rightarrow> bindR (position_total ''REAL'' r (PStr c) (Dec False 0 0) vs) (\<lambda>q. Inr (c, PStr (dec_text q)))
     | _ \<Rightarrow> raise ValueError ''Malformed position query''))"

definition real_positions :: "recovery_world \<Rightarrow> operation \<Rightarrow> string list \<Rightarrow> pydict res" where
  "real_positions rw r cs = mapR (position_of rw r) (rev (remdups (rev cs)))"

subsection \<open>Accounting\<close>

text \<open>One observation against the first.\<close>

definition real_observation_agrees :: "operation \<Rightarrow> pydict \<Rightarrow> pydict \<Rightarrow> unit res" where
  "real_observation_agrees r final d =
     (let combo = (kind r = PLACE_COMBO) in
      bindR (remark_agrees r d) (\<lambda>_.
      bindR (forR ([''order_status'', ''order_type''] @ (if combo then [] else [''code'', ''trd_side''])) (field_agrees final d)) (\<lambda>_.
      bindR (forR [''qty'', ''price'', ''dealt_qty'', ''dealt_avg_price''] (number_agrees final d)) (\<lambda>_.
      if \<not> combo then ok
      else bindR (same_legs (shown_legs d) (shown_legs final)) (\<lambda>b.
        guardR (\<not> b) (Exn ValueError ''Broker combo observations disagree''))))))"

text \<open>Status, amounts, and the instrument and side of a single order.\<close>

fun named :: "pyval \<Rightarrow> bool" where
  "named (PStr s) \<longleftrightarrow> s \<noteq> []"
| "named v \<longleftrightarrow> False"

definition real_check_fill :: "operation \<Rightarrow> pydict \<Rightarrow> fill \<Rightarrow> unit res" where
  "real_check_fill r final x =
     (let combo = (kind r = PLACE_COMBO) in
      bindR (in_text_set (dict_get final ''order_status'' PNone) (TERMINAL_BROKER \<union> ACTIVE_BROKER)) (\<lambda>known.
      if \<not> known \<or> dec_val (fill_qty x) \<le> 0 \<or> dec_val (filled x) < 0 \<or> dec_val (fill_qty x) < dec_val (filled x)
         \<or> \<not> combo \<and> dec_val (fill_average x) < 0
      then raise ValueError ''status or fill evidence''
      else guardR (\<not> combo \<and> (\<not> named (dict_get final ''code'' PNone) \<or> \<not> named (dict_get final ''trd_side'' PNone)))
        (Exn ValueError ''Missing REAL instrument/side evidence'')))"

text \<open>A placement is compared with its request: amounts and type, then instrument and side or the legs, then
  every optional term the request has.\<close>

definition term_names :: "string list" where
  "term_names = [''time_in_force'', ''session'', ''aux_price'', ''trail_type'', ''trail_value'', ''trail_spread'']"

definition term_shown :: "string \<Rightarrow> pyval \<Rightarrow> pydict \<Rightarrow> unit res" where
  "term_shown key v d =
     (let observed = dict_get d key PNone in
      if observed = PNone then raise ValueError ''Missing broker evidence''
      else bindR (if key \<in> {''aux_price'', ''trail_value'', ''trail_spread''}
          then bindR (evidence_number observed) (\<lambda>a. bindR (evidence_number v) (\<lambda>b. Inr (dec_val a = dec_val b)))
          else Inr (py_eq observed v)) (\<lambda>same.
        guardR (\<not> same) (Exn ValueError ''disagrees with request'')))"

definition terms_shown :: "pydict \<Rightarrow> pydict list \<Rightarrow> string \<Rightarrow> unit res" where
  "terms_shown expected found key =
     (let v = dict_get expected key PNone in if v = PNone then ok else forR found (term_shown key v))"

definition equal_member :: "pydict \<Rightarrow> pydict \<Rightarrow> string \<Rightarrow> bool res" where
  "equal_member final expected key = bindR (member key (as_dict expected)) (\<lambda>v. Inr (py_eq (dict_get final key PNone) v))"

definition both :: "bool res \<Rightarrow> bool res \<Rightarrow> bool res" where
  "both a b = bindR a (\<lambda>x. if \<not> x then Inr False else b)"

definition real_placement_matches :: "operation \<Rightarrow> pydict list \<Rightarrow> pydict \<Rightarrow> fill \<Rightarrow> unit res" where
  "real_placement_matches r found final x =
     (let expected = expected_request r; disagrees = (\<lambda>b. guardR (\<not> b) (Exn ValueError ''Correlated placement disagrees'')) in
      bindR (bindR (both (same_order x expected) (equal_member final expected ''order_type'')) disagrees) (\<lambda>_.
      bindR (if kind r = PLACE_COMBO
             then bindR (leg_identities (shown_legs final)) (\<lambda>a.
                  bindR (member ''combo_legs'' (as_dict expected)) (\<lambda>v. bindR (leg_identities v) (\<lambda>b. disagrees (a = b))))
             else bindR (both (equal_member final (request r) ''code'') (equal_member final (request r) ''trd_side'')) disagrees) (\<lambda>_.
        forR term_names (terms_shown expected found))))"

text \<open>A modification or cancellation whose target is still live.\<close>

fun amounts_shown :: "pydict \<Rightarrow> pydict \<Rightarrow> string list \<Rightarrow> bool res" where
  "amounts_shown expected final [] = Inr True"
| "amounts_shown expected final (key # keys) =
     (let v = dict_get expected key PNone in
      if v = PNone then amounts_shown expected final keys
      else bindR (evidence_number v) (\<lambda>a. bindR (evidence_number (dict_get final key PNone)) (\<lambda>b.
        if dec_val a \<noteq> dec_val b then Inr False else amounts_shown expected final keys)))"

definition live_resolution :: "operation \<Rightarrow> pydict \<Rightarrow> string option res" where
  "live_resolution r final =
     (let mutation = norm_text (py_str (dict_get (request r) ''modify_order_op'' (PStr ''CANCEL'')));
          disabled = py_eq (dict_get final ''order_status'' PNone) (PStr ''DISABLED'') in
      if kind r = CANCEL then Inr None
      else if mutation = ''DISABLE'' then Inr (if disabled then Some ''CURRENT_STATE_ACCOUNTED'' else None)
      else if mutation \<in> {''NORMAL'', ''ENABLE''} then
        if mutation = ''ENABLE'' \<and> disabled then Inr None
        else bindR (amounts_shown (expected_request r) final [''qty'', ''price'']) (\<lambda>b.
          Inr (if b then Some ''CURRENT_STATE_ACCOUNTED'' else None))
      else Inr None)"

definition real_resolution :: "operation \<Rightarrow> pydict list \<Rightarrow> pydict \<Rightarrow> fill \<Rightarrow> string option res" where
  "real_resolution r found final x =
     (if kind r \<in> placements then bindR (real_placement_matches r found final x) (\<lambda>_. Inr (Some ''BROKER_CONFIRMED''))
      else bindR (in_text_set (dict_get final ''order_status'' PNone) TERMINAL_BROKER) (\<lambda>terminal.
        if terminal then Inr (Some ''TERMINAL_ACCOUNTED'') else live_resolution r final))"

definition accounted_codes :: "operation \<Rightarrow> pydict \<Rightarrow> string list res" where
  "accounted_codes r final =
     (if kind r = PLACE_COMBO
      then bindR (bindR (member ''combo_legs'' (as_dict (expected_request r))) leg_identities) (\<lambda>ls. Inr (map identity_code ls))
      else Inr [py_str (dict_get final ''code'' PNone)])"

definition real_facts_of :: "operation \<Rightarrow> pydict \<Rightarrow> fill \<Rightarrow> bool \<Rightarrow> pydict \<Rightarrow> pydict" where
  "real_facts_of r final x terminal positions =
     [(''acc_id'', PStr (account r)), (''trd_env'', PStr ''REAL''), (''broker_status'', dict_get final ''order_status'' PNone),
      (''filled_quantity'', PStr (dec_text (filled x))), (''average_fill_price'', PStr (dec_text (fill_average x))),
      (''remaining_executable_quantity'', PStr (if terminal then ''0'' else dec_text (dec_sub (fill_qty x) (filled x)))),
      (''current_positions'', as_dict positions), (''mutation_success_proven'', PBool (kind r \<in> placements))]
     @ (if kind r = PLACE_COMBO then []
        else [(''code'', dict_get final ''code'' PNone),
              (''current_symbol_position'', dict_get positions (py_str (dict_get final ''code'' PNone)) PNone)])"

text \<open>\<open>_account\<close>.\<close>

definition real_account_matches ::
    "recovery_world \<Rightarrow> operation \<Rightarrow> pydict list \<Rightarrow> (pydict \<times> pydict \<times> string) option res" where
  "real_account_matches rw r found = (case found of
     [] \<Rightarrow> raise ValueError ''multiple broker orders''
   | final # _ \<Rightarrow>
      if \<exists>d \<in> set found. dict_get d ''order_id'' PNone \<noteq> dict_get final ''order_id'' PNone
      then raise ValueError ''multiple broker orders''
      else bindR (forR found (real_observation_agrees r final)) (\<lambda>_.
      if truthy_text (broker_order_id r) \<and> dict_get final ''order_id'' PNone \<noteq> PStr (the (broker_order_id r))
      then raise ValueError ''Tag disagrees with recorded broker identity''
      else bindR (fill_of final) (\<lambda>x.
      bindR (real_check_fill r final x) (\<lambda>_.
      bindR (real_resolution r found final x) (\<lambda>res. case res of
        None \<Rightarrow> Inr None
      | Some resolution \<Rightarrow>
         bindR (accounted_codes r final) (\<lambda>cs.
         bindR (real_positions rw r cs) (\<lambda>positions.
         bindR (in_text_set (dict_get final ''order_status'' PNone) TERMINAL_BROKER) (\<lambda>terminal.
           Inr (Some (final, real_facts_of r final x terminal positions, resolution))))))))))"

subsection \<open>A check\<close>

definition undispatched :: "row_view \<Rightarrow> bool" where
  "undispatched v \<longleftrightarrow> state (row v) = ADMITTED \<and> \<not> marker (row v)"

definition not_dispatched_finding :: finding where
  "not_dispatched_finding = (open_finding ''NOT_DISPATCHED'' [(''orders'', PList [] [])])
     \<lparr>found_details := [(''orders'', PList [] []), (''reason'', PStr ''Durable admission has no SDK dispatch marker'')],
       found_resolution := Some ''NOT_DISPATCHED''\<rparr>"

definition real_found :: "recovery_world \<Rightarrow> row_view \<Rightarrow> pydict list \<Rightarrow> finding res" where
  "real_found rw v found =
     (let seen = [(''orders'', PList [] []), (''correlated_order_seen'', PBool (found \<noteq> []))];
          details = put_member ''orders'' (order_list found) seen in
      case json_check (order_list found) of
        Inl e \<Rightarrow> error_finding seen e
      | Inr _ \<Rightarrow>
         if found = [] then Inr (open_finding ''NOT_FOUND'' details)
         else (case real_account_matches rw (row v) found of
            Inl e \<Rightarrow> error_finding details e
          | Inr None \<Rightarrow> Inr (open_finding ''TARGET_PENDING'' details)
          | Inr (Some (final, facts, resolution)) \<Rightarrow>
              Inr ((open_finding ''FOUND'' details)\<lparr>found_resolution := Some resolution, found_receipt := Some final,
                found_facts := Some facts\<rparr>)))"

definition real_investigate :: "recovery_world \<Rightarrow> row_view \<Rightarrow> finding res" where
  "real_investigate rw v =
     (if undispatched v then Inr not_dispatched_finding
      else case bindR (observations ''REAL'' rw (row v)) (matches placements (row v)) of
        Inl e \<Rightarrow> error_finding [(''orders'', PList [] [])] e
      | Inr found \<Rightarrow> real_found rw v found)"

text \<open>\<open>RealRecovery.check\<close>.\<close>

definition real_check :: "recovery_world \<Rightarrow> world \<Rightarrow> string \<Rightarrow> service \<Rightarrow> real_answer res \<times> service" where
  "real_check rw w oid s =
     bindS (on_real (on_journal (\<lambda>j. lookup (io w ''lookup'') j oid)) s) (\<lambda>known s. case known of
       None \<Rightarrow> (raise ValueError ''not owned by this journal'', s)
     | Some v \<Rightarrow>
        if late_failure (real s) \<noteq> [] then (raise ExecutionStoreError ''OUTCOME_NOT_STORED'', s)
        else bindS (on_real (on_journal (\<lambda>j. recovery_rows (io w ''due'') j (due_clock rw))) s) (\<lambda>due s.
          if oid \<notin> (\<lambda>x. operation_id (row x)) ` set due then (Inr (real_result_of w s v), s)
          else bindS (real_investigate rw v, s) (\<lambda>x s.
            if stopping rw then (Inr (real_result_of w s v), s)
            else bindS (on_real (record_finding rw w v (x\<lparr>found_delay := CHECK_INTERVAL\<rparr>)) s) (\<lambda>_ s.
              bindS (on_real (on_journal (\<lambda>j. lookup (io w ''lookup4'') j oid)) s) (\<lambda>again s. case again of
                None \<Rightarrow> (raise AssertionError ''result'', s)
              | Some v' \<Rightarrow> (Inr (real_result_of w s v'), s))))))"

text \<open>\<open>run_once\<close>: one round of the worker.\<close>

fun real_checks_of ::
    "(string \<Rightarrow> recovery_world) \<Rightarrow> world \<Rightarrow> (string \<Rightarrow> bool) \<Rightarrow> row_view list \<Rightarrow> service \<Rightarrow> unit res \<times> service" where
  "real_checks_of rws w stopped [] s = (ok, s)"
| "real_checks_of rws w stopped (v # vs) s =
     (let oid = operation_id (row v) in
      if stopped oid then (ok, s)
      else bindS (real_check (rws oid) w oid s) (\<lambda>_ s. real_checks_of rws w stopped vs s))"

definition real_run_once ::
    "(string \<Rightarrow> recovery_world) \<Rightarrow> rat \<Rightarrow> world \<Rightarrow> (string \<Rightarrow> bool) \<Rightarrow> service \<Rightarrow> unit res \<times> service" where
  "real_run_once rws clock_now w stopped s =
     (if late_failure (real s) \<noteq> [] then (ok, s)
      else bindS (on_real (on_journal (\<lambda>j. recovery_rows (io w ''due'') j clock_now)) s) (\<lambda>due s. real_checks_of rws w stopped due s))"

subsection \<open>Opening\<close>

text \<open>\<open>RealExecution.__init__\<close>, with the trading controls the service holds. Every admission under review that
  has no dispatch marker is checked at once; the worker is not stopping yet.\<close>

definition open_real ::
    "(string \<Rightarrow> recovery_world) \<Rightarrow> rat \<Rightarrow> world \<Rightarrow> store \<Rightarrow> controls option \<Rightarrow> unit res \<times> service" where
  "open_real rws clock_now w j cs =
     (let s = \<lparr>real = \<lparr>journal = j, controls_of = cs, late_failure = [], late_identity = [], calls = []\<rparr>,
            execution = \<lparr>halted_since = None, last_lock_error = None\<rparr>, active_real = None, gateway = []\<rparr> in
      if environment j \<noteq> ''REAL'' then (raise ValueError ''REAL execution requires a REAL journal'', s)
      else bindS (on_real (on_journal (\<lambda>j. case review (writable w ''review'') (io w ''review'') j of
             (Inl e, j) \<Rightarrow> (Inl e, j) | (Inr _, j) \<Rightarrow> (ok, j))) s) (\<lambda>_ s.
        bindS (on_real (on_journal (\<lambda>j. recovery_rows (io w ''due'') j clock_now)) s) (\<lambda>due s.
          real_checks_of (\<lambda>oid. (rws oid)\<lparr>stopping := False\<rparr>) w (\<lambda>_. False) (filter undispatched due) s)))"

end
