(* ===== verification/Real_Recovery_Runs.thy ===== *)
theory Real_Recovery_Runs
  imports Real_Recovery
begin

text \<open>
  Properties of REAL recovery: a check sends nothing, decides only on the broker's positive evidence or on a
  missing dispatch marker, confirms a placement only from an order that shows every term of the request, and
  the start of a process settles what was admitted and never sent.
\<close>

subsection \<open>A check sends nothing\<close>

lemma calm_lookup: "calm s (snd (on_real (on_journal (\<lambda>j. lookup i j oid)) s))"
  by (rule calm_on_real) (rule steady_lookup)

lemma calm_recovery_rows: "calm s (snd (on_real (on_journal (\<lambda>j. recovery_rows i j c)) s))"
  by (rule calm_on_real) (auto intro!: steady_on_journal r_into_rtranclp intro: call_step.intros(10))

lemma calm_record: "calm s (snd (on_real (record_finding rw w v x) s))"
  unfolding record_finding_def
  by (rule calm_on_real) (auto intro!: steady_on_journal r_into_rtranclp intro: call_step.intros(5))

lemma calm_real_check: "calm s (snd (real_check rw w oid s))"
  unfolding real_check_def
  by (auto split: option.split intro!: calm_bindS calm_lookup calm_recovery_rows calm_record)

subsection \<open>What a check decides\<close>

lemma record_finding_decides:
  assumes "record_finding rw w v x p = (r, q)" "row_of (db (journal p)) oid = Some v" "\<not> undecided oid p q"
  obtains res st disp n v' where "found_resolution x = Some res"
    "resolve (environment (journal p)) v n res (found_receipt x) (found_facts x) = Inr (st, disp)"
    "row_of (db (journal q)) oid = Some v'" "state (row v') = st" "disposition (row v') = disp"
    "recovery_disposition (row v') = Some res" "\<not> recovery_pending v'"
proof -
  have id: "operation_id (row v) = oid" using row_of_SomeD [OF assms(2)] by simp
  obtain res where res: "found_resolution x = Some res"
    using undecided_record [of x oid p rw w v] assms(1,3) by (cases "found_resolution x") auto
  obtain j where j: "record_recovery (io w ''record'') (journal p) oid (state (row v)) (start_clock rw) (done_clock rw)
       (found_outcome x) (found_details x) (done_clock rw + found_delay x) (Some res) (found_receipt x) (found_facts x) (now w) = (r, j)"
      "q = p\<lparr>journal := j\<rparr>"
    using assms(1) by (auto simp: record_finding_def on_journal_iff res id)
  let ?d = "record_check oid (start_clock rw) (done_clock rw) (found_outcome x) (found_details x) (done_clock rw + found_delay x)
       (now w) (db (journal p))"
  have "db j \<noteq> db (journal p)" using assms(3) undecided_same j(2) by fastforce
  then obtain d where d: "apply_resolution (environment (journal p)) (epoch (journal p)) v res (found_outcome x) (found_details x)
      (state (row v)) (found_receipt x) (found_facts x) ?d = Inr d" "db j = d"
    using j(1) unfolding record_recovery_def
    by (auto elim!: transaction_cases simp: record_recovery_body_def Let_def assms(2) split: sum.splits if_split_asm)
  obtain st disp a b audit where rs: "resolve (environment (journal p)) v (negatives_of ?d oid) res (found_receipt x) (found_facts x)
        = Inr (st, disp)"
    and d': "d = ?d\<lparr>audits := audits ?d @ [audit], operations := update_rows (\<lambda>x. operation_id x = oid)
        (recovery_row st disp res (found_receipt x) a b) (operations ?d), reviews := filter (\<lambda>x. fst x \<noteq> oid) (reviews ?d)\<rparr>"
    using d(1) by (elim apply_resolution_InrE) (auto simp: id)
  have "row_of ?d oid \<noteq> None" using row_of_record_check [OF assms(2)] by simp
  then obtain r0 where "find_row operation_id oid (operations ?d) = Some r0" "operation_id r0 = oid"
    by (auto simp: row_of_def find_row_def split: option.splits dest: find_Some_iff [THEN iffD1])
  then have "find_row operation_id oid (operations d) = Some (recovery_row st disp res (found_receipt x) a b r0)"
    by (simp add: d' find_row_update_rows recovery_row_def)
  then show thesis
    using that [OF res rs, of "the (row_of d oid)"] d(2) j(2)
    by (simp add: row_of_def recovery_row_def d')
qed

lemma lookup_reads: "lookup i j oid = (Inr k, j') \<Longrightarrow> k = row_of (db j) oid \<and> db j' = db j"
  using lookup_found lookup_db by blast

lemma real_check_cases:
  assumes "real_check rw w oid s = (r, t)"
  obtains (same) "db (journal (real t)) = db (journal (real s))"
  | (recorded) v x p p' r' where "row_of (db (journal (real s))) oid = Some v" "real_investigate rw v = Inr x"
      "record_finding rw w v (x\<lparr>found_delay := CHECK_INTERVAL\<rparr>) p = (r', p')"
      "db (journal p) = db (journal (real s))" "db (journal (real t)) = db (journal p')"
proof -
  obtain k j where looked: "lookup (io w ''lookup'') (journal (real s)) oid = (k, j)" by fastforce
  let ?s = "s\<lparr>real := (real s)\<lparr>journal := j\<rparr>\<rparr>"
  have first: "on_real (on_journal (\<lambda>j. lookup (io w ''lookup'') j oid)) s = (k, ?s)"
    by (simp add: on_real_iff on_journal_iff looked)
  show thesis
  proof (cases "\<exists>v. k = Inr (Some v)")
    case False
    then show thesis using assms same lookup_db [OF looked] unfolding real_check_def
      by (auto simp: bindS_def first split: sum.splits option.splits)
  next
    case True
    then obtain v where k: "k = Inr (Some v)" by blast
    with lookup_reads looked have v: "row_of (db (journal (real s))) oid = Some v" "db j = db (journal (real s))" by fastforce+
    show thesis
      using assms same recorded [OF v(1)] v(2) unfolding real_check_def
      by (auto simp: bindS_def first k on_real_iff on_journal_iff split: prod.splits sum.splits option.splits if_split_asm
          dest!: lookup_db recovery_rows_db)
  qed
qed

lemma error_finding_open: "error_finding d e = Inr x \<Longrightarrow> found_resolution x = None"
  by (auto simp: error_finding_def open_finding_def split: if_split_asm)

lemma real_found_decides:
  assumes "real_found rw v found = Inr x" "found_resolution x = Some res"
  shows "\<exists>final facts. real_account_matches rw (row v) found = Inr (Some (final, facts, res))"
proof (cases "json_check (order_list found)")
  case (Inl e)
  then show ?thesis using assms error_finding_open by (auto simp: real_found_def Let_def)
next
  case json: (Inr u)
  show ?thesis
  proof (cases "found = []")
    case True
    then show ?thesis using assms json by (auto simp: real_found_def Let_def open_finding_def)
  next
    case False
    show ?thesis
    proof (cases "real_account_matches rw (row v) found")
      case (Inl e)
      then show ?thesis using assms json False error_finding_open by (auto simp: real_found_def Let_def)
    next
      case (Inr m)
      then show ?thesis using assms json False by (auto simp: real_found_def Let_def open_finding_def split: option.splits)
    qed
  qed
qed

lemma real_account_matchesE:
  assumes "real_account_matches rw r found = Inr (Some (final, facts, res))"
  obtains x rest where "found = final # rest" "fill_of final = Inr x" "real_resolution r found final x = Inr (Some res)"
    "\<forall>d \<in> set found. real_observation_agrees r final d = ok"
    "\<forall>d \<in> set found. dict_get d ''order_id'' PNone = dict_get final ''order_id'' PNone"
    "truthy_text (broker_order_id r) \<longrightarrow> dict_get final ''order_id'' PNone = PStr (the (broker_order_id r))"
  using assms by (cases found) (auto simp: real_account_matches_def res_simps split: if_split_asm option.splits)

lemma real_resolution_kinds:
  assumes "real_account_matches rw r found = Inr (Some (final, facts, res))"
  shows "res = ''BROKER_CONFIRMED'' \<or> res = ''TERMINAL_ACCOUNTED'' \<or> res = ''CURRENT_STATE_ACCOUNTED''"
proof -
  obtain x where "real_resolution r found final x = Inr (Some res)" using real_account_matchesE [OF assms] .
  moreover have "live_resolution r final = Inr (Some res) \<Longrightarrow> res = ''CURRENT_STATE_ACCOUNTED''"
    by (simp add: live_resolution_def Let_def res_simps split: if_split_asm)
  ultimately show ?thesis by (auto simp only: real_resolution_def res_simps split: if_split_asm)
qed

lemma real_investigate_decides:
  assumes "real_investigate rw v = Inr x" "found_resolution x = Some res"
  obtains (unsent) "undispatched v" "res = ''NOT_DISPATCHED''"
  | (accounted) orders found final facts where "\<not> undispatched v" "observations ''REAL'' rw (row v) = Inr orders"
      "matches placements (row v) orders = Inr found" "real_account_matches rw (row v) found = Inr (Some (final, facts, res))"
proof (cases "undispatched v")
  case True
  then show thesis using unsent assms by (auto simp: real_investigate_def not_dispatched_finding_def open_finding_def)
next
  case False
  then show thesis
    using accounted assms real_found_decides error_finding_open
    by (auto simp: real_investigate_def res_simps split: sum.splits) blast
qed

lemma real_check_decides:
  assumes "real_check rw w oid s = (r, t)" "row_of (db (journal (real s))) oid = Some v" "\<not> undecided oid (real s) (real t)"
  shows "\<exists>v'. row_of (db (journal (real t))) oid = Some v'
      \<and> (if undispatched v then state (row v') = REFUSED \<and> disposition (row v') = ''NOT_SENT''
         else state (row v') \<in> {RECONCILED, TERMINAL_ACCOUNTED} \<and> (\<exists>orders found final facts resolution.
           observations ''REAL'' rw (row v) = Inr orders \<and> matches placements (row v) orders = Inr found \<and> found \<noteq> []
           \<and> real_account_matches rw (row v) found = Inr (Some (final, facts, resolution))))"
proof -
  from assms(1) show ?thesis
  proof (cases rule: real_check_cases)
    case same
    then show ?thesis using assms(3) undecided_same by blast
  next
    case (recorded v0 x p p' r')
    have v0: "v0 = v" using recorded(1) assms(2) by simp
    have new: "\<not> undecided oid p p'"
      using assms(3) recorded(4,5) by (simp add: undecided_def)
    have known: "row_of (db (journal p)) oid = Some v" using assms(2) recorded(4) by simp
    obtain res st disp n v' where x: "found_resolution x = Some res"
        "resolve (environment (journal p)) v n res (found_receipt x) (found_facts x) = Inr (st, disp)"
        "row_of (db (journal p')) oid = Some v'" "state (row v') = st" "disposition (row v') = disp"
      by (rule record_finding_decides [OF recorded(3) [unfolded v0] known new]) simp
    from recorded(2) x(1) show ?thesis
      unfolding v0
    proof (cases rule: real_investigate_decides)
      case unsent
      then show ?thesis using x recorded(5) by (auto simp: resolve_def ASSUMED_ABSENT_def split: if_split_asm)
    next
      case (accounted orders found final facts)
      have "found \<noteq> []" using accounted(4) by (auto simp: real_account_matches_def)
      moreover have "st \<in> {RECONCILED, TERMINAL_ACCOUNTED}"
        using x(2) real_resolution_kinds [OF accounted(4)] by (auto simp: resolve_def ASSUMED_ABSENT_def split: if_split_asm)
      ultimately show ?thesis using x recorded(5) accounted by auto
    qed
  qed
qed


subsection \<open>A confirmed placement\<close>

lemma bothD: "both a b = Inr True \<Longrightarrow> a = Inr True \<and> b = Inr True"
  by (auto simp: both_def res_simps split: if_split_asm)

lemma equal_memberD:
  "equal_member final expected key = Inr True \<Longrightarrow> \<exists>v. map_of expected key = Some v \<and> py_eq (dict_get final key PNone) v"
  by (auto simp: equal_member_def member_def res_simps split: option.splits)

text \<open>The term \<open>key\<close> of a request, where it has one, as every observation shows it.\<close>

definition shows_term :: "pydict \<Rightarrow> string \<Rightarrow> pydict \<Rightarrow> bool" where
  "shows_term expected key d \<longleftrightarrow> dict_get expected key PNone = PNone
     \<or> py_eq (dict_get d key PNone) (dict_get expected key PNone)
     \<or> (\<exists>a b. evidence_number (dict_get d key PNone) = Inr a \<and> evidence_number (dict_get expected key PNone) = Inr b
          \<and> dec_val a = dec_val b)"

lemma terms_shownD: "terms_shown expected found key = ok \<Longrightarrow> d \<in> set found \<Longrightarrow> shows_term expected key d"
  by (auto simp: terms_shown_def term_shown_def shows_term_def Let_def res_simps split: if_split_asm)

lemma real_placement_matchesD:
  assumes "real_placement_matches r found final x = ok" "fill_of final = Inr x"
  shows "same_amount final (expected_request r) ''qty''" "same_amount final (expected_request r) ''price''"
    "\<exists>v. map_of (expected_request r) ''order_type'' = Some v \<and> py_eq (dict_get final ''order_type'' PNone) v"
    "\<forall>key \<in> set term_names. \<forall>d \<in> set found. shows_term (expected_request r) key d"
    "if kind r = PLACE_COMBO
     then (\<exists>v ls. map_of (expected_request r) ''combo_legs'' = Some v \<and> leg_identities v = Inr ls
            \<and> leg_identities (shown_legs final) = Inr ls)
     else (\<forall>key \<in> {''code'', ''trd_side''}. \<exists>v. map_of (request r) key = Some v \<and> py_eq (dict_get final key PNone) v)"
proof -
  have m: "both (same_order x (expected_request r)) (equal_member final (expected_request r) ''order_type'') = Inr True"
      "forR term_names (terms_shown (expected_request r) found) = ok"
    using assms(1) by (auto simp: real_placement_matches_def Let_def res_simps split: if_split_asm)
  have legs: "\<exists>v ls. map_of (expected_request r) ''combo_legs'' = Some v \<and> leg_identities v = Inr ls
              \<and> leg_identities (shown_legs final) = Inr ls" if "kind r = PLACE_COMBO"
    using assms(1) that by (auto simp: real_placement_matches_def Let_def member_def res_simps split: option.splits if_split_asm)
  have single: "equal_member final (request r) key = Inr True" if "kind r \<noteq> PLACE_COMBO" "key \<in> {''code'', ''trd_side''}" for key
    using assms(1) that by (auto simp: real_placement_matches_def Let_def res_simps dest!: bothD split: if_split_asm)
  show "same_amount final (expected_request r) ''qty''" "same_amount final (expected_request r) ''price''"
    using same_orderD [OF _ assms(2)] bothD [OF m(1)] by simp_all
  show "\<exists>v. map_of (expected_request r) ''order_type'' = Some v \<and> py_eq (dict_get final ''order_type'' PNone) v"
    using equal_memberD bothD [OF m(1)] by simp
  show "\<forall>key \<in> set term_names. \<forall>d \<in> set found. shows_term (expected_request r) key d"
    using m(2) terms_shownD by (auto simp: res_simps)
  show "if kind r = PLACE_COMBO
     then (\<exists>v ls. map_of (expected_request r) ''combo_legs'' = Some v \<and> leg_identities v = Inr ls
            \<and> leg_identities (shown_legs final) = Inr ls)
     else (\<forall>key \<in> {''code'', ''trd_side''}. \<exists>v. map_of (request r) key = Some v \<and> py_eq (dict_get final key PNone) v)"
    using legs equal_memberD [OF single] by simp
qed

text \<open>C30. A REAL placement is confirmed only by an order that shows it: all observations carry one broker identifier,
  the recorded one where there is one and the placement's own tag otherwise; quantity, price and order type of the
  request are shown, and by every observation its time in force, session, auxiliary price and trailing terms where it
  has them; and a single order has the instrument and side that were asked
  for, a combination exactly its legs, in every observation. The adjustment limit of the request, which the
  broker's orders do not show, is not compared.\<close>

theorem confirmed_real_placement_is_the_request:
  assumes "real_account_matches rw r found = Inr (Some (final, facts, resolution))" "kind r \<in> placements"
  shows "resolution = ''BROKER_CONFIRMED'' \<and> final \<in> set found
    \<and> (\<forall>d \<in> set found. dict_get d ''order_id'' PNone = dict_get final ''order_id'' PNone)
    \<and> (if truthy_text (broker_order_id r) then dict_get final ''order_id'' PNone = PStr (the (broker_order_id r))
       else truthy_text (order_tag r) \<longrightarrow> (\<forall>d \<in> set found. dict_get d ''remark'' PNone = PStr (the (order_tag r))))
    \<and> same_amount final (expected_request r) ''qty'' \<and> same_amount final (expected_request r) ''price''
    \<and> (\<exists>v. map_of (expected_request r) ''order_type'' = Some v \<and> py_eq (dict_get final ''order_type'' PNone) v)
    \<and> (\<forall>key \<in> {''time_in_force'', ''session'', ''aux_price'', ''trail_type'', ''trail_value'', ''trail_spread''}.
         \<forall>d \<in> set found. shows_term (expected_request r) key d)
    \<and> (if kind r = PLACE_COMBO
       then (\<exists>v ls. map_of (expected_request r) ''combo_legs'' = Some v \<and> leg_identities v = Inr ls
              \<and> (\<forall>d \<in> set found. leg_identities (shown_legs d) = Inr ls))
       else (\<forall>key \<in> {''code'', ''trd_side''}. \<exists>v. map_of (request r) key = Some v \<and> py_eq (dict_get final key PNone) v))"
proof -
  obtain x rest where found: "found = final # rest"
    and x: "fill_of final = Inr x" "real_resolution r found final x = Inr (Some resolution)"
    and agree: "\<forall>d \<in> set found. real_observation_agrees r final d = ok"
    and one: "\<forall>d \<in> set found. dict_get d ''order_id'' PNone = dict_get final ''order_id'' PNone"
    and recorded: "truthy_text (broker_order_id r) \<longrightarrow> dict_get final ''order_id'' PNone = PStr (the (broker_order_id r))"
    using real_account_matchesE [OF assms(1)] .
  have res: "real_placement_matches r found final x = ok" "resolution = ''BROKER_CONFIRMED''"
    using x(2) assms(2) by (auto simp: real_resolution_def res_simps)
  have remark: "\<forall>d \<in> set found. dict_get d ''remark'' PNone = PStr (the (order_tag r))"
    if "truthy_text (order_tag r)" "\<not> truthy_text (broker_order_id r)"
    using agree that by (auto simp: real_observation_agrees_def Let_def res_simps intro: remark_agreesD)
  have same: "leg_identities (shown_legs d) = leg_identities (shown_legs final)" if "kind r = PLACE_COMBO" "d \<in> set found" for d
    using agree that by (force simp: real_observation_agrees_def same_legs_def Let_def res_simps)
  note terms = real_placement_matchesD [OF res(1) x(1)]
  have tagged: "if truthy_text (broker_order_id r) then dict_get final ''order_id'' PNone = PStr (the (broker_order_id r))
       else truthy_text (order_tag r) \<longrightarrow> (\<forall>d \<in> set found. dict_get d ''remark'' PNone = PStr (the (order_tag r)))"
    using recorded remark by simp
  have shown: "if kind r = PLACE_COMBO
       then (\<exists>v ls. map_of (expected_request r) ''combo_legs'' = Some v \<and> leg_identities v = Inr ls
              \<and> (\<forall>d \<in> set found. leg_identities (shown_legs d) = Inr ls))
       else (\<forall>key \<in> {''code'', ''trd_side''}. \<exists>v. map_of (request r) key = Some v \<and> py_eq (dict_get final key PNone) v)"
    using terms(5) same by (cases "kind r = PLACE_COMBO") (simp_all, blast)
  show ?thesis
    using found terms(4) by (intro conjI res(2) one tagged shown terms(1-3)) (simp_all add: term_names_def)
qed

subsection \<open>Opening\<close>

text \<open>A service whose journal works, and the two ends of an admission that was never dispatched.\<close>

definition serviceable :: "service \<Rightarrow> bool" where
  "serviceable s \<longleftrightarrow> late_failure (real s) = [] \<and> \<not> closed (journal (real s)) \<and> \<not> failed (journal (real s))
     \<and> environment (journal (real s)) = ''REAL'' \<and> distinct (map operation_id (operations (db (journal (real s)))))"

definition listed :: "rat \<Rightarrow> row_view \<Rightarrow> bool" where
  "listed c v \<longleftrightarrow> next_recovery_at (row v) \<le> c \<and> (recovery_pending v \<or> recovery_disposition (row v) = Some ASSUMED_ABSENT)"

definition unsent :: "rat \<Rightarrow> string \<Rightarrow> service \<Rightarrow> bool" where
  "unsent c oid s \<longleftrightarrow> (\<exists>v. row_of (db (journal (real s))) oid = Some v \<and> undispatched v \<and> listed c v)"

definition refused_unsent :: "string \<Rightarrow> service \<Rightarrow> bool" where
  "refused_unsent oid s \<longleftrightarrow> (\<exists>v. row_of (db (journal (real s))) oid = Some v \<and> state (row v) = REFUSED
     \<and> disposition (row v) = ''NOT_SENT'' \<and> recovery_disposition (row v) = Some ''NOT_DISPATCHED'' \<and> \<not> recovery_pending v)"

lemma row_of_pending: "row_of d oid = Some v \<Longrightarrow> recovery_pending v \<longleftrightarrow> (\<exists>x \<in> set (reviews d). fst x = oid)"
  by (cases "find_row operation_id oid (operations d)") (auto simp only: row_of_def option.case option.inject row_view.simps)

lemma recovery_rows_healthy:
  assumes "\<not> closed j" "\<not> failed j" "distinct (map operation_id (operations (db j)))"
  obtains vs where "recovery_rows True j c = (Inr vs, j)"
    "\<forall>v. v \<in> set vs \<longleftrightarrow> row_of (db j) (operation_id (row v)) = Some v \<and> listed c v"
proof -
  let ?rows = "sort_key next_recovery_at (sort_key created_at (filter (recovery_due (db j) c) (operations (db j))))"
  let ?vs = "List.map_filter (\<lambda>r. row_of (db j) (operation_id r)) ?rows"
  have due: "recovery_due (db j) c (row v) \<longleftrightarrow> listed c v" if "row_of (db j) oid = Some v" for oid v
  proof -
    have "recovery_pending v \<longleftrightarrow> (\<exists>x \<in> set (reviews (db j)). fst x = oid)"
      using that by (elim row_of_pending)
    then have "recovery_pending v \<longleftrightarrow> operation_id (row v) \<in> fst ` set (reviews (db j))"
      using row_of_SomeD [OF that] by force
    then show ?thesis by (simp add: recovery_due_def listed_def)
  qed
  have "v \<in> set ?vs \<longleftrightarrow> row_of (db j) (operation_id (row v)) = Some v \<and> listed c v" for v
  proof
    assume "v \<in> set ?vs"
    then obtain r where r: "r \<in> set (operations (db j))" "recovery_due (db j) c r" "row_of (db j) (operation_id r) = Some v"
      by (clarsimp simp: List.map_filter_def)
    have "Some (row v) = Some r"
      by (rule trans [OF sym [OF conjunct1 [OF row_of_SomeD [OF r(3)]]] find_row_distinct [OF assms(3) r(1)]])
    then have "row v = r" by (rule option.inject [THEN iffD1])
    then show "row_of (db j) (operation_id (row v)) = Some v \<and> listed c v" using r(2,3) due [OF r(3)] by simp
  next
    assume v: "row_of (db j) (operation_id (row v)) = Some v \<and> listed c v"
    then have "recovery_due (db j) c (row v)" using due by blast
    moreover have "row v \<in> set (operations (db j))" using row_of_SomeD [OF conjunct1 [OF v]] by simp
    ultimately have "row v \<in> set ?rows" by simp
    then show "v \<in> set ?vs" using v by (force simp: List.map_filter_def)
  qed
  then show thesis
    using that [of ?vs] assms by (simp add: recovery_rows_def transaction_healthy)
qed

text \<open>Recording that an admission was not dispatched.\<close>

lemma record_not_dispatched:
  assumes "serviceable s" "working w" "row_of (db (journal (real s))) oid = Some v" "undispatched v"
  shows "\<exists>t. on_real (record_finding rw w v (not_dispatched_finding\<lparr>found_delay := n\<rparr>)) s = (ok, t) \<and> serviceable t \<and> refused_unsent oid t
    \<and> (\<forall>q. q \<noteq> oid \<longrightarrow> row_of (db (journal (real t))) q = row_of (db (journal (real s))) q)"
proof -
  let ?j = "journal (real s)" and ?x = "not_dispatched_finding\<lparr>found_delay := n\<rparr>"
  have j: "\<not> closed ?j" "\<not> failed ?j" "environment ?j = ''REAL''" "io w ''record''"
    using assms(1,2) by (simp_all add: serviceable_def working_def)
  have id: "operation_id (row v) = oid" using row_of_SomeD [OF assms(3)] by simp
  define d1 where "d1 = record_check oid (start_clock rw) (done_clock rw) (found_outcome ?x) (found_details ?x)
      (done_clock rw + found_delay ?x) (now w) (db ?j)"
  have json: "json_check (as_dict (found_details ?x)) = ok" by (simp add: not_dispatched_finding_def)
  have parts: "found_resolution ?x = Some ''NOT_DISPATCHED''" "found_receipt ?x = None" "found_facts ?x = None"
    by (simp_all add: not_dispatched_finding_def open_finding_def)
  have "\<exists>d2. apply_resolution ''REAL'' (epoch ?j) v ''NOT_DISPATCHED'' (found_outcome ?x) (found_details ?x) (state (row v)) None None d1
      = Inr d2"
    using assms(4) by (auto simp: apply_resolution_def resolve_def ASSUMED_ABSENT_def undispatched_def Let_def
        evidence_reference_text_def given_def receipt_field_def res_simps)
  then obtain d2 where d2: "apply_resolution ''REAL'' (epoch ?j) v ''NOT_DISPATCHED'' (found_outcome ?x) (found_details ?x)
      (state (row v)) None None d1 = Inr d2" by blast
  let ?t = "s\<lparr>real := (real s)\<lparr>journal := ?j\<lparr>db := d2\<rparr>\<rparr>\<rparr>"
  have "record_recovery True ?j oid (state (row v)) (start_clock rw) (done_clock rw) (found_outcome ?x) (found_details ?x)
      (done_clock rw + found_delay ?x) (Some ''NOT_DISPATCHED'') None None (now w) = (ok, ?j\<lparr>db := d2\<rparr>)"
    unfolding record_recovery_def transaction_healthy [OF j(1,2) TrueI] record_recovery_body_def assms(3) json option.case sum.case
      Let_def d1_def [symmetric] j(3) d2 by simp
  then have step: "on_real (record_finding rw w v ?x) s = (ok, ?t)"
    by (simp add: on_real_iff record_finding_def on_journal_iff parts id j(4))
  obtain st disp a b audit where rs: "resolve ''REAL'' v (negatives_of d1 oid) ''NOT_DISPATCHED'' None None = Inr (st, disp)"
    and au: "audit_operation audit = oid"
    and d2': "d2 = d1\<lparr>audits := audits d1 @ [audit], operations := update_rows (\<lambda>x. operation_id x = oid)
        (recovery_row st disp ''NOT_DISPATCHED'' None a b) (operations d1), reviews := filter (\<lambda>x. fst x \<noteq> oid) (reviews d1)\<rparr>"
    using d2 by (elim apply_resolution_InrE) (auto simp: id)
  have st: "st = REFUSED" "disp = ''NOT_SENT''"
    using rs by (simp_all add: resolve_def ASSUMED_ABSENT_def split: if_split_asm)
  obtain r1 where r1: "find_row operation_id oid (operations d1) = Some r1"
    using row_of_SomeD [OF row_of_record_check [OF assms(3)]] unfolding d1_def by blast
  moreover have "operation_id r1 = oid" using find_row_SomeD [OF r1] by simp
  ultimately have "find_row operation_id oid (operations d2) = Some (recovery_row st disp ''NOT_DISPATCHED'' None a b r1)"
    by (simp add: d2' find_row_update_rows recovery_row_def)
  then have "refused_unsent oid ?t" by (simp add: refused_unsent_def row_of_def recovery_row_def st d2')
  moreover have "row_of d2 q = row_of (db ?j) q" if "q \<noteq> oid" for q
  proof -
    have "find_row operation_id q (operations d2) = find_row operation_id q (operations (db ?j))"
      using that by (cases "find_row operation_id q (operations (db ?j))")
        (auto simp: d2' d1_def record_check_def find_row_update_rows recovery_row_def dest: find_row_SomeD)
    moreover have "filter (\<lambda>a. audit_operation a = q) (audits d2) = filter (\<lambda>a. audit_operation a = q) (audits (db ?j))"
        "filter (\<lambda>c. check_operation c = q) (checks d2) = filter (\<lambda>c. check_operation c = q) (checks (db ?j))"
      using that au by (simp_all add: d2' d1_def record_check_def)
    moreover have "(\<exists>x \<in> set (reviews d2). fst x = q) \<longleftrightarrow> (\<exists>x \<in> set (reviews (db ?j)). fst x = q)"
      using that by (force simp: d2' d1_def record_check_def)
    ultimately show ?thesis by (simp only: row_of_def)
  qed
  moreover have "map operation_id (operations d2) = map operation_id (operations (db ?j))"
    by (simp add: d2' d1_def record_check_def update_rows_def recovery_row_def)
  ultimately show ?thesis using step assms(1) by (auto simp: serviceable_def)
qed


lemma not_dispatched_check:
  assumes "serviceable s" "working w" "\<not> stopping rw" "unsent (due_clock rw) oid s \<or> refused_unsent oid s"
  shows "\<exists>x t. real_check rw w oid s = (Inr x, t) \<and> serviceable t \<and> refused_unsent oid t
    \<and> (\<forall>q. q \<noteq> oid \<longrightarrow> row_of (db (journal (real t))) q = row_of (db (journal (real s))) q)"
proof -
  have j: "\<not> closed (journal (real s))" "\<not> failed (journal (real s))" "late_failure (real s) = []"
      "distinct (map operation_id (operations (db (journal (real s)))))" and io: "io w x" for x
    using assms(1,2) by (simp_all add: serviceable_def working_def)
  obtain v where v: "row_of (db (journal (real s))) oid = Some v"
    using assms(4) by (auto simp: unsent_def refused_unsent_def)
  have id: "operation_id (row v) = oid" using row_of_SomeD [OF v] by simp
  obtain vs where vs: "recovery_rows True (journal (real s)) (due_clock rw) = (Inr vs, journal (real s))"
      "\<forall>v. v \<in> set vs \<longleftrightarrow> row_of (db (journal (real s))) (operation_id (row v)) = Some v \<and> listed (due_clock rw) v"
    using recovery_rows_healthy [OF j(1,2,4), of "due_clock rw"] .
  have due: "oid \<in> (\<lambda>x. operation_id (row x)) ` set vs \<longleftrightarrow> listed (due_clock rw) v"
    using v id vs(2) by (force simp: image_iff)
  have first: "on_real (on_journal (\<lambda>j. lookup (io w ''lookup'') j oid)) s = (Inr (Some v), s)"
    using lookup_healthy [OF j(1,2)] v by (simp add: on_real_iff on_journal_iff io)
  have second: "on_real (on_journal (\<lambda>j. recovery_rows (io w ''due'') j (due_clock rw))) s = (Inr vs, s)"
    using vs(1) by (simp add: on_real_iff on_journal_iff io)
  show ?thesis
  proof (cases "unsent (due_clock rw) oid s")
    case True
    then have u: "undispatched v" "listed (due_clock rw) v" using v by (auto simp: unsent_def)
    obtain t where t: "on_real (record_finding rw w v (not_dispatched_finding\<lparr>found_delay := CHECK_INTERVAL\<rparr>)) s = (ok, t)"
        "serviceable t" "refused_unsent oid t" "\<forall>q. q \<noteq> oid \<longrightarrow> row_of (db (journal (real t))) q = row_of (db (journal (real s))) q"
      using record_not_dispatched [OF assms(1,2) v u(1)] by blast
    obtain v' where v': "row_of (db (journal (real t))) oid = Some v'" using t(3) by (auto simp: refused_unsent_def)
    have third: "on_real (on_journal (\<lambda>j. lookup (io w ''lookup4'') j oid)) t = (Inr (Some v'), t)"
      using t(2) v' by (simp add: on_real_iff on_journal_iff io lookup_healthy serviceable_def)
    have "real_investigate rw v = Inr not_dispatched_finding" using u(1) by (simp add: real_investigate_def)
    then have "real_check rw w oid s = (Inr (real_result_of w t v'), t)"
      using due u(2) assms(3) by (simp add: real_check_def bindS_def first second j(3) t(1) third)
    then show ?thesis using t by blast
  next
    case False
    then have "refused_unsent oid s" using assms(4) by simp
    then have "\<not> listed (due_clock rw) v" using v by (auto simp: refused_unsent_def listed_def ASSUMED_ABSENT_def)
    then have "real_check rw w oid s = (Inr (real_result_of w s v), s)"
      using due by (simp add: real_check_def bindS_def first second j(3))
    then show ?thesis using assms(1) \<open>refused_unsent oid s\<close> by blast
  qed
qed

lemma not_dispatched_checks:
  assumes "serviceable s" "working w" "\<forall>oid. \<not> stopping (rws oid) \<and> c \<le> due_clock (rws oid)"
    and "\<forall>v \<in> set vs. unsent c (operation_id (row v)) s \<or> refused_unsent (operation_id (row v)) s"
  shows "\<exists>t. real_checks_of rws w (\<lambda>_. False) vs s = (ok, t) \<and> (\<forall>v \<in> set vs. refused_unsent (operation_id (row v)) t)
    \<and> (\<forall>q. refused_unsent q s \<longrightarrow> refused_unsent q t)"
  using assms(1,4)
proof (induction vs arbitrary: s)
  case (Cons v vs)
  let ?oid = "operation_id (row v)"
  have "unsent (due_clock (rws ?oid)) ?oid s \<or> refused_unsent ?oid s"
    using Cons.prems(2) assms(3) by (force simp: unsent_def listed_def intro: order_trans)
  then obtain x t where t: "real_check (rws ?oid) w ?oid s = (Inr x, t)" "serviceable t" "refused_unsent ?oid t"
      "\<forall>q. q \<noteq> ?oid \<longrightarrow> row_of (db (journal (real t))) q = row_of (db (journal (real s))) q"
    using not_dispatched_check [OF Cons.prems(1) assms(2)] assms(3) by blast
  have same: "unsent c q s \<Longrightarrow> q \<noteq> ?oid \<Longrightarrow> unsent c q t" "refused_unsent q s \<Longrightarrow> refused_unsent q t" for q
    using t(3,4) by (cases "q = ?oid"; simp add: unsent_def refused_unsent_def)+
  have "\<forall>v' \<in> set vs. unsent c (operation_id (row v')) t \<or> refused_unsent (operation_id (row v')) t"
    using Cons.prems(2) same t(3) by (metis list.set_intros(2))
  from Cons.IH [OF t(2) this] obtain u where u: "real_checks_of rws w (\<lambda>_. False) vs t = (ok, u)"
      "\<forall>v \<in> set vs. refused_unsent (operation_id (row v)) u" "\<forall>q. refused_unsent q t \<longrightarrow> refused_unsent q u" by blast
  then show ?case using t same by (auto simp: bindS_def Let_def)
qed simp

lemma calm_checks: "calm s (snd (real_checks_of rws w stopped vs s))"
  by (induction vs arbitrary: s) (auto simp: Let_def intro!: calm_bindS calm_real_check)

lemma row_of_startup_reviews:
  assumes "row_of d oid = Some v" "distinct (map operation_id (operations d))"
  shows "row_of (add_startup_reviews d) oid = Some (v\<lparr>recovery_pending := recovery_pending v \<or> awaiting_startup_review (row v)\<rparr>)"
proof -
  have "(\<exists>x \<in> set (reviews (add_startup_reviews d)). fst x = oid)
      \<longleftrightarrow> (\<exists>x \<in> set (reviews d). fst x = oid) \<or> (\<exists>r \<in> set (operations d). operation_id r = oid \<and> awaiting_startup_review r)"
    by (force simp: add_startup_reviews_def)
  moreover have "(\<exists>r \<in> set (operations d). operation_id r = oid \<and> awaiting_startup_review r) \<longleftrightarrow> awaiting_startup_review (row v)"
    using row_of_SomeD [OF assms(1)] find_row_distinct [OF assms(2)] by (metis option.inject)
  moreover have "operations (add_startup_reviews d) = operations d" "audits (add_startup_reviews d) = audits d"
      "checks (add_startup_reviews d) = checks d"
    by (simp_all add: add_startup_reviews_def)
  ultimately show ?thesis
    using assms(1) by (cases "find_row operation_id oid (operations d)") (auto simp: row_of_def)
qed

text \<open>What was admitted and never dispatched before a crash is settled when the process starts again: opening
  the REAL execution on working storage refuses, as not sent, every admission without a dispatch marker that is
  due, releases it from review, and asks the broker nothing.\<close>

theorem unsent_admission_is_refused_at_start:
  assumes "environment j = ''REAL''" "\<not> closed j" "\<not> failed j" "distinct (map operation_id (operations (db j)))"
    and "working w" "\<forall>oid. clock_now \<le> due_clock (rws oid)"
    and "row_of (db j) oid = Some v" "undispatched v" "recovery_disposition (row v) = None" "next_recovery_at (row v) \<le> clock_now"
  shows "\<exists>s. open_real rws clock_now w j cs = (ok, s) \<and> refused_unsent oid s \<and> calls (real s) = [] \<and> gateway s = []"
proof -
  define s0 where "s0 = \<lparr>real = \<lparr>journal = j, controls_of = cs, late_failure = [], late_identity = [], calls = []\<rparr>,
      execution = \<lparr>halted_since = None, last_lock_error = None\<rparr>, active_real = None, gateway = []\<rparr>"
  define j1 where "j1 = j\<lparr>db := add_startup_reviews (db j), reviewed := True\<rparr>"
  define s1 where "s1 = s0\<lparr>real := (real s0)\<lparr>journal := j1\<rparr>\<rparr>"
  have io: "io w x" "writable w x" for x using assms(5) by (simp_all add: working_def)
  have "\<exists>h. review True True j = (Inr h, j1)"
    using assms(2,3) by (simp add: review_def transaction_healthy health_def connection_def j1_def)
  then have first: "on_real (on_journal (\<lambda>j. case review (writable w ''review'') (io w ''review'') j of
             (Inl e, j) \<Rightarrow> (Inl e, j) | (Inr _, j) \<Rightarrow> (ok, j))) s0 = (ok, s1)"
    by (auto simp: on_real_iff on_journal_iff io s1_def s0_def)
  have j1: "\<not> closed j1" "\<not> failed j1" "distinct (map operation_id (operations (db j1)))"
    using assms(2-4) by (simp_all add: j1_def add_startup_reviews_def)
  then have s1: "serviceable s1" using assms(1) by (simp add: serviceable_def s1_def s0_def j1_def)
  obtain vs where vs: "recovery_rows True j1 clock_now = (Inr vs, j1)"
      "\<forall>v. v \<in> set vs \<longleftrightarrow> row_of (db j1) (operation_id (row v)) = Some v \<and> listed clock_now v"
    using recovery_rows_healthy [OF j1, of clock_now] .
  then have second: "on_real (on_journal (\<lambda>j. recovery_rows (io w ''due'') j clock_now)) s1 = (Inr vs, s1)"
    by (simp add: on_real_iff on_journal_iff io s1_def)
  let ?rws = "\<lambda>oid. (rws oid)\<lparr>stopping := False\<rparr>" and ?vs = "filter undispatched vs"
  have "\<forall>v \<in> set ?vs. unsent clock_now (operation_id (row v)) s1 \<or> refused_unsent (operation_id (row v)) s1"
    using vs(2) by (auto simp: unsent_def s1_def)
  then obtain t where t: "real_checks_of ?rws w (\<lambda>_. False) ?vs s1 = (ok, t)" "\<forall>v \<in> set ?vs. refused_unsent (operation_id (row v)) t"
    using not_dispatched_checks [OF s1 assms(5), of ?rws clock_now ?vs] assms(6) by auto
  let ?v = "v\<lparr>recovery_pending := True\<rparr>"
  have "row_of (db j1) oid = Some ?v"
    using row_of_startup_reviews [OF assms(7,4)] assms(8,9) by (simp add: j1_def awaiting_startup_review_def undispatched_def)
  moreover have "operation_id (row v) = oid" using row_of_SomeD [OF assms(7)] by simp
  ultimately have "?v \<in> set ?vs" using vs(2) assms(8,10) by (simp add: undispatched_def listed_def)
  then have refused: "refused_unsent oid t" using t(2) \<open>operation_id (row v) = oid\<close> by force
  have opened: "open_real rws clock_now w j cs = (ok, t)"
    using assms(1) t(1) by (simp add: open_real_def Let_def s0_def [symmetric] bindS_def first second)
  moreover have "calm s1 t" using calm_checks [of s1 ?rws w "\<lambda>_. False" ?vs] t(1) by simp
  ultimately show ?thesis using refused by (auto simp: calm_def steady_def quiet_def s1_def s0_def)
qed

definition sample_unsent :: store where
  "sample_unsent = \<lparr>db = empty_journal\<lparr>operations := [sample_placement], epochs := [''e1'', ''e2'']\<rparr>, environment = ''REAL'', epoch = ''e2'',
     reviewed = False, failed = False, closed = False\<rparr>"

lemma sample_unsent_row:
  obtains v where "row_of (db sample_unsent) ''op1'' = Some v" "undispatched v" "recovery_disposition (row v) = None"
    "next_recovery_at (row v) = 0"
  by (simp add: sample_unsent_def empty_journal_def sample_placement_def new_operation_def row_of_def undispatched_def)

theorem unsent_admission_is_refused_at_start_witness:
  "\<exists>s. open_real (\<lambda>_. sample_answer) 0 sample_world sample_unsent None = (ok, s) \<and> refused_unsent ''op1'' s \<and> calls (real s) = []"
proof -
  obtain v where v: "row_of (db sample_unsent) ''op1'' = Some v" "undispatched v" "recovery_disposition (row v) = None"
    "next_recovery_at (row v) = 0" by (rule sample_unsent_row)
  have "environment sample_unsent = ''REAL''" "\<not> closed sample_unsent" "\<not> failed sample_unsent"
      "distinct (map operation_id (operations (db sample_unsent)))" "\<forall>oid :: string. 0 \<le> due_clock sample_answer"
    by (simp_all add: sample_unsent_def sample_answer_def)
  from unsent_admission_is_refused_at_start [OF this(1-4) sample_empty(2) this(5) v(1-3)] v(4) show ?thesis by auto
qed

text \<open>A check of the same admission, under review in a service that is running.\<close>

definition sample_stalled :: service where
  "sample_stalled = \<lparr>real = \<lparr>journal = sample_unsent\<lparr>db := (db sample_unsent)\<lparr>reviews := [(''op1'', ''STARTUP_REVIEW'')]\<rparr>\<rparr>, controls_of = None,
       late_failure = [], late_identity = [], calls = []\<rparr>,
     execution = \<lparr>halted_since = None, last_lock_error = None\<rparr>, active_real = None, gateway = []\<rparr>"


text \<open>A combination the broker reports with its legs.\<close>

definition sample_legs :: pyval where
  "sample_legs = PList [as_dict [(''code'', PStr ''US.A''), (''trd_side'', PStr ''BUY''), (''qty_ratio'', PInt 1)],
     as_dict [(''code'', PStr ''US.B''), (''trd_side'', PStr ''SELL''), (''qty_ratio'', PInt 2)]] []"

definition sample_combo :: operation where
  "sample_combo = (new_operation ''op2'' ''e1'' 7 PLACE_COMBO ''c'' ''c'' [(''combo_legs'', sample_legs), (''qty'', PInt 3),
     (''price'', PStr ''1.5''), (''order_type'', PStr ''NORMAL''), (''time_in_force'', PStr ''DAY'')] (Some ''tag2'') 100)"

definition sample_combo_order :: pydict where
  "sample_combo_order = [(''order_id'', PStr ''56''), (''remark'', PStr ''tag2''), (''order_status'', PStr ''SUBMITTED''),
     (''order_type'', PStr ''NORMAL''), (''qty'', PInt 3), (''price'', PStr ''1.50''), (''dealt_qty'', PInt 0), (''dealt_avg_price'', PInt 0),
     (''time_in_force'', PStr ''DAY''), (''combo_legs'', sample_legs)]"

theorem confirmed_real_placement_is_the_request_witness:
  "same_amount sample_combo_order (expected_request sample_combo) ''price''
   \<and> (\<exists>ls. leg_identities (shown_legs sample_combo_order) = Inr ls)"
proof -
  have "case real_account_matches sample_answer sample_combo [sample_combo_order] of Inr (Some x) \<Rightarrow> True | _ \<Rightarrow> False"
    by code_simp
  then obtain final facts resolution where
      a: "real_account_matches sample_answer sample_combo [sample_combo_order] = Inr (Some (final, facts, resolution))"
    by (auto split: sum.splits option.splits)
  have k: "kind sample_combo \<in> placements" "kind sample_combo = PLACE_COMBO" by (simp_all add: sample_combo_def new_operation_def)
  from confirmed_real_placement_is_the_request [OF a k(1)] k(2) show ?thesis by auto
qed

end
