(* ===== verification/Broker_Dispatch.thy ===== *)
theory Broker_Dispatch
  imports Rate_Limit Py_Values
begin

text \<open>
  \<open>services/broker_dispatch.py\<close>: the gate before every SDK call. Each operation has a rolling budget, some are
  shared by a group or kept per account; the limiters of the pools are those of \<open>Rate_Limit\<close>. A caller reserves a
  bundle of requests synchronously, or waits for it and gets a lease; a lease that is cancelled starts no more
  calls, except those a mutation has protected. Reads have a deadline, a bounded number of waiting callers and of
  workers.

  The parts of a call that run under different locks are separate definitions: reserving, starting with the SDK
  call that follows, and releasing. The clock readings are arguments.
\<close>

subsection \<open>Policies\<close>

type_synonym pool_key = "string \<times> int option"

record op_policy =
  op_calls :: int
  op_scope :: string
  op_group :: string
  op_condition :: string
  op_interval :: pyfloat

definition plain_policy :: "int \<Rightarrow> string \<Rightarrow> op_policy" where
  "plain_policy n sc = \<lparr>op_calls = n, op_scope = sc, op_group = [], op_condition = ''always'', op_interval = Fin 0\<rparr>"

definition OPERATION_POLICIES :: "(string \<times> op_policy) list" where
  "OPERATION_POLICIES =
    [(''get_rehab'', plain_policy 60 ''gateway''),
     (''get_corporate_actions_dividends'', plain_policy 30 ''gateway''),
     (''get_earnings_calendar'', plain_policy 60 ''gateway''),
     (''get_option_volatility'', plain_policy 30 ''gateway''),
     (''accinfo_query'', (plain_policy 10 ''account'')\<lparr>op_condition := ''refresh''\<rparr>),
     (''position_list_query'', (plain_policy 10 ''account'')\<lparr>op_condition := ''refresh''\<rparr>),
     (''order_list_query'', (plain_policy 10 ''account'')\<lparr>op_condition := ''refresh''\<rparr>),
     (''deal_list_query'', (plain_policy 10 ''account'')\<lparr>op_condition := ''refresh''\<rparr>),
     (''history_order_list_query'', plain_policy 10 ''account''),
     (''history_deal_list_query'', plain_policy 10 ''account''),
     (''order_fee_query'', plain_policy 10 ''account''),
     (''acctradinginfo_query'', (plain_policy 10 ''account'')\<lparr>op_group := ''max_tradable''\<rparr>),
     (''comboorder_tradinginfo_query'', (plain_policy 10 ''account'')\<lparr>op_group := ''max_tradable''\<rparr>),
     (''get_margin_ratio'', plain_policy 10 ''user''),
     (''get_acc_cash_flow'', plain_policy 20 ''account''),
     (''unlock_trade'', plain_policy 10 ''user''),
     (''place_order'', (plain_policy 15 ''account'')\<lparr>op_group := ''order_placement'', op_interval := round64 (2 / 100)\<rparr>),
     (''place_combo_order'', (plain_policy 15 ''account'')\<lparr>op_group := ''order_placement'', op_interval := round64 (2 / 100)\<rparr>),
     (''modify_order'', (plain_policy 20 ''account'')\<lparr>op_interval := round64 (4 / 100)\<rparr>),
     (''get_market_snapshot'', plain_policy 60 ''gateway''),
     (''request_history_kline'', (plain_policy 60 ''gateway'')\<lparr>op_condition := ''initial_page''\<rparr>),
     (''get_option_expiration_date'', plain_policy 60 ''gateway''),
     (''get_option_chain'', plain_policy 10 ''gateway''),
     (''get_market_state'', plain_policy 10 ''gateway''),
     (''request_trading_days'', plain_policy 30 ''gateway''),
     (''get_user_security_group'', plain_policy 10 ''gateway''),
     (''get_user_security'', plain_policy 10 ''gateway'')]"

definition UNTIMED_OPERATIONS :: "string list" where
  "UNTIMED_OPERATIONS = [''get_history_kl_quota'', ''get_acc_list'', ''get_global_state'', ''get_stock_basicinfo'',
     ''get_stock_quote'', ''get_order_book'', ''subscribe'', ''unsubscribe'', ''query_subscription'']"

definition operation_policy :: "string \<Rightarrow> op_policy res" where
  "operation_policy op = (case map_of OPERATION_POLICIES op of None \<Rightarrow> raise KeyError op | Some p \<Rightarrow> Inr p)"

subsection \<open>Requests\<close>

record quota_request =
  quota_operation :: string
  quota_account :: "int option"
  quota_weight :: int

text \<open>\<open>int(value)\<close>.\<close>

fun int_value :: "pyval \<Rightarrow> int res" where
  "int_value (PInt n) = Inr n"
| "int_value (PBool b) = Inr (if b then 1 else 0)"
| "int_value (PStr s) = int_of_text s"
| "int_value (PFloat f t) = int_of_float (\<lambda>x. if 0 \<le> x then \<lfloor>x\<rfloor> else \<lceil>x\<rceil>) f"
| "int_value v = raise TypeError ''int''"

definition quota_request_for :: "string \<Rightarrow> (string \<times> pyval) list \<Rightarrow> quota_request option res" where
  "quota_request_for op kw =
     (if op \<in> set UNTIMED_OPERATIONS then Inr None
      else bindR (operation_policy op) (\<lambda>p.
        if op_condition p = ''refresh'' \<and> \<not> truthy (dict_get kw ''refresh_cache'' (PBool False)) then Inr None
        else if op_condition p = ''initial_page'' \<and> truthy (dict_get kw ''page_req_key'' PNone) then Inr None
        else if op_scope p = ''account'' then
          bindR (int_value (dict_get kw ''acc_id'' (PInt 0))) (\<lambda>n.
            if n \<le> 0 then raise ValueError ''Resolve the broker account''
            else Inr (Some \<lparr>quota_operation = op, quota_account = Some n, quota_weight = 1\<rparr>))
        else Inr (Some \<lparr>quota_operation = op, quota_account = None, quota_weight = 1\<rparr>)))"

definition pool_of :: "quota_request \<Rightarrow> pool_key res" where
  "pool_of q = bindR (operation_policy (quota_operation q)) (\<lambda>p.
     if op_scope p = ''account'' \<and> (case quota_account q of None \<Rightarrow> True | Some n \<Rightarrow> n \<le> 0)
     then raise ValueError ''requires a resolved account ID''
     else Inr (if op_group p = [] then quota_operation q else op_group p,
               if op_scope p = ''account'' then quota_account q else None))"

text \<open>\<open>_merged\<close>: a dictionary in the order of first mention; of two requests of one pool the later remains,
  with the sum of the weights.\<close>

definition put_slot :: "'k \<Rightarrow> 'v \<Rightarrow> ('k \<times> 'v) list \<Rightarrow> ('k \<times> 'v) list" where
  "put_slot k v d = (if k \<in> fst ` set d then map (\<lambda>(k', v'). (k', if k' = k then v else v')) d else d @ [(k, v)])"

fun merge_requests :: "quota_request list \<Rightarrow> (pool_key \<times> quota_request) list \<Rightarrow> (pool_key \<times> quota_request) list res" where
  "merge_requests [] d = Inr d"
| "merge_requests (q # qs) d = bindR (pool_of q) (\<lambda>k.
     merge_requests qs (put_slot k (case map_of d k of None \<Rightarrow> q
       | Some q' \<Rightarrow> q\<lparr>quota_weight := quota_weight q' + quota_weight q\<rparr>) d))"

subsection \<open>State\<close>

text \<open>A lease holds the reservations of an admitted tool call.\<close>

record lease =
  lease_slots :: "(pool_key \<times> nat) list"
  lease_closed :: bool
  lease_cancelled :: bool
  lease_protected :: "pool_key list"

record dispatch_limits =
  dispatch_wait :: pyfloat
  read_timeout :: pyfloat
  max_inflight_reads :: int
  max_pending_reads :: int

text \<open>The pools, the leases, the counters of reads; and a log of the starts (pool and time in milliseconds) and
  of the SDK calls they were for.\<close>

record 'b dispatcher =
  limits :: dispatch_limits
  pools :: "(pool_key \<times> 'b limiter) list"
  leases :: "(nat \<times> lease) list"
  read_workers :: int
  pending_reads :: int
  started :: "(pool_key \<times> int) list"
  sdk_calls :: "(pool_key \<times> int) list"

definition make_dispatcher :: "pyval \<Rightarrow> pyval \<Rightarrow> pyfloat \<Rightarrow> pyfloat \<Rightarrow> 'b limiter option \<Rightarrow> 'b dispatcher res" where
  "make_dispatcher inflight waiting wait timeout chain =
     (if \<not> isfinite wait \<or> wait < Fin 0 then raise ValueError ''max_wait_seconds''
      else if \<not> isfinite timeout \<or> timeout \<le> Fin 0 then raise ValueError ''read_timeout_seconds''
      else case (inflight, waiting) of
        (PInt i, PInt n) \<Rightarrow>
          if i < 1 then raise ValueError ''max_inflight_reads''
          else if n < 1 then raise ValueError ''max_pending_reads''
          else Inr \<lparr>limits = \<lparr>dispatch_wait = wait, read_timeout = timeout, max_inflight_reads = i, max_pending_reads = n\<rparr>,
            pools = (case chain of None \<Rightarrow> [] | Some L \<Rightarrow> [((''get_option_chain'', None), L)]),
            leases = [], read_workers = 0, pending_reads = 0, started = [], sdk_calls = []\<rparr>
      | (PInt i, _) \<Rightarrow> raise ValueError (if i < 1 then ''max_inflight_reads'' else ''max_pending_reads'')
      | _ \<Rightarrow> raise ValueError ''max_inflight_reads'')"

definition pool_policy :: "dispatch_limits \<Rightarrow> pool_key \<Rightarrow> op_policy \<Rightarrow> rate_policy" where
  "pool_policy lms k p = \<lparr>rate_operation = fst k, rate_calls = op_calls p, period_seconds = Fin 30,
     safety_margin_seconds = round64 (1 / 10), max_wait_seconds = dispatch_wait lms, min_interval_seconds = op_interval p\<rparr>"

text \<open>\<open>limiter\<close>: the limiter of the pool of a request, made at the first use.\<close>

definition limiter_of :: "'b bucket_api \<Rightarrow> quota_request \<Rightarrow> 'b dispatcher \<Rightarrow> (pool_key \<times> 'b limiter) res \<times> 'b dispatcher" where
  "limiter_of B q d = (case pool_of q of
     Inl e \<Rightarrow> (Inl e, d)
   | Inr k \<Rightarrow> (case map_of (pools d) k of
       Some L \<Rightarrow> (Inr (k, L), d)
     | None \<Rightarrow> (case bindR (operation_policy (quota_operation q)) (\<lambda>p.
           bindR (check_rate_policy (pool_policy (limits d) k p)) (\<lambda>_. make_limiter B (pool_policy (limits d) k p))) of
         Inl e \<Rightarrow> (Inl e, d)
       | Inr L \<Rightarrow> (Inr (k, L), d\<lparr>pools := pools d @ [(k, L)]\<rparr>))))"

definition set_pool :: "pool_key \<Rightarrow> 'b limiter \<Rightarrow> 'b dispatcher \<Rightarrow> 'b dispatcher" where
  "set_pool k L d = d\<lparr>pools := put_slot k L (pools d)\<rparr>"

definition slot_remaining :: "pool_key \<Rightarrow> nat \<Rightarrow> 'b dispatcher \<Rightarrow> nat" where
  "slot_remaining k r d = (case map_of (pools d) k of None \<Rightarrow> 0 | Some L \<Rightarrow> remaining r L)"

definition release_slot :: "pool_key \<times> nat \<Rightarrow> 'b dispatcher \<Rightarrow> 'b dispatcher" where
  "release_slot kr d = (case map_of (pools d) (fst kr) of None \<Rightarrow> d | Some L \<Rightarrow> set_pool (fst kr) (release (snd kr) L) d)"

definition release_slots :: "(pool_key \<times> nat) list \<Rightarrow> 'b dispatcher \<Rightarrow> 'b dispatcher" where
  "release_slots krs d = fold release_slot krs d"

subsection \<open>Reserving\<close>

definition pool_reserve :: "'b bucket_api \<Rightarrow> pyfloat \<Rightarrow> quota_request \<Rightarrow> 'b dispatcher \<Rightarrow> nat res \<times> 'b dispatcher" where
  "pool_reserve B t q d = (case limiter_of B q d of
     (Inl e, d) \<Rightarrow> (Inl e, d)
   | (Inr (k, L), d) \<Rightarrow> (case reserve B t (quota_weight q) L of (r, L') \<Rightarrow> (r, set_pool k L' d)))"

text \<open>The loop of \<open>reserve\<close>: a slot that the context lends and that has enough left is used; \<open>clk\<close> is the clock
  at the reservation in a pool. The slots, and those this call owns.\<close>

fun reserve_each ::
    "'b bucket_api \<Rightarrow> (pool_key \<Rightarrow> pyfloat) \<Rightarrow> (pool_key \<times> quota_request) list \<Rightarrow> (pool_key \<times> nat) list \<Rightarrow> (pool_key \<times> nat) list \<Rightarrow>
     'b dispatcher \<Rightarrow> unit res \<times> (pool_key \<times> nat) list \<times> (pool_key \<times> nat) list \<times> 'b dispatcher" where
  "reserve_each B clk [] slots owned d = (ok, slots, owned, d)"
| "reserve_each B clk ((k, q) # qs) slots owned d =
     (if (case map_of slots k of None \<Rightarrow> False | Some r \<Rightarrow> quota_weight q \<le> int (slot_remaining k r d))
      then reserve_each B clk qs slots owned d
      else case pool_reserve B (clk k) q d of
        (Inl e, d) \<Rightarrow> (Inl e, slots, owned, d)
      | (Inr r, d) \<Rightarrow> reserve_each B clk qs (put_slot k r slots) (owned @ [(k, r)]) d)"

text \<open>\<open>reserve\<close> up to its \<open>yield\<close>; a failure releases what was reserved. The caller releases \<open>owned\<close> when it leaves.\<close>

definition reserve_bundle ::
    "'b bucket_api \<Rightarrow> (pool_key \<Rightarrow> pyfloat) \<Rightarrow> quota_request list \<Rightarrow> (pool_key \<times> nat) list \<Rightarrow> 'b dispatcher \<Rightarrow>
     ((pool_key \<times> nat) list \<times> (pool_key \<times> nat) list) res \<times> 'b dispatcher" where
  "reserve_bundle B clk qs slots d = (case merge_requests qs [] of
     Inl e \<Rightarrow> (Inl e, d)
   | Inr merged \<Rightarrow> (case reserve_each B clk merged slots [] d of
       (Inl e, _, owned, d) \<Rightarrow> (Inl e, release_slots owned d)
     | (Inr _, slots, owned, d) \<Rightarrow> (Inr (slots, owned), d)))"

subsection \<open>Leases\<close>

definition lease_begin :: "lease \<Rightarrow> unit res" where
  "lease_begin l = guardR (lease_closed l \<or> lease_cancelled l) (Exn RuntimeError ''admission was cancelled'')"

definition lease_protect :: "pool_key list \<Rightarrow> lease \<Rightarrow> lease res" where
  "lease_protect ks l = (if lease_cancelled l then raise RuntimeError ''admission was cancelled''
     else Inr (l\<lparr>lease_protected := lease_protected l @ ks\<rparr>))"

definition lease_unprotect :: "pool_key list \<Rightarrow> lease \<Rightarrow> lease" where
  "lease_unprotect ks l = l\<lparr>lease_protected := filter (\<lambda>k. k \<notin> set ks) (lease_protected l)\<rparr>"

text \<open>Changing a lease of the dispatcher.\<close>

definition set_lease :: "nat \<Rightarrow> lease \<Rightarrow> 'b dispatcher \<Rightarrow> 'b dispatcher" where
  "set_lease i l d = d\<lparr>leases := put_slot i l (leases d)\<rparr>"

definition lease_finish :: "nat \<Rightarrow> 'b dispatcher \<Rightarrow> 'b dispatcher" where
  "lease_finish i d = (case map_of (leases d) i of
     None \<Rightarrow> d | Some l \<Rightarrow> release_slots (lease_slots l) (set_lease i (l\<lparr>lease_closed := True\<rparr>) d))"

definition lease_cancel_pending :: "nat \<Rightarrow> 'b dispatcher \<Rightarrow> 'b dispatcher" where
  "lease_cancel_pending i d = (case map_of (leases d) i of
     None \<Rightarrow> d
   | Some l \<Rightarrow> release_slots (filter (\<lambda>kr. fst kr \<notin> set (lease_protected l)) (lease_slots l))
       (set_lease i (l\<lparr>lease_cancelled := True\<rparr>) d))"

text \<open>\<open>protect_mutation\<close>, around its body.\<close>

definition protect_mutation :: "quota_request list \<Rightarrow> nat option \<Rightarrow> 'b dispatcher \<Rightarrow> pool_key list res \<times> 'b dispatcher" where
  "protect_mutation qs lid d = (case mapR pool_of qs of
     Inl e \<Rightarrow> (Inl e, d)
   | Inr ks \<Rightarrow> (case lid of
       None \<Rightarrow> (Inr ks, d)
     | Some i \<Rightarrow> (case map_of (leases d) i of
         None \<Rightarrow> (Inr ks, d)
       | Some l \<Rightarrow> (case lease_protect ks l of Inl e \<Rightarrow> (Inl e, d) | Inr l' \<Rightarrow> (Inr ks, set_lease i l' d)))))"

definition unprotect_mutation :: "pool_key list \<Rightarrow> nat option \<Rightarrow> 'b dispatcher \<Rightarrow> 'b dispatcher" where
  "unprotect_mutation ks lid d = (case lid of
     None \<Rightarrow> d
   | Some i \<Rightarrow> (case map_of (leases d) i of None \<Rightarrow> d | Some l \<Rightarrow> set_lease i (lease_unprotect ks l) d))"

subsection \<open>Reads\<close>

text \<open>\<open>_ReadCall\<close>: the phases in progress are \<open>read_starts\<close>.\<close>

record read_call =
  read_operation :: string
  read_limit :: pyfloat
  read_started :: pyfloat
  read_until :: pyfloat
  read_phase :: string
  read_cancelled :: bool
  read_finished :: "pyfloat option"
  read_durations :: "(string \<times> pyfloat) list"
  read_starts :: "(string \<times> pyfloat) list"
  sdk_started :: nat
  sdk_completed :: nat

definition new_read :: "string \<Rightarrow> pyfloat \<Rightarrow> pyfloat \<Rightarrow> read_call" where
  "new_read op timeout t = \<lparr>read_operation = op, read_limit = timeout, read_started = t, read_until = fadd t timeout,
     read_phase = ''admission'', read_cancelled = False, read_finished = None, read_durations = [], read_starts = [],
     sdk_started = 0, sdk_completed = 0\<rparr>"

definition read_check :: "pyfloat \<Rightarrow> read_call \<Rightarrow> unit res" where
  "read_check t x = (if read_cancelled x then raise RuntimeError ''Read await was cancelled''
     else if read_until x \<le> t then raise OSError ''BrokerReadTimeoutError'' else ok)"

definition read_cancel :: "read_call \<Rightarrow> read_call" where
  "read_cancel x = x\<lparr>read_cancelled := True\<rparr>"

definition read_finish :: "pyfloat \<Rightarrow> read_call \<Rightarrow> read_call" where
  "read_finish t x = x\<lparr>read_finished := Some t\<rparr>"

text \<open>\<open>measure\<close>: its entry, and its exit with the phase before and whether the body failed.\<close>

definition measure_begin :: "string \<Rightarrow> pyfloat \<Rightarrow> read_call \<Rightarrow> read_call" where
  "measure_begin phase t x = x\<lparr>read_phase := phase, read_starts := put_slot phase t (read_starts x),
     sdk_started := sdk_started x + (if phase = ''sdk'' then 1 else 0)\<rparr>"

definition measure_end :: "string \<Rightarrow> string \<Rightarrow> bool \<Rightarrow> pyfloat \<Rightarrow> read_call \<Rightarrow> read_call" where
  "measure_end phase previous body_failed t x = (case map_of (read_starts x) phase of
     None \<Rightarrow> x
   | Some t0 \<Rightarrow> x\<lparr>read_starts := filter (\<lambda>p. fst p \<noteq> phase) (read_starts x),
       read_durations := put_slot phase
         (fadd (case map_of (read_durations x) phase of None \<Rightarrow> Fin 0 | Some e \<Rightarrow> e) (fsub t t0)) (read_durations x),
       sdk_completed := sdk_completed x + (if phase = ''sdk'' then 1 else 0),
       read_phase := (if \<not> read_cancelled x \<and> \<not> body_failed then previous else read_phase x)\<rparr>)"

definition sdk_in_flight :: "read_call \<Rightarrow> bool" where
  "sdk_in_flight x \<longleftrightarrow> ''sdk'' \<in> fst ` set (read_starts x)"

text \<open>\<open>_invoke\<close>: the SDK function answers \<open>answer\<close>; \<open>abandoned\<close> says that the await was cancelled while it ran. The
  result, whether the SDK was called, and the read.\<close>

definition invoke ::
    "(string \<Rightarrow> pyfloat) \<Rightarrow> 'a res \<Rightarrow> bool \<Rightarrow> read_call option \<Rightarrow> 'a res \<times> bool \<times> read_call option" where
  "invoke t answer abandoned ro = (case ro of
     None \<Rightarrow> (answer, True, None)
   | Some x \<Rightarrow> (case read_check (t ''before'') x of
       Inl e \<Rightarrow> (Inl e, False, Some x)
     | Inr _ \<Rightarrow>
        let running = measure_begin ''sdk'' (t ''sdk'') x;
            x' = measure_end ''sdk'' (read_phase x) (isl answer) (t ''after'') (if abandoned then read_cancel running else running) in
        (bindR answer (\<lambda>v. bindR (read_check (t ''late'') x') (\<lambda>_. Inr v)), True, Some x')))"

text \<open>The slots of a read: \<open>read_deadline\<close> admits, \<open>read_worker\<close> takes a worker.\<close>

definition read_enter :: "'b dispatcher \<Rightarrow> unit res \<times> 'b dispatcher" where
  "read_enter d = (if max_pending_reads (limits d) \<le> pending_reads d then (raise RuntimeError ''BrokerReadOverloadError'', d)
     else (ok, d\<lparr>pending_reads := pending_reads d + 1\<rparr>))"

definition read_exit :: "'b dispatcher \<Rightarrow> 'b dispatcher" where
  "read_exit d = d\<lparr>pending_reads := pending_reads d - 1\<rparr>"

text \<open>One round of the waiting loop: \<open>None\<close> while no worker is free.\<close>

definition worker_round :: "pyfloat \<Rightarrow> read_call \<Rightarrow> 'b dispatcher \<Rightarrow> bool res \<times> 'b dispatcher" where
  "worker_round t x d = (case read_check t x of
     Inl e \<Rightarrow> (Inl e, d)
   | Inr _ \<Rightarrow> if read_workers d < max_inflight_reads (limits d)
       then (Inr True, d\<lparr>read_workers := read_workers d + 1\<rparr>) else (Inr False, d))"

definition worker_exit :: "'b dispatcher \<Rightarrow> 'b dispatcher" where
  "worker_exit d = d\<lparr>read_workers := read_workers d - 1\<rparr>"

subsection \<open>Calls\<close>

text \<open>The start of a reserved call, under the lock of its lease where there is one.\<close>

definition start_slot :: "'b bucket_api \<Rightarrow> pyfloat \<Rightarrow> pool_key \<Rightarrow> nat \<Rightarrow> 'b dispatcher \<Rightarrow> unit res \<times> 'b dispatcher" where
  "start_slot B t k r d = (case map_of (pools d) k of
     None \<Rightarrow> (raise RuntimeError ''already released or used'', d)
   | Some L \<Rightarrow> (case start B t r L of
       (Inl e, L') \<Rightarrow> (Inl e, set_pool k L' d)
     | (Inr _, L') \<Rightarrow> (case milliseconds floor t of
         Inl e \<Rightarrow> (Inl e, d)
       | Inr ts \<Rightarrow> (ok, (set_pool k L' d)\<lparr>started := started d @ [(k, ts)]\<rparr>))))"

definition lease_allows :: "pool_key option \<Rightarrow> nat option \<Rightarrow> 'b dispatcher \<Rightarrow> unit res" where
  "lease_allows k lid d = (case lid of
     None \<Rightarrow> ok
   | Some i \<Rightarrow> (case map_of (leases d) i of
       None \<Rightarrow> ok
     | Some l \<Rightarrow> guardR (lease_cancelled l \<and> k \<notin> Some ` set (lease_protected l)) (Exn RuntimeError ''admission was cancelled'')))"

text \<open>Start and SDK call of a pooled operation. The SDK function answers \<open>answer\<close>.\<close>

definition start_call ::
    "'b bucket_api \<Rightarrow> pyfloat \<Rightarrow> (string \<Rightarrow> pyfloat) \<Rightarrow> pool_key \<Rightarrow> nat \<Rightarrow> nat option \<Rightarrow> 'a res \<Rightarrow> bool \<Rightarrow>
     read_call option \<Rightarrow> 'b dispatcher \<Rightarrow> 'a res \<times> read_call option \<times> 'b dispatcher" where
  "start_call B t clk k r lid answer abandoned ro d = (case lease_allows (Some k) lid d of
     Inl e \<Rightarrow> (Inl e, ro, d)
   | Inr _ \<Rightarrow> (case start_slot B t k r d of
       (Inl e, d) \<Rightarrow> (Inl e, ro, d)
     | (Inr _, d) \<Rightarrow> (case invoke clk answer abandoned ro of (v, called, ro) \<Rightarrow>
         (v, ro, if called then d\<lparr>sdk_calls := sdk_calls d @ [last (started d)]\<rparr> else d))))"

text \<open>\<open>call\<close>, when no other thread acts between its parts.\<close>

definition sdk_call ::
    "'b bucket_api \<Rightarrow> (string \<Rightarrow> pyfloat) \<Rightarrow> string \<Rightarrow> (string \<times> pyval) list \<Rightarrow> (pool_key \<times> nat) list \<Rightarrow> nat option \<Rightarrow> 'a res \<Rightarrow>
     bool \<Rightarrow> read_call option \<Rightarrow> 'b dispatcher \<Rightarrow> 'a res \<times> read_call option \<times> 'b dispatcher" where
  "sdk_call B clk op kw slots lid answer abandoned ro d =
     (case bindR (case ro of None \<Rightarrow> ok | Some x \<Rightarrow> read_check (clk ''call'') x) (\<lambda>_. quota_request_for op kw) of
        Inl e \<Rightarrow> (Inl e, ro, d)
      | Inr None \<Rightarrow> (case lease_allows None lid d of
          Inl e \<Rightarrow> (Inl e, ro, d)
        | Inr _ \<Rightarrow> (case invoke clk answer abandoned ro of (v, _, ro) \<Rightarrow> (v, ro, d)))
      | Inr (Some q) \<Rightarrow> (case reserve_bundle B (\<lambda>_. clk ''reserve'') [q] slots d of
          (Inl e, d) \<Rightarrow> (Inl e, ro, d)
        | (Inr (slots, owned), d) \<Rightarrow> (case bindR (pool_of q) (\<lambda>k. case map_of slots k of
              None \<Rightarrow> raise KeyError (fst k) | Some r \<Rightarrow> Inr (k, r)) of
            Inl e \<Rightarrow> (Inl e, ro, release_slots owned d)
          | Inr (k, r) \<Rightarrow> (case start_call B (clk ''start'') clk k r lid answer abandoned ro d of
              (v, ro, d) \<Rightarrow> (v, ro, release_slots owned d)))))"

subsection \<open>Waiting for a bundle\<close>

text \<open>\<open>run_async\<close>: the entry of a wait in the pool of a request, a round of it, and the end of the waiting, when the
  reservations become a lease. A failed wait releases the reservations before it.\<close>

definition async_begin ::
    "'b bucket_api \<Rightarrow> pyfloat \<Rightarrow> quota_request \<Rightarrow> pyfloat \<Rightarrow> nat \<Rightarrow> 'b dispatcher \<Rightarrow> (nat res + pyfloat) \<times> 'b dispatcher" where
  "async_begin B t q deadline ticket d = (case limiter_of B q d of
     (Inl e, d) \<Rightarrow> (Inl (Inl e), d)
   | (Inr (k, L), d) \<Rightarrow> (case acquire_begin B t (quota_weight q) (Some deadline) ticket L of (r, L') \<Rightarrow> (r, set_pool k L' d)))"

definition async_round ::
    "'b bucket_api \<Rightarrow> pyfloat \<Rightarrow> pyfloat \<Rightarrow> pyfloat \<Rightarrow> pyfloat \<Rightarrow> quota_request \<Rightarrow> nat \<Rightarrow> 'b dispatcher \<Rightarrow>
     round_result \<times> 'b dispatcher" where
  "async_round B deadline t1 t2 t3 q ticket d = (case limiter_of B q d of
     (Inl e, d) \<Rightarrow> (Refused e, d)
   | (Inr (k, L), d) \<Rightarrow> (case acquire_round B deadline t1 t2 t3 (quota_weight q) ticket L of (w, L') \<Rightarrow> (w, set_pool k L' d)))"

definition open_lease :: "nat \<Rightarrow> (pool_key \<times> nat) list \<Rightarrow> 'b dispatcher \<Rightarrow> 'b dispatcher" where
  "open_lease i slots d = set_lease i \<lparr>lease_slots = slots, lease_closed = False, lease_cancelled = False, lease_protected = []\<rparr> d"

end
