(* ===== verification/Dispatch_Runs.thy ===== *)
theory Dispatch_Runs
  imports Broker_Dispatch "HOL-Library.Sublist"
begin

text \<open>
  Runs of the dispatcher: any interleaving of reservations, waits, starts, releases, leases and reads. Each pool
  stays within its budget because its limiter does; the SDK calls are among the starts; and the counters of reads
  stay within their bounds.
\<close>

subsection \<open>Dictionaries and histories\<close>

lemma map_of_overwrite:
  "map_of (map (\<lambda>(k', v'). (k', if k' = k then v else v')) d) j
     = (if j = k \<and> k \<in> fst ` set d then Some v else map_of d j)"
proof (induction d)
  case (Cons x d)
  then show ?case by (cases "fst x = k"; cases "j = fst x") (simp_all add: case_prod_unfold)
qed simp

lemma map_of_put_slot [simp]: "map_of (put_slot k v d) j = (if j = k then Some v else map_of d j)"
proof (cases "k \<in> fst ` set d")
  case True
  then show ?thesis by (simp add: put_slot_def map_of_overwrite)
next
  case False
  then have "map_of d k = None" by (simp add: map_of_eq_None_iff)
  with False show ?thesis by (cases "map_of d j") (auto simp: put_slot_def map_add_def)
qed

definition calls_of :: "pool_key \<Rightarrow> (pool_key \<times> int) list \<Rightarrow> int list" where
  "calls_of k xs = map snd (filter (\<lambda>x. fst x = k) xs)"

lemma calls_of_simps [simp]:
  "calls_of k [] = []" "calls_of k (xs @ [x]) = calls_of k xs @ (if fst x = k then [snd x] else [])"
  by (simp_all add: calls_of_def)

lemma in_window_subseq:
  assumes "subseq xs ys"
  shows "in_window w T (calls_of k xs) \<le> in_window w T (calls_of k ys)"
  unfolding in_window_def calls_of_def
  using assms by (intro list_emb_length [where P = "(=)"] subseq_filter subseq_map)

subsection \<open>Policies of the pools\<close>

text \<open>An operation whose requests go to a pool.\<close>

definition governs :: "op_policy \<Rightarrow> pool_key \<Rightarrow> bool" where
  "governs p k \<longleftrightarrow> (\<exists>q. pool_of q = Inr k \<and> operation_policy (quota_operation q) = Inr p)"

definition grouped :: "string \<Rightarrow> op_policy \<Rightarrow> bool" where
  "grouped op p \<longleftrightarrow>
     (op_group p = [] \<and> op \<noteq> ''max_tradable'' \<and> op \<noteq> ''order_placement'')
   \<or> (op_group p = ''max_tradable'' \<and> op_calls p = 10 \<and> op_interval p = Fin 0)
   \<or> (op_group p = ''order_placement'' \<and> op_calls p = 15 \<and> op_interval p = round64 (2 / 100))"

lemma policies_grouped: "list_all (\<lambda>(op, p). grouped op p \<and> 1 \<le> op_calls p) OPERATION_POLICIES"
  by (simp add: OPERATION_POLICIES_def plain_policy_def grouped_def)

lemma operation_policy_grouped:
  assumes "operation_policy op = Inr p"
  shows "grouped op p" "1 \<le> op_calls p"
  using assms policies_grouped
  by (auto simp: operation_policy_def list_all_iff split: option.splits dest!: map_of_SomeD)

text \<open>All operations of a pool have the same budget.\<close>

lemma governs_unique:
  assumes "governs p k" "governs p' k"
  shows "op_calls p = op_calls p'" "op_interval p = op_interval p'"
proof -
  have named: "\<exists>op. operation_policy op = Inr p \<and> fst k = (if op_group p = [] then op else op_group p)"
    if "governs p k" for p
    using that by (auto simp: governs_def pool_of_def res_simps split: if_split_asm)
  obtain op op' where *: "operation_policy op = Inr p" "fst k = (if op_group p = [] then op else op_group p)"
    "operation_policy op' = Inr p'" "fst k = (if op_group p' = [] then op' else op_group p')"
    using named assms by blast
  note g = operation_policy_grouped(1) [OF *(1)] operation_policy_grouped(1) [OF *(3)]
  have "p = p' \<or> op_group p \<noteq> [] \<and> op_group p = op_group p'"
    using g * by (auto simp: grouped_def split: if_split_asm)
  with g show "op_calls p = op_calls p'" "op_interval p = op_interval p'"
    by (auto simp: grouped_def)
qed

lemma policy_windows:
  "milliseconds ceiling (fadd (Fin 30) (round64 (1 / 10))) = Inr 30100"
  "milliseconds ceiling (round64 (2 / 100)) = Inr 20" "milliseconds ceiling (round64 (4 / 100)) = Inr 40"
proof -
  have "round64 (1 / 10) = Fin (3602879701896397 / 36028797018963968)"
    using round64_eqI [of "- 4" "1 / 10" 7205759403792794] by (simp add: pow2_def)
  moreover have "round64 (30 + 3602879701896397 / 36028797018963968) = Fin (4236198399495373 / 140737488355328)"
    using round64_eqI [of 4 "30 + 3602879701896397 / 36028797018963968" "4236198399495373 * 2"] by (simp add: pow2_def)
  moreover have "round64 (4236198399495373 / 140737488355328 * 1000) = Fin 30100"
    using round64_eqI [of 14 "4236198399495373 / 140737488355328 * 1000" "30100 * 2 ^ 38"] by (simp add: pow2_def)
  ultimately show "milliseconds ceiling (fadd (Fin 30) (round64 (1 / 10))) = Inr 30100"
    by (simp add: milliseconds_def fadd_def fmul_def int_of_float_def)
  have "round64 (2 / 100) = Fin (5764607523034235 / 288230376151711744)"
    using round64_eqI [of "- 6" "2 / 100" 5764607523034235] by (simp add: pow2_def)
  moreover have "round64 (5764607523034235 / 288230376151711744 * 1000) = Fin 20"
    using round64_eqI [of 4 "5764607523034235 / 288230376151711744 * 1000" "20 * 2 ^ 48"] by (simp add: pow2_def)
  ultimately show "milliseconds ceiling (round64 (2 / 100)) = Inr 20"
    by (simp add: milliseconds_def fmul_def int_of_float_def)
  have "round64 (4 / 100) = Fin (5764607523034235 / 144115188075855872)"
    using round64_eqI [of "- 5" "4 / 100" 5764607523034235] by (simp add: pow2_def)
  moreover have "round64 (5764607523034235 / 144115188075855872 * 1000) = Fin 40"
    using round64_eqI [of 5 "5764607523034235 / 144115188075855872 * 1000" "40 * 2 ^ 47"] by (simp add: pow2_def)
  ultimately show "milliseconds ceiling (round64 (4 / 100)) = Inr 40"
    by (simp add: milliseconds_def fmul_def int_of_float_def)
qed

definition interval_ms :: "op_policy \<Rightarrow> int" where
  "interval_ms p = (if op_interval p = Fin 0 then 0 else case milliseconds ceiling (op_interval p) of Inl e \<Rightarrow> 0 | Inr n \<Rightarrow> n)"

text \<open>What the operations of a limiter never change.\<close>

definition shape :: "'b limiter \<Rightarrow> rate_policy \<times> int \<times> int \<times> bool" where
  "shape L = (rate_policy_of L, window_ms L, spacing_ms L, spacing L = None)"

definition pool_shape :: "dispatch_limits \<Rightarrow> pool_key \<Rightarrow> op_policy \<Rightarrow> rate_policy \<times> int \<times> int \<times> bool" where
  "pool_shape lms k p = (pool_policy lms k p, 30100, interval_ms p, op_interval p = Fin 0)"

lemma make_limiter_shape:
  "make_limiter B (pool_policy lms k p) = Inr L \<Longrightarrow> shape L = pool_shape lms k p"
  by (auto simp: make_limiter_def pool_policy_def window_seconds_def policy_windows(1) shape_def pool_shape_def
      interval_ms_def res_simps split: if_split_asm)

lemma shape_prune [simp]: "shape (prune B ts L) = shape L" by (simp add: shape_def)

lemma shape_release [simp]: "shape (release r L) = shape L" by (simp add: shape_def release_def)

lemma shape_ticket [simp]: "shape (enter i L) = shape L" "shape (leave i L) = shape L"
  by (simp_all add: shape_def enter_def leave_def)

lemma shape_grant: "grant B t w i L = (r, L') \<Longrightarrow> shape L' = shape L"
  by (erule grant_cases) (simp_all add: shape_def)

lemma shape_try_reserve: "try_reserve B t w i L = (r, L') \<Longrightarrow> shape L' = shape L"
  by (auto simp: try_reserve_def split: if_split_asm sum.splits dest: shape_grant)

lemma reserve_try: "reserve B t w L = (r, L') \<Longrightarrow> \<exists>x. try_reserve B t w None L = (x, L')"
  by (auto simp: reserve_def split: prod.splits sum.splits option.splits)

lemma shape_start: "start B t r L = (u, L') \<Longrightarrow> shape L' = shape L"
  by (auto simp: start_def log_dispatch_def shape_def split: if_split_asm sum.splits prod.splits option.splits)

lemma shape_round: "acquire_round B dl t1 t2 t3 w i L = (x, L') \<Longrightarrow> shape L' = shape L"
  by (auto simp: acquire_round_def Let_def split: if_split_asm sum.splits prod.splits option.splits
      dest: shape_try_reserve)

subsection \<open>The invariant of the pools\<close>

definition pool_ok ::
    "'b bucket_api \<Rightarrow> ('b \<Rightarrow> int \<times> int \<times> int list) \<Rightarrow> dispatch_limits \<Rightarrow> int \<Rightarrow> int list \<Rightarrow> pool_key \<Rightarrow> 'b limiter \<Rightarrow> bool" where
  "pool_ok B view lms now h k L \<longleftrightarrow> limiter_ok B view (L, now, h) \<and> (\<exists>p. governs p k \<and> shape L = pool_shape lms k p)"

definition pools_ok :: "'b bucket_api \<Rightarrow> ('b \<Rightarrow> int \<times> int \<times> int list) \<Rightarrow> 'b dispatcher \<Rightarrow> int \<Rightarrow> bool" where
  "pools_ok B view d now \<longleftrightarrow> bucket_laws B view \<and> (\<forall>k. case map_of (pools d) k of
      None \<Rightarrow> calls_of k (started d) = []
    | Some L \<Rightarrow> pool_ok B view (limits d) now (calls_of k (started d)) k L)"

lemma pools_okD:
  assumes "pools_ok B view d now"
  shows "bucket_laws B view" "map_of (pools d) k = None \<Longrightarrow> calls_of k (started d) = []"
    "map_of (pools d) k = Some L \<Longrightarrow> pool_ok B view (limits d) now (calls_of k (started d)) k L"
proof -
  from assms have "case map_of (pools d) k of None \<Rightarrow> calls_of k (started d) = []
    | Some L \<Rightarrow> pool_ok B view (limits d) now (calls_of k (started d)) k L"
    unfolding pools_ok_def by blast
  then show "map_of (pools d) k = None \<Longrightarrow> calls_of k (started d) = []"
    "map_of (pools d) k = Some L \<Longrightarrow> pool_ok B view (limits d) now (calls_of k (started d)) k L"
    by simp_all
qed (use assms in \<open>simp add: pools_ok_def\<close>)

lemma pools_okI:
  assumes "bucket_laws B view" "\<And>k. map_of (pools d) k = None \<Longrightarrow> calls_of k (started d) = []"
    "\<And>k L. map_of (pools d) k = Some L \<Longrightarrow> pool_ok B view (limits d) now (calls_of k (started d)) k L"
  shows "pools_ok B view d now"
  unfolding pools_ok_def
proof (intro conjI allI)
  show "case map_of (pools d) k of None \<Rightarrow> calls_of k (started d) = []
    | Some L \<Rightarrow> pool_ok B view (limits d) now (calls_of k (started d)) k L" for k
    using assms(2,3) [of k] by (cases "map_of (pools d) k") simp_all
qed (rule assms(1))

lemma pool_ok_later: "pool_ok B view lms now h k L \<Longrightarrow> now \<le> ts \<Longrightarrow> pool_ok B view lms ts h k L"
  by (auto simp: pool_ok_def intro: limiter_ok_later)

lemma pools_ok_later:
  assumes "pools_ok B view d now" "now \<le> ts"
  shows "pools_ok B view d ts"
  using pools_okD [OF assms(1)] pool_ok_later [OF _ assms(2)] by (intro pools_okI) blast+

text \<open>One limiter acts, at a later time; the starts of the other pools stay.\<close>

lemma pools_ok_update:
  assumes inv: "pools_ok B view d now" and le: "now \<le> ts" and L: "map_of (pools d) k = Some L"
    and L': "limiter_ok B view (L', ts, calls_of k xs)" "shape L' = shape L"
    and other: "\<forall>j. j \<noteq> k \<longrightarrow> calls_of j xs = calls_of j (started d)"
  shows "pools_ok B view ((set_pool k L' d)\<lparr>started := xs\<rparr>) ts"
proof -
  note o = pools_okD [OF inv]
  have same: "calls_of j xs = calls_of j (started d)" if "j \<noteq> k" for j using other that by blast
  show ?thesis
  proof (rule pools_okI)
    show "calls_of j (started ((set_pool k L' d)\<lparr>started := xs\<rparr>)) = []"
      if "map_of (pools ((set_pool k L' d)\<lparr>started := xs\<rparr>)) j = None" for j
      using that o(2) [of j] same [of j] by (simp add: set_pool_def split: if_split_asm)
    show "pool_ok B view (limits ((set_pool k L' d)\<lparr>started := xs\<rparr>)) ts
        (calls_of j (started ((set_pool k L' d)\<lparr>started := xs\<rparr>))) j L1"
      if "map_of (pools ((set_pool k L' d)\<lparr>started := xs\<rparr>)) j = Some L1" for j L1
      using that o(3) [OF L] L' pool_ok_later [OF o(3) [of j L1] le] same [of j]
      by (cases "j = k") (auto simp: set_pool_def pool_ok_def)
  qed (rule o(1))
qed

lemma pools_ok_set:
  assumes "pools_ok B view d now" "now \<le> ts" "map_of (pools d) k = Some L"
    "limiter_ok B view (L', ts, calls_of k (started d))" "shape L' = shape L"
  shows "pools_ok B view (set_pool k L' d) ts"
  using pools_ok_update [OF assms] by (simp add: set_pool_def)

text \<open>What the pools do not touch.\<close>

definition frame :: "'b dispatcher \<Rightarrow> dispatch_limits \<times> (nat \<times> lease) list \<times> int \<times> int \<times> (pool_key \<times> int) list" where
  "frame d = (limits d, leases d, read_workers d, pending_reads d, sdk_calls d)"

lemma set_pool_frame [simp]: "frame (set_pool k L d) = frame d" "started (set_pool k L d) = started d"
  by (simp_all add: set_pool_def frame_def)

lemma limiter_of_ok:
  assumes inv: "pools_ok B view d now" and res: "limiter_of B q d = (r, d')"
  shows "pools_ok B view d' now" "r = Inr (k, L) \<Longrightarrow> map_of (pools d') k = Some L"
    "started d' = started d" "frame d' = frame d"
proof -
  note o = pools_okD [OF inv]
  have made: "pools_ok B view (d\<lparr>pools := pools d @ [(k, L)]\<rparr>) now"
    if k: "pool_of q = Inr k" "map_of (pools d) k = None" and p: "operation_policy (quota_operation q) = Inr p"
      "check_rate_policy (pool_policy (limits d) k p) = ok" "make_limiter B (pool_policy (limits d) k p) = Inr L" for k p L
  proof -
    have "governs p k" using k(1) p(1) by (auto simp: governs_def)
    then have "pool_ok B view (limits d) now (calls_of k (started d)) k L"
      using make_limiter_ok [OF o(1) p(2,3)] make_limiter_shape [OF p(3)] o(2) [OF k(2)] by (auto simp: pool_ok_def)
    then show ?thesis
      using o k(2) by (intro pools_okI) (auto simp: map_add_def split: option.splits if_split_asm)
  qed
  show "pools_ok B view d' now" "started d' = started d" "frame d' = frame d"
    using res inv made by (auto simp: limiter_of_def frame_def res_simps split: sum.splits option.splits)
  show "map_of (pools d') k = Some L" if "r = Inr (k, L)"
    using res that by (auto simp: limiter_of_def map_add_def split: sum.splits option.splits)
qed

subsection \<open>Steps of the pools\<close>

text \<open>An operation of the limiter of a request.\<close>

lemma pool_action:
  assumes inv: "pools_ok B view d now" and le: "now \<le> ts" and res: "limiter_of B q d = (r, d1)"
    and d': "d' = (case r of Inl e \<Rightarrow> d1 | Inr (k, L) \<Rightarrow> set_pool k (g L) d1)"
    and act: "\<And>L h. limiter_ok B view (L, now, h) \<Longrightarrow> limiter_ok B view (g L, ts, h)" "\<And>L. shape (g L) = shape L"
  shows "pools_ok B view d' ts" "started d' = started d" "frame d' = frame d"
proof -
  note l = limiter_of_ok [OF inv res]
  show "started d' = started d" "frame d' = frame d" using d' l(3,4) by (auto split: sum.splits)
  show "pools_ok B view d' ts"
  proof (cases r)
    case (Inl e)
    then show ?thesis using pools_ok_later [OF l(1) le] d' by simp
  next
    case (Inr kL)
    obtain k L where kL: "kL = (k, L)" by (cases kL)
    note k = l(2) [OF Inr [unfolded kL]]
    have "limiter_ok B view (L, now, calls_of k (started d1))"
      using pools_okD(3) [OF l(1) k] by (simp add: pool_ok_def)
    from pools_ok_set [OF l(1) le k act(1) [OF this] act(2)] show ?thesis using d' Inr kL by simp
  qed
qed

lemma pool_reserve_ok:
  assumes inv: "pools_ok B view d now" and ts: "milliseconds floor t = Inr ts" "now \<le> ts"
    and res: "pool_reserve B t q d = (r, d')"
  shows "pools_ok B view d' ts" "started d' = started d" "frame d' = frame d"
proof -
  obtain x d1 where x: "limiter_of B q d = (x, d1)" by fastforce
  have d': "d' = (case x of Inl e \<Rightarrow> d1 | Inr (k, L) \<Rightarrow> set_pool k (snd (reserve B t (quota_weight q) L)) d1)"
    using res x by (auto simp: pool_reserve_def split: sum.splits prod.splits)
  have tried: "\<exists>y. try_reserve B t w None L = (y, snd (reserve B t w L))" for w L
    by (rule reserve_try) (rule prod.collapse [symmetric])
  have "limiter_ok B view (snd (reserve B t w L), ts, h)" if "limiter_ok B view (L, now, h)" for w L h
    using tried [of w L] try_reserve_ok [OF that ts] by blast
  moreover have "shape (snd (reserve B t w L)) = shape L" for w L
    using tried [of w L] shape_try_reserve by blast
  ultimately show "pools_ok B view d' ts" "started d' = started d" "frame d' = frame d"
    using pool_action [OF inv ts(2) x d'] by blast+
qed

lemma async_begin_ok:
  assumes inv: "pools_ok B view d now" and ts: "milliseconds floor t = Inr ts" "now \<le> ts"
    and res: "async_begin B t q dl i d = (r, d')"
  shows "pools_ok B view d' ts" "started d' = started d" "frame d' = frame d"
proof -
  obtain x d1 where x: "limiter_of B q d = (x, d1)" by fastforce
  have d': "d' = (case x of Inl e \<Rightarrow> d1
      | Inr (k, L) \<Rightarrow> set_pool k (snd (acquire_begin B t (quota_weight q) (Some dl) i L)) d1)"
    using res x by (auto simp: async_begin_def split: sum.splits prod.splits)
  have "limiter_ok B view (snd (acquire_begin B t w (Some dl) i L), ts, h)" if "limiter_ok B view (L, now, h)" for w L h
    using limiter_ok_later [OF that ts(2)] try_reserve_ok [OF that ts]
    by (auto simp: acquire_begin_def split: prod.splits dest!: reserve_try)
  moreover have "shape (snd (acquire_begin B t w (Some dl) i L)) = shape L" for w L
    by (auto simp: acquire_begin_def split: prod.splits dest!: reserve_try shape_try_reserve)
  ultimately show "pools_ok B view d' ts" "started d' = started d" "frame d' = frame d"
    using pool_action [OF inv ts(2) x d'] by blast+
qed

lemma async_round_ok:
  assumes inv: "pools_ok B view d now" and ts: "milliseconds floor t2 = Inr ts" "now \<le> ts"
    and res: "async_round B dl t1 t2 t3 q i d = (r, d')"
  shows "pools_ok B view d' ts" "started d' = started d" "frame d' = frame d"
proof -
  obtain x d1 where x: "limiter_of B q d = (x, d1)" by fastforce
  let ?g = "\<lambda>L. acquire_round B dl t1 t2 t3 (quota_weight q) i L"
  have d': "d' = (case x of Inl e \<Rightarrow> d1 | Inr (k, L) \<Rightarrow> set_pool k (snd (?g L)) d1)"
    using res x by (auto simp: async_round_def split: sum.splits prod.splits)
  have "limiter_ok B view (snd (?g L), ts, h)" if "limiter_ok B view (L, now, h)" for L h
    by (rule acquire_round_ok [OF that ts]) (rule prod.collapse [symmetric])
  moreover have "shape (snd (?g L)) = shape L" for L by (rule shape_round) (rule prod.collapse [symmetric])
  ultimately show "pools_ok B view d' ts" "started d' = started d" "frame d' = frame d"
    using pool_action [OF inv ts(2) x d'] by blast+
qed

lemma release_slot_ok:
  assumes inv: "pools_ok B view d now"
  shows "pools_ok B view (release_slot kr d) now"
    and "started (release_slot kr d) = started d" "frame (release_slot kr d) = frame d"
proof -
  show "started (release_slot kr d) = started d" "frame (release_slot kr d) = frame d"
    by (simp_all add: release_slot_def split: option.splits)
  show "pools_ok B view (release_slot kr d) now"
  proof (cases "map_of (pools d) (fst kr)")
    case (Some L)
    have "limiter_ok B view (L, now, calls_of (fst kr) (started d))"
      using pools_okD(3) [OF inv Some] by (simp add: pool_ok_def)
    from pools_ok_set [OF inv order_refl Some release_ok [OF this]] Some show ?thesis
      by (simp add: release_slot_def)
  qed (use inv in \<open>simp add: release_slot_def\<close>)
qed

lemma start_slot_ok:
  assumes inv: "pools_ok B view d now" and ts: "milliseconds floor t = Inr ts" "now \<le> ts"
    and res: "start_slot B t k r d = (u, d')"
  shows "pools_ok B view d' ts" "started d' = started d @ (if u = ok then [(k, ts)] else [])"
    "u = ok \<longleftrightarrow> 0 < slot_remaining k r d" "frame d' = frame d"
proof -
  consider (none) "map_of (pools d) k = None" | (pool) L v L' where "map_of (pools d) k = Some L" "start B t r L = (v, L')"
    by (cases "map_of (pools d) k") fastforce+
  then have "pools_ok B view d' ts \<and> started d' = started d @ (if u = ok then [(k, ts)] else [])
    \<and> (u = ok \<longleftrightarrow> 0 < slot_remaining k r d) \<and> frame d' = frame d"
  proof cases
    case none
    then show ?thesis using res pools_ok_later [OF inv ts(2)] by (auto simp: start_slot_def slot_remaining_def)
  next
    case pool
    have lok: "limiter_ok B view (L, now, calls_of k (started d))"
      using pools_okD(3) [OF inv pool(1)] by (simp add: pool_ok_def)
    note o = limiter_okD [OF lok]
    have "0 < remaining r L \<longleftrightarrow> r \<in> fst ` set (pending L)"
      using o(8) by (auto simp: remaining_def map_of_eq_None_iff split: option.splits dest!: map_of_SomeD)
        (metis image_eqI fst_conv)
    then have ok: "v = ok \<longleftrightarrow> 0 < slot_remaining k r d"
      using start_ok(2) [OF lok ts pool(2)] pool(1) by (simp add: slot_remaining_def)
    have next_ok: "limiter_ok B view (L', ts, calls_of k (started d @ (if v = Inr () then [(k, ts)] else [])))"
      using start_ok(1) [OF lok ts pool(2)] by (simp split: if_split_asm)
    have "pools_ok B view ((set_pool k L' d)\<lparr>started := started d @ (if v = Inr () then [(k, ts)] else [])\<rparr>) ts"
      using pools_ok_update [OF inv ts(2) pool(1) next_ok shape_start [OF pool(2)]] by simp
    with ok pool res ts(1) show ?thesis
      by (cases v) (auto simp: start_slot_def set_pool_def frame_def split: if_split_asm)
  qed
  then show "pools_ok B view d' ts" "started d' = started d @ (if u = ok then [(k, ts)] else [])"
    "u = ok \<longleftrightarrow> 0 < slot_remaining k r d" "frame d' = frame d"
    by blast+
qed

subsection \<open>Runs\<close>

text \<open>Every step holds the locks its code holds, at a clock reading that does not go back. The identifier of a new
  lease is fresh; a read leaves that has entered, and a worker that was taken.\<close>

inductive dispatch_step :: "'b bucket_api \<Rightarrow> 'b dispatcher \<times> int \<Rightarrow> 'b dispatcher \<times> int \<Rightarrow> bool" for B where
  reserving: "milliseconds floor t = Inr ts \<Longrightarrow> now \<le> ts \<Longrightarrow> pool_reserve B t q d = (r, d') \<Longrightarrow>
     dispatch_step B (d, now) (d', ts)"
| starting: "milliseconds floor t = Inr ts \<Longrightarrow> now \<le> ts \<Longrightarrow>
     start_call B t clk k r lid (answer :: pyval res) abandoned ro d = (v, ro', d') \<Longrightarrow>
     dispatch_step B (d, now) (d', ts)"
| releasing: "dispatch_step B (d, now) (release_slot kr d, now)"
| awaiting: "milliseconds floor t = Inr ts \<Longrightarrow> now \<le> ts \<Longrightarrow> async_begin B t q dl i d = (w, d') \<Longrightarrow>
     dispatch_step B (d, now) (d', ts)"
| retrying: "milliseconds floor t2 = Inr ts \<Longrightarrow> now \<le> ts \<Longrightarrow> async_round B dl t1 t2 t3 q i d = (x, d') \<Longrightarrow>
     dispatch_step B (d, now) (d', ts)"
| leaving: "map_of (pools d) k = Some L \<Longrightarrow> dispatch_step B (d, now) (set_pool k (leave i L) d, now)"
| leasing: "i \<notin> fst ` set (leases d) \<Longrightarrow> dispatch_step B (d, now) (open_lease i slots d, now)"
| protecting: "protect_mutation qs lid d = (ks, d') \<Longrightarrow> dispatch_step B (d, now) (d', now)"
| unprotecting: "dispatch_step B (d, now) (unprotect_mutation ks' lid d, now)"
| finishing: "dispatch_step B (d, now) (lease_finish i d, now)"
| cancelling: "dispatch_step B (d, now) (lease_cancel_pending i d, now)"
| entering: "read_enter d = (u, d') \<Longrightarrow> dispatch_step B (d, now) (d', now)"
| exiting: "0 < pending_reads d \<Longrightarrow> dispatch_step B (d, now) (read_exit d, now)"
| working: "worker_round t x d = (b, d') \<Longrightarrow> dispatch_step B (d, now) (d', now)"
| rested: "0 < read_workers d \<Longrightarrow> dispatch_step B (d, now) (worker_exit d, now)"

definition reads_ok :: "'b dispatcher \<Rightarrow> bool" where
  "reads_ok d \<longleftrightarrow> 0 \<le> pending_reads d \<and> pending_reads d \<le> max_pending_reads (limits d)
     \<and> 0 \<le> read_workers d \<and> read_workers d \<le> max_inflight_reads (limits d)"

definition dispatch_ok :: "'b bucket_api \<Rightarrow> ('b \<Rightarrow> int \<times> int \<times> int list) \<Rightarrow> 'b dispatcher \<times> int \<Rightarrow> bool" where
  "dispatch_ok B view s \<longleftrightarrow>
     pools_ok B view (fst s) (snd s) \<and> subseq (sdk_calls (fst s)) (started (fst s)) \<and> reads_ok (fst s)"

definition dispatch_start :: "'b bucket_api \<Rightarrow> ('b \<Rightarrow> int \<times> int \<times> int list) \<Rightarrow> 'b dispatcher \<times> int \<Rightarrow> bool" where
  "dispatch_start B view s \<longleftrightarrow> bucket_laws B view
     \<and> (\<exists>inflight waiting wait timeout. make_dispatcher inflight waiting wait timeout None = Inr (fst s))"

lemma pools_ok_frame:
  "pools_ok B view (d\<lparr>leases := ls\<rparr>) now = pools_ok B view d now"
  "pools_ok B view (d\<lparr>read_workers := n\<rparr>) now = pools_ok B view d now"
  "pools_ok B view (d\<lparr>pending_reads := n\<rparr>) now = pools_ok B view d now"
  "pools_ok B view (d\<lparr>sdk_calls := xs\<rparr>) now = pools_ok B view d now"
  by (simp_all add: pools_ok_def cong: option.case_cong)

lemma reads_ok_frame: "frame d' = frame d \<Longrightarrow> reads_ok d' = reads_ok d"
  by (simp add: frame_def reads_ok_def)

lemma dispatch_ok_pools:
  assumes "dispatch_ok B view (d, now)" "pools_ok B view d' ts" "started d' = started d" "frame d' = frame d"
  shows "dispatch_ok B view (d', ts)"
  using assms reads_ok_frame [OF assms(4)] by (simp add: dispatch_ok_def frame_def)

lemma release_slots_ok:
  assumes "pools_ok B view d now"
  shows "pools_ok B view (release_slots krs d) now"
    and "started (release_slots krs d) = started d" "frame (release_slots krs d) = frame d"
  using assms by (induction krs arbitrary: d) (simp_all add: release_slots_def release_slot_ok)

lemma release_slots_keep:
  assumes "dispatch_ok B view (d, now)"
  shows "dispatch_ok B view (release_slots krs d, now)"
  using assms release_slots_ok [of B view d now krs] dispatch_ok_pools [OF assms] by (simp add: dispatch_ok_def)

lemma set_lease_keep [simp]: "dispatch_ok B view (set_lease i l d, now) = dispatch_ok B view (d, now)"
  by (simp add: dispatch_ok_def set_lease_def pools_ok_frame reads_ok_def)

lemma leases_keep:
  assumes "dispatch_ok B view (d, now)"
  shows "dispatch_ok B view (open_lease i slots d, now)" "dispatch_ok B view (lease_finish i d, now)"
    "dispatch_ok B view (lease_cancel_pending i d, now)" "dispatch_ok B view (unprotect_mutation ks lid d, now)"
    "protect_mutation qs lid d = (r, d') \<Longrightarrow> dispatch_ok B view (d', now)"
  using assms
  by (auto simp: open_lease_def lease_finish_def lease_cancel_pending_def unprotect_mutation_def protect_mutation_def
      release_slots_keep split: option.splits sum.splits)

lemma start_call_keep:
  assumes inv: "dispatch_ok B view (d, now)" and ts: "milliseconds floor t = Inr ts" "now \<le> ts"
    and res: "start_call B t clk k r lid answer abandoned ro d = (v, ro', d')"
  shows "dispatch_ok B view (d', ts)"
proof -
  have p: "pools_ok B view d now" using inv by (simp add: dispatch_ok_def)
  obtain u d1 where u: "start_slot B t k r d = (u, d1)" by fastforce
  note s = start_slot_ok [OF p ts u]
  have "subseq (sdk_calls d1) (started d1)" "subseq (sdk_calls d) (started d)"
    using inv s(2,4) by (auto simp: dispatch_ok_def frame_def intro: subseq_order.order_trans)
  then have one: "dispatch_ok B view (d1, ts)" "dispatch_ok B view (d, ts)"
    using s(1,4) inv pools_ok_later [OF p ts(2)] reads_ok_frame [OF s(4)] by (simp_all add: dispatch_ok_def)
  have called: "dispatch_ok B view (d1\<lparr>sdk_calls := sdk_calls d1 @ [last (started d1)]\<rparr>, ts)" if "u = ok"
    using one(1) s(2,4) that inv by (simp add: dispatch_ok_def pools_ok_frame reads_ok_def frame_def)
  show ?thesis
    using res u one called by (auto simp: start_call_def split: sum.splits prod.splits if_split_asm)
qed

lemma reads_keep:
  assumes "dispatch_ok B view (d, now)"
  shows "read_enter d = (u, d') \<Longrightarrow> dispatch_ok B view (d', now)"
    "0 < pending_reads d \<Longrightarrow> dispatch_ok B view (read_exit d, now)"
    "worker_round t x d = (b, d') \<Longrightarrow> dispatch_ok B view (d', now)"
    "0 < read_workers d \<Longrightarrow> dispatch_ok B view (worker_exit d, now)"
  using assms
  by (auto simp: read_enter_def read_exit_def worker_round_def worker_exit_def dispatch_ok_def reads_ok_def
      pools_ok_frame split: if_split_asm sum.splits)

interpretation dispatch: guarded_system "dispatch_start B view" "dispatch_step B" "dispatch_ok B view"
  for B :: "'b bucket_api" and view :: "'b \<Rightarrow> int \<times> int \<times> int list"
proof unfold_locales
  show "dispatch_ok B view s" if "dispatch_start B view s" for s
    using that
    by (cases s) (auto simp: dispatch_start_def make_dispatcher_def dispatch_ok_def pools_ok_def reads_ok_def
        split: if_split_asm pyval.splits)
  show "dispatch_ok B view s'" if "dispatch_ok B view s" "dispatch_step B s s'" for s s'
    using that(2,1)
  proof induction
    case (leaving d k L now i)
    then have p: "pools_ok B view d now" by (simp add: dispatch_ok_def)
    then have "limiter_ok B view (L, now, calls_of k (started d))"
      using pools_okD(3) [OF p leaving(1)] by (simp add: pool_ok_def)
    then show ?case
      using pools_ok_set [OF p order_refl leaving(1), of "leave i L"]
        dispatch_ok_pools [OF leaving(2), of "set_pool k (leave i L) d" now] by simp
  next
    case (reserving t ts now q d r d')
    then have "pools_ok B view d now" by (simp add: dispatch_ok_def)
    from pool_reserve_ok [OF this reserving(1-3)] reserving(4) show ?case by (metis dispatch_ok_pools)
  next
    case (awaiting t ts now q dl i d w d')
    then have "pools_ok B view d now" by (simp add: dispatch_ok_def)
    from async_begin_ok [OF this awaiting(1-3)] awaiting(4) show ?case by (metis dispatch_ok_pools)
  next
    case (retrying t2 ts now dl t1 t3 q i d x d')
    then have "pools_ok B view d now" by (simp add: dispatch_ok_def)
    from async_round_ok [OF this retrying(1-3)] retrying(4) show ?case by (metis dispatch_ok_pools)
  next
    case (releasing d now kr)
    then have "pools_ok B view d now" by (simp add: dispatch_ok_def)
    from release_slot_ok [OF this] releasing show ?case by (metis dispatch_ok_pools)
  qed (blast intro: start_call_keep leases_keep reads_keep)+
qed

subsection \<open>Capacity of a reservation\<close>

lemma slot_remaining_set_pool [simp]:
  "slot_remaining j s (set_pool k L d) = (if j = k then remaining s L else slot_remaining j s d)"
  by (simp add: slot_remaining_def set_pool_def)

lemma slot_remaining_frame [simp]:
  "slot_remaining j s (d\<lparr>leases := ls\<rparr>) = slot_remaining j s d" "slot_remaining j s (d\<lparr>sdk_calls := xs\<rparr>) = slot_remaining j s d"
  "slot_remaining j s (d\<lparr>started := xs\<rparr>) = slot_remaining j s d" "slot_remaining j s (set_lease i l d) = slot_remaining j s d"
  by (simp_all add: slot_remaining_def set_lease_def)

lemma remaining_release [simp]: "remaining s (release r L) = (if s = r then 0 else remaining s L)"
proof -
  have "map_of (filter (\<lambda>p. fst p \<noteq> r) ps) s = (if s = r then None else map_of ps s)" for ps :: "(nat \<times> nat) list"
    by (induction ps) auto
  then show ?thesis by (simp add: remaining_def release_def)
qed

lemma slot_remaining_release [simp]:
  "slot_remaining j s (release_slot kr d) = (if kr = (j, s) then 0 else slot_remaining j s d)"
  by (cases kr) (auto simp: release_slot_def slot_remaining_def set_pool_def split: option.splits)

lemma slot_remaining_releases [simp]:
  "slot_remaining j s (release_slots krs d) = (if (j, s) \<in> set krs then 0 else slot_remaining j s d)"
  by (induction krs arbitrary: d) (auto simp: release_slots_def)

lemma remaining_try_reserve:
  assumes ok: "limiter_ok B view (L, now, h)" and res: "try_reserve B t w i L = (x, L')"
  shows "(\<exists>r y. x = Inr (Some r, y) \<and> remaining r L = 0 \<and> (\<forall>s. s \<noteq> r \<longrightarrow> remaining s L' = remaining s L))
    \<or> (\<forall>r y. x \<noteq> Inr (Some r, y)) \<and> pending L' = pending L"
proof -
  have fresh: "map_of (pending L) (next_reservation L) = None"
    using limiter_okD(8) [OF ok] by (auto simp: map_of_eq_None_iff)
  show ?thesis
    using res unfolding try_reserve_def
    by (auto simp: remaining_def fresh map_add_def split: if_split_asm sum.splits option.splits elim!: grant_cases)
qed

lemma remaining_use_one:
  assumes "s \<noteq> r" "\<forall>p \<in> set ps. 0 < snd p"
  shows "map_of (use_one r ps) s = map_of ps s"
  using assms by (induction ps) (auto simp: use_one_def)

lemma remaining_start:
  assumes ok: "limiter_ok B view (L, now, h)" and res: "start B t r L = (u, L')" and "s \<noteq> r"
  shows "remaining s L' = remaining s L"
  using res remaining_use_one [OF assms(3), of "pending L"] limiter_okD(8) [OF ok]
  by (auto simp: start_def log_dispatch_def remaining_def split: if_split_asm sum.splits prod.splits option.splits)

lemma limiter_of_remaining:
  assumes "limiter_of B q d = (r, d')"
  shows "slot_remaining j s d' = slot_remaining j s d"
proof -
  have "pending L = []" if "make_limiter B p = Inr L" for p and L :: "'a limiter"
    using that by (auto simp: make_limiter_def res_simps)
  then show ?thesis
    using assms by (auto simp: limiter_of_def slot_remaining_def remaining_def map_add_def res_simps
        split: sum.splits option.splits if_split_asm)
qed

lemma pool_reserve_remaining:
  assumes inv: "pools_ok B view d now" and res: "pool_reserve B t q d = (x, d')"
  shows "x = Inl e \<Longrightarrow> slot_remaining j s d' = slot_remaining j s d"
    and "x = Inr r \<Longrightarrow> pool_of q = Inr k \<Longrightarrow>
      slot_remaining k r d = 0 \<and> ((j, s) \<noteq> (k, r) \<longrightarrow> slot_remaining j s d' = slot_remaining j s d)"
proof -
  obtain y d1 where y: "limiter_of B q d = (y, d1)" by fastforce
  note l = limiter_of_ok [OF inv y]
  have key: "pool_of q = Inr k" if "y = Inr (k, L)" for k L
    using y that by (auto simp: limiter_of_def split: sum.splits option.splits)
  have *: "(x = Inl e \<longrightarrow> slot_remaining j s d' = slot_remaining j s d)
    \<and> (x = Inr r \<longrightarrow> slot_remaining k r d = 0 \<and> ((j, s) \<noteq> (k, r) \<longrightarrow> slot_remaining j s d' = slot_remaining j s d))"
    if kL: "y = Inr (k, L)" for k L
  proof -
    obtain z L' where z: "try_reserve B t (quota_weight q) None L = (z, L')" by fastforce
    note m = l(2) [OF kL]
    have "limiter_ok B view (L, now, calls_of k (started d1))"
      using pools_okD(3) [OF l(1) m] by (simp add: pool_ok_def)
    note rem = remaining_try_reserve [OF this z]
    have at: "slot_remaining k i d = remaining i L" for i
      using limiter_of_remaining [OF y, of k i] m by (simp add: slot_remaining_def)
    have d': "d' = set_pool k L' d1" and x: "x = (case z of Inl e \<Rightarrow> Inl e
        | Inr (None, _) \<Rightarrow> raise ProviderRateLimitError ''retry'' | Inr (Some r, _) \<Rightarrow> Inr r)"
      using res y kL z by (auto simp: pool_reserve_def reserve_def split: sum.splits prod.splits option.splits)
    have same: "remaining i L' = remaining i L" if "pending L' = pending L" for i
      using that by (simp add: remaining_def)
    show ?thesis
      using rem x same at limiter_of_remaining [OF y]
      by (auto simp: d' split: sum.splits option.splits prod.splits)
  qed
  show "slot_remaining j s d' = slot_remaining j s d" if "x = Inl e"
    using * that res y limiter_of_remaining [OF y] by (cases y) (auto simp: pool_reserve_def)
  show "slot_remaining k r d = 0 \<and> ((j, s) \<noteq> (k, r) \<longrightarrow> slot_remaining j s d' = slot_remaining j s d)"
    if "x = Inr r" "pool_of q = Inr k"
    using * that res y key by (cases y) (auto simp: pool_reserve_def)
qed

lemma start_call_remaining:
  assumes inv: "pools_ok B view d now" and res: "start_call B t clk k r lid answer abandoned ro d = (v, ro', d')"
    and ne: "(j, s) \<noteq> (k, r)"
  shows "slot_remaining j s d' = slot_remaining j s d"
proof -
  obtain u d1 where u: "start_slot B t k r d = (u, d1)" by fastforce
  have "slot_remaining j s d1 = slot_remaining j s d"
  proof (cases "map_of (pools d) k")
    case (Some L)
    obtain w L' where w: "start B t r L = (w, L')" by fastforce
    have "limiter_ok B view (L, now, calls_of k (started d))"
      using pools_okD(3) [OF inv Some] by (simp add: pool_ok_def)
    then have "remaining s L' = remaining s L" if "s \<noteq> r" using remaining_start w that by blast
    then show ?thesis
      using u w Some ne by (cases "j = k") (auto simp: start_slot_def slot_remaining_def set_pool_def split: sum.splits)
  qed (use u in \<open>simp add: start_slot_def\<close>)
  then show ?thesis
    using res u by (auto simp: start_call_def split: sum.splits prod.splits if_split_asm)
qed

subsection \<open>A whole call\<close>

text \<open>\<open>call\<close> without slots of an admission is a reservation, a start and a release.\<close>

lemma reserve_bundle_one:
  assumes "reserve_bundle B clk [q] [] d = (x, d1)"
  obtains (refused) e where "x = Inl e" "pool_of q = Inl e" "d1 = d"
  | (full) k e where "x = Inl e" "pool_of q = Inr k" "pool_reserve B (clk k) q d = (Inl e, d1)"
  | (slot) k r where "x = Inr ([(k, r)], [(k, r)])" "pool_of q = Inr k" "pool_reserve B (clk k) q d = (Inr r, d1)"
  using assms
  by (cases "pool_of q"; cases "pool_reserve B (clk (projr (pool_of q))) q d")
    (auto simp: reserve_bundle_def put_slot_def release_slots_def split: sum.splits)

lemma sdk_call_cases:
  assumes "sdk_call B clk op kw [] lid answer abandoned ro d = (v, ro', d')"
  obtains (untimed) "d' = d" "isl v \<or> v = answer"
  | (full) q e where "pool_reserve B (clk ''reserve'') q d = (Inl e, d')" "isl v"
  | (started) q k r d1 d2 where "pool_of q = Inr k" "pool_reserve B (clk ''reserve'') q d = (Inr r, d1)"
      "start_call B (clk ''start'') clk k r lid answer abandoned ro d1 = (v, ro', d2)" "d' = release_slot (k, r) d2"
      "isl v \<or> v = answer"
proof -
  have answers: "isl w \<or> w = answer" if "invoke clk answer abandoned ro = (w, c, ro1)" for w c ro1
    using that by (cases answer) (auto simp: invoke_def Let_def res_simps bindR_def split: option.splits sum.splits)
  have starts: "isl w \<or> w = answer" if "start_call B t clk k r lid answer abandoned ro d1 = (w, ro1, d2)" for w t k r ro1 d1 d2
    using that answers by (auto simp: start_call_def split: sum.splits prod.splits)
  consider (none) "d' = d" "isl v \<or> v = answer" | (some) q where
    "(case reserve_bundle B (\<lambda>_. clk ''reserve'') [q] [] d of
          (Inl e, d) \<Rightarrow> (Inl e, ro, d)
        | (Inr (slots, owned), d) \<Rightarrow> (case bindR (pool_of q) (\<lambda>k. case map_of slots k of
              None \<Rightarrow> raise KeyError (fst k) | Some r \<Rightarrow> Inr (k, r)) of
            Inl e \<Rightarrow> (Inl e, ro, release_slots owned d)
          | Inr (k, r) \<Rightarrow> (case start_call B (clk ''start'') clk k r lid answer abandoned ro d of
              (v, ro, d) \<Rightarrow> (v, ro, release_slots owned d)))) = (v, ro', d')"
    using assms answers unfolding sdk_call_def
    by (cases "bindR (case ro of None \<Rightarrow> ok | Some x \<Rightarrow> read_check (clk ''call'') x) (\<lambda>_. quota_request_for op kw)")
      (auto split: option.splits sum.splits prod.splits)
  then show thesis
  proof cases
    case none
    then show thesis by (rule untimed)
  next
    case some
    obtain x d1 where x: "reserve_bundle B (\<lambda>_. clk ''reserve'') [q] [] d = (x, d1)" by fastforce
    then show thesis
    proof (cases rule: reserve_bundle_one)
      case (refused e)
      with some x show thesis by (intro untimed) auto
    next
      case (full k e)
      with some x show thesis by (intro that(2)) auto
    next
      case (slot k r)
      obtain w ro1 d2 where w: "start_call B (clk ''start'') clk k r lid answer abandoned ro d1 = (w, ro1, d2)"
        by (rule prod_cases3)
      with some x slot starts [OF w] show thesis by (intro that(3)) (auto simp: release_slots_def)
    qed
  qed
qed

subsection \<open>Leases over a run\<close>

definition cancelled_lease :: "nat \<Rightarrow> pool_key set \<Rightarrow> 'b dispatcher \<Rightarrow> bool" where
  "cancelled_lease i ks d \<longleftrightarrow> (case map_of (leases d) i of None \<Rightarrow> False
     | Some l \<Rightarrow> lease_cancelled l \<and> set (lease_protected l) \<subseteq> ks)"

lemma cancelled_lease_frame: "frame d' = frame d \<Longrightarrow> cancelled_lease i ks d' = cancelled_lease i ks d"
  by (simp add: frame_def cancelled_lease_def)

lemma cancelled_lease_set:
  "cancelled_lease i ks (set_lease j l d)
     = (if i = j then lease_cancelled l \<and> set (lease_protected l) \<subseteq> ks else cancelled_lease i ks d)"
  by (simp add: cancelled_lease_def set_lease_def)

lemma release_slots_leases [simp]: "leases (release_slots krs d) = leases d"
proof (induction krs arbitrary: d)
  case (Cons kr krs)
  then show ?case by (simp add: release_slots_def release_slot_def set_pool_def split: option.splits)
qed (simp add: release_slots_def)

lemma start_call_leases:
  assumes "start_call B t clk k r lid answer abandoned ro d = (v, ro', d')"
  shows "leases d' = leases d"
  using assms by (auto simp: start_call_def start_slot_def set_pool_def
      split: sum.splits prod.splits option.splits if_split_asm)

lemma cancelled_lease_step:
  assumes inv: "dispatch_ok B view s" and "dispatch_step B s s'" and q: "cancelled_lease i ks (fst s)"
  shows "cancelled_lease i ks (fst s')"
  using assms(2,1,3)
proof (induction)
  case (starting t ts now clk k r lid answer abandoned ro d v ro' d')
  then show ?case using start_call_leases [OF starting(3)] by (simp add: cancelled_lease_def)
next
  case (reserving t ts now q d r d')
  then have "pools_ok B view d now" by (simp add: dispatch_ok_def)
  from cancelled_lease_frame [OF pool_reserve_ok(3) [OF this reserving(1-3)]] reserving(5) show ?case by simp
next
  case (awaiting t ts now q dl j d w d')
  then have "pools_ok B view d now" by (simp add: dispatch_ok_def)
  from cancelled_lease_frame [OF async_begin_ok(3) [OF this awaiting(1-3)]] awaiting(5) show ?case by simp
next
  case (retrying t2 ts now dl t1 t3 q j d x d')
  then have "pools_ok B view d now" by (simp add: dispatch_ok_def)
  from cancelled_lease_frame [OF async_round_ok(3) [OF this retrying(1-3)]] retrying(5) show ?case by simp
next
  case (releasing d now kr)
  then have "pools_ok B view d now" by (simp add: dispatch_ok_def)
  from cancelled_lease_frame [OF release_slot_ok(3) [OF this]] releasing(2) show ?case by simp
next
  case (leaving d k L now j)
  then show ?case by (simp add: cancelled_lease_def set_pool_def)
next
  case (leasing j d now slots)
  have "i \<noteq> j" if "cancelled_lease i ks d"
    using that leasing(1) map_of_eq_None_iff [of "leases d" i] by (auto simp: cancelled_lease_def)
  then show ?case using leasing(3) by (simp add: open_lease_def cancelled_lease_set)
qed (auto simp: protect_mutation_def unprotect_mutation_def lease_finish_def lease_cancel_pending_def lease_protect_def
    lease_unprotect_def read_enter_def read_exit_def worker_round_def worker_exit_def cancelled_lease_def set_lease_def
    split: option.splits sum.splits if_split_asm)

subsection \<open>A sample run\<close>

definition sample_dispatcher :: "(int \<times> int \<times> int list) dispatcher" where
  "sample_dispatcher = projr (make_dispatcher (PInt 2) (PInt 4) (Fin 5) (Fin 10) None)"

lemma sample_dispatcher_made: "make_dispatcher (PInt 2) (PInt 4) (Fin 5) (Fin 10) None = Inr sample_dispatcher"
  by (simp add: sample_dispatcher_def make_dispatcher_def isfinite_def)

lemma sample_dispatch_start: "dispatch_start list_log (\<lambda>b. b) (sample_dispatcher, 0)"
  unfolding dispatch_start_def fst_conv using sample_dispatcher_made list_log_laws by blast

text \<open>An order of account 7, admitted and sent at second 1.\<close>

definition sample_request :: quota_request where
  "sample_request = \<lparr>quota_operation = ''place_order'', quota_account = Some 7, quota_weight = 1\<rparr>"

definition order_policy :: op_policy where
  "order_policy = (plain_policy 15 ''account'')\<lparr>op_group := ''order_placement'', op_interval := round64 (2 / 100)\<rparr>"

lemma place_order_policy: "operation_policy ''place_order'' = Inr order_policy"
  by (simp add: operation_policy_def OPERATION_POLICIES_def order_policy_def)

lemma sample_pool: "pool_of sample_request = Inr (''order_placement'', Some 7)"
  by (simp add: pool_of_def sample_request_def place_order_policy order_policy_def plain_policy_def)

definition sample_order_limiter :: "(int \<times> int \<times> int list) limiter" where
  "sample_order_limiter = projr (make_limiter list_log (pool_policy (limits sample_dispatcher) (''order_placement'', Some 7) order_policy))"

lemma round64_ne_zero: "round64 (2 / 100) \<noteq> Fin 0" "\<not> round64 (2 / 100) < Fin 0" "isfinite (round64 (2 / 100))"
  "\<not> round64 (1 / 10) < Fin 0" "isfinite (round64 (1 / 10))"
proof -
  have "round64 (2 / 100) = Fin (5764607523034235 / 288230376151711744)"
    using round64_eqI [of "- 6" "2 / 100" 5764607523034235] by (simp add: pow2_def)
  moreover have "round64 (1 / 10) = Fin (3602879701896397 / 36028797018963968)"
    using round64_eqI [of "- 4" "1 / 10" 7205759403792794] by (simp add: pow2_def)
  ultimately show "round64 (2 / 100) \<noteq> Fin 0" "\<not> round64 (2 / 100) < Fin 0" "isfinite (round64 (2 / 100))"
    "\<not> round64 (1 / 10) < Fin 0" "isfinite (round64 (1 / 10))"
    by (simp_all add: isfinite_def)
qed

lemma sample_order_limiter_made:
  "make_limiter list_log (pool_policy (limits sample_dispatcher) (''order_placement'', Some 7) order_policy) = Inr sample_order_limiter"
  "check_rate_policy (pool_policy (limits sample_dispatcher) (''order_placement'', Some 7) order_policy) = ok"
  "sample_order_limiter = \<lparr>rate_policy_of = pool_policy (limits sample_dispatcher) (''order_placement'', Some 7) order_policy,
     window_ms = 30100, spacing_ms = 20, bucket = (15, 30100, []), spacing = Some (1, 20, []),
     pending = [], waiters = [], next_reservation = 0\<rparr>"
  by (simp_all add: sample_order_limiter_def make_limiter_def pool_policy_def window_seconds_def policy_windows
      policy_windows(2) [simplified] order_policy_def plain_policy_def round64_ne_zero round64_ne_zero [simplified] check_rate_policy_def finite_non_negative_field_def
      sample_dispatcher_def make_dispatcher_def isfinite_def [of "Fin _"])

definition sample_reserved :: "(int \<times> int \<times> int list) dispatcher" where
  "sample_reserved = snd (pool_reserve list_log (Fin 1) sample_request sample_dispatcher)"

lemma sample_reserved_eq:
  "pool_reserve list_log (Fin 1) sample_request sample_dispatcher = (Inr 0, sample_reserved)"
  "sample_reserved = sample_dispatcher\<lparr>pools := [((''order_placement'', Some 7),
     sample_order_limiter\<lparr>pending := [(0, 1)], next_reservation := 1\<rparr>)]\<rparr>"
proof -
  have none: "pools sample_dispatcher = []" by (simp add: sample_dispatcher_def make_dispatcher_def isfinite_def)
  have "peek list_log 0 (1, 20, []) = None" by (simp add: list_log_def)
  then have "reserve list_log (Fin 1) 1 sample_order_limiter
      = (Inr 0, sample_order_limiter\<lparr>pending := [(0, 1)], next_reservation := 1\<rparr>)"
    by (simp add: sample_order_limiter_made(3) reserve_def try_reserve_def grant_def prune_def pending_weight_def
        pool_policy_def order_policy_def plain_policy_def)
  moreover have "limiter_of list_log sample_request sample_dispatcher
      = (Inr ((''order_placement'', Some 7), sample_order_limiter),
         sample_dispatcher\<lparr>pools := [((''order_placement'', Some 7), sample_order_limiter)]\<rparr>)"
    using sample_pool sample_order_limiter_made(1,2) none place_order_policy
    by (simp add: limiter_of_def sample_request_def)
  ultimately have "pool_reserve list_log (Fin 1) sample_request sample_dispatcher = (Inr 0, sample_dispatcher\<lparr>pools :=
      [((''order_placement'', Some 7), sample_order_limiter\<lparr>pending := [(0, 1)], next_reservation := 1\<rparr>)]\<rparr>)"
    by (simp add: pool_reserve_def sample_request_def set_pool_def put_slot_def)
  then show "pool_reserve list_log (Fin 1) sample_request sample_dispatcher = (Inr 0, sample_reserved)"
    "sample_reserved = sample_dispatcher\<lparr>pools := [((''order_placement'', Some 7),
     sample_order_limiter\<lparr>pending := [(0, 1)], next_reservation := 1\<rparr>)]\<rparr>"
    by (simp_all add: sample_reserved_def)
qed

text \<open>The admission becomes lease 0, whose order is protected; then the caller goes away, and the order is sent.\<close>

definition sample_protected :: "(int \<times> int \<times> int list) dispatcher" where
  "sample_protected = lease_cancel_pending 0 (snd (protect_mutation [sample_request] (Some 0)
     (open_lease 0 [((''order_placement'', Some 7), 0)] sample_reserved)))"

lemma sample_leased: "leases sample_reserved = []"
  by (simp add: sample_reserved_eq(2) sample_dispatcher_def make_dispatcher_def isfinite_def)

lemma sample_protected_eq:
  "sample_protected = sample_reserved\<lparr>leases := [(0, \<lparr>lease_slots = [((''order_placement'', Some 7), 0)],
     lease_closed = False, lease_cancelled = True, lease_protected = [(''order_placement'', Some 7)]\<rparr>)]\<rparr>"
  using sample_leased sample_pool
  by (simp add: sample_protected_def open_lease_def set_lease_def put_slot_def protect_mutation_def lease_protect_def
      lease_cancel_pending_def release_slots_def)

lemma sample_protected_run: "(dispatch_step list_log)\<^sup>*\<^sup>* (sample_dispatcher, 0) (sample_protected, 1000)"
proof -
  let ?d = "open_lease 0 [((''order_placement'', Some 7), 0)] sample_reserved"
  let ?p = "snd (protect_mutation [sample_request] (Some 0) ?d)"
  have "dispatch_step list_log (sample_dispatcher, 0) (sample_reserved, 1000)"
    by (rule dispatch_step.reserving [OF _ _ sample_reserved_eq(1)]) simp_all
  moreover have "dispatch_step list_log (sample_reserved, 1000) (?d, 1000)"
    by (rule dispatch_step.leasing) (simp add: sample_leased)
  moreover have "dispatch_step list_log (?d, 1000) (?p, 1000)"
    by (rule dispatch_step.protecting) (rule prod.collapse [symmetric])
  moreover have "dispatch_step list_log (?p, 1000) (sample_protected, 1000)"
    unfolding sample_protected_def by (rule dispatch_step.cancelling)
  ultimately show ?thesis by (meson converse_rtranclp_into_rtranclp r_into_rtranclp)
qed

definition sample_sent :: "(int \<times> int \<times> int list) dispatcher" where
  "sample_sent = snd (snd (start_call list_log (Fin 1) (\<lambda>_. Fin 1) (''order_placement'', Some 7) 0 (Some 0)
     (Inr PNone :: pyval res) False None sample_protected))"

lemma sample_send:
  "start_call list_log (Fin 1) (\<lambda>_. Fin 1) (''order_placement'', Some 7) 0 (Some 0)
     (Inr PNone :: pyval res) False None sample_protected = (Inr PNone, None, sample_sent)"
  "sdk_calls sample_sent = [((''order_placement'', Some 7), 1000)]"
proof -
  have none: "started sample_dispatcher = []" "sdk_calls sample_dispatcher = []"
    by (simp_all add: sample_dispatcher_def make_dispatcher_def isfinite_def)
  obtain L where L: "start list_log (Fin 1) 0 (sample_order_limiter\<lparr>pending := [(0, 1)], next_reservation := 1\<rparr>) = (ok, L)"
    by (simp add: start_def prune_def log_dispatch_def sample_order_limiter_made(3))
  then have "start_slot list_log (Fin 1) (''order_placement'', Some 7) 0 sample_protected
      = (ok, (set_pool (''order_placement'', Some 7) L sample_protected)\<lparr>started := [((''order_placement'', Some 7), 1000)]\<rparr>)"
    by (simp add: start_slot_def sample_protected_eq sample_reserved_eq(2) none)
  then show "start_call list_log (Fin 1) (\<lambda>_. Fin 1) (''order_placement'', Some 7) 0 (Some 0)
     (Inr PNone :: pyval res) False None sample_protected = (Inr PNone, None, sample_sent)"
    "sdk_calls sample_sent = [((''order_placement'', Some 7), 1000)]"
    by (simp_all add: sample_sent_def start_call_def lease_allows_def invoke_def sample_protected_eq sample_reserved_eq(2)
        none set_pool_def)
qed

lemma sample_sent_run: "(dispatch_step list_log)\<^sup>*\<^sup>* (sample_dispatcher, 0) (sample_sent, 1000)"
proof -
  have "dispatch_step list_log (sample_protected, 1000) (sample_sent, 1000)"
    by (rule dispatch_step.starting [OF _ _ sample_send(1)]) simp_all
  with sample_protected_run show ?thesis by (rule rtranclp.rtrancl_into_rtrancl)
qed

subsection \<open>Properties of the dispatcher\<close>

text \<open>C14. On a rolling log that satisfies the documented laws, whatever callers, waits, cancellations and reads are
  interleaved, the SDK calls made for a pool, an operation or a group of operations, of one account where the provider
  counts per account, never exceed the operation's budget in any rolling window of 30.1 seconds; and the calls of a
  paced operation, such as placing orders, are further apart than its interval.\<close>

theorem provider_budget_holds:
  assumes "dispatch_start B view (d0, t0)" "(dispatch_step B)\<^sup>*\<^sup>* (d0, t0) (d, now)"
    and "pool_of q = Inr k" "operation_policy (quota_operation q) = Inr p"
  shows "int (in_window 30100 T (calls_of k (sdk_calls d))) \<le> op_calls p
    \<and> (op_interval p \<noteq> Fin 0 \<longrightarrow> in_window (interval_ms p) T (calls_of k (sdk_calls d)) \<le> 1)"
proof -
  have ok: "dispatch_ok B view (d, now)" using assms(1,2) by (rule dispatch.reachable_invar)
  then have p: "pools_ok B view d now" and sub: "subseq (sdk_calls d) (started d)" by (simp_all add: dispatch_ok_def)
  note fewer = in_window_subseq [OF sub, where k = k]
  have g: "governs p k" using assms(3,4) by (auto simp: governs_def)
  show ?thesis
  proof (cases "map_of (pools d) k")
    case None
    then have "calls_of k (started d) = []" by (rule pools_okD(2) [OF p])
    then have "in_window w T (calls_of k (sdk_calls d)) = 0" for w using fewer [of w T] by (simp add: in_window_def)
    then show ?thesis using operation_policy_grouped(2) [OF assms(4)] by simp
  next
    case (Some L)
    obtain p' where p': "governs p' k" "shape L = pool_shape (limits d) k p'"
      and L: "limiter_ok B view (L, now, calls_of k (started d))"
      using pools_okD(3) [OF p Some] by (auto simp: pool_ok_def)
    note u = governs_unique [OF g p'(1)] and o = limiter_okD [OF L]
    have L': "rate_calls (rate_policy_of L) = op_calls p" "window_ms L = 30100" "spacing_ms L = interval_ms p"
      "spacing L = None \<longleftrightarrow> op_interval p = Fin 0"
      using p'(2) u by (simp_all add: shape_def pool_shape_def pool_policy_def interval_ms_def)
    have "int (in_window 30100 T (calls_of k (started d))) \<le> op_calls p" using o(9) L' by metis
    moreover have "in_window (interval_ms p) T (calls_of k (started d)) \<le> 1" if "op_interval p \<noteq> Fin 0"
      using that L' pacing_SomeD(3) [OF o(10)] by (cases "spacing L") auto
    ultimately show ?thesis using fewer [of 30100 T] fewer [of "interval_ms p" T] by force
  qed
qed

theorem provider_budget_holds_witness:
  "int (in_window 30100 1000 (calls_of (''order_placement'', Some 7) (sdk_calls sample_sent))) \<le> op_calls order_policy"
  using provider_budget_holds [OF sample_dispatch_start sample_sent_run sample_pool, of order_policy 1000] place_order_policy
  by (simp add: sample_request_def)

text \<open>C17. An admission whose caller has gone away starts nothing more: in every later state of a run, whatever else
  happens, a call under the cancelled lease in a pool that was not protected is refused and neither counted nor sent;
  and no later protection can lift that.\<close>

theorem cancelled_admission_sends_nothing_more:
  assumes "dispatch_start B view (d0, t0)" "(dispatch_step B)\<^sup>*\<^sup>* (d0, t0) (d, now)"
    and "map_of (leases d) i = Some l" "k \<notin> set (lease_protected l)"
    and "(dispatch_step B)\<^sup>*\<^sup>* (lease_cancel_pending i d, now) (d', now')"
  shows "isl (fst (start_call B t clk k r (Some i) answer abandoned ro d'))
    \<and> snd (snd (start_call B t clk k r (Some i) answer abandoned ro d')) = d'
    \<and> isl (fst (protect_mutation [q] (Some i) d'))"
proof -
  let ?Q = "\<lambda>s. cancelled_lease i (set (lease_protected l)) (fst s)"
  have ok: "dispatch_ok B view (d, now)" using assms(1,2) by (rule dispatch.reachable_invar)
  have inv: "dispatch_ok B view (lease_cancel_pending i d, now)" using leases_keep(3) [OF ok] .
  have start: "?Q (lease_cancel_pending i d, now)"
    using assms(3) by (simp add: lease_cancel_pending_def cancelled_lease_def set_lease_def)
  have "?Q (d', now')"
    by (rule dispatch.run_stable [of B view ?Q, OF _ assms(5) inv start]) (rule cancelled_lease_step)
  then obtain l' where l': "map_of (leases d') i = Some l'" "lease_cancelled l'" "set (lease_protected l') \<subseteq> set (lease_protected l)"
    by (auto simp: cancelled_lease_def split: option.splits)
  have "lease_allows (Some k) (Some i) d' = raise RuntimeError ''admission was cancelled''"
    using l' assms(4) by (auto simp: lease_allows_def guardR_def)
  then show ?thesis
    using l'(1,2) by (auto simp: start_call_def protect_mutation_def lease_protect_def split: sum.splits)
qed

theorem cancelled_admission_sends_nothing_more_witness:
  "isl (fst (start_call list_log (Fin 2) (\<lambda>_. Fin 2) (''order_placement'', Some 8) 0 (Some 0) (Inr PNone) False None
     (lease_cancel_pending 0 sample_protected)))"
proof -
  let ?l = "the (map_of (leases sample_protected) 0)"
  have "map_of (leases sample_protected) 0 = Some ?l" "(''order_placement'', Some 8) \<notin> set (lease_protected ?l)"
    by (simp_all add: sample_protected_eq)
  then show ?thesis
    using cancelled_admission_sends_nothing_more [OF sample_dispatch_start sample_protected_run _ _ rtranclp.rtrancl_refl]
    by blast
qed

text \<open>C18. A cancellation gives back what the lease reserved and did not protect, and nothing else; and a mutation that was
  protected before it can still be sent: its permit is there, so the call is started, counted and made, and the
  provider's answer is returned.\<close>

theorem protected_permit_survives_cancellation:
  assumes "dispatch_start B view (d0, t0)" "(dispatch_step B)\<^sup>*\<^sup>* (d0, t0) (d, now)"
    and "map_of (leases d) i = Some l" "k \<in> set (lease_protected l)" "0 < slot_remaining k r d"
    and "milliseconds floor t = Inr ts" "now \<le> ts"
    and "start_call B t clk k r (Some i) answer abandoned None (lease_cancel_pending i d) = (v, ro, d')"
  shows "v = answer \<and> sdk_calls d' = sdk_calls d @ [(k, ts)]
    \<and> slot_remaining j s (lease_cancel_pending i d)
        = (if (j, s) \<in> set (lease_slots l) \<and> j \<notin> set (lease_protected l) then 0 else slot_remaining j s d)"
proof -
  let ?d = "lease_cancel_pending i d"
  have ok: "dispatch_ok B view (d, now)" using assms(1,2) by (rule dispatch.reachable_invar)
  then have p: "pools_ok B view ?d now" using leases_keep(3) [OF ok] by (simp add: dispatch_ok_def)
  have rem: "slot_remaining j s ?d
      = (if (j, s) \<in> set (lease_slots l) \<and> j \<notin> set (lease_protected l) then 0 else slot_remaining j s d)" for j s
    using assms(3) by (simp add: lease_cancel_pending_def)
  obtain u d1 where u: "start_slot B t k r ?d = (u, d1)" by fastforce
  note st = start_slot_ok [OF p assms(6,7) u]
  have "u = ok" using st(3) rem [of k r] assms(4,5) by simp
  moreover have "lease_allows (Some k) (Some i) ?d = ok"
    using assms(3,4) by (simp add: lease_allows_def lease_cancel_pending_def set_lease_def)
  moreover have "sdk_calls ?d = sdk_calls d"
    using assms(3) release_slots_ok(3) [of B view "set_lease i (l\<lparr>lease_cancelled := True\<rparr>) d" now] ok
    by (simp add: lease_cancel_pending_def dispatch_ok_def set_lease_def pools_ok_frame frame_def)
  ultimately show ?thesis
    using assms(8) u st(2,4) rem by (auto simp: start_call_def invoke_def frame_def)
qed

theorem protected_permit_survives_cancellation_witness:
  "sdk_calls (snd (snd (start_call list_log (Fin 1) (\<lambda>_. Fin 1) (''order_placement'', Some 7) 0 (Some 0)
     (Inr PNone :: pyval res) False None (lease_cancel_pending 0 sample_protected)))) = [((''order_placement'', Some 7), 1000)]"
proof -
  let ?l = "the (map_of (leases sample_protected) 0)"
  have "map_of (leases sample_protected) 0 = Some ?l" "(''order_placement'', Some 7) \<in> set (lease_protected ?l)"
    "0 < slot_remaining (''order_placement'', Some 7) 0 sample_protected"
    by (simp_all add: sample_protected_eq slot_remaining_def sample_reserved_eq(2) remaining_def)
  moreover have "sdk_calls sample_protected = []"
    by (simp add: sample_protected_eq sample_reserved_eq(2) sample_dispatcher_def make_dispatcher_def isfinite_def)
  ultimately show ?thesis
    using protected_permit_survives_cancellation [OF sample_dispatch_start sample_protected_run _ _ _ milliseconds_1 order_refl]
    by (metis append_Nil prod.collapse)
qed

text \<open>C32. In every reachable state the reads that wait and the workers that run are between zero and the configured
  bounds; a read is refused exactly when the bound is reached, and a worker is taken only below its bound.\<close>

theorem reads_are_bounded:
  assumes "dispatch_start B view (d0, t0)" "(dispatch_step B)\<^sup>*\<^sup>* (d0, t0) (d, now)"
  shows "0 \<le> pending_reads d \<and> pending_reads d \<le> max_pending_reads (limits d)
    \<and> 0 \<le> read_workers d \<and> read_workers d \<le> max_inflight_reads (limits d)
    \<and> (isl (fst (read_enter d)) \<longleftrightarrow> pending_reads d = max_pending_reads (limits d))
    \<and> (fst (worker_round t x d) = Inr True \<longrightarrow>
         read_check t x = ok \<and> read_workers d < max_inflight_reads (limits d)
         \<and> read_workers (snd (worker_round t x d)) = read_workers d + 1)"
proof -
  have "reads_ok d" using dispatch.reachable_invar [OF assms] by (simp add: dispatch_ok_def)
  then show ?thesis
    by (auto simp: reads_ok_def read_enter_def worker_round_def split: sum.splits if_splits)
qed

theorem reads_are_bounded_witness:
  "read_workers sample_sent \<le> max_inflight_reads (limits sample_sent)"
  using reads_are_bounded [OF sample_dispatch_start sample_sent_run] by blast

text \<open>An SDK answer is returned to a read only if the read was alive before the call, nobody cancelled it meanwhile
  and its deadline had not passed when the answer came; a read that is over calls nothing; and after the call the
  counters of started and completed SDK calls are in step, whether the SDK answered or raised.\<close>

theorem late_answers_are_discarded:
  fixes x :: read_call
  assumes "invoke clk answer abandoned (Some x) = (v, called, ro)" "\<not> sdk_in_flight x"
  shows "(\<not> isl v \<longrightarrow> v = answer \<and> called \<and> \<not> abandoned \<and> \<not> read_cancelled x
      \<and> \<not> read_until x \<le> clk ''before'' \<and> \<not> read_until x \<le> clk ''late'')
    \<and> (called \<longleftrightarrow> \<not> read_cancelled x \<and> \<not> read_until x \<le> clk ''before'')
    \<and> (\<exists>y. ro = Some y \<and> \<not> sdk_in_flight y
         \<and> int (sdk_started y) - int (sdk_completed y) = int (sdk_started x) - int (sdk_completed x)
         \<and> sdk_started y = sdk_started x + (if called then 1 else 0))"
proof (cases "read_cancelled x \<or> read_until x \<le> clk ''before''")
  case True
  then obtain e where "read_check (clk ''before'') x = Inl e"
    by (cases "read_cancelled x") (auto simp: read_check_def)
  then have "v = Inl e" "\<not> called" "ro = Some x" using assms(1) by (auto simp: invoke_def)
  with True assms(2) show ?thesis by simp
next
  case False
  then have check: "read_check (clk ''before'') x = ok" by (simp add: read_check_def)
  have "''sdk'' \<notin> fst ` set (read_starts x)" using assms(2) by (simp add: sdk_in_flight_def)
  then have "put_slot ''sdk'' (clk ''sdk'') (read_starts x) = read_starts x @ [(''sdk'', clk ''sdk'')]"
    "map_of (read_starts x @ [(''sdk'', clk ''sdk'')]) ''sdk'' = Some (clk ''sdk'')"
    by (simp_all add: put_slot_def map_add_def map_of_eq_None_iff [symmetric] split: option.splits)
  then show ?thesis
    using assms(1) check False
    by (cases answer) (auto simp: invoke_def Let_def measure_begin_def measure_end_def read_cancel_def read_check_def
        sdk_in_flight_def split: if_split_asm)
qed

theorem late_answers_are_discarded_witness:
  "isl (fst (invoke (\<lambda>phase. if phase = ''late'' then Fin 12 else Fin 2) (Inr PNone) False (Some (new_read ''get_rehab'' (Fin 10) (Fin 1)))))"
proof -
  let ?x = "new_read ''get_rehab'' (Fin 10) (Fin 1)" and ?clk = "\<lambda>phase. if phase = ''late'' then Fin 12 else Fin 2"
  obtain v called ro where i: "invoke ?clk (Inr PNone) False (Some ?x) = (v, called, ro)" by (rule prod_cases3)
  have "\<not> sdk_in_flight ?x" by (simp add: sdk_in_flight_def new_read_def)
  note late_answers_are_discarded [OF i this]
  moreover have "read_until ?x \<le> ?clk ''late''" by (simp add: new_read_def fadd_def)
  ultimately have "isl v" by blast
  then show ?thesis unfolding i by simp
qed

text \<open>C19. A call outside an admission is a sequence of steps of the dispatcher, so that all its properties hold with such
  calls in between; whatever the provider answers and wherever it fails, it leaves every reservation as it found it,
  its own capacity given back; and it returns the provider's answer or an error, never something else.\<close>

theorem call_returns_its_capacity:
  assumes "dispatch_start B view (d0, t0)" "(dispatch_step B)\<^sup>*\<^sup>* (d0, t0) (d, now)"
    and "milliseconds floor (clk ''reserve'') = Inr t1" "now \<le> t1"
    and "milliseconds floor (clk ''start'') = Inr t2" "t1 \<le> t2"
    and "sdk_call B clk op kw [] lid (answer :: pyval res) abandoned ro d = (v, ro', d')"
  shows "slot_remaining j s d' = slot_remaining j s d \<and> (isl v \<or> v = answer)
    \<and> (\<exists>later. (dispatch_step B)\<^sup>*\<^sup>* (d, now) (d', later))"
proof -
  have "dispatch_ok B view (d, now)" using assms(1,2) by (rule dispatch.reachable_invar)
  then have p: "pools_ok B view d now" by (simp add: dispatch_ok_def)
  from assms(7) show ?thesis
  proof (cases rule: sdk_call_cases)
    case untimed
    then show ?thesis by auto
  next
    case (full q e)
    have "dispatch_step B (d, now) (d', t1)" by (rule dispatch_step.reserving [OF assms(3,4) full(1)])
    then show ?thesis using pool_reserve_remaining(1) [OF p full(1)] full(2) by blast
  next
    case (started q k r d1 d2)
    have p1: "pools_ok B view d1 t1" using pool_reserve_ok(1) [OF p assms(3,4) started(2)] .
    note first = pool_reserve_remaining(2) [OF p started(2) refl started(1)] and
      second = start_call_remaining [OF p1 started(3)]
    have same: "slot_remaining j s d' = slot_remaining j s d"
    proof (cases "(j, s) = (k, r)")
      case True
      then show ?thesis using first [of j s] started(4) by simp
    next
      case False
      then show ?thesis using first [of j s] second [OF False] started(4) by auto
    qed
    have "dispatch_step B (d, now) (d1, t1)" by (rule dispatch_step.reserving [OF assms(3,4) started(2)])
    moreover have "dispatch_step B (d1, t1) (d2, t2)" by (rule dispatch_step.starting [OF assms(5,6) started(3)])
    moreover have "dispatch_step B (d2, t2) (d', t2)" unfolding started(4) by (rule dispatch_step.releasing)
    ultimately have "(dispatch_step B)\<^sup>*\<^sup>* (d, now) (d', t2)" by (meson converse_rtranclp_into_rtranclp r_into_rtranclp)
    with same started(5) show ?thesis by blast
  qed
qed

theorem call_returns_its_capacity_witness:
  "slot_remaining (''get_rehab'', None) 0 (snd (snd (sdk_call list_log (\<lambda>_. Fin 1) ''get_rehab'' [] [] None (Inr PNone) False None
     sample_sent))) = slot_remaining (''get_rehab'', None) 0 sample_sent"
proof -
  obtain v ro' d' where c: "sdk_call list_log (\<lambda>_. Fin 1) ''get_rehab'' [] [] None (Inr PNone) False None sample_sent = (v, ro', d')"
    by (rule prod_cases3)
  show ?thesis
    using call_returns_its_capacity [OF sample_dispatch_start sample_sent_run milliseconds_1 order_refl milliseconds_1 order_refl c]
    unfolding c by simp
qed

end
