(* ===== verification/Settings.thy ===== *)
theory Settings
  imports Client_Authorization Trading_Policy
begin

text \<open>
  \<open>settings.py\<close>: the configuration of a server process, read once from the environment before anything listens. The
  environment is a map of texts; \<open>names\<close>, the attributes of the SDK's \<open>SecurityFirm\<close>, and \<open>resolve\<close>, the components of
  the absolute path the file system gives for a text, are arguments. Settings that are accepted are well formed, keep
  the stores apart, and never open a server that can write without authentication.
\<close>

subsection \<open>Values\<close>

definition VALID_REPORTING_CURRENCIES :: "string list" where
  "VALID_REPORTING_CURRENCIES = [''HKD'', ''USD'', ''CNH'', ''JPY'', ''SGD'', ''AUD'', ''CAD'', ''MYR'']"

definition VALID_TRANSPORTS :: "string list" where
  "VALID_TRANSPORTS = [''streamable-http'']"

definition TRADING_MARKET_FILTERS :: "string list" where
  "TRADING_MARKET_FILTERS = [''NONE'', ''HK'', ''US'', ''CN'', ''HKCC'', ''SG'', ''AU'', ''JP'', ''MY'', ''CA'']"

text \<open>\<open>s.isupper()\<close>: a cased character, and none in lower case.\<close>

definition cased_upper :: "char \<Rightarrow> bool" where
  "cased_upper c = (let n = ord_of c in 65 \<le> n \<and> n \<le> 90 \<or> 192 \<le> n \<and> n \<le> 222 \<and> n \<noteq> 215)"

definition cased_lower :: "char \<Rightarrow> bool" where
  "cased_lower c = (let n = ord_of c in 97 \<le> n \<and> n \<le> 122 \<or> n = 170 \<or> n = 181 \<or> n = 186 \<or> 223 \<le> n \<and> n \<noteq> 247)"

definition isupper :: "string \<Rightarrow> bool" where
  "isupper s \<longleftrightarrow> list_ex cased_upper s \<and> \<not> list_ex cased_lower s"

text \<open>The order of the firms matters to a message only.\<close>

definition valid_security_firms :: "string list \<Rightarrow> string list" where
  "valid_security_firms names = filter (\<lambda>s. isupper s \<and> \<not> startswith s ''_'' \<and> s \<noteq> ''NONE'') names"

text \<open>\<open>(environ.get(name) or default).strip()\<close>, and \<open>\<dots> or None\<close>.\<close>

definition env_text :: "env \<Rightarrow> string \<Rightarrow> string \<Rightarrow> string" where
  "env_text env name dflt = strip (case env name of None \<Rightarrow> dflt | Some t \<Rightarrow> if t = [] then dflt else t)"

definition some_text :: "string \<Rightarrow> string option" where
  "some_text s = (if s = [] then None else Some s)"

definition config_error :: "string \<Rightarrow> 'a res" where
  "config_error name = raise TradingModeConfigError name"

text \<open>A flag that must be \<open>0\<close> or \<open>1\<close>.\<close>

definition env_flag :: "env \<Rightarrow> string \<Rightarrow> bool res" where
  "env_flag env name = (let raw = env_text env name ''0'' in
     if raw \<notin> {''0'', ''1''} then config_error name else Inr (raw = ''1''))"

definition load_port :: "env \<Rightarrow> int res" where
  "load_port env = (let raw = env_text env ''MOOMOO_OPEND_PORT'' [] in
     if raw = [] then Inr 11111
     else if \<not> isdigit raw then config_error ''MOOMOO_OPEND_PORT''
     else bindR (int_of_text raw) (\<lambda>port.
       if 1 \<le> port \<and> port \<le> 65535 then Inr port else config_error ''MOOMOO_OPEND_PORT''))"

definition load_security_firm :: "string list \<Rightarrow> env \<Rightarrow> string option res" where
  "load_security_firm names env = (let raw = env_text env ''MOOMOO_SECURITY_FIRM'' [] in
     if raw = [] then Inr None
     else if upper raw \<notin> set (valid_security_firms names) then config_error ''MOOMOO_SECURITY_FIRM''
     else Inr (Some (upper raw)))"

definition load_trading_market :: "env \<Rightarrow> string res" where
  "load_trading_market env = (let raw = env_text env ''MOOMOO_TRADING_MARKET'' [] in
     if raw = [] then Inr ''NONE''
     else if upper raw \<notin> set TRADING_MARKET_FILTERS then config_error ''MOOMOO_TRADING_MARKET''
     else Inr (upper raw))"

definition load_reporting_currency :: "env \<Rightarrow> string option res" where
  "load_reporting_currency env = (let raw = env_text env ''MOOMOO_REPORTING_CURRENCY'' [] in
     if raw = [] then Inr None
     else if upper raw \<notin> set VALID_REPORTING_CURRENCIES then config_error ''MOOMOO_REPORTING_CURRENCY''
     else Inr (Some (upper raw)))"

definition load_transport :: "env \<Rightarrow> string res" where
  "load_transport env = (let raw = lower (env_text env ''MCP_TRANSPORT'' ''streamable-http'') in
     if raw \<notin> set VALID_TRANSPORTS then config_error ''MCP_TRANSPORT'' else Inr raw)"

definition load_chatgpt_tunnel_host :: "env \<Rightarrow> bool res" where
  "load_chatgpt_tunnel_host env = (let raw = env_text env ''MCP_ALLOW_CHATGPT_TUNNEL_HOST'' [] in
     if raw \<notin> {[], ''0'', ''1''} then config_error ''MCP_ALLOW_CHATGPT_TUNNEL_HOST'' else Inr (raw = ''1''))"

subsection \<open>Settings\<close>

record settings =
  opend_host :: string
  opend_port :: int
  trade_policy :: trading_policy
  security_firm :: "string option"
  trading_market :: string
  trade_password :: "string option"
  trade_password_md5 :: "string option"
  transport :: string
  auth_token :: string
  allow_unauthenticated_http :: bool
  simulated_account_allowlist :: "int set"
  journal_path :: "string option"
  create_journal :: bool
  journal_lock_wait_ms :: int
  allow_chatgpt_tunnel_host :: bool
  real_journal_path :: "string option"
  create_real_journal :: bool
  controls_path :: "string option"
  create_controls :: bool
  operator_auth_token :: string
  operator_id :: string
  reporting_currency :: "string option"
  observe_execution :: bool
  restricted_auth_token :: string
  restricted_grants :: "client_grants option"

definition has_trade_credential :: "settings \<Rightarrow> bool" where
  "has_trade_credential s \<longleftrightarrow> (case trade_password s of None \<Rightarrow> False | Some t \<Rightarrow> t \<noteq> [])
     \<or> (case trade_password_md5 s of None \<Rightarrow> False | Some t \<Rightarrow> t \<noteq> [])"

definition settings_lock_at_rest :: "settings \<Rightarrow> bool" where
  "settings_lock_at_rest s \<longleftrightarrow> mode (trade_policy s) = READ_ONLY
     \<or> mode (trade_policy s) = REAL \<and> has_trade_credential s"

text \<open>The account identifiers of the paper journal.\<close>

fun load_paper_ids :: "string list \<Rightarrow> int set \<Rightarrow> int set res" where
  "load_paper_ids [] ids = Inr ids"
| "load_paper_ids (item # items) ids = (let t = strip item in
     if t = [] \<or> \<not> list_all decimal_char t then config_error ''MOOMOO_SIMULATED_ACC_IDS''
     else bindR (int_of_text t) (\<lambda>n.
       if n \<le> 0 then config_error ''MOOMOO_SIMULATED_ACC_IDS'' else load_paper_ids items (insert n ids)))"

definition load_lock_wait :: "env \<Rightarrow> int res" where
  "load_lock_wait env = (let raw = env_text env ''MOOMOO_JOURNAL_LOCK_WAIT_MS'' ''5000'' in
     if \<not> isascii raw \<or> \<not> isdecimal raw then config_error ''MOOMOO_JOURNAL_LOCK_WAIT_MS''
     else bindR (int_of_text raw) (\<lambda>n.
       if 1 \<le> n \<and> n \<le> 60000 then Inr n else config_error ''MOOMOO_JOURNAL_LOCK_WAIT_MS''))"

text \<open>The paper journal: accounts, path, creation, lock wait. Read when something may write or is observed.\<close>

record paper_settings =
  paper_ids :: "int set"
  paper_path :: "string option"
  paper_create :: bool
  paper_wait :: int

definition check_paper :: "env \<Rightarrow> trading_mode \<Rightarrow> int set \<Rightarrow> string option \<Rightarrow> bool \<Rightarrow> unit res" where
  "check_paper env md ids path create =
     (if md \<noteq> READ_ONLY \<and> (md = SIMULATE \<or> path \<noteq> None \<or> ids \<noteq> {} \<or> create) then
        (if ids = {} then config_error ''MOOMOO_SIMULATED_ACC_IDS''
         else if path = None then config_error ''MOOMOO_JOURNAL_PATH''
         else bindR (load_trading_market env) (\<lambda>market.
           guardR (market \<notin> {''US'', ''NONE''}) (Exn TradingModeConfigError ''MOOMOO_TRADING_MARKET'')))
      else ok)"

definition load_paper :: "env \<Rightarrow> trading_mode \<Rightarrow> bool \<Rightarrow> paper_settings res" where
  "load_paper env md observing =
     (if md = READ_ONLY \<and> \<not> observing
      then Inr \<lparr>paper_ids = {}, paper_path = None, paper_create = False, paper_wait = 5000\<rparr>
      else let raw = env_text env ''MOOMOO_SIMULATED_ACC_IDS'' [] in
        bindR (if raw = [] then Inr {} else load_paper_ids (split_on CHR '','' raw) {}) (\<lambda>ids.
        let path = some_text (env_text env ''MOOMOO_JOURNAL_PATH'' []) in
        bindR (env_flag env ''MOOMOO_CREATE_JOURNAL'') (\<lambda>creation.
        let create = (creation \<and> md \<noteq> READ_ONLY) in
        bindR (load_lock_wait env) (\<lambda>wait.
        bindR (check_paper env md ids path create) (\<lambda>_.
        Inr \<lparr>paper_ids = ids, paper_path = path, paper_create = create, paper_wait = wait\<rparr>)))))"

text \<open>\<open>Path(a).resolve().parent == Path(b).resolve().parent\<close>; the root is its own parent.\<close>

definition same_directory :: "(string \<Rightarrow> string list) \<Rightarrow> string \<Rightarrow> string \<Rightarrow> bool" where
  "same_directory resolve a b \<longleftrightarrow> butlast (resolve a) = butlast (resolve b)"

definition load_real ::
    "(string \<Rightarrow> string list) \<Rightarrow> env \<Rightarrow> trading_mode \<Rightarrow> bool \<Rightarrow> string option \<Rightarrow> (string option \<times> bool) res" where
  "load_real resolve env md observing paper =
     (if md \<noteq> REAL \<and> \<not> observing then Inr (None, False)
      else let path = some_text (env_text env ''MOOMOO_REAL_JOURNAL_PATH'' []) in
        bindR (guardR (path = None \<and> md = REAL) (Exn TradingModeConfigError ''MOOMOO_REAL_JOURNAL_PATH'')) (\<lambda>_.
        bindR (env_flag env ''MOOMOO_CREATE_REAL_JOURNAL'') (\<lambda>creation.
        bindR (case (paper, path) of
            (Some a, Some b) \<Rightarrow> guardR (same_directory resolve a b) (Exn TradingModeConfigError ''MOOMOO_REAL_JOURNAL_PATH'')
          | _ \<Rightarrow> ok) (\<lambda>_.
        Inr (path, creation \<and> md = REAL)))))"

subsection \<open>Tokens and controls\<close>

text \<open>A token a header can carry: ASCII, printable, no space.\<close>

definition header_text :: "string \<Rightarrow> bool" where
  "header_text t \<longleftrightarrow> isascii t \<and> \<not> list_ex (\<lambda>c. \<not> printable_char c \<or> space_char c) t"

definition check_operator :: "string \<Rightarrow> string \<Rightarrow> string \<Rightarrow> unit res" where
  "check_operator token operator auth =
     (if token = [] then ok
      else if auth = [] then config_error ''MCP_AUTH_TOKEN''
      else if token = auth then config_error ''MOOMOO_OPERATOR_AUTH_TOKEN''
      else if \<not> header_text token then config_error ''MOOMOO_OPERATOR_AUTH_TOKEN''
      else if operator = [] \<or> 128 < length operator \<or> \<not> isprintable operator then config_error ''MOOMOO_OPERATOR_ID''
      else ok)"

definition check_controls :: "(string \<Rightarrow> string list) \<Rightarrow> trading_policy \<Rightarrow> string \<Rightarrow> string option list \<Rightarrow> string option \<Rightarrow> unit res" where
  "check_controls resolve p operator journals path =
     (if (require_approval p \<or> max_daily_notional p \<noteq> [] \<or> operator \<noteq> []) \<and> path = None
      then config_error ''MOOMOO_TRADING_CONTROLS_PATH''
      else if mode p \<noteq> READ_ONLY \<and> require_approval p \<and> operator = [] then config_error ''MOOMOO_OPERATOR_AUTH_TOKEN''
      else case path of None \<Rightarrow> ok
        | Some c \<Rightarrow> forR journals (\<lambda>j. case j of None \<Rightarrow> ok
            | Some t \<Rightarrow> guardR (resolve c = resolve t) (Exn TradingModeConfigError ''distinct storage'')))"

definition load_controls ::
    "(string \<Rightarrow> string list) \<Rightarrow> env \<Rightarrow> trading_policy \<Rightarrow> bool \<Rightarrow> string \<Rightarrow> string option list \<Rightarrow> (string option \<times> bool) res" where
  "load_controls resolve env p observing operator journals =
     (if mode p = READ_ONLY \<and> \<not> observing \<and> operator = [] then Inr (None, False)
      else let path = some_text (env_text env ''MOOMOO_TRADING_CONTROLS_PATH'' []) in
        bindR (env_flag env ''MOOMOO_CREATE_TRADING_CONTROLS'') (\<lambda>creation.
        bindR (check_controls resolve p operator journals path) (\<lambda>_.
        Inr (path, creation \<and> mode p \<noteq> READ_ONLY))))"

definition load_scope :: "env \<Rightarrow> string \<Rightarrow> pyval list option res" where
  "load_scope env name = (case env name of
     None \<Rightarrow> Inr None
   | Some raw \<Rightarrow> bindR (mapR (\<lambda>item. let t = strip item in
         if t = [] \<or> \<not> isascii t \<or> \<not> isdecimal t then config_error name
         else bindR (int_of_text t) (\<lambda>n. if n \<le> 0 then config_error name else Inr (PInt n)))
       (split_on CHR '','' raw)) (\<lambda>ids. Inr (Some ids)))"

definition load_restricted :: "env \<Rightarrow> string \<Rightarrow> string \<Rightarrow> string \<Rightarrow> client_grants option res" where
  "load_restricted env token auth operator =
     (if token = [] then Inr None
      else if auth = [] \<or> token \<in> {auth, operator} \<or> \<not> header_text token then config_error ''MCP_RESTRICTED_AUTH_TOKEN''
      else let perms = (case env ''MCP_RESTRICTED_PERMISSIONS'' of
             None \<Rightarrow> DEFAULT_RESTRICTED_PERMISSIONS | Some raw \<Rightarrow> set (map strip (split_on CHR '','' raw))) in
        bindR (load_scope env ''MCP_RESTRICTED_REAL_ACC_IDS'') (\<lambda>reals.
        bindR (load_scope env ''MCP_RESTRICTED_SIMULATE_ACC_IDS'') (\<lambda>sims.
        case make_grants perms reals sims of
          Inl e \<Rightarrow> if exn_class e = ValueError then config_error ''MCP_RESTRICTED_PERMISSIONS'' else Inl e
        | Inr g \<Rightarrow> Inr (Some g))))"

subsection \<open>Loading\<close>

definition load_settings :: "string list \<Rightarrow> (string \<Rightarrow> string list) \<Rightarrow> env \<Rightarrow> settings res" where
  "load_settings names resolve env =
     bindR (from_env env) (\<lambda>p.
     let password = some_text (env_text env ''MOOMOO_TRADE_PASSWORD'' []);
         md5 = some_text (env_text env ''MOOMOO_TRADE_PASSWORD_MD5'' []) in
     bindR (load_transport env) (\<lambda>trans.
     let auth = env_text env ''MCP_AUTH_TOKEN'' [] in
     bindR (env_flag env ''MOOMOO_OBSERVE_EXECUTION'') (\<lambda>observing.
     bindR (load_paper env (mode p) observing) (\<lambda>paper.
     bindR (load_real resolve env (mode p) observing (paper_path paper)) (\<lambda>(real_path, create_real).
     let operator = env_text env ''MOOMOO_OPERATOR_AUTH_TOKEN'' [];
         who = env_text env ''MOOMOO_OPERATOR_ID'' [] in
     bindR (check_operator operator who auth) (\<lambda>_.
     bindR (load_controls resolve env p observing operator [paper_path paper, real_path]) (\<lambda>(controls, creates).
     let restricted = env_text env ''MCP_RESTRICTED_AUTH_TOKEN'' [] in
     bindR (load_restricted env restricted auth operator) (\<lambda>granted.
     bindR (load_port env) (\<lambda>port.
     bindR (load_security_firm names env) (\<lambda>firm.
     bindR (load_trading_market env) (\<lambda>market.
     bindR (load_chatgpt_tunnel_host env) (\<lambda>tunnel.
     bindR (load_reporting_currency env) (\<lambda>currency.
     Inr \<lparr>opend_host = (let h = env_text env ''MOOMOO_OPEND_HOST'' [] in if h = [] then ''127.0.0.1'' else h),
          opend_port = port, trade_policy = p, security_firm = firm, trading_market = market,
          trade_password = password, trade_password_md5 = (if password \<noteq> None \<and> md5 \<noteq> None then None else md5),
          transport = trans, auth_token = auth,
          allow_unauthenticated_http = (env_text env ''MCP_ALLOW_UNAUTHENTICATED_HTTP'' [] = ''1''),
          simulated_account_allowlist = paper_ids paper, journal_path = paper_path paper, create_journal = paper_create paper,
          journal_lock_wait_ms = paper_wait paper, allow_chatgpt_tunnel_host = tunnel,
          real_journal_path = real_path, create_real_journal = create_real, controls_path = controls, create_controls = creates,
          operator_auth_token = operator, operator_id = who, reporting_currency = currency, observe_execution = observing,
          restricted_auth_token = restricted, restricted_grants = granted\<rparr>)))))))))))))"

definition check_transport_authentication :: "settings \<Rightarrow> unit res" where
  "check_transport_authentication s =
     (if auth_token s \<noteq> [] then ok
      else if allow_unauthenticated_http s \<and> mode (trade_policy s) = READ_ONLY then ok
      else config_error ''MCP_AUTH_TOKEN'')"

subsection \<open>Storage\<close>

text \<open>What a read-only connection shows of a file: the answers of the queries, \<open>None\<close> where SQLite raises.\<close>

record stored_file =
  integrity_rows :: "string list option"
  environment_rows :: "string list option"
  schema_version :: "int option"
  operations_readable :: bool
  version_rows :: "int list option"
  prepared_readable :: bool
  charges_readable :: bool

definition asked :: "'a option \<Rightarrow> ('a \<Rightarrow> unit res) \<Rightarrow> unit res" where
  "asked answer f = (case answer of None \<Rightarrow> config_error ''Configured storage is unavailable'' | Some x \<Rightarrow> f x)"

definition readable :: "bool \<Rightarrow> unit res" where
  "readable b = (if b then ok else config_error ''Configured storage is unavailable'')"

definition check_journal_file :: "string \<Rightarrow> stored_file \<Rightarrow> unit res" where
  "check_journal_file environment f =
     asked (environment_rows f) (\<lambda>rows.
       bindR (if rows \<noteq> [environment] then config_error ''Configured journal identity is invalid''
              else asked (schema_version f) (\<lambda>n.
                guardR (n \<notin> {1, 2, 3}) (Exn TradingModeConfigError ''Configured journal identity is invalid''))) (\<lambda>_.
       readable (operations_readable f)))"

definition check_controls_file :: "stored_file \<Rightarrow> unit res" where
  "check_controls_file f =
     asked (version_rows f) (\<lambda>rows.
       bindR (guardR (rows \<noteq> [1]) (Exn TradingModeConfigError ''Configured controls schema is invalid'')) (\<lambda>_.
       bindR (readable (prepared_readable f)) (\<lambda>_. readable (charges_readable f))))"

text \<open>\<open>disk\<close> gives the file at a location, if it exists, and its connection, if it opens.\<close>

definition check_store :: "(string \<Rightarrow> stored_file option option) \<Rightarrow> string option \<times> bool \<times> string option \<Rightarrow> unit res" where
  "check_store disk entry = (case entry of
     (None, _, _) \<Rightarrow> ok
   | (Some location, create, environment) \<Rightarrow> if location = [] then ok else (case disk location of
       None \<Rightarrow> if create then ok else config_error ''Configured storage requires initialization''
     | Some connection \<Rightarrow> asked connection (\<lambda>f. asked (integrity_rows f) (\<lambda>rows.
         bindR (guardR (rows \<noteq> [''ok'']) (Exn TradingModeConfigError ''Configured storage integrity failed'')) (\<lambda>_.
         case environment of Some env \<Rightarrow> check_journal_file env f | None \<Rightarrow> check_controls_file f)))))"

definition validate_storage :: "(string \<Rightarrow> stored_file option option) \<Rightarrow> settings \<Rightarrow> unit res" where
  "validate_storage disk s = forR
     [(journal_path s, create_journal s, Some ''SIMULATE''), (real_journal_path s, create_real_journal s, Some ''REAL''),
      (controls_path s, create_controls s, None)] (check_store disk)"

subsection \<open>Parts of accepted settings\<close>

lemma config_error_simps [simp]: "config_error t \<noteq> Inr x" "Inr x \<noteq> config_error t"
  by (simp_all add: config_error_def)

lemma load_settings_parts:
  assumes "load_settings names resolve env = Inr s"
  shows "from_env env = Inr (trade_policy s)" "load_transport env = Inr (transport s)"
    "\<exists>paper. load_paper env (mode (trade_policy s)) (observe_execution s) = Inr paper
       \<and> paper_ids paper = simulated_account_allowlist s \<and> paper_path paper = journal_path s
       \<and> paper_create paper = create_journal s \<and> paper_wait paper = journal_lock_wait_ms s"
    "load_real resolve env (mode (trade_policy s)) (observe_execution s) (journal_path s)
       = Inr (real_journal_path s, create_real_journal s)"
    "check_operator (operator_auth_token s) (operator_id s) (auth_token s) = ok"
    "load_controls resolve env (trade_policy s) (observe_execution s) (operator_auth_token s)
       [journal_path s, real_journal_path s] = Inr (controls_path s, create_controls s)"
    "load_restricted env (restricted_auth_token s) (auth_token s) (operator_auth_token s) = Inr (restricted_grants s)"
    "load_port env = Inr (opend_port s)" "load_security_firm names env = Inr (security_firm s)"
    "load_trading_market env = Inr (trading_market s)" "load_reporting_currency env = Inr (reporting_currency s)"
    "trade_password s \<noteq> None \<longrightarrow> trade_password_md5 s = None"
  using assms by (auto simp: load_settings_def Let_def res_simps)

lemma load_paper_ids_positive:
  "load_paper_ids items ids = Inr out \<Longrightarrow> \<forall>n \<in> ids. 0 < n \<Longrightarrow> \<forall>n \<in> out. 0 < n"
  by (induction items ids rule: load_paper_ids.induct) (auto simp: Let_def res_simps split: if_split_asm)

lemma load_lock_wait_bounds: "load_lock_wait env = Inr n \<Longrightarrow> 1 \<le> n \<and> n \<le> 60000"
  by (auto simp: load_lock_wait_def Let_def res_simps split: if_split_asm)

lemma check_paper_ok:
  assumes "check_paper env md ids path create = Inr u" "md \<noteq> READ_ONLY" "md = SIMULATE \<or> path \<noteq> None \<or> ids \<noteq> {} \<or> create"
  shows "ids \<noteq> {}" "path \<noteq> None" "\<exists>market \<in> {''US'', ''NONE''}. load_trading_market env = Inr market"
  using assms by (auto simp: check_paper_def res_simps split: if_split_asm)

lemma load_paper_ok:
  assumes "load_paper env md observing = Inr q"
  shows "\<forall>n \<in> paper_ids q. 0 < n" "1 \<le> paper_wait q \<and> paper_wait q \<le> 60000" "md = READ_ONLY \<Longrightarrow> \<not> paper_create q"
    "md \<noteq> READ_ONLY \<Longrightarrow> check_paper env md (paper_ids q) (paper_path q) (paper_create q) = ok"
  using assms load_paper_ids_positive [of _ "{}"]
  by (auto simp: load_paper_def Let_def res_simps dest!: load_lock_wait_bounds split: if_split_asm)

lemma load_real_ok:
  assumes "load_real resolve env md observing paper = Inr (path, create)"
  shows "md = REAL \<Longrightarrow> path \<noteq> None" "create \<Longrightarrow> md = REAL"
    "paper = Some a \<Longrightarrow> path = Some b \<Longrightarrow> \<not> same_directory resolve a b"
  using assms by (auto simp: load_real_def Let_def res_simps split: if_split_asm option.splits)

lemma check_controls_ok:
  assumes "check_controls resolve p operator journals path = Inr u"
  shows "require_approval p \<or> max_daily_notional p \<noteq> [] \<or> operator \<noteq> [] \<Longrightarrow> path \<noteq> None"
    "mode p \<noteq> READ_ONLY \<Longrightarrow> require_approval p \<Longrightarrow> operator \<noteq> []"
    "path = Some c \<Longrightarrow> Some t \<in> set journals \<Longrightarrow> resolve c \<noteq> resolve t"
  using assms unfolding check_controls_def by (auto simp: forR_Inr_iff guardR_Inr_iff split: if_split_asm)

lemma load_controls_ok:
  assumes "load_controls resolve env p observing operator journals = Inr (path, create)"
  shows "create \<Longrightarrow> mode p \<noteq> READ_ONLY"
    "mode p = READ_ONLY \<and> operator = [] \<and> path = None \<or> check_controls resolve p operator journals path = ok"
  using assms by (auto simp: load_controls_def Let_def res_simps split: if_split_asm)

lemma load_restricted_ok:
  assumes "load_restricted env token auth operator = Inr g" "token \<noteq> []"
  shows "auth \<noteq> []" "token \<notin> {auth, operator}" "header_text token"
    "\<exists>perms reals sims gr. make_grants perms reals sims = Inr gr \<and> g = Some gr"
proof -
  show "auth \<noteq> []" "token \<notin> {auth, operator}" "header_text token"
    using assms by (auto simp: load_restricted_def split: if_split_asm)
  then obtain perms reals sims where "(case make_grants perms reals sims of
      Inl e \<Rightarrow> if exn_class e = ValueError then config_error ''MCP_RESTRICTED_PERMISSIONS'' else Inl e
    | Inr gr \<Rightarrow> Inr (Some gr)) = Inr g"
    using assms unfolding load_restricted_def Let_def by (auto simp: bindR_Inr_iff)
  then show "\<exists>perms reals sims gr. make_grants perms reals sims = Inr gr \<and> g = Some gr"
    by (cases "make_grants perms reals sims") (auto split: if_split_asm)
qed

subsection \<open>A sample configuration\<close>

definition sample_env :: env where
  "sample_env = [''MOOMOO_TRADING_MODE'' \<mapsto> ''simulate'', ''MCP_AUTH_TOKEN'' \<mapsto> ''secret'',
     ''MOOMOO_SIMULATED_ACC_IDS'' \<mapsto> ''7,8'', ''MOOMOO_JOURNAL_PATH'' \<mapsto> ''/data/paper.db'']"

definition sample_settings :: settings where
  "sample_settings = projr (load_settings [''FUTUINC''] (\<lambda>p. [p]) sample_env)"

lemma sample_policy_loaded:
  "from_env sample_env = Inr \<lparr>mode = SIMULATE, max_order_qty = None, max_order_notional = [(''USD'', Fin 500)],
     real_acc_ids = {}, symbol_allowlist = {}, max_daily_notional = [], require_approval = False\<rparr>"
proof -
  have "strip ''0'' = ''0''" "strip ''simulate'' = ''simulate''" "norm_text ''simulate'' = ''SIMULATE''" by code_simp+
  then show ?thesis
    by (simp add: sample_env_def from_env_def env_mode_def env_max_qty_def env_notional_default
        env_real_accounts_def env_symbols_def env_daily_def env_approval_def make_policy_def
        validate_default_cap Let_def del: validate_caps.simps)
qed

lemma sample_parts:
  "load_transport sample_env = Inr ''streamable-http''" "env_flag sample_env ''MOOMOO_OBSERVE_EXECUTION'' = Inr False"
  "load_paper sample_env SIMULATE False = Inr \<lparr>paper_ids = {7, 8}, paper_path = Some ''/data/paper.db'', paper_create = False, paper_wait = 5000\<rparr>"
  "env_text sample_env ''MCP_AUTH_TOKEN'' [] = ''secret''" "env_text sample_env ''MOOMOO_OPERATOR_AUTH_TOKEN'' [] = []"
  "env_text sample_env ''MCP_RESTRICTED_AUTH_TOKEN'' [] = []" "load_port sample_env = Inr 11111"
  "env_text sample_env ''MOOMOO_TRADING_CONTROLS_PATH'' [] = []" "env_flag sample_env ''MOOMOO_CREATE_TRADING_CONTROLS'' = Inr False"
  "load_security_firm names sample_env = Inr None" "load_trading_market sample_env = Inr ''NONE''"
  "load_chatgpt_tunnel_host sample_env = Inr False" "load_reporting_currency sample_env = Inr None"
  by code_simp+

lemma sample_settings_loaded: "load_settings [''FUTUINC''] (\<lambda>p. [p]) sample_env = Inr sample_settings"
  by (simp add: sample_settings_def load_settings_def sample_policy_loaded sample_parts load_real_def check_operator_def
      load_controls_def check_controls_def some_text_def load_restricted_def)

lemma sample_settings_mode: "mode (trade_policy sample_settings) = SIMULATE"
  using load_settings_parts(1) [OF sample_settings_loaded] unfolding sample_policy_loaded by (auto dest: sym)

lemma sample_settings_authenticated: "check_transport_authentication sample_settings = ok"
  by (simp add: sample_settings_def load_settings_def sample_policy_loaded sample_parts load_real_def check_operator_def
      load_controls_def check_controls_def some_text_def load_restricted_def check_transport_authentication_def)

subsection \<open>Properties of the settings\<close>

text \<open>The texts of the settings, the limits of the policy and the identity of the operator.\<close>

lemma some_text_nonempty: "some_text t \<noteq> Some []"
  by (simp add: some_text_def)

lemma load_settings_texts:
  assumes "load_settings names resolve env = Inr s"
  shows "opend_host s \<noteq> []"
    "Some [] \<notin> {trade_password s, trade_password_md5 s, journal_path s, real_journal_path s, controls_path s}"
proof -
  note parts = load_settings_parts [OF assms]
  have "opend_host s \<noteq> []" "trade_password s \<noteq> Some []" "trade_password_md5 s \<noteq> Some []"
    using assms by (auto simp: load_settings_def Let_def res_simps some_text_def split: if_split_asm)
  moreover have "journal_path s \<noteq> Some []"
    using parts(3) by (auto simp: load_paper_def Let_def res_simps some_text_nonempty split: if_split_asm)
  moreover have "real_journal_path s \<noteq> Some []"
    using parts(4) by (auto simp: load_real_def Let_def res_simps some_text_nonempty split: if_split_asm)
  moreover have "controls_path s \<noteq> Some []"
    using parts(6) by (auto simp: load_controls_def Let_def res_simps some_text_nonempty split: if_split_asm)
  ultimately show "opend_host s \<noteq> []"
    "Some [] \<notin> {trade_password s, trade_password_md5 s, journal_path s, real_journal_path s, controls_path s}" by auto
qed

lemma policy_limits:
  assumes "from_env env = Inr p"
  shows "\<forall>q. max_order_qty p = Some q \<longrightarrow> (\<exists>r. q = Fin r \<and> 0 < r)"
    "\<forall>(c, x) \<in> set (max_order_notional p) \<union> set (max_daily_notional p). length c = 3 \<and> isalpha c \<and> (\<exists>r. x = Fin r \<and> 0 < r)"
    "distinct (map fst (max_order_notional p))" "distinct (map fst (max_daily_notional p))"
    "\<forall>c \<in> symbol_allowlist p. exact_market_code c" "mode p = REAL \<longleftrightarrow> trading_policy.real_acc_ids p \<noteq> {}"
proof -
  have "policy_ok p" "mode p = REAL \<longleftrightarrow> trading_policy.real_acc_ids p \<noteq> {}" using from_env_wellformed [OF assms] by auto
  then show "\<forall>q. max_order_qty p = Some q \<longrightarrow> (\<exists>r. q = Fin r \<and> 0 < r)"
    "\<forall>(c, x) \<in> set (max_order_notional p) \<union> set (max_daily_notional p). length c = 3 \<and> isalpha c \<and> (\<exists>r. x = Fin r \<and> 0 < r)"
    "distinct (map fst (max_order_notional p))" "distinct (map fst (max_daily_notional p))"
    "\<forall>c \<in> symbol_allowlist p. exact_market_code c" "mode p = REAL \<longleftrightarrow> trading_policy.real_acc_ids p \<noteq> {}"
    by (auto simp: policy_ok_def caps_ok_def limit_ok_def currency_code_def)
qed

lemma operator_identity:
  "check_operator token operator auth = ok \<Longrightarrow> token \<noteq> [] \<longrightarrow> operator \<noteq> [] \<and> length operator \<le> 128 \<and> isprintable operator"
  by (auto simp: check_operator_def split: if_split_asm)



text \<open>C16. The stores of an accepted configuration are there when they are needed and apart from each other: a REAL server has
  a REAL journal, a paper server its journal, accounts and a market it can trade on; the two journals are in different
  directories, and the controls are neither; approvals and daily budgets have their controls, approvals an operator;
  and a read-only server creates no store.\<close>

theorem accepted_settings_keep_stores_apart:
  assumes "load_settings names resolve env = Inr s"
  shows "(mode (trade_policy s) = REAL \<longrightarrow> real_journal_path s \<noteq> None)
    \<and> (mode (trade_policy s) = SIMULATE \<longrightarrow> journal_path s \<noteq> None \<and> simulated_account_allowlist s \<noteq> {}
         \<and> trading_market s \<in> {''US'', ''NONE''})
    \<and> (\<forall>a b. journal_path s = Some a \<longrightarrow> real_journal_path s = Some b \<longrightarrow> \<not> same_directory resolve a b)
    \<and> (\<forall>c t. controls_path s = Some c \<longrightarrow> journal_path s = Some t \<or> real_journal_path s = Some t \<longrightarrow> resolve c \<noteq> resolve t)
    \<and> (mode (trade_policy s) \<noteq> READ_ONLY \<longrightarrow>
         (require_approval (trade_policy s) \<or> max_daily_notional (trade_policy s) \<noteq> [] \<longrightarrow> controls_path s \<noteq> None)
       \<and> (require_approval (trade_policy s) \<longrightarrow> operator_auth_token s \<noteq> []))
    \<and> (mode (trade_policy s) = READ_ONLY \<longrightarrow> \<not> create_journal s \<and> \<not> create_real_journal s \<and> \<not> create_controls s)"
proof -
  note parts = load_settings_parts [OF assms]
  obtain q where q: "load_paper env (mode (trade_policy s)) (observe_execution s) = Inr q"
    "paper_ids q = simulated_account_allowlist s" "paper_path q = journal_path s" "paper_create q = create_journal s"
    using parts(3) by blast
  note paper = load_paper_ok [OF q(1)] and rls = load_real_ok [OF parts(4)]
    and ctl = load_controls_ok [OF parts(6)]
  have "journal_path s \<noteq> None \<and> simulated_account_allowlist s \<noteq> {} \<and> trading_market s \<in> {''US'', ''NONE''}"
    if simulate: "mode (trade_policy s) = SIMULATE"
  proof -
    have checked: "check_paper env SIMULATE (simulated_account_allowlist s) (journal_path s) (create_journal s) = ok"
      using paper(4) simulate q(2-4) by simp
    note check_paper_ok [OF checked]
    then show ?thesis using parts(10) by force
  qed
  moreover have "mode (trade_policy s) = READ_ONLY \<longrightarrow> \<not> create_journal s \<and> \<not> create_real_journal s \<and> \<not> create_controls s"
    using paper(3) rls(2) ctl(1) q(4) by auto
  moreover have "\<forall>c t. controls_path s = Some c \<longrightarrow> journal_path s = Some t \<or> real_journal_path s = Some t \<longrightarrow> resolve c \<noteq> resolve t"
    using ctl(2) check_controls_ok(3) [where journals = "[journal_path s, real_journal_path s]"] by fastforce
  moreover have "mode (trade_policy s) \<noteq> READ_ONLY \<longrightarrow>
         (require_approval (trade_policy s) \<or> max_daily_notional (trade_policy s) \<noteq> [] \<longrightarrow> controls_path s \<noteq> None)
       \<and> (require_approval (trade_policy s) \<longrightarrow> operator_auth_token s \<noteq> [])"
    using ctl(2) check_controls_ok(1,2) by blast
  ultimately show ?thesis using rls(1,3) by blast
qed

theorem accepted_settings_keep_stores_apart_witness:
  "journal_path sample_settings \<noteq> None \<and> simulated_account_allowlist sample_settings \<noteq> {}"
  using accepted_settings_keep_stores_apart [OF sample_settings_loaded] sample_settings_mode by blast

text \<open>C15. A server that may write is always authenticated: it starts only with a token; and the tokens of the operator and
  of the restricted client are texts a header can carry, differ from the server's token and from each other, and exist
  only beside it. Of the server's own token only the presence is checked.\<close>

theorem writing_server_is_authenticated:
  assumes "load_settings names resolve env = Inr s" "check_transport_authentication s = ok"
  shows "(mode (trade_policy s) \<noteq> READ_ONLY \<longrightarrow> auth_token s \<noteq> [])
    \<and> (auth_token s = [] \<longrightarrow> allow_unauthenticated_http s)
    \<and> (operator_auth_token s \<noteq> [] \<longrightarrow> auth_token s \<noteq> [] \<and> operator_auth_token s \<noteq> auth_token s
         \<and> header_text (operator_auth_token s) \<and> operator_id s \<noteq> [] \<and> length (operator_id s) \<le> 128)
    \<and> (restricted_auth_token s \<noteq> [] \<longrightarrow> auth_token s \<noteq> [] \<and> restricted_auth_token s \<notin> {auth_token s, operator_auth_token s}
         \<and> header_text (restricted_auth_token s) \<and> restricted_grants s \<noteq> None)"
proof -
  note parts = load_settings_parts [OF assms(1)]
  have "mode (trade_policy s) \<noteq> READ_ONLY \<longrightarrow> auth_token s \<noteq> []" "auth_token s = [] \<longrightarrow> allow_unauthenticated_http s"
    using assms(2) by (auto simp: check_transport_authentication_def split: if_split_asm)
  moreover have "operator_auth_token s \<noteq> [] \<longrightarrow> auth_token s \<noteq> [] \<and> operator_auth_token s \<noteq> auth_token s
      \<and> header_text (operator_auth_token s) \<and> operator_id s \<noteq> [] \<and> length (operator_id s) \<le> 128"
    using parts(5) by (auto simp: check_operator_def split: if_split_asm)
  moreover have "restricted_auth_token s \<noteq> [] \<longrightarrow> auth_token s \<noteq> []
      \<and> restricted_auth_token s \<notin> {auth_token s, operator_auth_token s} \<and> header_text (restricted_auth_token s)
      \<and> restricted_grants s \<noteq> None"
    using load_restricted_ok [OF parts(7)] by blast
  ultimately show ?thesis by blast
qed

theorem writing_server_is_authenticated_witness:
  "auth_token sample_settings \<noteq> []"
  using writing_server_is_authenticated [OF sample_settings_loaded sample_settings_authenticated] sample_settings_mode by simp

text \<open>A port written with a superscript digit passes \<open>isdigit\<close> and fails in \<open>int\<close>: what leaves \<open>load_settings\<close> is the
  error of the conversion, which does not name the variable.\<close>

lemma superscript_port_escapes:
  "load_port [''MOOMOO_OPEND_PORT'' \<mapsto> [CHR 0xB2]] = raise ValueError ''int''"
  by (simp add: load_port_def env_text_def Let_def py_text int_of_text_def ord_of_def)

end
