(* ===== verification/Supervisor.thy ===== *)
theory Supervisor
  imports Py_Float Prelude
begin

text \<open>
  \<open>supervisor.py\<close>: process 1 of the container. It runs the gateway and the server, restarts a gateway that exits, at
  most so often in a window and with a growing delay, and otherwise stops everything and leaves. The kernel is the
  source of what happens: process identifiers, the answers of \<open>waitpid\<close> and the clock are arguments.
\<close>

subsection \<open>Children\<close>

definition GATEWAY :: string where "GATEWAY = ''opend''"

definition SERVER :: string where "SERVER = ''moomoo-mcp''"

definition SENSITIVE_FLAGS :: "string list" where
  "SENSITIVE_FLAGS = [''-login_pwd_md5'', ''-login_account'']"

definition redacted_arg :: "string \<Rightarrow> string" where
  "redacted_arg arg = (case partition_at CHR ''='' arg of (flag, separator, v) \<Rightarrow>
     if separator \<and> flag \<in> set SENSITIVE_FLAGS then flag @ ''=<redacted>'' else arg)"

fun joined :: "string list \<Rightarrow> string" where
  "joined [] = []"
| "joined [p] = p"
| "joined (p # ps) = p @ '' '' @ joined ps"

definition redacted :: "string list \<Rightarrow> string" where
  "redacted argv = joined (map redacted_arg argv)"

record child_spec =
  child_name :: string
  child_argv :: "string list"
  child_cwd :: "string option"

datatype supervisor_error = GatewayLoginError string | SupervisorConfigError string

type_synonym environment = "string \<Rightarrow> string option"

text \<open>\<open>env.get(name, default)\<close>.\<close>

definition env_get :: "environment \<Rightarrow> string \<Rightarrow> string \<Rightarrow> string" where
  "env_get env name dflt = (case env name of None \<Rightarrow> dflt | Some t \<Rightarrow> t)"

text \<open>The files below the home directory: whether a path is a directory, and its entries; \<open>None\<close> where the system
  raises an error.\<close>

record home_files =
  home_is_dir :: "string \<Rightarrow> string list \<Rightarrow> bool option"
  home_entries :: "string \<Rightarrow> string list \<Rightarrow> string list option"

definition is_directory :: "home_files \<Rightarrow> string \<Rightarrow> string list \<Rightarrow> bool" where
  "is_directory fs home path = (case home_is_dir fs home path of None \<Rightarrow> False | Some b \<Rightarrow> b)"

definition has_remembered_token :: "home_files \<Rightarrow> string \<Rightarrow> bool" where
  "has_remembered_token fs home =
     (if is_directory fs home [''.com.moomoo.OpenD'', ''F3CNN'', ''UserAccMap''] then True
      else case home_entries fs home [''.com.moomoo.OpenD'', ''F3CNN'', ''ftnet'', ''auth_acc_list''] of
        None \<Rightarrow> False | Some names \<Rightarrow> names \<noteq> [])"

definition gateway_argv :: "environment \<Rightarrow> string list" where
  "gateway_argv env = (let region = strip (env_get env ''MOOMOO_LOGIN_REGION'' ''sg'') in
     [env_get env ''OPEND_BINARY'' ''/opt/moomooOpenD/OpenD'', ''-api_ip=127.0.0.1'', ''-no_monitor=1'', ''-lang=en'',
      ''-login_region='' @ (if region = [] then ''sg'' else region)])"

text \<open>\<open>parent\<close> is \<open>str(Path(binary).parent)\<close>.\<close>

definition gateway_spec :: "(string \<Rightarrow> string) \<Rightarrow> home_files \<Rightarrow> environment \<Rightarrow> supervisor_error + child_spec" where
  "gateway_spec parent fs env =
     (let account = strip (env_get env ''MOOMOO_LOGIN_ACCOUNT'' []);
          interactive = (strip (env_get env ''OPEND_INTERACTIVE'' ''0'') = ''1'');
          by_remember = (strip (env_get env ''MOOMOO_LOGIN_BY_REMEMBER'' ''1'') = ''1'');
          spec = (\<lambda>extra. \<lparr>child_name = GATEWAY, child_argv = gateway_argv env @ extra,
            child_cwd = Some (parent (env_get env ''OPEND_BINARY'' ''/opt/moomooOpenD/OpenD''))\<rparr>) in
      if interactive then Inr (if account \<noteq> [] then spec [''-login_account='' @ account] else spec [])
      else if by_remember \<and> account \<noteq> [] \<and> has_remembered_token fs (env_get env ''HOME'' ''/home/opend'')
      then Inr (spec [''-login_account='' @ account, ''-login_by_remember=1''])
      else if account \<noteq> [] then Inl (GatewayLoginError ''No usable headless login'')
      else Inl (GatewayLoginError ''MOOMOO_LOGIN_ACCOUNT is empty''))"

definition server_spec :: "string \<Rightarrow> environment \<Rightarrow> child_spec" where
  "server_spec beside env =
     \<lparr>child_name = SERVER, child_argv = [env_get env ''MCP_SERVER_BINARY'' beside], child_cwd = None\<rparr>"

subsection \<open>State\<close>

text \<open>The policy, the children that run, the recent restarts of the gateway, the restart that is due, the signal that
  was received; and a log of the signals sent and of the times at which a restart was scheduled.\<close>

record supervisor =
  gateway :: "child_spec option"
  server :: child_spec
  max_gateway_restarts :: int
  gateway_restart_window :: pyfloat
  gateway_restart_backoff :: pyfloat
  max_gateway_restart_backoff :: pyfloat
  stop_timeout :: pyfloat
  child_pids :: "(string \<times> int) list"
  gateway_restarts :: "pyfloat list"
  gateway_restart_due :: "pyfloat option"
  stop_signal :: "int option"
  sent_signals :: "(int \<times> string) list"
  scheduled :: "pyfloat list"

definition spawn :: "child_spec \<Rightarrow> int \<Rightarrow> supervisor \<Rightarrow> supervisor" where
  "spawn spec pid s = s\<lparr>child_pids :=
     (if child_name spec \<in> fst ` set (child_pids s)
      then map (\<lambda>p. if fst p = child_name spec then (fst p, pid) else p) (child_pids s)
      else child_pids s @ [(child_name spec, pid)])\<rparr>"

definition request_stop :: "int \<Rightarrow> supervisor \<Rightarrow> supervisor" where
  "request_stop signum s = s\<lparr>stop_signal := Some signum\<rparr>"

definition start_children :: "int \<Rightarrow> int \<Rightarrow> supervisor \<Rightarrow> supervisor" where
  "start_children pid1 pid2 s = spawn (server s) pid2 (case gateway s of None \<Rightarrow> s | Some g \<Rightarrow> spawn g pid1 s)"

subsection \<open>Stopping\<close>

datatype wait_result = NoChildren | NothingExited | Exited int

definition collect :: "wait_result \<Rightarrow> supervisor \<Rightarrow> supervisor" where
  "collect w s = (case w of
     NoChildren \<Rightarrow> s\<lparr>child_pids := []\<rparr>
   | NothingExited \<Rightarrow> s
   | Exited pid \<Rightarrow> s\<lparr>child_pids := filter (\<lambda>p. snd p \<noteq> pid) (child_pids s)\<rparr>)"

definition signal_all :: "string \<Rightarrow> supervisor \<Rightarrow> supervisor" where
  "signal_all name s = s\<lparr>sent_signals := sent_signals s @ map (\<lambda>p. (snd p, name)) (child_pids s)\<rparr>"

text \<open>The rounds until the deadline, each with its clock reading and what \<open>waitpid\<close> answers; \<open>None\<close> while the loop still
  goes round, because a child is left and no reading has reached the deadline.\<close>

fun await_children :: "pyfloat \<Rightarrow> (pyfloat \<times> wait_result) list \<Rightarrow> supervisor \<Rightarrow> supervisor option" where
  "await_children deadline [] s = (if child_pids s = [] then Some s else None)"
| "await_children deadline ((t, w) # rounds) s =
     (if child_pids s \<noteq> [] \<and> t < deadline then await_children deadline rounds (collect w s) else Some s)"

text \<open>The blocking waits after the last signal; \<open>None\<close> while one still waits.\<close>

fun reap_killed :: "wait_result list \<Rightarrow> supervisor \<Rightarrow> supervisor option" where
  "reap_killed [] s = (if child_pids s = [] then Some s else None)"
| "reap_killed (w # ws) s = (if child_pids s = [] then Some s else reap_killed ws (collect w s))"

text \<open>The system during a shutdown: the reading the deadline is counted from, the rounds, and what the blocking waits
  answer once the given signals have been sent.\<close>

record stopping =
  stop_clock :: pyfloat
  stop_rounds :: "(pyfloat \<times> wait_result) list"
  stop_waits :: "(int \<times> string) list \<Rightarrow> wait_result list"

definition stop_deadline :: "stopping \<Rightarrow> supervisor \<Rightarrow> pyfloat" where
  "stop_deadline k s = fadd (stop_clock k) (stop_timeout s)"

definition shutdown :: "stopping \<Rightarrow> supervisor \<Rightarrow> supervisor option" where
  "shutdown k s = (case await_children (stop_deadline k s) (stop_rounds k) (signal_all ''SIGTERM'' s) of
     None \<Rightarrow> None
   | Some t \<Rightarrow> let t = signal_all ''SIGKILL'' t in reap_killed (stop_waits k (sent_signals t)) t)"

text \<open>What a pass of the policy comes to: the loop goes on, the process leaves with a code, it ends in an exception,
  or the shutdown still waits.\<close>

datatype tick_verdict = Continue | Leave int | Crash exn | Waiting

definition leave_with :: "int \<Rightarrow> stopping \<Rightarrow> supervisor \<Rightarrow> tick_verdict \<times> supervisor" where
  "leave_with code k s = (case shutdown k s of None \<Rightarrow> (Waiting, s) | Some s' \<Rightarrow> (Leave code, s'))"

subsection \<open>Passes of the policy\<close>

definition on_gateway_exit :: "pyfloat \<Rightarrow> stopping \<Rightarrow> supervisor \<Rightarrow> tick_verdict \<times> supervisor" where
  "on_gateway_exit t k s =
     (let s = s\<lparr>gateway_restarts := filter (\<lambda>u. fsub t u < gateway_restart_window s) (gateway_restarts s)\<rparr>;
          n = length (gateway_restarts s) in
      if max_gateway_restarts s \<le> int n then leave_with 2 k s
      else case float_of_int (2 ^ n) of
        Inl e \<Rightarrow> (Crash e, s)
      | Inr x \<Rightarrow>
          let delay = py_min [fmul (gateway_restart_backoff s) x, max_gateway_restart_backoff s] in
          (Continue, s\<lparr>gateway_restarts := gateway_restarts s @ [t], gateway_restart_due := Some (fadd t delay),
             scheduled := scheduled s @ [t]\<rparr>))"

definition child_of :: "int \<Rightarrow> supervisor \<Rightarrow> string option" where
  "child_of pid s = map_option fst (find (\<lambda>p. snd p = pid) (child_pids s))"

text \<open>\<open>_reap\<close>: the children \<open>waitpid\<close> reports, one after the other, until it has none; each with the clock its handling
  reads.\<close>

fun reap :: "(int \<times> pyfloat) list \<Rightarrow> stopping \<Rightarrow> supervisor \<Rightarrow> tick_verdict \<times> supervisor" where
  "reap [] k s = (Continue, s)"
| "reap ((pid, t) # exits) k s = (case child_of pid s of
     None \<Rightarrow> reap exits k s
   | Some name \<Rightarrow>
       let s = s\<lparr>child_pids := filter (\<lambda>p. fst p \<noteq> name) (child_pids s)\<rparr> in
       if name = SERVER then leave_with 1 k s
       else case on_gateway_exit t k s of
         (Continue, s) \<Rightarrow> reap exits k s
       | (v, s) \<Rightarrow> (v, s))"

record tick_input =
  tick_exits :: "(int \<times> pyfloat) list"
  tick_clock :: pyfloat
  tick_pid :: int
  tick_stopping :: stopping

definition restart_gateway :: "tick_input \<Rightarrow> supervisor \<Rightarrow> supervisor" where
  "restart_gateway i s = (case (gateway s, gateway_restart_due s) of
     (Some g, Some due) \<Rightarrow> if due \<le> tick_clock i then spawn g (tick_pid i) (s\<lparr>gateway_restart_due := None\<rparr>) else s
   | _ \<Rightarrow> s)"

definition tick :: "tick_input \<Rightarrow> supervisor \<Rightarrow> tick_verdict \<times> supervisor" where
  "tick i s =
     (if stop_signal s \<noteq> None then leave_with 0 (tick_stopping i) s
      else case reap (tick_exits i) (tick_stopping i) s of
        (Continue, s) \<Rightarrow> (Continue, restart_gateway i s)
      | (v, s) \<Rightarrow> (v, s))"

subsection \<open>Configuration\<close>

definition duration_setting :: "environment \<Rightarrow> string \<Rightarrow> pyfloat \<Rightarrow> supervisor_error + pyfloat" where
  "duration_setting env name dflt = (let raw = strip (env_get env name []) in
     if raw = [] then Inr dflt
     else case float_of_text raw of
       None \<Rightarrow> Inl (SupervisorConfigError name)
     | Some x \<Rightarrow> if \<not> isfinite x \<or> x \<le> Fin 0 then Inl (SupervisorConfigError name) else Inr x)"

text \<open>\<open>int(raw)\<close>: a sign, and digits that single underscores may separate.\<close>

definition whole_number :: "string \<Rightarrow> int option" where
  "whole_number raw = (case sign_split raw of (n, body) \<Rightarrow>
     let ds = filter (\<lambda>c. c \<noteq> CHR ''_'') body in
     if underscores_ok False body \<and> isdecimal ds \<and> length ds \<le> 4300
     then Some (if n then - digits_val ds else digits_val ds) else None)"

definition count_setting :: "environment \<Rightarrow> string \<Rightarrow> int \<Rightarrow> supervisor_error + int" where
  "count_setting env name dflt = (let raw = strip (env_get env name []) in
     if raw = [] then Inr dflt
     else case whole_number raw of
       None \<Rightarrow> Inl (SupervisorConfigError name)
     | Some n \<Rightarrow> if n < 0 then Inl (SupervisorConfigError name) else Inr n)"

definition build_supervisor ::
    "(string \<Rightarrow> string) \<Rightarrow> home_files \<Rightarrow> string \<Rightarrow> environment \<Rightarrow> environment \<Rightarrow> supervisor_error + supervisor" where
  "build_supervisor parent fs beside own env =
     (let g = (case gateway_spec parent fs env of Inl e \<Rightarrow> None | Inr spec \<Rightarrow> Some spec) in
      case count_setting env ''OPEND_MAX_RESTARTS'' 5 of Inl e \<Rightarrow> Inl e
      | Inr n \<Rightarrow> (case duration_setting env ''OPEND_RESTART_WINDOW_SECONDS'' (Fin 300) of Inl e \<Rightarrow> Inl e
        | Inr window \<Rightarrow> (case duration_setting env ''SUPERVISOR_STOP_TIMEOUT_SECONDS'' (Fin 10) of Inl e \<Rightarrow> Inl e
          | Inr timeout \<Rightarrow> Inr \<lparr>gateway = g, server = server_spec beside own, max_gateway_restarts = n,
              gateway_restart_window = window, gateway_restart_backoff = Fin 1, max_gateway_restart_backoff = Fin 30,
              stop_timeout = timeout, child_pids = [], gateway_restarts = [], gateway_restart_due = None,
              stop_signal = None, sent_signals = [], scheduled = []\<rparr>)))"

subsection \<open>Rounding is monotone\<close>

lemma half_even_mono:
  assumes "x \<le> y"
  shows "half_even x \<le> half_even y"
proof (cases "\<lfloor>x\<rfloor> = \<lfloor>y\<rfloor>")
  case True
  with assms show ?thesis by (simp add: half_even_def Let_def)
next
  case False
  with floor_mono [OF assms] have "\<lfloor>x\<rfloor> + 1 \<le> \<lfloor>y\<rfloor>" by simp
  moreover have "half_even x \<le> \<lfloor>x\<rfloor> + 1" "\<lfloor>y\<rfloor> \<le> half_even y" by (simp_all add: half_even_def Let_def)
  ultimately show ?thesis by linarith
qed

lemma half_even_scaled:
  assumes "0 \<le> n"
  shows "x \<le> pow2 n \<Longrightarrow> of_int (half_even x) \<le> pow2 n" "pow2 n \<le> x \<Longrightarrow> pow2 n \<le> of_int (half_even x)"
proof -
  have n: "pow2 n = of_int (2 ^ nat n)" using assms by (simp add: pow2_def)
  show "x \<le> pow2 n \<Longrightarrow> of_int (half_even x) \<le> pow2 n" "pow2 n \<le> x \<Longrightarrow> pow2 n \<le> of_int (half_even x)"
    unfolding n using half_even_mono [of x "of_int (2 ^ nat n)"] half_even_mono [of "of_int (2 ^ nat n)" x]
    by (simp_all only: half_even_int of_int_le_iff)
qed

lemma round_pos_mono:
  assumes "0 < x" "x \<le> y"
  shows "round_pos x \<le> round_pos y"
proof -
  let ?e = "\<lambda>x. max (lead x - 52) (- 1074)"
  have y: "0 < y" using assms by linarith
  note bx = lead_bounds [OF assms(1)] and byy = lead_bounds [OF y]
  show ?thesis
  proof (cases "?e y \<le> ?e x")
    case False
    then have ey: "?e y = lead y - 52" and less: "lead x + 1 \<le> lead y" by linarith+
    let ?a = "?e x" and ?b = "?e y"
    have "x \<le> pow2 (lead y)" using bx pow2_mono [OF less] by linarith
    then have "x / pow2 ?a \<le> pow2 (lead y - ?a)" by (simp add: pow2_diff divide_right_mono less_imp_le)
    then have "of_int (half_even (x / pow2 ?a)) \<le> pow2 (lead y - ?a)"
      using False by (intro half_even_scaled) linarith+
    then have "round_pos x \<le> pow2 (lead y - ?a) * pow2 ?a"
      unfolding round_pos_def Let_def by (intro mult_right_mono) (simp_all add: less_imp_le)
    also have "\<dots> = pow2 (lead y)" by (simp add: pow2_diff)
    also have "\<dots> = pow2 52 * pow2 ?b" by (simp add: ey pow2_add [symmetric])
    also have "\<dots> \<le> round_pos y"
    proof -
      have "pow2 52 \<le> y / pow2 ?b" using byy by (simp add: ey pow2_diff pos_le_divide_eq)
      then have "pow2 52 \<le> of_int (half_even (y / pow2 ?b))" by (intro half_even_scaled) simp_all
      then show ?thesis unfolding round_pos_def Let_def by (intro mult_right_mono) (simp_all add: less_imp_le)
    qed
    finally show ?thesis .
  next
    case True
    have "\<not> lead y + 1 \<le> lead x"
    proof
      assume "lead y + 1 \<le> lead x"
      then have "pow2 (lead y + 1) \<le> pow2 (lead x)" by (rule pow2_mono)
      with bx byy assms(2) show False by linarith
    qed
    then have same: "?e x = ?e y" using True by linarith
    have "x / pow2 (?e y) \<le> y / pow2 (?e y)" using assms(2) by (simp add: divide_right_mono less_imp_le)
    then have "half_even (x / pow2 (?e y)) \<le> half_even (y / pow2 (?e y))" by (rule half_even_mono)
    then show ?thesis unfolding round_pos_def Let_def same by (intro mult_right_mono) (simp_all add: less_imp_le)
  qed
qed

lemma round64_mono_less:
  assumes "x \<le> y" "round64 y < w"
  shows "round64 x < w"
proof -
  have nonneg: "0 \<le> round_pos z" if "0 < z" for z using that by (intro round_pos_nonneg) simp
  consider "x = y" | "x < y" "0 < x" | "x < y" "y < 0" | "x \<le> 0" "0 \<le> y" "x < y" using assms(1) by linarith
  then show ?thesis
  proof cases
    case 1
    with assms(2) show ?thesis by simp
  next
    case 2
    then show ?thesis using assms(2) round_pos_mono [of x y] by (cases w) (auto simp: round64_def Let_def split: if_split_asm)
  next
    case 3
    then show ?thesis using assms(2) round_pos_mono [of "- y" "- x"]
      by (cases w) (auto simp: round64_def Let_def split: if_split_asm)
  next
    case 4
    then show ?thesis using assms(2) nonneg [of y] nonneg [of "- x"]
      by (cases w) (auto simp: round64_def Let_def split: if_split_asm)
  qed
qed

lemma elapsed_mono:
  assumes "r \<le> r'" "fsub (Fin r') (Fin u) < w"
  shows "fsub (Fin r) (Fin u) < w"
  using round64_mono_less [of "r - u" "r' - u" w] assms by (simp add: fsub_def fadd_def fminus_def)

subsection \<open>Shutting down\<close>

lemma reap_killed_empty: "reap_killed ws s = Some s' \<Longrightarrow> child_pids s' = []"
  by (induction ws s rule: reap_killed.induct) (auto split: if_split_asm)

lemma shutdown_empty: "shutdown k s = Some s' \<Longrightarrow> child_pids s' = []"
  by (auto simp: shutdown_def Let_def dest: reap_killed_empty split: option.splits)

lemma reap_killed_ends:
  assumes "(\<forall>p \<in> set (child_pids s). Exited (snd p) \<in> set ws) \<or> NoChildren \<in> set ws"
  shows "\<exists>s'. reap_killed ws s = Some s'"
  using assms
proof (induction ws arbitrary: s)
  case Nil
  then show ?case by (cases "child_pids s") auto
next
  case (Cons w ws)
  have left: "set (child_pids (collect w s)) \<subseteq> set (child_pids s)" by (cases w) (auto simp: collect_def)
  show ?case
  proof (cases "w = NoChildren")
    case True
    then have "child_pids (collect w s) = []" by (simp add: collect_def)
    then have "reap_killed ws (collect w s) = Some (collect w s)" by (cases ws) simp_all
    then show ?thesis by simp
  next
    case False
    have "Exited (snd p) \<in> set ws" if "p \<in> set (child_pids (collect w s))" "Exited (snd p) \<in> set (w # ws)" for p
      using that by (cases w) (auto simp: collect_def)
    then have "(\<forall>p \<in> set (child_pids (collect w s)). Exited (snd p) \<in> set ws) \<or> NoChildren \<in> set ws"
      using Cons.prems False left by auto
    then have "\<exists>s'. reap_killed ws (collect w s) = Some s'" by (rule Cons.IH)
    then show ?thesis by simp
  qed
qed

text \<open>What \<open>waitpid\<close> reports before the deadline, and the children that are left then.\<close>

definition in_time :: "stopping \<Rightarrow> supervisor \<Rightarrow> wait_result set" where
  "in_time k s = snd ` set (takeWhile (\<lambda>r. fst r < stop_deadline k s) (stop_rounds k))"

definition ignoring_sigterm :: "stopping \<Rightarrow> supervisor \<Rightarrow> (string \<times> int) list" where
  "ignoring_sigterm k s = (if NoChildren \<in> in_time k s then [] else filter (\<lambda>p. Exited (snd p) \<notin> in_time k s) (child_pids s))"

lemma await_children_left:
  assumes "await_children deadline rounds s = Some s'"
  shows "child_pids s' = (let early = snd ` set (takeWhile (\<lambda>r. fst r < deadline) rounds) in
    if NoChildren \<in> early then [] else filter (\<lambda>p. Exited (snd p) \<notin> early) (child_pids s))"
  using assms
proof (induction deadline rounds s rule: await_children.induct)
  case (2 deadline t w rounds s)
  show ?case
  proof (cases "child_pids s \<noteq> [] \<and> t < deadline")
    case True
    then have "await_children deadline rounds (collect w s) = Some s'" using 2(2) by simp
    from 2(1) [OF True this] True show ?thesis by (cases w) (auto simp: collect_def Let_def intro: filter_cong)
  next
    case False
    then show ?thesis using 2(2) by (auto split: if_split_asm)
  qed
qed (simp split: if_split_asm)

lemma await_children_ends:
  "\<exists>r \<in> set rounds. \<not> fst r < deadline \<Longrightarrow> \<exists>s'. await_children deadline rounds s = Some s'"
  by (induction deadline rounds s rule: await_children.induct) auto

lemma kept_signals:
  "sent_signals (collect w s) = sent_signals s"
  "await_children deadline rounds s = Some s' \<Longrightarrow> sent_signals s' = sent_signals s"
  "reap_killed ws s = Some s' \<Longrightarrow> sent_signals s' = sent_signals s"
proof -
  show one: "sent_signals (collect w s) = sent_signals s" for w s by (cases w) (simp_all add: collect_def)
  show "await_children deadline rounds s = Some s' \<Longrightarrow> sent_signals s' = sent_signals s"
    by (induction deadline rounds s rule: await_children.induct) (auto simp: one split: if_split_asm)
  show "reap_killed ws s = Some s' \<Longrightarrow> sent_signals s' = sent_signals s"
    by (induction ws s rule: reap_killed.induct) (auto simp: one split: if_split_asm)
qed

subsection \<open>Runs\<close>

fun clocks :: "rat \<Rightarrow> pyfloat list \<Rightarrow> rat \<Rightarrow> bool" where
  "clocks t [] later \<longleftrightarrow> t \<le> later"
| "clocks t (Fin r # ts) later \<longleftrightarrow> t \<le> r \<and> clocks r ts later"
| "clocks t (x # ts) later \<longleftrightarrow> False"

text \<open>The loop: passes of the policy that go on, at clock readings that do not go back, and signals. A new child has an
  identifier that no child has that still runs.\<close>

inductive supervisor_step :: "supervisor \<times> rat \<Rightarrow> supervisor \<times> rat \<Rightarrow> bool" where
  ticking: "tick i s = (Continue, s') \<Longrightarrow> clocks t (map snd (tick_exits i)) later \<Longrightarrow>
     tick_pid i \<notin> snd ` set (child_pids (snd (reap (tick_exits i) (tick_stopping i) s))) \<Longrightarrow>
     supervisor_step (s, t) (s', later)"
| signalled: "supervisor_step (s, t) (request_stop signum s, t)"

definition running :: "string \<Rightarrow> supervisor \<Rightarrow> bool" where
  "running name s \<longleftrightarrow> name \<in> fst ` set (child_pids s)"

definition children_ok :: "supervisor \<Rightarrow> bool" where
  "children_ok s \<longleftrightarrow> distinct (map fst (child_pids s)) \<and> distinct (map snd (child_pids s))
     \<and> fst ` set (child_pids s) \<subseteq> {GATEWAY, SERVER} \<and> running SERVER s \<and> child_name (server s) = SERVER
     \<and> (case gateway s of None \<Rightarrow> \<not> running GATEWAY s \<and> gateway_restart_due s = None
        | Some g \<Rightarrow> child_name g = GATEWAY \<and> (running GATEWAY s \<longleftrightarrow> gateway_restart_due s = None))"

text \<open>Of the restarts so far, the recent ones are those kept; none was scheduled when the window was full.\<close>

definition recent :: "pyfloat \<Rightarrow> rat \<Rightarrow> pyfloat list \<Rightarrow> pyfloat list" where
  "recent w t xs = filter (\<lambda>u. fsub (Fin t) u < w) xs"

fun within_budget :: "int \<Rightarrow> pyfloat \<Rightarrow> pyfloat list \<Rightarrow> pyfloat list \<Rightarrow> bool" where
  "within_budget n w earlier [] \<longleftrightarrow> True"
| "within_budget n w earlier (Fin t # ts) \<longleftrightarrow> int (length (recent w t earlier)) < n \<and> within_budget n w (earlier @ [Fin t]) ts"
| "within_budget n w earlier (x # ts) \<longleftrightarrow> False"

definition schedule_ok :: "supervisor \<Rightarrow> rat \<Rightarrow> bool" where
  "schedule_ok s t \<longleftrightarrow> (\<forall>u \<in> set (scheduled s). isfinite u) \<and> Fin 0 < gateway_restart_window s
     \<and> (\<exists>r \<le> t. gateway_restarts s = recent (gateway_restart_window s) r (scheduled s))
     \<and> within_budget (max_gateway_restarts s) (gateway_restart_window s) [] (scheduled s)"

lemma within_budget_snoc:
  "within_budget n w earlier (ts @ [Fin t]) \<longleftrightarrow> within_budget n w earlier ts \<and> int (length (recent w t (earlier @ ts))) < n"
  by (induction n w earlier ts rule: within_budget.induct) auto

lemma recent_recent:
  assumes "r \<le> t" "\<forall>u \<in> set xs. isfinite u"
  shows "recent w t (recent w r xs) = recent w t xs"
proof -
  have "fsub (Fin r) u < w" if u: "u \<in> set xs" "fsub (Fin t) u < w" for u
  proof -
    have "isfinite u" using u(1) assms(2) by blast
    then obtain v where "u = Fin v" by (cases u) (auto simp: isfinite_def)
    with u(2) elapsed_mono [OF assms(1)] show ?thesis by simp
  qed
  then show ?thesis by (auto simp: recent_def intro: filter_cong)
qed

text \<open>An exit of the gateway that is survived schedules one restart, within the budget.\<close>

lemma on_gateway_exit_continues:
  assumes "on_gateway_exit (Fin t) k s = (Continue, s')"
  shows "\<exists>due. s' = s\<lparr>gateway_restarts := recent (gateway_restart_window s) t (gateway_restarts s) @ [Fin t],
      gateway_restart_due := Some due, scheduled := scheduled s @ [Fin t]\<rparr>"
    and "int (length (recent (gateway_restart_window s) t (gateway_restarts s))) < max_gateway_restarts s"
  using assms
  by (auto simp: on_gateway_exit_def Let_def recent_def leave_with_def split: if_split_asm sum.splits option.splits)

lemma on_gateway_exit_schedule:
  assumes "on_gateway_exit (Fin t) k s = (Continue, s')" "schedule_ok s t0" "t0 \<le> t"
  shows "schedule_ok s' t"
proof -
  let ?w = "gateway_restart_window s"
  note e = on_gateway_exit_continues [OF assms(1)]
  obtain r where "r \<le> t0" and kept_list: "gateway_restarts s = recent ?w r (scheduled s)"
    using assms(2) by (auto simp: schedule_ok_def)
  then have r: "r \<le> t" "gateway_restarts s = recent ?w r (scheduled s)" using assms(3) by simp_all
  have fin: "\<forall>u \<in> set (scheduled s). isfinite u"
    and w: "Fin 0 < ?w" and b: "within_budget (max_gateway_restarts s) ?w [] (scheduled s)"
    using assms(2) by (simp_all add: schedule_ok_def)
  have kept: "recent ?w t (gateway_restarts s) = recent ?w t (scheduled s)"
    unfolding r(2) by (rule recent_recent [OF r(1) fin])
  have "recent ?w t (scheduled s @ [Fin t]) = recent ?w t (scheduled s) @ [Fin t]"
    using w by (simp add: recent_def fsub_def fadd_def fminus_def)
  then show ?thesis
    using e b fin w kept by (auto simp: schedule_ok_def within_budget_snoc isfinite_def)
qed

lemma schedule_ok_later: "schedule_ok s t \<Longrightarrow> t \<le> later \<Longrightarrow> schedule_ok s later"
  by (auto simp: schedule_ok_def intro: order_trans)

lemma schedule_ok_frame:
  "schedule_ok (s\<lparr>child_pids := ps\<rparr>) t = schedule_ok s t" "schedule_ok (s\<lparr>gateway_restart_due := due\<rparr>) t = schedule_ok s t"
  "schedule_ok (s\<lparr>stop_signal := sig\<rparr>) t = schedule_ok s t"
  by (simp_all add: schedule_ok_def)

lemma names_differ [simp]: "GATEWAY \<noteq> SERVER" "SERVER \<noteq> GATEWAY"
  by (simp_all add: GATEWAY_def SERVER_def)

lemma child_of_Some: "child_of pid s = Some name \<Longrightarrow> (name, pid) \<in> set (child_pids s)"
  by (cases "find (\<lambda>p. snd p = pid) (child_pids s)") (auto simp: child_of_def find_Some_iff in_set_conv_nth)

lemma exit_children_ok:
  assumes ok: "children_ok s" and name: "child_of pid s = Some GATEWAY"
    and res: "on_gateway_exit (Fin t) k (s\<lparr>child_pids := filter (\<lambda>p. fst p \<noteq> GATEWAY) (child_pids s)\<rparr>) = (Continue, s')"
  shows "children_ok s'"
proof -
  note e = on_gateway_exit_continues(1) [OF res]
  have "running GATEWAY s" using child_of_Some [OF name] by (force simp: running_def)
  then obtain g where g: "gateway s = Some g" "child_name g = GATEWAY" using ok by (cases "gateway s") (auto simp: children_ok_def)
  have keys: "fst ` set (filter (\<lambda>p. fst p \<noteq> GATEWAY) (child_pids s)) = {SERVER}"
    using ok by (force simp: children_ok_def running_def)
  have "distinct (map fst (child_pids s))" "distinct (map snd (child_pids s))" "child_name (server s) = SERVER"
    using ok by (simp_all add: children_ok_def)
  moreover obtain due where "child_pids s' = filter (\<lambda>p. fst p \<noteq> GATEWAY) (child_pids s)" "gateway s' = gateway s"
    "server s' = server s" "gateway_restart_due s' = Some due"
    using e by auto
  ultimately show ?thesis
    unfolding children_ok_def running_def using keys g by (simp add: distinct_map_filter del: set_filter)
qed

lemma leave_not_continue: "fst (leave_with c k s) \<noteq> Continue"
  by (simp add: leave_with_def split: option.splits)

lemma reap_ok:
  assumes "reap exits k s = (Continue, s')" "children_ok s" "schedule_ok s t" "clocks t (map snd exits) later"
  shows "children_ok s'" "schedule_ok s' later"
proof -
  have "children_ok s' \<and> schedule_ok s' later"
    using assms
  proof (induction exits arbitrary: s t)
    case Nil
    then show ?case using schedule_ok_later by auto
  next
    case (Cons x exits)
    obtain pid u where x: "x = (pid, u)" by (cases x)
    obtain r where r: "u = Fin r" "t \<le> r" "clocks r (map snd exits) later" using Cons.prems(4) x by (cases u) auto
    show ?case
    proof (cases "child_of pid s")
      case None
      then have "reap exits k s = (Continue, s')" using Cons.prems(1) x by simp
      from Cons.IH [OF this Cons.prems(2) schedule_ok_later [OF Cons.prems(3) r(2)] r(3)] show ?thesis .
    next
      case (Some name)
      let ?s = "s\<lparr>child_pids := filter (\<lambda>p. fst p \<noteq> name) (child_pids s)\<rparr>"
      have "name \<in> {GATEWAY, SERVER}" using child_of_Some [OF Some] Cons.prems(2) by (force simp: children_ok_def)
      moreover have "name \<noteq> SERVER"
      proof
        assume "name = SERVER"
        then have "leave_with 1 k ?s = (Continue, s')" using Cons.prems(1) Some x by simp
        then show False using leave_not_continue [of 1 k ?s] by simp
      qed
      ultimately have name: "name = GATEWAY" by simp
      obtain v s1 where v: "on_gateway_exit (Fin r) k ?s = (v, s1)" by fastforce
      have "v = Continue" "reap exits k s1 = (Continue, s')"
        using Cons.prems(1) Some x r(1) v name by (auto split: tick_verdict.splits)
      moreover have "schedule_ok ?s t" using Cons.prems(3) by (simp add: schedule_ok_frame)
      ultimately show ?thesis
        using Cons.IH [of s1 r] r(2,3) v name Some Cons.prems(2) exit_children_ok on_gateway_exit_schedule by metis
    qed
  qed
  then show "children_ok s'" "schedule_ok s' later" by blast+
qed

lemma spawn_gateway_ok:
  assumes ok: "children_ok s" and g: "gateway s = Some g" "gateway_restart_due s = Some due" and pid: "pid \<notin> snd ` set (child_pids s)"
  shows "children_ok (spawn g pid (s\<lparr>gateway_restart_due := None\<rparr>))"
proof -
  have "GATEWAY \<notin> fst ` set (child_pids s)" "child_name g = GATEWAY"
    using ok g by (auto simp: children_ok_def running_def)
  then show ?thesis using ok g pid by (auto simp: children_ok_def running_def spawn_def)
qed

definition supervisor_ok :: "supervisor \<times> rat \<Rightarrow> bool" where
  "supervisor_ok s \<longleftrightarrow> children_ok (fst s) \<and> schedule_ok (fst s) (snd s)"

definition supervisor_start :: "supervisor \<times> rat \<Rightarrow> bool" where
  "supervisor_start s \<longleftrightarrow> (\<exists>parent fs beside own env s0 pid1 pid2. build_supervisor parent fs beside own env = Inr s0
     \<and> pid1 \<noteq> pid2 \<and> fst s = start_children pid1 pid2 s0)"

lemma duration_setting_pos:
  "duration_setting env name dflt = Inr x \<Longrightarrow> Fin 0 < dflt \<Longrightarrow> Fin 0 < x"
  by (auto simp: duration_setting_def Let_def isfinite_def not_le split: if_split_asm option.splits pyfloat.splits)

lemma gateway_spec_name: "gateway_spec parent fs env = Inr g \<Longrightarrow> child_name g = GATEWAY"
  by (auto simp: gateway_spec_def Let_def split: if_split_asm)

lemma build_supervisor_ok:
  assumes "build_supervisor parent fs beside own env = Inr s0" "pid1 \<noteq> pid2"
  shows "supervisor_ok (start_children pid1 pid2 s0, t)"
proof -
  obtain n w timeout g where w: "duration_setting env ''OPEND_RESTART_WINDOW_SECONDS'' (Fin 300) = Inr w"
    and g: "g = (case gateway_spec parent fs env of Inl e \<Rightarrow> None | Inr spec \<Rightarrow> Some spec)"
    and s0: "s0 = \<lparr>gateway = g, server = server_spec beside own, max_gateway_restarts = n,
              gateway_restart_window = w, gateway_restart_backoff = Fin 1, max_gateway_restart_backoff = Fin 30,
              stop_timeout = timeout, child_pids = [], gateway_restarts = [], gateway_restart_due = None,
              stop_signal = None, sent_signals = [], scheduled = []\<rparr>"
    using assms(1) by (auto simp: build_supervisor_def Let_def split: sum.splits)
  have "Fin 0 < w" using duration_setting_pos [OF w] by simp
  then have "schedule_ok (start_children pid1 pid2 s0) t"
    by (auto simp: s0 start_children_def spawn_def schedule_ok_def recent_def split: option.splits)
  moreover have "g = Some spec \<Longrightarrow> child_name spec = GATEWAY" for spec
    using g gateway_spec_name by (auto split: sum.splits)
  then have "children_ok (start_children pid1 pid2 s0)"
    using assms(2) by (auto simp: s0 start_children_def spawn_def children_ok_def running_def server_spec_def split: option.splits)
  ultimately show ?thesis by (simp add: supervisor_ok_def)
qed

interpretation supervision: guarded_system supervisor_start supervisor_step supervisor_ok
proof unfold_locales
  show "supervisor_ok s" if "supervisor_start s" for s
    using that build_supervisor_ok by (cases s) (auto simp: supervisor_start_def)
  show "supervisor_ok s'" if "supervisor_ok s" "supervisor_step s s'" for s s'
    using that(2,1)
  proof induction
    case (ticking i s s' t later)
    obtain v s1 where v: "reap (tick_exits i) (tick_stopping i) s = (v, s1)" by fastforce
    have "v = Continue" "s' = restart_gateway i s1"
      using ticking(1) v leave_not_continue [of 0 "tick_stopping i" s] by (auto simp: tick_def split: if_split_asm tick_verdict.splits)
    then have r: "reap (tick_exits i) (tick_stopping i) s = (Continue, s1)" using v by simp
    note one = reap_ok [OF r _ _ ticking(2)]
    have ok: "children_ok s1" "schedule_ok s1 later" using one ticking(4) by (simp_all add: supervisor_ok_def)
    have pid: "tick_pid i \<notin> snd ` set (child_pids s1)" using ticking(3) r by simp
    have "children_ok s'"
      using ok(1) pid spawn_gateway_ok \<open>s' = restart_gateway i s1\<close> by (auto simp: restart_gateway_def split: option.splits)
    moreover have "schedule_ok s' later"
      using ok(2) \<open>s' = restart_gateway i s1\<close>
      by (auto simp: restart_gateway_def spawn_def schedule_ok_frame schedule_ok_def split: option.splits)
    ultimately show ?case by (simp add: supervisor_ok_def)
  next
    case (signalled s t signum)
    then show ?case by (auto simp: supervisor_ok_def schedule_ok_frame request_stop_def children_ok_def running_def split: option.splits)
  qed
qed

subsection \<open>How a run ends\<close>

lemma within_budget_at:
  assumes "within_budget n w earlier (ts @ Fin t # later)"
  shows "int (length (recent w t (earlier @ ts))) < n"
  using assms by (induction n w earlier ts rule: within_budget.induct) simp_all

lemma leave_with_Leave: "leave_with c k s = (Leave d, s') \<Longrightarrow> d = c \<and> child_pids s' = []"
  by (auto simp: leave_with_def shutdown_empty split: option.splits)

lemma on_gateway_exit_leaves:
  assumes "on_gateway_exit (Fin t) k s = (Leave c, s')"
  shows "c = 2 \<and> child_pids s' = []
    \<and> max_gateway_restarts s \<le> int (length (recent (gateway_restart_window s) t (gateway_restarts s)))"
  using assms
  by (auto simp: on_gateway_exit_def Let_def recent_def split: if_split_asm sum.splits dest!: leave_with_Leave)

lemma reap_leaves:
  assumes "reap exits k s = (Leave c, s')" "children_ok s" "schedule_ok s t" "clocks t (map snd exits) later"
  shows "child_pids s' = [] \<and> c \<in> {1, 2}
    \<and> (c = 1 \<longrightarrow> (\<exists>pid. (SERVER, pid) \<in> set (child_pids s) \<and> pid \<in> fst ` set exits))
    \<and> (c = 2 \<longrightarrow> (\<exists>pid r earlier. (GATEWAY, pid) \<in> set (child_pids s) \<and> (pid, Fin r) \<in> set exits
         \<and> max_gateway_restarts s \<le> int (length (recent (gateway_restart_window s) r (scheduled s)))))"
  using assms
proof (induction exits arbitrary: s t)
  case (Cons x exits)
  obtain pid u where x: "x = (pid, u)" by (cases x)
  obtain r where r: "u = Fin r" "t \<le> r" "clocks r (map snd exits) later" using Cons.prems(4) x by (cases u) auto
  show ?case
  proof (cases "child_of pid s")
    case None
    then have "reap exits k s = (Leave c, s')" using Cons.prems(1) x by simp
    from Cons.IH [OF this Cons.prems(2) schedule_ok_later [OF Cons.prems(3) r(2)] r(3)] show ?thesis by (auto simp: x)
  next
    case (Some name)
    let ?s = "s\<lparr>child_pids := filter (\<lambda>p. fst p \<noteq> name) (child_pids s)\<rparr>"
    note child = child_of_Some [OF Some]
    show ?thesis
    proof (cases "name = SERVER")
      case True
      then have "leave_with 1 k ?s = (Leave c, s')" using Cons.prems(1) Some x by simp
      from leave_with_Leave [OF this] show ?thesis using child True by (auto simp: x)
    next
      case False
      then have name: "name = GATEWAY" using child Cons.prems(2) by (force simp: children_ok_def)
      obtain v s1 where v: "on_gateway_exit (Fin r) k ?s = (v, s1)" by fastforce
      show ?thesis
      proof (cases "v = Continue")
        case True
        then have rest: "reap exits k s1 = (Leave c, s')" using Cons.prems(1) Some x r(1) v name by simp
        have v': "on_gateway_exit (Fin r) k (s\<lparr>child_pids := filter (\<lambda>p. fst p \<noteq> GATEWAY) (child_pids s)\<rparr>) = (Continue, s1)"
          using v True name by simp
        have sch: "schedule_ok s1 r"
          using on_gateway_exit_schedule [OF v' _ r(2)] Cons.prems(3) by (simp add: schedule_ok_frame)
        have ok: "children_ok s1" by (rule exit_children_ok [OF Cons.prems(2) Some [unfolded name] v'])
        have left: "child_pids s1 = filter (\<lambda>p. fst p \<noteq> GATEWAY) (child_pids s)"
          using on_gateway_exit_continues(1) [OF v'] by auto
        from Cons.IH [OF rest ok sch r(3)] show ?thesis by (auto simp: left x)
      next
        case False
        then have "v = Leave c" "s1 = s'" using Cons.prems(1) Some x r(1) v name by (auto split: tick_verdict.splits)
        then have end_: "on_gateway_exit (Fin r) k ?s = (Leave c, s')" using v by simp
        obtain r0 where "r0 \<le> t" "gateway_restarts s = recent (gateway_restart_window s) r0 (scheduled s)"
          "\<forall>u \<in> set (scheduled s). isfinite u"
          using Cons.prems(3) by (auto simp: schedule_ok_def)
        then have "recent (gateway_restart_window s) r (gateway_restarts s) = recent (gateway_restart_window s) r (scheduled s)"
          using recent_recent r(2) by (metis order_trans)
        then show ?thesis using on_gateway_exit_leaves [OF end_] child name by (auto simp: x r(1))
      qed
    qed
  qed
qed simp

subsection \<open>A sample run\<close>

definition sample_files :: home_files where
  "sample_files = \<lparr>home_is_dir = (\<lambda>_ _. Some True), home_entries = (\<lambda>_ _. None)\<rparr>"

definition sample_environment :: environment where
  "sample_environment = [''MOOMOO_LOGIN_ACCOUNT'' \<mapsto> ''12345'']"

definition sample_gateway_spec :: child_spec where
  "sample_gateway_spec = projr (gateway_spec (\<lambda>p. p) sample_files sample_environment)"

definition sample_supervisor :: supervisor where
  "sample_supervisor = projr (build_supervisor (\<lambda>p. p) sample_files ''/bin/server'' Map.empty sample_environment)"

lemma sample_gateway_made: "gateway_spec (\<lambda>p. p) sample_files sample_environment = Inr sample_gateway_spec"
proof -
  have "\<not> isl (gateway_spec (\<lambda>p. p) sample_files sample_environment)" by code_simp
  then show ?thesis by (simp add: sample_gateway_spec_def)
qed

lemma sample_supervisor_eq:
  "build_supervisor (\<lambda>p. p) sample_files ''/bin/server'' Map.empty sample_environment = Inr sample_supervisor"
  "sample_supervisor = \<lparr>gateway = Some sample_gateway_spec, server = server_spec ''/bin/server'' Map.empty, max_gateway_restarts = 5,
     gateway_restart_window = Fin 300, gateway_restart_backoff = Fin 1, max_gateway_restart_backoff = Fin 30,
     stop_timeout = Fin 10, child_pids = [], gateway_restarts = [], gateway_restart_due = None,
     stop_signal = None, sent_signals = [], scheduled = []\<rparr>"
proof -
  have "strip [] = []" by (simp add: strip_def)
  moreover have "env_get sample_environment ''OPEND_MAX_RESTARTS'' [] = []"
    "env_get sample_environment ''OPEND_RESTART_WINDOW_SECONDS'' [] = []"
    "env_get sample_environment ''SUPERVISOR_STOP_TIMEOUT_SECONDS'' [] = []"
    by (simp_all add: env_get_def sample_environment_def)
  ultimately show "build_supervisor (\<lambda>p. p) sample_files ''/bin/server'' Map.empty sample_environment = Inr sample_supervisor"
    "sample_supervisor = \<lparr>gateway = Some sample_gateway_spec, server = server_spec ''/bin/server'' Map.empty, max_gateway_restarts = 5,
     gateway_restart_window = Fin 300, gateway_restart_backoff = Fin 1, max_gateway_restart_backoff = Fin 30,
     stop_timeout = Fin 10, child_pids = [], gateway_restarts = [], gateway_restart_due = None,
     stop_signal = None, sent_signals = [], scheduled = []\<rparr>"
    by (simp_all add: sample_supervisor_def build_supervisor_def sample_gateway_made count_setting_def duration_setting_def)
qed

definition sample_started :: supervisor where
  "sample_started = start_children 10 11 sample_supervisor"

lemma sample_started_start: "supervisor_start (sample_started, 0)"
  unfolding supervisor_start_def fst_conv sample_started_def
  by (rule exI [of _ "\<lambda>p. p"], rule exI [of _ sample_files], rule exI [of _ "''/bin/server''"], rule exI [of _ Map.empty],
      rule exI [of _ sample_environment], rule exI [of _ sample_supervisor], rule exI [of _ 10], rule exI [of _ 11])
    (simp add: sample_supervisor_eq(1))

text \<open>The gateway exits at second 5; its restart is due at second 6.\<close>

definition sample_stopping :: stopping where
  "sample_stopping = \<lparr>stop_clock = Fin 9, stop_rounds = [(Fin 9, Exited 11)], stop_waits = (\<lambda>_. [])\<rparr>"

definition sample_tick :: tick_input where
  "sample_tick = \<lparr>tick_exits = [(10, Fin 5)], tick_clock = Fin 5, tick_pid = 12, tick_stopping = sample_stopping\<rparr>"

definition sample_restarting :: supervisor where
  "sample_restarting = snd (tick sample_tick sample_started)"

lemma sample_names: "child_name sample_gateway_spec = GATEWAY" "child_name (server_spec b env) = SERVER"
  using gateway_spec_name [OF sample_gateway_made] by (simp_all add: server_spec_def)

lemma sample_ticked:
  "reap (tick_exits sample_tick) (tick_stopping sample_tick) sample_started = (Continue, sample_restarting)"
  "tick sample_tick sample_started = (Continue, sample_restarting)" "child_pids sample_restarting = [(SERVER, 11)]"
  "scheduled sample_restarting = [Fin 5]" "stop_signal sample_restarting = None" "stop_timeout sample_restarting = Fin 10"
proof -
  let ?s = "sample_started\<lparr>child_pids := [(SERVER, 11)]\<rparr>"
  have started: "sample_started = sample_supervisor\<lparr>child_pids := [(GATEWAY, 10), (SERVER, 11)]\<rparr>"
    by (simp add: sample_started_def start_children_def sample_supervisor_eq(2) spawn_def sample_names)
  have "float_of_int 1 = Inr (Fin 1)" by (simp add: float_of_int_def)
  then have "reap [(10, Fin 5)] sample_stopping sample_started = (Continue, ?s\<lparr>gateway_restarts := [Fin 5],
      gateway_restart_due := Some (Fin 6), scheduled := [Fin 5]\<rparr>)"
    by (simp add: started child_of_def on_gateway_exit_def sample_supervisor_eq(2) Let_def fmul_def fadd_def)
  then show "reap (tick_exits sample_tick) (tick_stopping sample_tick) sample_started = (Continue, sample_restarting)"
    "tick sample_tick sample_started = (Continue, sample_restarting)" "child_pids sample_restarting = [(SERVER, 11)]"
    "scheduled sample_restarting = [Fin 5]" "stop_signal sample_restarting = None" "stop_timeout sample_restarting = Fin 10"
    by (simp_all add: sample_restarting_def tick_def sample_tick_def restart_gateway_def started sample_supervisor_eq(2))
qed

lemma sample_restarting_run: "supervisor_step\<^sup>*\<^sup>* (sample_started, 0) (sample_restarting, 5)"
proof -
  have "supervisor_step (sample_started, 0) (sample_restarting, 5)"
    by (rule supervisor_step.ticking [OF sample_ticked(2)])
      (simp_all add: sample_ticked(1) sample_ticked(3), simp_all add: sample_tick_def)
  then show ?thesis by simp
qed

subsection \<open>Properties of the supervisor\<close>

text \<open>C34. While the supervisor runs, the server runs, and a gateway that can be started either runs or its restart is due:
  neither is ever forgotten, and neither ever runs twice, whatever exits and signals come.\<close>

theorem children_are_supervised:
  assumes "supervisor_start s0" "supervisor_step\<^sup>*\<^sup>* s0 (s, t)"
  shows "running SERVER s \<and> distinct (map fst (child_pids s)) \<and> fst ` set (child_pids s) \<subseteq> {GATEWAY, SERVER}
    \<and> (case gateway s of None \<Rightarrow> \<not> running GATEWAY s | Some g \<Rightarrow> running GATEWAY s \<longleftrightarrow> gateway_restart_due s = None)"
  using supervision.reachable_invar [OF assms] by (auto simp: supervisor_ok_def children_ok_def split: option.splits)

theorem children_are_supervised_witness:
  "running SERVER sample_restarting \<and> distinct (map fst (child_pids sample_restarting))"
  using children_are_supervised [OF sample_started_start sample_restarting_run] by blast

text \<open>C33. The restarts of the gateway are within their budget over the whole run: when one is scheduled, fewer than
  \<open>max_gateway_restarts\<close> of all restarts before it are inside the window that ends with it. Pruning the list of recent
  restarts forgets none that would count again.\<close>

theorem gateway_restarts_are_bounded:
  assumes "supervisor_start s0" "supervisor_step\<^sup>*\<^sup>* s0 (s, t)" "scheduled s = earlier @ Fin r # later"
  shows "int (length (filter (\<lambda>u. fsub (Fin r) u < gateway_restart_window s) earlier)) < max_gateway_restarts s"
proof -
  have "within_budget (max_gateway_restarts s) (gateway_restart_window s) [] (earlier @ Fin r # later)"
    using supervision.reachable_invar [OF assms(1,2)] assms(3) by (simp add: supervisor_ok_def schedule_ok_def)
  from within_budget_at [OF this] show ?thesis by (simp add: recent_def)
qed

theorem gateway_restarts_are_bounded_witness:
  "int (length (filter (\<lambda>u. fsub (Fin 5) u < gateway_restart_window sample_restarting) [])) < max_gateway_restarts sample_restarting"
  by (rule gateway_restarts_are_bounded [OF sample_started_start sample_restarting_run, where later = "[]"])
    (simp add: sample_ticked(4))

text \<open>C35. When the supervisor leaves, no child is left, and the code tells why: 0 exactly for a stop signal, 1 when the server
  exited, 2 when the gateway exited with its budget of restarts used up in the window.\<close>

theorem leaving_stops_every_child:
  assumes "supervisor_start s0" "supervisor_step\<^sup>*\<^sup>* s0 (s, t)"
    and "tick i s = (Leave c, s')" "clocks t (map snd (tick_exits i)) later"
  shows "child_pids s' = [] \<and> c \<in> {0, 1, 2} \<and> (c = 0 \<longleftrightarrow> stop_signal s \<noteq> None)
    \<and> (c = 1 \<longrightarrow> (\<exists>pid. (SERVER, pid) \<in> set (child_pids s) \<and> pid \<in> fst ` set (tick_exits i)))
    \<and> (c = 2 \<longrightarrow> (\<exists>pid r. (GATEWAY, pid) \<in> set (child_pids s) \<and> (pid, Fin r) \<in> set (tick_exits i)
         \<and> max_gateway_restarts s
             \<le> int (length (filter (\<lambda>u. fsub (Fin r) u < gateway_restart_window s) (scheduled s)))))"
proof (cases "stop_signal s = None")
  case False
  then have "leave_with 0 (tick_stopping i) s = (Leave c, s')" using assms(3) by (simp add: tick_def)
  from leave_with_Leave [OF this] False show ?thesis by simp
next
  case True
  have ok: "children_ok s" "schedule_ok s t"
    using supervision.reachable_invar [OF assms(1,2)] by (simp_all add: supervisor_ok_def)
  have "reap (tick_exits i) (tick_stopping i) s = (Leave c, s')"
    using assms(3) True by (auto simp: tick_def split: tick_verdict.splits prod.splits)
  from reap_leaves [OF this ok assms(4)] True show ?thesis by (auto simp: recent_def)
qed

definition sample_end :: tick_input where
  "sample_end = \<lparr>tick_exits = [(11, Fin 7)], tick_clock = Fin 7, tick_pid = 13, tick_stopping = sample_stopping\<rparr>"

theorem leaving_stops_every_child_witness:
  "child_pids (snd (tick sample_end sample_restarting)) = []"
proof -
  have "\<exists>s'. tick sample_end sample_restarting = (Leave 1, s')"
    by (simp add: tick_def sample_end_def sample_ticked child_of_def leave_with_def shutdown_def sample_stopping_def
        signal_all_def)
  then obtain s' where s': "tick sample_end sample_restarting = (Leave 1, s')" by blast
  have "clocks 5 (map snd (tick_exits sample_end)) 7" by (simp add: sample_end_def)
  from leaving_stops_every_child [OF sample_started_start sample_restarting_run s' this] s' show ?thesis by simp
qed

text \<open>C36. Shutting down ends, and in the way it should. Every child is sent SIGTERM; exactly those that \<open>waitpid\<close> has not
  reported by the deadline are then sent SIGKILL; and once the clock has reached the deadline, and the system reports
  a child that was sent SIGKILL, no child is left and the supervisor is free to leave.\<close>

theorem shutdown_ends:
  assumes "\<exists>r \<in> set (stop_rounds k). \<not> fst r < stop_deadline k s"
    and "\<forall>log pid. (pid, ''SIGKILL'') \<in> set log \<longrightarrow> Exited pid \<in> set (stop_waits k log)"
  shows "\<exists>s'. shutdown k s = Some s' \<and> child_pids s' = []
    \<and> sent_signals s' = sent_signals s @ map (\<lambda>p. (snd p, ''SIGTERM'')) (child_pids s)
        @ map (\<lambda>p. (snd p, ''SIGKILL'')) (ignoring_sigterm k s)"
proof -
  obtain t where t: "await_children (stop_deadline k s) (stop_rounds k) (signal_all ''SIGTERM'' s) = Some t"
    using await_children_ends [OF assms(1)] by blast
  let ?t = "signal_all ''SIGKILL'' t"
  have left: "child_pids t = ignoring_sigterm k s"
    using await_children_left [OF t] by (simp add: ignoring_sigterm_def in_time_def Let_def signal_all_def)
  have "\<forall>p \<in> set (child_pids ?t). (snd p, ''SIGKILL'') \<in> set (sent_signals ?t)" by (auto simp: signal_all_def)
  then have "\<forall>p \<in> set (child_pids ?t). Exited (snd p) \<in> set (stop_waits k (sent_signals ?t))" using assms(2) by blast
  then obtain s' where s': "reap_killed (stop_waits k (sent_signals ?t)) ?t = Some s'" using reap_killed_ends by blast
  then have "shutdown k s = Some s'" by (simp add: shutdown_def t Let_def)
  moreover have "sent_signals s' = sent_signals s @ map (\<lambda>p. (snd p, ''SIGTERM'')) (child_pids s)
        @ map (\<lambda>p. (snd p, ''SIGKILL'')) (ignoring_sigterm k s)"
    using kept_signals(3) [OF s'] kept_signals(2) [OF t] left by (simp add: signal_all_def)
  ultimately show ?thesis using shutdown_empty by blast
qed

text \<open>A server that ignores SIGTERM: the first reading is before the deadline, the second after it.\<close>

definition sample_stubborn :: stopping where
  "sample_stubborn = \<lparr>stop_clock = Fin 9, stop_rounds = [(Fin 9, NothingExited), (Fin 20, NothingExited)],
     stop_waits = (\<lambda>log. map (\<lambda>x. Exited (fst x)) (filter (\<lambda>x. snd x = ''SIGKILL'') log))\<rparr>"

theorem shutdown_ends_witness:
  "\<exists>s'. shutdown sample_stubborn sample_restarting = Some s' \<and> child_pids s' = []
     \<and> sent_signals s' = sent_signals sample_restarting @ [(11, ''SIGTERM''), (11, ''SIGKILL'')]"
proof -
  have deadline: "stop_deadline sample_stubborn sample_restarting = Fin 19"
    by (simp add: stop_deadline_def sample_stubborn_def sample_ticked(6) fadd_def)
  then have "ignoring_sigterm sample_stubborn sample_restarting = [(SERVER, 11)]"
    by (simp add: ignoring_sigterm_def in_time_def sample_ticked(3)) (simp add: sample_stubborn_def)
  moreover have "\<exists>r \<in> set (stop_rounds sample_stubborn). \<not> fst r < stop_deadline sample_stubborn sample_restarting"
    unfolding deadline by (simp add: sample_stubborn_def)
  moreover have "\<forall>log pid. (pid, ''SIGKILL'') \<in> set log \<longrightarrow> Exited pid \<in> set (stop_waits sample_stubborn log)"
    by (force simp: sample_stubborn_def)
  ultimately show ?thesis using shutdown_ends [of sample_stubborn sample_restarting] sample_ticked(3) by simp
qed

lemma redacted_account: "redacted_arg (''-login_account='' @ a) = ''-login_account=<redacted>''"
  by (simp add: redacted_arg_def SENSITIVE_FLAGS_def)

text \<open>The command line of the gateway always pins its API to the loopback address, and what is logged of it does not
  depend on the account: two configurations that differ in the account only are logged alike.\<close>

theorem log_hides_the_account:
  assumes "gateway_spec parent fs env = Inr g" "gateway_spec parent fs (env(''MOOMOO_LOGIN_ACCOUNT'' := other)) = Inr g'"
    and "strip (env_get env ''MOOMOO_LOGIN_ACCOUNT'' []) \<noteq> []"
      "strip (env_get (env(''MOOMOO_LOGIN_ACCOUNT'' := other)) ''MOOMOO_LOGIN_ACCOUNT'' []) \<noteq> []"
  shows "redacted (child_argv g) = redacted (child_argv g') \<and> ''-api_ip=127.0.0.1'' \<in> set (child_argv g)"
proof -
  let ?env = "env(''MOOMOO_LOGIN_ACCOUNT'' := other)"
  have same: "gateway_argv ?env = gateway_argv env" "env_get ?env ''OPEND_INTERACTIVE'' ''0'' = env_get env ''OPEND_INTERACTIVE'' ''0''"
    "env_get ?env ''MOOMOO_LOGIN_BY_REMEMBER'' ''1'' = env_get env ''MOOMOO_LOGIN_BY_REMEMBER'' ''1''"
    by (simp_all add: gateway_argv_def env_get_def)
  have argv: "child_argv h = gateway_argv e @ (''-login_account='' @ strip (env_get e ''MOOMOO_LOGIN_ACCOUNT'' []))
      # (if strip (env_get e ''OPEND_INTERACTIVE'' ''0'') = ''1'' then [] else [''-login_by_remember=1''])"
    if "gateway_spec parent fs e = Inr h" "strip (env_get e ''MOOMOO_LOGIN_ACCOUNT'' []) \<noteq> []" for e h
    using that by (auto simp: gateway_spec_def Let_def split: if_split_asm)
  have "map redacted_arg (child_argv g) = map redacted_arg (child_argv g')"
    unfolding argv [OF assms(1,3)] argv [OF assms(2,4)] same by (simp only: list.map map_append redacted_account)
  moreover have "''-api_ip=127.0.0.1'' \<in> set (gateway_argv env)" by (simp add: gateway_argv_def Let_def)
  ultimately show ?thesis using argv [OF assms(1,3)] by (simp add: redacted_def)
qed

theorem log_hides_the_account_witness:
  "redacted (child_argv sample_gateway_spec)
    = redacted (child_argv (projr (gateway_spec (\<lambda>p. p) sample_files (sample_environment(''MOOMOO_LOGIN_ACCOUNT'' := Some ''678'')))))"
proof -
  let ?env = "sample_environment(''MOOMOO_LOGIN_ACCOUNT'' := Some ''678'')"
  have "gateway_spec (\<lambda>p. p) sample_files ?env = Inr (projr (gateway_spec (\<lambda>p. p) sample_files ?env))"
  proof -
    have "\<not> isl (gateway_spec (\<lambda>p. p) sample_files ?env)" by code_simp
    then show ?thesis by simp
  qed
  moreover have "strip (env_get sample_environment ''MOOMOO_LOGIN_ACCOUNT'' []) \<noteq> []"
    "strip (env_get ?env ''MOOMOO_LOGIN_ACCOUNT'' []) \<noteq> []" by code_simp+
  ultimately show ?thesis using log_hides_the_account [OF sample_gateway_made] by blast
qed

end
