(* ===== verification/Admission.thy ===== *)
theory Admission
  imports Real_Execution Broker_Dispatch
begin

text \<open>
  The admission of a write before it runs (\<open>services/admission.py\<close>) and the way a tool runs it
  (\<open>tools/offload.py\<close>): the request is checked, a known operation asks for nothing, a new one names the
  provider capacity it will use and the account it will use it on; when that capacity is refused the journal
  is asked whether a concurrent call has admitted the operation. The state is the pair of the REAL service
  and the paper execution, each missing when it is not configured. The readings of the disk in a plan are
  named \<open>plan\<close> and \<open>plan_ready\<close>. Of \<open>prepare_trade_call\<close> the branch of the four write
  methods is modelled.
\<close>

subsection \<open>Plans\<close>

record admission_plan =
  plan_requests :: "quota_request list"
  plan_write :: "string option"

definition one_request :: "string \<Rightarrow> int option \<Rightarrow> quota_request" where
  "one_request op acc = \<lparr>quota_operation = op, quota_account = acc, quota_weight = 1\<rparr>"

type_synonym trade_state = "service option \<times> paper option"

definition requested_env :: "pydict \<Rightarrow> string" where
  "requested_env ps = norm_text (py_str (dict_get ps ''trd_env'' (PStr [])))"

text \<open>\<open>validate_token(params["operation_id"], params["admission_epoch"])\<close>.\<close>

definition check_token :: "pydict \<Rightarrow> unit res" where
  "check_token ps =
     bindR (dict_item ps ''operation_id'') (\<lambda>oid.
     bindR (dict_item ps ''admission_epoch'') (\<lambda>ep. validate_token oid ep))"

subsection \<open>Paper writes\<close>

definition PAPER_FIELDS :: "string list" where
  "PAPER_FIELDS = [''code'', ''price'', ''qty'', ''trd_side'', ''order_type'', ''time_in_force'', ''adjust_limit'',
     ''aux_price'', ''trail_type'', ''trail_value'', ''trail_spread'', ''remark'']"

definition given_field :: "pydict \<Rightarrow> string \<Rightarrow> pydict res" where
  "given_field ps k = bindR (dict_item ps k) (\<lambda>v. Inr (if v = PNone then [] else [(k, v)]))"

definition patched :: "pydict \<Rightarrow> bool res" where
  "patched ps =
     bindR (dict_item ps ''qty'') (\<lambda>q. if q \<noteq> PNone then Inr True
     else bindR (dict_item ps ''price'') (\<lambda>p. if p \<noteq> PNone then Inr True
     else bindR (dict_item ps ''adjust_limit'') (\<lambda>a. Inr (\<not> py_eq a (PInt 0)))))"

definition paper_parameters :: "sdk_session \<Rightarrow> string \<Rightarrow> pydict \<Rightarrow> (op_kind \<times> pydict) res" where
  "paper_parameters S meth ps =
     (if meth = ''place_order'' then
        bindR (normalize_order_session S (dict_get ps ''session'' (PStr ''N/A'')) ''SIMULATE'') (\<lambda>_.
        bindR (mapR (\<lambda>k. bindR (dict_item ps k) (\<lambda>v. Inr (k, v))) PAPER_FIELDS) (\<lambda>d. Inr (PLACE, d)))
      else let op = dict_get ps ''modify_order_op'' (PStr ''CANCEL'') in
        bindR (in_text_set op {''NORMAL'', ''CANCEL''}) (\<lambda>supported.
        if \<not> supported then raise ValueError ''modifications and cancellations only''
        else bindR (dict_item ps ''order_id'') (\<lambda>order.
        if op = PStr ''NORMAL'' then
          bindR (dict_item ps ''adjust_limit'') (\<lambda>adjust.
          bindR (given_field ps ''qty'') (\<lambda>qty.
          bindR (given_field ps ''price'') (\<lambda>price.
            Inr (MODIFY, (''order_id'', order) # (''adjust_limit'', adjust) # qty @ price))))
        else bindR (if meth = ''modify_order'' then patched ps else Inr False) (\<lambda>patch.
          if patch then raise ValueError ''no price or quantity patch''
          else Inr (CANCEL, [(''order_id'', order)])))))"

definition paper_known :: "world \<Rightarrow> string \<Rightarrow> string \<Rightarrow> paper \<Rightarrow> row_view option res \<times> paper" where
  "paper_known w site oid s =
     (if oid \<in> fst ` set (late_failure s) then
        (case map_of (late_identity s) oid of None \<Rightarrow> raise KeyError oid | Some v \<Rightarrow> Inr (Some v), s)
      else on_journal (\<lambda>j. lookup (io w site) j oid) s)"

definition paper_requests :: "op_kind \<Rightarrow> int \<Rightarrow> quota_request list" where
  "paper_requests k acc =
     (if k \<noteq> CANCEL then [one_request ''get_market_snapshot'' None] else [])
     @ (if k \<noteq> PLACE then [one_request ''order_list_query'' (Some acc)] else [])"

text \<open>The branch of a simulated write: none for a known operation, else its requests and its account.\<close>

definition plan_paper :: "config \<Rightarrow> world \<Rightarrow> string \<Rightarrow> pydict \<Rightarrow> paper \<Rightarrow> (quota_request list \<times> int) option res \<times> paper" where
  "plan_paper cfg w meth ps s =
     bindS (bindR (paper_parameters (sessions cfg) meth ps) (\<lambda>(k, q).
       bindR (check_token ps) (\<lambda>_. bindR (schema k q) (\<lambda>_. Inr k))), s) (\<lambda>k s.
     bindS (if token_text (arg ps ''operation_id'') \<in> fst ` set (late_failure s) then (Inr True, s)
       else bindS (on_journal (\<lambda>j. lookup (io w ''plan'') j (token_text (arg ps ''operation_id''))) s)
         (\<lambda>found s. (Inr (found \<noteq> None), s))) (\<lambda>known s.
     if known then (Inr None, s)
     else bindS (guardR (token_text (arg ps ''admission_epoch'') \<noteq> epoch (journal s)) (Exn ValueError ''non-current-epoch token''), s) (\<lambda>_ s.
     bindS (ready w ''plan_ready'' s) (\<lambda>_ s.
     bindS (bindR (dict_item ps ''acc_id'') (resolve_account cfg w), s) (\<lambda>acc s.
       (Inr (Some (paper_requests k acc, acc)), s))))))"

subsection \<open>REAL writes\<close>

text \<open>The first checks of a REAL write: whether the operation is known, or else may be admitted now.\<close>

definition real_known :: "config \<Rightarrow> world \<Rightarrow> string \<Rightarrow> pydict \<Rightarrow> service \<Rightarrow> bool outcome \<times> service" where
  "real_known cfg w meth ps s =
     (case real_retry cfg w ''plan'' meth ps s of
        (Inl e, s) \<Rightarrow> (Inl e, s)
      | (Inr (Some _), s) \<Rightarrow> (Inr True, s)
      | (Inr None, s) \<Rightarrow>
         (case bindS (validate_real_request meth ps, s) (\<lambda>_ s.
               bindS (guardR (token_text (arg ps ''admission_epoch'') \<noteq> epoch (journal (real s)))
                 (Exn ValueError ''non-current-epoch token''), s) (\<lambda>_ s.
               on_real (ready w ''plan_ready'') s)) of
            (r, s) \<Rightarrow> (lift_res (bindR r (\<lambda>_. Inr False)), s)))"

definition exposing_call :: "string \<Rightarrow> pydict \<Rightarrow> bool res" where
  "exposing_call meth ps =
     (if meth \<in> {''place_order'', ''place_combo_order''} then Inr True
      else if meth = ''modify_order'' then
        bindR (dict_item ps ''modify_order_op'') (\<lambda>op. Inr (norm_text (py_str op) \<in> EXPOSING_MODIFY_OPS))
      else Inr False)"

definition call_market :: "string \<Rightarrow> pydict \<Rightarrow> string option res" where
  "call_market meth ps =
     (if meth = ''place_order'' then bindR (dict_item ps ''code'') market_from_code
      else if meth = ''place_combo_order'' then bindR (bindR (dict_item ps ''combo_legs'') build_combo_legs) (\<lambda>ls.
        market_from_code (PStr (leg_code (hd ls))))
      else Inr None)"

definition real_requests :: "config \<Rightarrow> bool \<Rightarrow> string \<Rightarrow> bool \<Rightarrow> int \<Rightarrow> quota_request list" where
  "real_requests cfg jit meth exposing acc =
     (if exposing \<and> (meth \<in> {''place_order'', ''modify_order''} \<or> notional_cap_configured (policy cfg)
        \<or> max_daily_notional (policy cfg) \<noteq> []) then [one_request ''get_market_snapshot'' None] else [])
     @ (if meth = ''modify_order'' \<and> exposing then [one_request ''order_list_query'' (Some acc)] else [])
     @ (if jit then [(one_request ''unlock_trade'' None)\<lparr>quota_weight := 2\<rparr>] else [])"

definition plan_real :: "config \<Rightarrow> bool \<Rightarrow> world \<Rightarrow> string \<Rightarrow> pydict \<Rightarrow> service \<Rightarrow> (quota_request list \<times> int) res" where
  "plan_real cfg jit w meth ps s =
     (if \<not> connected w then raise RuntimeError ''Trade context not connected''
      else bindR (exposing_call meth ps) (\<lambda>exposing.
      bindR (call_market meth ps) (\<lambda>market.
      bindR (if exposing then check_execution_halt s else ok) (\<lambda>_.
      bindR (bindR (dict_item ps ''acc_id'') int_value) (\<lambda>requested.
      bindR (resolve_trade_account cfg w ''REAL'' market requested True) (\<lambda>acc.
        Inr (real_requests cfg jit meth exposing acc, acc)))))))"

subsection \<open>The plan of a write\<close>

definition mutation_operation :: "string \<Rightarrow> string" where
  "mutation_operation meth = (if meth \<in> {''place_order'', ''place_combo_order''} then meth else ''modify_order'')"

text \<open>The end of the branch: the mutation itself is requested last, and the call is bound to the account.\<close>

definition finish_plan :: "string \<Rightarrow> pydict \<Rightarrow> (quota_request list \<times> int) option \<Rightarrow> admission_plan \<times> pydict" where
  "finish_plan meth ps x = (case x of
     None \<Rightarrow> (\<lparr>plan_requests = [], plan_write = Some meth\<rparr>, ps)
   | Some (qs, acc) \<Rightarrow> (\<lparr>plan_requests = qs @ [one_request (mutation_operation meth) (Some acc)], plan_write = Some meth\<rparr>,
       put_member ''acc_id'' (PInt acc) ps))"

definition plan_write_of ::
    "config \<Rightarrow> bool \<Rightarrow> world \<Rightarrow> string \<Rightarrow> pydict \<Rightarrow> trade_state \<Rightarrow> (quota_request list \<times> int) option outcome \<times> trade_state" where
  "plan_write_of cfg jit w meth ps = (\<lambda>(so, po).
     case bindR (dict_item ps ''trd_env'') (\<lambda>env. check_write (policy cfg) (py_str env)) of
       Inl e \<Rightarrow> (lift_res (Inl e), so, po)
     | Inr _ \<Rightarrow>
        if requested_env ps = ''REAL'' then
          (case so of
             None \<Rightarrow> (raises ValueError ''Persistent REAL journal is not configured'', so, po)
           | Some s \<Rightarrow> (case real_known cfg w meth ps s of
               (Inl e, s) \<Rightarrow> (Inl e, Some s, po)
             | (Inr True, s) \<Rightarrow> (Inr None, Some s, po)
             | (Inr False, s) \<Rightarrow> (lift_res (map_sum id Some (plan_real cfg jit w meth ps s)), Some s, po)))
        else if meth = ''place_combo_order'' then (raises ValueError ''outside version 1 paper execution scope'', so, po)
        else (case po of
             None \<Rightarrow> (raises ValueError ''Persistent paper journal is not configured'', so, po)
           | Some p \<Rightarrow> (case plan_paper cfg w meth ps p of (r, p) \<Rightarrow> (lift_res r, so, Some p))))"

definition prepare_write_call ::
    "config \<Rightarrow> bool \<Rightarrow> world \<Rightarrow> string \<Rightarrow> pydict \<Rightarrow> trade_state \<Rightarrow> (admission_plan \<times> pydict) outcome \<times> trade_state" where
  "prepare_write_call cfg jit w meth ps st =
     (case plan_write_of cfg jit w meth ps st of
        (r, st) \<Rightarrow> (map_sum id (finish_plan meth ps) (not_sent meth False True r), st))"

text \<open>\<open>prepare_paper_call\<close>: a reconciliation that is due asks for the three lists of its account.\<close>

definition prepare_paper_call :: "world \<Rightarrow> string \<Rightarrow> pydict \<Rightarrow> rat \<Rightarrow> paper \<Rightarrow> admission_plan res \<times> paper" where
  "prepare_paper_call w meth ps t s =
     (let none = \<lparr>plan_requests = [], plan_write = None\<rparr>; oid = token_text (arg ps ''operation_id'') in
      if meth \<noteq> ''reconcile'' then (Inr none, s)
      else bindS (on_journal (\<lambda>j. lookup (io w ''plan'') j oid) s) (\<lambda>known s. case known of
        None \<Rightarrow> (raise ValueError ''not owned by this journal'', s)
      | Some v \<Rightarrow>
         if late_failure s \<noteq> [] then (Inr none, s)
         else bindS (on_journal (\<lambda>j. recovery_rows (io w ''plan_due'') j t) s) (\<lambda>due s.
           if operation_id (row v) \<notin> (\<lambda>x. operation_id (row x)) ` set due then (Inr none, s)
           else (bindR (int_of_text (account (row v))) (\<lambda>acc.
             Inr \<lparr>plan_requests = map (\<lambda>op. one_request op (Some acc))
                   [''order_list_query'', ''history_order_list_query'', ''position_list_query''],
                 plan_write = None\<rparr>), s))))"

subsection \<open>Running a write\<close>

datatype write_answer = FromReal real_answer | FromPaper paper_result

text \<open>\<open>recover_paper_admission\<close>: the answer of a known operation, after its capacity was refused.\<close>

definition recover_paper :: "config \<Rightarrow> world \<Rightarrow> string \<Rightarrow> pydict \<Rightarrow> paper \<Rightarrow> paper_result option res \<times> paper" where
  "recover_paper cfg w meth ps s =
     bindS (bindR (check_write (policy cfg) ''SIMULATE'') (\<lambda>_.
       bindR (paper_parameters (sessions cfg) meth ps) (\<lambda>(k, q).
       bindR (check_token ps) (\<lambda>_. bindR (schema k q) (\<lambda>_. Inr (k, q))))), s) (\<lambda>(k, q) s.
     bindS (paper_known w ''recover'' (token_text (arg ps ''operation_id'')) s) (\<lambda>known s. case known of
         None \<Rightarrow> (Inr None, s)
       | Some v \<Rightarrow> bindS (dict_item ps ''acc_id'', s) (\<lambda>acc s.
           bindS (retry cfg w ''recover_result'' s v k q acc) (\<lambda>x s. (Inr (Some x), s)))))"

definition recover_admission ::
    "config \<Rightarrow> world \<Rightarrow> string \<Rightarrow> pydict \<Rightarrow> trade_state \<Rightarrow> write_answer option outcome \<times> trade_state" where
  "recover_admission cfg w meth ps = (\<lambda>(so, po).
     if requested_env ps = ''REAL'' \<and> so \<noteq> None then
       (case real_retry cfg w ''recover'' meth ps (the so) of
          (r, s) \<Rightarrow> (map_sum id (map_option FromReal) r, Some s, po))
     else if po = None \<or> requested_env ps \<noteq> ''SIMULATE'' then (Inr None, so, po)
     else (case recover_paper cfg w meth ps (the po) of
          (r, p) \<Rightarrow> (map_sum id (map_option FromPaper) (not_sent meth False True (lift_res r)), so, Some p)))"

text \<open>\<open>run_blocking\<close> of a method that is not a read: the plan, the wait for its capacity, the call on the bound
  arguments, and the recovery with the original ones. \<open>wait\<close> is the end of the wait for the requests of a plan.\<close>

definition run_write ::
    "('s \<Rightarrow> (admission_plan \<times> pydict) outcome \<times> 's) \<Rightarrow> (quota_request list \<Rightarrow> unit res) \<Rightarrow>
     (pydict \<Rightarrow> 's \<Rightarrow> 'r outcome \<times> 's) \<Rightarrow> ('s \<Rightarrow> 'r option outcome \<times> 's) \<Rightarrow> 's \<Rightarrow> 'r outcome \<times> 's" where
  "run_write plan_of wait func recover s =
     (case plan_of s of
        (Inl e, s) \<Rightarrow> (Inl e, s)
      | (Inr (plan, args), s) \<Rightarrow>
         (case (case wait (plan_requests plan) of Inl e \<Rightarrow> (lift_res (Inl e), s) | Inr _ \<Rightarrow> func args s) of
            (Inr x, s) \<Rightarrow> (Inr x, s)
          | (Inl e, s) \<Rightarrow>
             if \<not> instance_of (cause e) ProviderRateLimitError \<or> plan_write plan = None then (Inl e, s)
             else (case recover s of
                (Inl e', s) \<Rightarrow> (Inl e', s)
              | (Inr (Some x), s) \<Rightarrow> (Inr x, s)
              | (Inr None, s) \<Rightarrow> (raises OrderNotSentError (the (plan_write plan)), s))))"

text \<open>The REAL methods of the service as the call that a tool runs.\<close>

definition real_call ::
    "config \<Rightarrow> bool \<Rightarrow> world \<Rightarrow> gateway_world \<Rightarrow> string \<Rightarrow> string option \<Rightarrow> active_operation option \<Rightarrow> pydict \<Rightarrow>
     trade_state \<Rightarrow> write_answer outcome \<times> trade_state" where
  "real_call cfg jit w g meth approval active args = (\<lambda>(so, po).
     case journal_real_mutation cfg jit w g meth args approval active so of
       (r, so) \<Rightarrow> (map_sum id FromReal r, so, po))"

definition real_tool_call ::
    "config \<Rightarrow> bool \<Rightarrow> world \<Rightarrow> world \<Rightarrow> gateway_world \<Rightarrow> (quota_request list \<Rightarrow> unit res) \<Rightarrow> string \<Rightarrow> pydict \<Rightarrow> string option \<Rightarrow>
     active_operation option \<Rightarrow> trade_state \<Rightarrow> write_answer outcome \<times> trade_state" where
  "real_tool_call cfg jit w w' g wait meth ps approval active =
     run_write (prepare_write_call cfg jit w meth ps) wait (real_call cfg jit w' g meth approval active)
       (recover_admission cfg w' meth ps)"

end
