(* ===== verification/Admission_Runs.thy ===== *)
theory Admission_Runs
  imports Admission Real_Safety
begin

text \<open>
  Properties of the admission of writes. A step that \<open>held\<close> the state has changed no table, sent nothing and
  kept every pending outcome: the plan of a write and the recovery after a refused wait are such steps. The
  capacity a plan names covers what the write sends, and it is sent for the account the plan names.
\<close>

subsection \<open>Steps that change no table\<close>

definition frozen :: "paper \<Rightarrow> paper \<Rightarrow> bool" where
  "frozen p q \<longleftrightarrow> db (journal q) = db (journal p) \<and> calls q = calls p \<and> controls_of q = controls_of p
     \<and> late_failure q = late_failure p \<and> late_identity q = late_identity p"

definition held :: "service \<Rightarrow> service \<Rightarrow> bool" where
  "held s t \<longleftrightarrow> frozen (real s) (real t) \<and> execution t = execution s \<and> gateway t = gateway s
     \<and> active_real t = active_real s"

definition trade_held :: "trade_state \<Rightarrow> trade_state \<Rightarrow> bool" where
  "trade_held s t \<longleftrightarrow> rel_option held (fst s) (fst t) \<and> rel_option frozen (snd s) (snd t)"

lemma frozen_refl [simp, intro]: "frozen p p"
  by (simp add: frozen_def)

lemma frozen_trans: "frozen p q \<Longrightarrow> frozen q r \<Longrightarrow> frozen p r"
  by (simp add: frozen_def)

lemma held_refl [simp, intro]: "held s s"
  by (simp add: held_def)

lemma held_trans: "held s t \<Longrightarrow> held t u \<Longrightarrow> held s u"
  by (auto simp: held_def intro: frozen_trans)

lemma trade_held_refl [simp, intro]: "trade_held s s"
  by (simp add: trade_held_def option.rel_refl)

lemma trade_held_trans: "trade_held s t \<Longrightarrow> trade_held t u \<Longrightarrow> trade_held s u"
  by (auto simp: trade_held_def option_rel_Some1 option_rel_Some2 elim!: option.rel_cases intro: held_trans frozen_trans)

lemma frozen_bindS:
  "frozen s (snd m) \<Longrightarrow> (\<And>x u. m = (Inr x, u) \<Longrightarrow> frozen u (snd (f x u))) \<Longrightarrow> frozen s (snd (bindS m f))"
  using frozen_trans by (rule bindS_related)

lemma held_bindS:
  "held s (snd m) \<Longrightarrow> (\<And>x u. m = (Inr x, u) \<Longrightarrow> held u (snd (f x u))) \<Longrightarrow> held s (snd (bindS m f))"
  using held_trans by (rule bindS_related)

lemma frozen_on_journal: "db (snd (f (journal s))) = db (journal s) \<Longrightarrow> frozen s (snd (on_journal f s))"
  by (auto simp: on_journal_def frozen_def split: prod.split)

lemma held_on_real: "frozen (real s) (snd (f (real s))) \<Longrightarrow> held s (snd (on_real f s))"
  by (auto simp: on_real_def held_def split: prod.split)

lemma reading_keeps_tables:
  "db (snd (lookup i j oid)) = db j" "db (snd (recovery_rows i j t)) = db j" "db (snd (health x i j)) = db j"
  "db (snd (require_ready x i j)) = db j"
  by (auto simp: lookup_def recovery_rows_def health_def require_ready_def transaction_def connection_def)

lemma frozen_lookup: "frozen s (snd (on_journal (\<lambda>j. lookup i j oid) s))"
  by (rule frozen_on_journal) (rule reading_keeps_tables)

lemma frozen_ready: "frozen s (snd (ready w site s))"
  unfolding ready_def by (auto intro!: frozen_on_journal reading_keeps_tables)

lemma frozen_result: "frozen s (snd (result_of w site s v))"
proof -
  have "frozen s (snd (on_journal (health (writable w site) (io w site)) s))"
    by (rule frozen_on_journal) (rule reading_keeps_tables)
  then show ?thesis by (auto simp: result_of_def paper_health_def Let_def split: prod.split)
qed

lemma frozen_retry: "frozen s (snd (retry cfg w site s v k ps acc))"
  using frozen_result [of s w site v] by (auto simp: retry_def Let_def split: sum.split option.split prod.split)

lemma held_known_row: "held s (snd (known_row w site oid s))"
  by (auto simp: known_row_def split: option.split intro!: held_on_real frozen_lookup)

lemma held_retry: "held s (snd (real_retry cfg w site meth ps s))"
  using held_known_row [of s w site "token_text (arg ps ''operation_id'')"]
  by (auto simp: real_retry_def split: sum.split prod.split option.split)

subsection \<open>Plans and recoveries\<close>

lemma frozen_plan_paper: "frozen s (snd (plan_paper cfg w meth ps s))"
  unfolding plan_paper_def by (auto intro!: frozen_bindS frozen_lookup frozen_ready split: if_split)

lemma frozen_recover_paper: "frozen s (snd (recover_paper cfg w meth ps s))"
  unfolding recover_paper_def paper_known_def
  by (auto intro!: frozen_bindS frozen_lookup frozen_retry split: option.split)

lemma held_real_known: "held s (snd (real_known cfg w meth ps s))"
proof -
  obtain r s1 where 1: "real_retry cfg w ''plan'' meth ps s = (r, s1)" by fastforce
  have s1: "held s s1" using held_retry [of s cfg w "''plan''" meth ps] by (simp add: 1)
  have "held s1 (snd (bindS (validate_real_request meth ps, s1) (\<lambda>_ s.
               bindS (guardR (token_text (arg ps ''admission_epoch'') \<noteq> epoch (journal (real s)))
                 (Exn ValueError ''non-current-epoch token''), s) (\<lambda>_ s.
               on_real (ready w ''plan_ready'') s))))"
    by (intro held_bindS held_on_real frozen_ready) auto
  with s1 show ?thesis
    by (auto simp: real_known_def 1 split: sum.split option.split prod.split intro: held_trans)
qed

lemma plan_held: "trade_held st (snd (plan_write_of cfg jit w meth ps st))"
proof (cases st)
  case (Pair so po)
  have "held s (snd (real_known cfg w meth ps s))" "frozen p (snd (plan_paper cfg w meth ps p))" for s p
    by (rule held_real_known frozen_plan_paper)+
  then show ?thesis
    by (cases so; cases po) (auto simp: Pair plan_write_of_def trade_held_def option.rel_refl split_beta
        split: sum.split bool.split if_split)
qed

lemma prepare_held: "trade_held st (snd (prepare_write_call cfg jit w meth ps st))"
  using plan_held [of st cfg jit w meth ps] by (auto simp: prepare_write_call_def split: prod.split)

lemma recover_held: "trade_held st (snd (recover_admission cfg w meth ps st))"
proof (cases st)
  case (Pair so po)
  have steps: "real_retry cfg w ''recover'' meth ps s = (r, t) \<Longrightarrow> held s t" "recover_paper cfg w meth ps p = (r', q) \<Longrightarrow> frozen p q" for s r t p r' q
    using held_retry [of s cfg w "''recover''" meth ps] frozen_recover_paper [of p cfg w meth ps] by simp_all
  show ?thesis
    by (cases so; cases po) (auto simp: Pair recover_admission_def trade_held_def option.rel_refl
        split: prod.split if_split dest!: steps)
qed

subsection \<open>Known operations\<close>

definition on_record :: "string \<Rightarrow> paper \<Rightarrow> bool" where
  "on_record oid p \<longleftrightarrow> oid \<in> fst ` set (late_failure p) \<or> row_of (db (journal p)) oid \<noteq> None"

definition operation_known :: "pydict \<Rightarrow> trade_state \<Rightarrow> bool" where
  "operation_known ps st \<longleftrightarrow> (let oid = token_text (arg ps ''operation_id'') in
     if requested_env ps = ''REAL'' then (case fst st of None \<Rightarrow> False | Some s \<Rightarrow> on_record oid (real s))
     else (case snd st of None \<Rightarrow> False | Some p \<Rightarrow> on_record oid p))"

lemma frozen_on_record: "frozen p q \<Longrightarrow> on_record oid q \<longleftrightarrow> on_record oid p"
  by (simp add: frozen_def on_record_def)

lemma trade_held_known: "trade_held s t \<Longrightarrow> operation_known ps t \<longleftrightarrow> operation_known ps s"
  by (cases s; cases t) (auto simp: trade_held_def operation_known_def held_def frozen_on_record Let_def
      elim!: option.rel_cases split: option.splits)

lemma lookup_error: "lookup i j oid = (Inl e, j') \<Longrightarrow> instance_of e ExecutionStoreError"
  by (auto simp: lookup_def transaction_def connection_def instance_of_def split: if_split_asm)

lemma known_row_cases:
  assumes "known_row w site oid s = (r, t)"
  shows "r = Inr None \<Longrightarrow> \<not> on_record oid (real s)" "r = Inr (Some v) \<Longrightarrow> on_record oid (real s)"
    "r = Inl e \<Longrightarrow> \<not> on_record oid (real s) \<Longrightarrow> instance_of e ExecutionStoreError"
  using assms by (auto simp: known_row_def on_record_def on_real_iff on_journal_iff dest!: lookup_found [THEN conjunct1, symmetric] dest: lookup_error
      split: if_split_asm option.splits)

lemma real_retry_record:
  assumes "real_retry cfg w site meth ps s = (r, t)"
  shows "r = Inr None \<Longrightarrow> \<not> on_record (token_text (arg ps ''operation_id'')) (real s)"
    "r = Inr (Some x) \<Longrightarrow> on_record (token_text (arg ps ''operation_id'')) (real s)"
    "r = Inr y \<Longrightarrow> \<exists>k. retry_checks cfg meth ps = Inr k"
    "r = Inl e \<Longrightarrow> \<not> on_record (token_text (arg ps ''operation_id'')) (real s) \<Longrightarrow> retry_checks cfg meth ps = Inr k \<Longrightarrow>
      instance_of (cause e) ExecutionStoreError"
  using assms
  by (auto simp: real_retry_def lift_res_Inr res_simps not_sent_Inr_iff
      split: sum.splits prod.splits option.splits dest: known_row_cases)

lemma real_known_Inr:
  assumes "real_known cfg w meth ps s = (Inr b, t)"
  shows "held s t" "b \<longleftrightarrow> on_record (token_text (arg ps ''operation_id'')) (real s)" "\<exists>k. retry_checks cfg meth ps = Inr k"
proof -
  obtain r s1 where 1: "real_retry cfg w ''plan'' meth ps s = (r, s1)" by fastforce
  show "held s t" using held_real_known [of s cfg w meth ps] by (simp add: assms)
  obtain x where r: "r = Inr x" and b: "b \<longleftrightarrow> x \<noteq> None"
    using assms 1 by (auto simp: real_known_def lift_res_Inr res_simps split: sum.splits option.splits prod.splits)
  show "b \<longleftrightarrow> on_record (token_text (arg ps ''operation_id'')) (real s)"
    using real_retry_record(1,2) [OF 1] r b by (cases x) auto
  show "\<exists>k. retry_checks cfg meth ps = Inr k" using real_retry_record(3) [OF 1] r by blast
qed

lemma map_sum_Inr_iff: "map_sum f g x = Inr y \<longleftrightarrow> (\<exists>z. x = Inr z \<and> y = g z)"
  by (cases x) auto

text \<open>A plan of a REAL write: a known operation asks for nothing, a new one for what its request needs, and for the
  mutation on the account that was resolved.\<close>

lemma prepare_real_cases:
  assumes "prepare_write_call cfg jit w meth ps (so, po) = (Inr (plan, args), st)" "requested_env ps = ''REAL''"
  obtains s s1 where "so = Some s" "st = (Some s1, po)" "held s s1" "plan_write plan = Some meth" "\<exists>k. retry_checks cfg meth ps = Inr k"
    "if on_record (token_text (arg ps ''operation_id'')) (real s) then plan_requests plan = [] \<and> args = ps
     else \<exists>exposing acc. args = put_member ''acc_id'' (PInt acc) ps \<and> exposing_call meth ps = Inr exposing
       \<and> plan_requests plan = real_requests cfg jit meth exposing acc @ [one_request (mutation_operation meth) (Some acc)]"
proof -
  obtain x where x: "plan_write_of cfg jit w meth ps (so, po) = (Inr x, st)" "(plan, args) = finish_plan meth ps x"
    using assms(1) by (auto simp: prepare_write_call_def not_sent_Inr_iff map_sum_Inr_iff split: prod.splits)
  obtain s where s: "so = Some s" using x(1) assms(2)
    by (auto simp: plan_write_of_def lift_res_Inr raises_def split: sum.splits option.splits)
  obtain b s1 where b: "real_known cfg w meth ps s = (Inr b, s1)" "st = (Some s1, po)"
      "if b then x = None else \<exists>y. x = Some y \<and> plan_real cfg jit w meth ps s1 = Inr y"
    using x(1) assms(2)
    by (auto simp: plan_write_of_def s lift_res_Inr map_sum_Inr_iff split: sum.splits prod.splits bool.splits)
  note k = real_known_Inr [OF b(1)]
  show thesis
  proof (rule that [OF s b(2) k(1) _ k(3)])
    show "plan_write plan = Some meth" using x(2) by (auto simp: finish_plan_def split: option.splits prod.splits)
    show "if on_record (token_text (arg ps ''operation_id'')) (real s) then plan_requests plan = [] \<and> args = ps
     else \<exists>exposing acc. args = put_member ''acc_id'' (PInt acc) ps \<and> exposing_call meth ps = Inr exposing
       \<and> plan_requests plan = real_requests cfg jit meth exposing acc @ [one_request (mutation_operation meth) (Some acc)]"
      using x(2) b(3) k(2) by (auto simp: finish_plan_def plan_real_def res_simps split: if_split_asm option.splits)
  qed
qed

lemma prepare_paper_cases:
  assumes "prepare_write_call cfg jit w meth ps (so, po) = (Inr (plan, args), st)" "requested_env ps \<noteq> ''REAL''"
  obtains p p1 k q where "po = Some p" "st = (so, Some p1)" "frozen p p1" "plan_write plan = Some meth"
    "requested_env ps = ''SIMULATE''" "check_write (policy cfg) ''SIMULATE'' = ok"
    "paper_parameters (sessions cfg) meth ps = Inr (k, q)" "check_token ps = ok" "schema k q = ok"
proof -
  obtain x where x: "plan_write_of cfg jit w meth ps (so, po) = (Inr x, st)" "(plan, args) = finish_plan meth ps x"
    using assms(1) by (auto simp: prepare_write_call_def not_sent_Inr_iff map_sum_Inr_iff split: prod.splits)
  obtain env where env: "dict_item ps ''trd_env'' = Inr env" "check_write (policy cfg) (py_str env) = ok"
    using x(1) by (auto simp: plan_write_of_def lift_res_Inr res_simps split: sum.splits)
  have e: "requested_env ps = norm_text (py_str env)"
    using env(1) by (auto simp: requested_env_def dict_item_def dict_get_def split: option.splits)
  have sim: "requested_env ps = ''SIMULATE''" "check_write (policy cfg) ''SIMULATE'' = ok"
  proof -
    have w: "norm_text (py_str env) \<in> writable_environments (mode (policy cfg))"
      using env(2) by (auto simp: check_write_def Let_def split: if_split_asm)
    with assms(2) e show "requested_env ps = ''SIMULATE''" by (cases "mode (policy cfg)") auto
    moreover have "norm_text ''SIMULATE'' = ''SIMULATE''" by code_simp
    ultimately show "check_write (policy cfg) ''SIMULATE'' = ok" using w e unfolding check_write_def Let_def by simp
  qed
  obtain p p1 where p: "po = Some p" "plan_paper cfg w meth ps p = (Inr x, p1)" "st = (so, Some p1)"
    using x(1) assms(2) by (auto simp: plan_write_of_def lift_res_Inr raises_def split: sum.splits option.splits if_split_asm prod.splits)
  obtain k q where "paper_parameters (sessions cfg) meth ps = Inr (k, q)" "check_token ps = ok" "schema k q = ok"
    using p(2) by (auto simp: plan_paper_def bindS_Inr res_simps)
  moreover have "frozen p p1" using frozen_plan_paper [of p cfg w meth ps] by (simp add: p(2))
  moreover have "plan_write plan = Some meth" using x(2) by (auto simp: finish_plan_def split: option.splits prod.splits)
  ultimately show thesis using that p(1,3) sim by blast
qed

lemma paper_known_unrecorded:
  assumes "paper_known w site oid s = (r, t)" "\<not> on_record oid s"
  shows "r = Inr None \<or> (\<exists>e. r = Inl e \<and> instance_of e ExecutionStoreError)"
  using assms by (cases r) (auto simp: paper_known_def on_record_def on_journal_iff dest: lookup_found lookup_error
      split: if_split_asm option.splits)

lemma store_error_kept: "instance_of e ExecutionStoreError \<Longrightarrow>
   \<exists>x. not_sent op False True (lift_res (Inl e)) = Inl x \<and> instance_of (cause x) ExecutionStoreError"
  by (cases e) (auto simp: not_sent_def instance_of_def)

subsection \<open>Refused capacity\<close>

text \<open>C12. When the capacity of a plan is refused, nothing was sent and nothing was stored: the tables, the budget, the pending
  outcomes, the gateway and the execution state are as before. The caller gets an answer only for an operation that
  is on record; for any other it is told that the order was not sent, or that the journal could not be read.\<close>

theorem refused_capacity_sends_nothing:
  assumes "prepare_write_call cfg jit w meth ps st = (Inr (plan, args), st1)"
    and "wait (plan_requests plan) = Inl e" "instance_of e ProviderRateLimitError"
    and "run_write (prepare_write_call cfg jit w meth ps) wait func (recover_admission cfg w' meth ps) st = (r, st2)"
  shows "trade_held st st2 \<and> (\<not> operation_known ps st \<longrightarrow>
    (\<exists>x. r = Inl x \<and> (instance_of (cause x) OrderNotSentError \<or> instance_of (cause x) ExecutionStoreError)))"
proof -
  obtain so po where st: "st = (so, po)" by (cases st)
  have held1: "trade_held st st1" using prepare_held [of st cfg jit w meth ps] by (simp add: assms(1))
  obtain rr where rec: "recover_admission cfg w' meth ps st1 = (rr, st2)"
    and r: "r = (case rr of Inl x \<Rightarrow> Inl x | Inr (Some x) \<Rightarrow> Inr x | Inr None \<Rightarrow> raises OrderNotSentError (the (plan_write plan)))"
  proof -
    have "plan_write plan \<noteq> None"
      by (cases "requested_env ps = ''REAL''")
        (blast elim: prepare_real_cases [OF assms(1) [unfolded st]] prepare_paper_cases [OF assms(1) [unfolded st]])+
    then show thesis using that assms(2,3,4)
      by (auto simp: run_write_def assms(1) split: prod.splits sum.splits option.splits)
  qed
  have held2: "trade_held st1 st2" using recover_held [of st1 cfg w' meth ps] by (simp add: rec)
  have answer: "\<exists>x. r = Inl x \<and> (instance_of (cause x) OrderNotSentError \<or> instance_of (cause x) ExecutionStoreError)"
    if "rr = Inr None \<or> (\<exists>x. rr = Inl x \<and> instance_of (cause x) ExecutionStoreError)"
    using that r by (auto simp: raises_def instance_of_def)
  have "rr = Inr None \<or> (\<exists>x. rr = Inl x \<and> instance_of (cause x) ExecutionStoreError)" if unknown: "\<not> operation_known ps st"
  proof (cases "requested_env ps = ''REAL''")
    case True
    from assms(1) [unfolded st] True obtain s s1 k where p: "st1 = (Some s1, po)" "so = Some s" "held s s1" "retry_checks cfg meth ps = Inr k"
      by (blast elim: prepare_real_cases)
    have u: "\<not> on_record (token_text (arg ps ''operation_id'')) (real s1)"
      using unknown True p(2) frozen_on_record [of "real s" "real s1"] p(3)
      by (simp add: operation_known_def st held_def Let_def)
    obtain x t where x: "real_retry cfg w' ''recover'' meth ps s1 = (x, t)" by fastforce
    have "rr = map_sum id (map_option FromReal) x" using rec by (simp add: recover_admission_def p(1) True x)
    moreover have "x = Inr None \<or> (\<exists>y. x = Inl y \<and> instance_of (cause y) ExecutionStoreError)"
      using real_retry_record(2,4) [OF x] u p(4) by (cases x; cases "projr x") auto
    ultimately show ?thesis by auto
  next
    case False
    from assms(1) [unfolded st] False obtain p p1 k q where p: "st1 = (so, Some p1)" "po = Some p" "frozen p p1"
      and checks: "requested_env ps = ''SIMULATE''" "check_write (policy cfg) ''SIMULATE'' = ok"
        "paper_parameters (sessions cfg) meth ps = Inr (k, q)" "check_token ps = ok" "schema k q = ok"
      by (blast elim: prepare_paper_cases)
    have u: "\<not> on_record (token_text (arg ps ''operation_id'')) p1"
      using unknown False p(2) frozen_on_record [OF p(3)] by (simp add: operation_known_def st Let_def)
    obtain x t where x: "paper_known w' ''recover'' (token_text (arg ps ''operation_id'')) p1 = (x, t)" by fastforce
    from paper_known_unrecorded [OF x u] show ?thesis
    proof
      assume "x = Inr None"
      then show ?thesis using rec False by (simp add: recover_admission_def recover_paper_def p(1) checks x bindS_def bindR_def)
    next
      assume "\<exists>e. x = Inl e \<and> instance_of e ExecutionStoreError"
      then obtain e where e: "x = Inl e" "instance_of e ExecutionStoreError" by blast
      have "rr = map_sum id (map_option FromPaper) (not_sent meth False True (lift_res (Inl e)))"
        using rec False by (simp add: recover_admission_def recover_paper_def p(1) checks x e(1) bindS_def bindR_def)
      moreover obtain y where "not_sent meth False True (lift_res (Inl e)) = (Inl y :: paper_result option outcome)"
        "instance_of (cause y) ExecutionStoreError" using store_error_kept [OF e(2)] by blast
      ultimately show ?thesis by simp
    qed
  qed
  with answer trade_held_trans [OF held1 held2] show ?thesis by blast
qed

subsection \<open>What a write sends\<close>

fun is_write :: "gateway_event \<Rightarrow> bool" where
  "is_write (Write _) = True"
| "is_write _ = False"

definition sends :: "bool \<Rightarrow> pydict \<Rightarrow> gateway_event list \<Rightarrow> (string \<times> pydict) list \<Rightarrow> service \<Rightarrow> service \<Rightarrow> bool" where
  "sends jit ps evs new s t \<longleftrightarrow> gateway t = gateway s @ evs \<and> calls (real t) = calls (real s) @ new
     \<and> length (filter is_write evs) \<le> 1 \<and> length (filter (\<lambda>e. \<not> is_write e) evs) \<le> (if jit then 2 else 0)
     \<and> (\<forall>n. n \<noteq> 0 \<longrightarrow> map_of ps ''acc_id'' = Some (PInt n) \<longrightarrow>
          (\<forall>c \<in> set new. py_str (dict_get (snd c) ''acc_id'' PNone) = int_text n))"

lemma held_sends: "held s t \<Longrightarrow> sends jit ps [] [] s t"
  by (simp add: held_def frozen_def sends_def)

lemma calm_sends: "calm s t \<Longrightarrow> sends jit ps [] [] s t"
  by (simp add: calm_def steady_def quiet_def sends_def)

lemma sends_held:
  assumes "sends jit ps evs new s t"
  shows "held u s \<Longrightarrow> sends jit ps evs new u t" "held t u \<Longrightarrow> sends jit ps evs new s u"
  using assms by (simp_all add: held_def frozen_def sends_def)

lemma opened_events:
  assumes "opened jit ws s t" "length (filter is_write ws) = length ws" "length ws \<le> 1"
  obtains evs where "gateway t = gateway s @ evs" "length (filter is_write evs) \<le> 1"
    "length (filter (\<lambda>e. \<not> is_write e) evs) \<le> (if jit then 2 else 0)"
proof (cases ws)
  case Nil
  then show thesis using assms(1) that by (auto simp: opened_def)
next
  case (Cons x xs)
  then have "ws = [x]" "is_write x" using assms(2,3) by (auto split: if_split_asm)
  then show thesis using assms(1) that by (auto simp: opened_def)
qed

lemma preflight_resolved:
  assumes "preflight_account cfg w meth ps s = (Inr (k, n), t)" "map_of ps ''acc_id'' = Some (PInt m)" "m \<noteq> 0"
  shows "n = m"
  using assms
  by (auto simp: preflight_account_def bindS_Inr res_simps dict_get_def exact_account_id_def resolve_trade_account_def Let_def
      split: if_split_asm)

lemma admit_phase_resolved:
  assumes "real_admit_phase cfg w meth ps s = (Inr (Go v k n), t)" "map_of ps ''acc_id'' = Some (PInt m)" "m \<noteq> 0"
  shows "n = m"
proof -
  obtain s1 where 1: "real_retry cfg w ''lookup2'' meth ps s = (Inr None, s1)"
    using assms(1) by (auto simp: real_admit_phase_def split: prod.splits sum.splits option.splits)
  obtain r s2 where 2: "preflight_account cfg w meth ps s1 = (r, s2)" by fastforce
  then obtain k' n' where r: "r = Inr (k', n')"
    using assms(1) 1 by (cases r) (auto simp: real_admit_phase_def not_sent_def split: prod.splits sum.splits if_split_asm)
  have "n' = m" by (rule preflight_resolved [OF 2 [unfolded r] assms(2,3)])
  then show ?thesis using assms(1)
    by (auto simp: real_admit_phase_def 1 2 r lift_res_Inr res_simps not_sent_Inr_iff split: prod.splits sum.splits bool.splits)
qed

lemma real_execute_sends:
  assumes "real_execute cfg jit w g meth ps active s = (r, t)"
  shows "\<exists>evs new. sends jit ps evs new s t \<and> (on_record (token_text (arg ps ''operation_id'')) (real s) \<longrightarrow> evs = [] \<and> new = [])"
proof -
  obtain r1 s1 where 1: "real_retry cfg w ''lookup1'' meth ps s = (r1, s1)" by fastforce
  have s1: "held s s1" using held_retry [of s cfg w "''lookup1''" meth ps] by (simp add: 1)
  obtain r2 s2 where 2: "real_admit_phase cfg w meth ps s1 = (r2, s2)" by fastforce
  have s2: "calm s s2" using calm_trans [OF calm_snd [OF calm_retry 1] calm_snd [OF calm_admit_phase 2]] .
  show ?thesis
  proof (cases "r1 = Inr None")
    case False
    then have "t = s1" using assms by (auto simp: real_execute_def 1 split: sum.splits option.splits)
    with held_sends [OF s1] show ?thesis by blast
  next
    case True
    have new: "\<not> on_record (token_text (arg ps ''operation_id'')) (real s)" by (rule real_retry_record(1) [OF 1 True])
    show ?thesis
    proof (cases "\<exists>v k n. r2 = Inr (Go v k n)")
      case False
      then have "t = s2" using assms by (auto simp: real_execute_def 1 2 True split: sum.splits real_admission.splits)
      with calm_sends [OF s2] show ?thesis by blast
    next
      case go: True
      then obtain v k n where r2: "r2 = Inr (Go v k n)" by blast
      have d: "real_dispatch_phase cfg jit w g meth ps v k n active s2 = (r, t)"
        using assms by (simp add: real_execute_def 1 2 True r2)
      have row: "account (row v) = int_text n" using real_admit_phase_Go(2) [OF 2 [unfolded r2]] .
      note resolved = admit_phase_resolved [OF 2 [unfolded r2]]
      have base: "gateway s2 = gateway s" "calls (real s2) = calls (real s)" using s2 by (simp_all add: calm_def steady_def quiet_def)
      from d show ?thesis
      proof (cases rule: real_dispatch_phase_cases)
        case (refused e)
        obtain evs where "gateway t = gateway s2 @ evs" "length (filter is_write evs) \<le> 1"
          "length (filter (\<lambda>e. \<not> is_write e) evs) \<le> (if jit then 2 else 0)"
          using opened_events [OF refused(3)] by auto
        then have "sends jit ps evs [] s t" using refused(2) base by (simp add: sends_def quiet_def)
        with new show ?thesis by blast
      next
        case (sent q x s0 u m t0)
        obtain evs where evs: "gateway t = gateway s2 @ evs" "length (filter is_write evs) \<le> 1"
          "length (filter (\<lambda>e. \<not> is_write e) evs) \<le> (if jit then 2 else 0)"
          using opened_events [OF sent(10)] by auto
        have "calls (real t) = calls (real s) @ [(operation_id (row v), write_merged q)]"
          using sent(8,9) base by (simp add: kept_def quiet_def logged_def)
        then have "sends jit ps evs [(operation_id (row v), write_merged q)] s t"
          using evs base sent(12) row resolved by (auto simp: sends_def)
        with new show ?thesis by blast
      qed
    qed
  qed
qed

definition requested :: "string \<Rightarrow> admission_plan \<Rightarrow> int" where
  "requested op plan = (\<Sum>q\<leftarrow>filter (\<lambda>q. quota_operation q = op) (plan_requests plan). quota_weight q)"

lemma requested_real:
  assumes "plan_requests plan = real_requests cfg jit meth exposing acc @ [one_request (mutation_operation meth) (Some acc)]"
  shows "requested ''unlock_trade'' plan = (if jit then 2 else 0)" "requested (mutation_operation meth) plan = 1"
  using assms by (auto simp: requested_def real_requests_def mutation_operation_def one_request_def)

lemma put_member_same [simp]: "map_of (put_member k v d) k = Some v"
  by (simp add: map_of_put_member)

lemma real_call_sends:
  assumes "real_call cfg jit w g meth approval active args (Some s, po) = (r, st)"
  shows "\<exists>t evs new. st = (Some t, po) \<and> sends jit args evs new s t
    \<and> (on_record (token_text (arg args ''operation_id'')) (real s) \<longrightarrow> evs = [] \<and> new = [])"
proof -
  obtain x so where x: "journal_real_mutation cfg jit w g meth args approval active (Some s) = (x, so)" by fastforce
  then have st: "st = (so, po)" using assms by (simp add: real_call_def)
  consider "so = Some s" | t where "so = Some t" "real_execute cfg jit w g meth args (open_mutation meth args approval active) s = (x, t)"
    using x by (auto simp: journal_real_mutation_def split: sum.splits prod.splits)
  then show ?thesis
  proof cases
    case 1
    with held_sends [OF held_refl] st show ?thesis by blast
  next
    case 2
    with real_execute_sends [OF 2(2)] st show ?thesis by blast
  qed
qed

lemma tool_call_sends:
  assumes "requested_env ps = ''REAL''"
    and "real_tool_call cfg jit w w' g wait meth ps approval active (Some s, po) = (r, Some t, po')"
  obtains "sends jit ps [] [] s t"
    | plan args st acc exposing evs new where "prepare_write_call cfg jit w meth ps (Some s, po) = (Inr (plan, args), st)"
        "wait (plan_requests plan) = ok" "\<not> on_record (token_text (arg ps ''operation_id'')) (real s)"
        "plan_requests plan = real_requests cfg jit meth exposing acc @ [one_request (mutation_operation meth) (Some acc)]"
        "sends jit (put_member ''acc_id'' (PInt acc) ps) evs new s t"
proof -
  obtain rp st where prep: "prepare_write_call cfg jit w meth ps (Some s, po) = (rp, st)" using prod.exhaust by blast
  have h: "trade_held (Some s, po) st" using prepare_held [of "(Some s, po)" cfg jit w meth ps] by (simp add: prep)
  show thesis
  proof (cases rp)
    case (Inl e)
    then have "st = (Some t, po')" using assms(2) by (simp add: real_tool_call_def run_write_def prep)
    with h have "held s t" by (simp add: trade_held_def)
    from that(1) [OF held_sends [OF this]] show thesis .
  next
    case (Inr pa)
    obtain plan args where pa: "pa = (plan, args)" by (cases pa)
    obtain s' s1 where s': "Some s = Some s'" and st: "st = (Some s1, po)" and h1: "held s' s1" and "plan_write plan = Some meth"
      and "\<exists>k. retry_checks cfg meth ps = Inr k"
      and body: "if on_record (token_text (arg ps ''operation_id'')) (real s') then plan_requests plan = [] \<and> args = ps
        else \<exists>exposing acc. args = put_member ''acc_id'' (PInt acc) ps \<and> exposing_call meth ps = Inr exposing
          \<and> plan_requests plan = real_requests cfg jit meth exposing acc @ [one_request (mutation_operation meth) (Some acc)]"
      by (rule prepare_real_cases [OF prep [unfolded Inr pa] assms(1)])
    from s' have "s' = s" by simp
    note h1 = h1 [unfolded this] and body = body [unfolded this]
    obtain r2 st2 where call: "(case wait (plan_requests plan) of Inl e \<Rightarrow> (lift_res (Inl e), st)
        | Inr _ \<Rightarrow> real_call cfg jit w' g meth approval active args st) = (r2, st2)" using prod.exhaust by blast
    have last: "trade_held st2 (Some t, po')"
    proof -
      have "(Some t, po') = st2 \<or> (\<exists>x. recover_admission cfg w' meth ps st2 = (x, Some t, po'))"
        using assms(2) by (auto simp: real_tool_call_def run_write_def prep Inr pa call split: sum.splits if_split_asm prod.splits option.splits)
      then show ?thesis using recover_held [of st2 cfg w' meth ps] by auto
    qed
    show thesis
    proof (cases "wait (plan_requests plan)")
      case (Inl e)
      then have "held s1 t" using call last st by (auto simp: trade_held_def)
      from that(1) [OF held_sends [OF held_trans [OF h1 this]]] show thesis .
    next
      case waited: (Inr u)
      then have "real_call cfg jit w' g meth approval active args (Some s1, po) = (r2, st2)" using call st by simp
      from real_call_sends [OF this] obtain t2 evs new where t2: "st2 = (Some t2, po)" "sends jit args evs new s1 t2"
        "on_record (token_text (arg args ''operation_id'')) (real s1) \<longrightarrow> evs = [] \<and> new = []" by blast
      have "held t2 t" using last t2(1) by (simp add: trade_held_def)
      then have all: "sends jit args evs new s t" using sends_held(1) [OF sends_held(2) [OF t2(2)] h1] by blast
      have kept: "on_record x (real s1) = on_record x (real s)" for x using h1 by (simp add: held_def frozen_on_record)
      show thesis
      proof (cases "on_record (token_text (arg ps ''operation_id'')) (real s)")
        case True
        with body t2(3) all that(1) show thesis by (simp add: kept)
      next
        case False
        with body obtain exposing acc where "args = put_member ''acc_id'' (PInt acc) ps"
          "plan_requests plan = real_requests cfg jit meth exposing acc @ [one_request (mutation_operation meth) (Some acc)]" by auto
        with that(2) prep waited False all show thesis by (simp add: Inr pa)
      qed
    qed
  qed
qed

lemma planned_sends:
  assumes "requested_env ps = ''REAL''"
    and "real_tool_call cfg jit w w' g wait meth ps approval active (Some s, po) = (r, Some t, po')"
  shows "\<exists>evs new. gateway t = gateway s @ evs \<and> calls (real t) = calls (real s) @ new
    \<and> (evs = [] \<and> new = [] \<or> (\<exists>plan args st acc.
         prepare_write_call cfg jit w meth ps (Some s, po) = (Inr (plan, args), st) \<and> wait (plan_requests plan) = ok
       \<and> \<not> on_record (token_text (arg ps ''operation_id'')) (real s)
       \<and> int (length (filter is_write evs)) \<le> requested (mutation_operation meth) plan
       \<and> int (length (filter (\<lambda>e. \<not> is_write e) evs)) \<le> requested ''unlock_trade'' plan
       \<and> last (plan_requests plan) = one_request (mutation_operation meth) (Some acc)
       \<and> (acc \<noteq> 0 \<longrightarrow> (\<forall>c \<in> set new. py_str (dict_get (snd c) ''acc_id'' PNone) = int_text acc))))"
  using assms
proof (cases rule: tool_call_sends)
  case 1
  then show ?thesis by (auto simp: sends_def)
next
  case (2 plan args st acc exposing evs new)
  have "int (length (filter is_write evs)) \<le> requested (mutation_operation meth) plan"
    "int (length (filter (\<lambda>e. \<not> is_write e) evs)) \<le> requested ''unlock_trade'' plan"
    using 2(5) unfolding requested_real [OF 2(4)] by (auto simp: sends_def split: if_split_asm)
  moreover have "last (plan_requests plan) = one_request (mutation_operation meth) (Some acc)" using 2(4) by simp
  moreover have "gateway t = gateway s @ evs" "calls (real t) = calls (real s) @ new"
    "acc \<noteq> 0 \<longrightarrow> (\<forall>c \<in> set new. py_str (dict_get (snd c) ''acc_id'' PNone) = int_text acc)"
    using 2(5) by (auto simp: sends_def)
  ultimately show ?thesis using 2(1-3) by blast
qed

text \<open>Two brokers that answer alike what a plan asks for.\<close>

definition answers_alike :: "admission_plan \<Rightarrow> gateway_world \<Rightarrow> gateway_world \<Rightarrow> bool" where
  "answers_alike plan g g' \<longleftrightarrow> (0 < requested ''get_market_snapshot'' plan \<longrightarrow> instruments g' = instruments g)
     \<and> (0 < requested ''order_list_query'' plan \<longrightarrow> order_rows g' = order_rows g)
     \<and> (0 < requested ''unlock_trade'' plan \<longrightarrow> unlock_reply g' = unlock_reply g \<and> lock_reply g' = lock_reply g \<and> halt_time g' = halt_time g)"

definition needed_alike :: "config \<Rightarrow> bool \<Rightarrow> string \<Rightarrow> bool \<Rightarrow> gateway_world \<Rightarrow> gateway_world \<Rightarrow> bool" where
  "needed_alike cfg jit meth exposing g g' \<longleftrightarrow>
     (exposing \<and> (meth \<in> {''place_order'', ''modify_order''} \<or> notional_cap_configured (policy cfg) \<or> max_daily_notional (policy cfg) \<noteq> [])
        \<longrightarrow> instruments g' = instruments g)
     \<and> (meth = ''modify_order'' \<and> exposing \<longrightarrow> order_rows g' = order_rows g)
     \<and> (jit \<longrightarrow> unlock_reply g' = unlock_reply g \<and> lock_reply g' = lock_reply g \<and> halt_time g' = halt_time g)"

lemma answers_needed:
  assumes "plan_requests plan = real_requests cfg jit meth exposing acc @ [one_request (mutation_operation meth) (Some acc)]"
    and "answers_alike plan g g'"
  shows "needed_alike cfg jit meth exposing g g'"
proof -
  note requested = requested_def assms(1) real_requests_def mutation_operation_def one_request_def
  have "0 < requested ''get_market_snapshot'' plan"
    if "exposing" "meth \<in> {''place_order'', ''modify_order''} \<or> notional_cap_configured (policy cfg) \<or> max_daily_notional (policy cfg) \<noteq> []"
    using that by (simp add: requested)
  moreover have "0 < requested ''order_list_query'' plan" if "meth = ''modify_order''" "exposing"
    using that by (simp add: requested)
  moreover have "0 < requested ''unlock_trade'' plan" if jit
    using that by (simp add: requested)
  ultimately show ?thesis using assms(2) unfolding answers_alike_def needed_alike_def by blast
qed

lemma dispatch_write_alike:
  assumes "needed_alike cfg jit meth exposing g g'"
  shows "dispatch_write cfg jit w g' = dispatch_write cfg jit w g"
proof -
  have same: "jit_unlock jit w g' = jit_unlock jit w g" "relock_after_write jit g' = relock_after_write jit g"
  proof -
    have replies: "unlock_gateway g' = unlock_gateway g" "lock_gateway g' = lock_gateway g" "halt_time g' = halt_time g" if jit
      using assms that by (simp_all add: fun_eq_iff needed_alike_def unlock_gateway_def lock_gateway_def)
    show "jit_unlock jit w g' = jit_unlock jit w g"
      by (cases jit) (simp_all add: fun_eq_iff jit_unlock_def replies(1))
    show "relock_after_write jit g' = relock_after_write jit g"
    proof (cases jit)
      case True
      show ?thesis unfolding relock_after_write_def replies(2,3) [OF True] ..
    qed (simp add: fun_eq_iff relock_after_write_def)
  qed
  show ?thesis unfolding dispatch_write_def same ..
qed

lemma prepare_write_alike:
  assumes "needed_alike cfg jit meth exposing g g'" "exposing_call meth ps = Inr exposing"
    and "meth = ''modify_order'' \<Longrightarrow> arg ps' ''modify_order_op'' = arg ps ''modify_order_op''"
  shows "prepare_write cfg w g' meth ps' acc active s = prepare_write cfg w g meth ps' acc active s"
proof -
  note look = lookup_facts_def single_leg_facts_def combo_facts_def
  consider "meth = ''place_order''" | "meth = ''place_combo_order''" | "meth = ''modify_order''"
    | "meth \<notin> {''place_order'', ''place_combo_order'', ''modify_order''}" by blast
  then show ?thesis
  proof cases
    case 1
    then have "instruments g' = instruments g" using assms(1,2) by (auto simp: needed_alike_def exposing_call_def)
    then show ?thesis using 1 by (simp add: prepare_write_def prepare_place_def look)
  next
    case 2
    then have "notional_cap_configured (policy cfg) \<or> max_daily_notional (policy cfg) \<noteq> [] \<Longrightarrow> instruments g' = instruments g"
      using assms(1,2) by (auto simp: needed_alike_def exposing_call_def)
    then have "combo_facts (policy cfg) g' = combo_facts (policy cfg) g" by (auto simp: look fun_eq_iff)
    then show ?thesis using 2 by (simp add: prepare_write_def prepare_combo_def)
  next
    case 3
    have ex: "exposing \<longleftrightarrow> norm_text (py_str (arg ps' ''modify_order_op'')) \<in> EXPOSING_MODIFY_OPS"
      using assms(2,3) 3 by (auto simp: exposing_call_def res_simps dict_item_def dict_get_def split: option.splits)
    show ?thesis
    proof (cases exposing)
      case True
      then have "instruments g' = instruments g" "order_rows g' = order_rows g" using assms(1) 3 by (auto simp: needed_alike_def)
      then have same: "assess_modification cfg g' = assess_modification cfg g" "fetch_order w g' = fetch_order w g"
        by (simp_all add: fun_eq_iff assess_modification_def fetch_order_def look)
      have "prepare_modify cfg w g' = prepare_modify cfg w g" unfolding prepare_modify_def same ..
      then show ?thesis using 3 by (simp add: prepare_write_def)
    next
      case False
      then show ?thesis using 3 ex by (cases "connected w") (simp_all add: prepare_write_def prepare_modify_def Let_def)
    qed
  qed (simp add: prepare_write_def)
qed

lemma real_execute_alike:
  assumes "\<not> on_record (token_text (arg ps ''operation_id'')) (real s) \<Longrightarrow>
      \<exists>exposing. exposing_call meth ps = Inr exposing \<and> needed_alike cfg jit meth exposing g g'"
  shows "real_execute cfg jit w g' meth ps active s = real_execute cfg jit w g meth ps active s"
proof -
  obtain r1 s1 where 1: "real_retry cfg w ''lookup1'' meth ps s = (r1, s1)" using prod.exhaust by blast
  show ?thesis
  proof (cases "r1 = Inr None")
    case True
    have "\<not> on_record (token_text (arg ps ''operation_id'')) (real s)" by (rule real_retry_record(1) [OF 1 True])
    then obtain exposing where e: "exposing_call meth ps = Inr exposing" "needed_alike cfg jit meth exposing g g'" using assms by blast
    have same: "prepare_write cfg w g' meth (fixed_request k v acc ps) = prepare_write cfg w g meth (fixed_request k v acc ps)" for k v acc
      using prepare_write_alike [OF e(2,1)] by (simp add: fun_eq_iff fixed_request_args)
    have same_method: "real_method cfg jit w g' meth (fixed_request k v acc ps) = real_method cfg jit w g meth (fixed_request k v acc ps)"
      for k v acc
      unfolding real_method_def dispatch_write_alike [OF e(2)] same ..
    have same_phase: "real_dispatch_phase cfg jit w g' meth ps = real_dispatch_phase cfg jit w g meth ps"
      unfolding real_dispatch_phase_def same_method ..
    show ?thesis unfolding real_execute_def same_phase ..
  qed (auto simp: real_execute_def 1 split: sum.splits option.splits)
qed

text \<open>A call uses no answer of the broker that its plan did not ask for.\<close>

lemma tool_call_alike:
  assumes "requested_env ps = ''REAL''"
    and "\<And>plan args st. prepare_write_call cfg jit w meth ps (Some s, po) = (Inr (plan, args), st) \<Longrightarrow> answers_alike plan g g'"
  shows "real_tool_call cfg jit w w' g' wait meth ps approval active (Some s, po)
    = real_tool_call cfg jit w w' g wait meth ps approval active (Some s, po)"
proof -
  obtain rp st where prep: "prepare_write_call cfg jit w meth ps (Some s, po) = (rp, st)" using prod.exhaust by blast
  show ?thesis
  proof (cases rp)
    case (Inl e)
    then show ?thesis by (simp add: real_tool_call_def run_write_def prep)
  next
    case (Inr pa)
    obtain plan args where pa: "pa = (plan, args)" by (cases pa)
    obtain s' s1 where s': "Some s = Some s'" and st: "st = (Some s1, po)" and h1: "held s' s1" and "plan_write plan = Some meth"
      and "\<exists>k. retry_checks cfg meth ps = Inr k"
      and body: "if on_record (token_text (arg ps ''operation_id'')) (real s') then plan_requests plan = [] \<and> args = ps
        else \<exists>exposing acc. args = put_member ''acc_id'' (PInt acc) ps \<and> exposing_call meth ps = Inr exposing
          \<and> plan_requests plan = real_requests cfg jit meth exposing acc @ [one_request (mutation_operation meth) (Some acc)]"
      by (rule prepare_real_cases [OF prep [unfolded Inr pa] assms(1)])
    have kept: "on_record x (real s1) = on_record x (real s)" for x using h1 s' by (simp add: held_def frozen_on_record)
    have same: "real_execute cfg jit w' g' meth args a s1 = real_execute cfg jit w' g meth args a s1" for a
    proof (rule real_execute_alike)
      assume new: "\<not> on_record (token_text (arg args ''operation_id'')) (real s1)"
      show "\<exists>exposing. exposing_call meth args = Inr exposing \<and> needed_alike cfg jit meth exposing g g'"
      proof (cases "on_record (token_text (arg ps ''operation_id'')) (real s)")
        case True
        then show ?thesis using body new s' by (simp add: kept)
      next
        case False
        then obtain exposing acc where e: "args = put_member ''acc_id'' (PInt acc) ps" "exposing_call meth ps = Inr exposing"
          "plan_requests plan = real_requests cfg jit meth exposing acc @ [one_request (mutation_operation meth) (Some acc)]"
          using body s' by auto
        have "exposing_call meth args = exposing_call meth ps" by (simp add: exposing_call_def e(1) dict_item_def map_of_put_member)
        then show ?thesis using answers_needed [OF e(3)] assms(2) [OF prep [unfolded Inr pa]] e(2) by simp
      qed
    qed
    have called: "real_call cfg jit w' g' meth approval active args (Some s1, po)
        = real_call cfg jit w' g meth approval active args (Some s1, po)"
      by (simp add: real_call_def journal_real_mutation_def same split: sum.split)
    show ?thesis unfolding real_tool_call_def run_write_def prep Inr pa st by (simp only: sum.case prod.case called)
  qed
qed

text \<open>C11. A REAL write that a tool runs asks the broker only for what its plan has asked for. The requests it makes of the
  gateway, the writes and the unlocks and locks around them, are within the capacity of its plan, for which the
  caller has waited; a known operation has an empty plan and sends nothing; the broker call is for the account of the
  plan. The call reads no answer that its plan did not ask for: snapshots, the list of orders, and the replies to
  unlock and lock that the plan leaves out can be exchanged and nothing of the call, its result or its effects, is
  different.\<close>

theorem plan_covers_the_write:
  assumes "requested_env ps = ''REAL''"
    and "real_tool_call cfg jit w w' g wait meth ps approval active (Some s, po) = (r, Some t, po')"
  shows "(\<exists>evs new. gateway t = gateway s @ evs \<and> calls (real t) = calls (real s) @ new
    \<and> (evs = [] \<and> new = [] \<or> (\<exists>plan args st acc.
         prepare_write_call cfg jit w meth ps (Some s, po) = (Inr (plan, args), st) \<and> wait (plan_requests plan) = ok
       \<and> \<not> on_record (token_text (arg ps ''operation_id'')) (real s)
       \<and> int (length (filter is_write evs)) \<le> requested (mutation_operation meth) plan
       \<and> int (length (filter (\<lambda>e. \<not> is_write e) evs)) \<le> requested ''unlock_trade'' plan
       \<and> last (plan_requests plan) = one_request (mutation_operation meth) (Some acc)
       \<and> (acc \<noteq> 0 \<longrightarrow> (\<forall>c \<in> set new. py_str (dict_get (snd c) ''acc_id'' PNone) = int_text acc)))))
    \<and> (\<forall>g'. (\<forall>plan args st. prepare_write_call cfg jit w meth ps (Some s, po) = (Inr (plan, args), st) \<longrightarrow> answers_alike plan g g')
         \<longrightarrow> real_tool_call cfg jit w w' g' wait meth ps approval active (Some s, po) = (r, Some t, po'))"
proof (rule conjI)
  show "\<forall>g'. (\<forall>plan args st. prepare_write_call cfg jit w meth ps (Some s, po) = (Inr (plan, args), st) \<longrightarrow> answers_alike plan g g')
         \<longrightarrow> real_tool_call cfg jit w w' g' wait meth ps approval active (Some s, po) = (r, Some t, po')"
    using tool_call_alike [OF assms(1)] assms(2) by metis
qed (use assms in \<open>rule planned_sends\<close>)

subsection \<open>A write through its admission\<close>

definition sample_tool_call :: "(quota_request list \<Rightarrow> unit res) \<Rightarrow> write_answer outcome \<times> trade_state" where
  "sample_tool_call wait = real_tool_call sample_real_config True sample_world sample_world sample_gateway wait ''cancel_order''
     sample_cancel None (Some sample_real_active) (Some sample_service, None)"

lemma sample_plan_made:
  "case prepare_write_call sample_real_config True sample_world ''cancel_order'' sample_cancel (Some sample_service, None) of
     (r, _) \<Rightarrow> \<not> isl r"
  by code_simp

lemma sample_tool_called:
  "case sample_tool_call (\<lambda>_. ok) of (r, so, _) \<Rightarrow> (case so of None \<Rightarrow> False | Some t \<Rightarrow> map fst (calls (real t)) = [''op1''])"
  by code_simp

lemma sample_unrecorded: "\<not> operation_known sample_cancel (Some sample_service, None)" "requested_env sample_cancel = ''REAL''"
  by code_simp+

theorem refused_capacity_sends_nothing_witness:
  "trade_held (Some sample_service, None) (snd (sample_tool_call (\<lambda>_. raise ProviderRateLimitError ''retry'')))
   \<and> (\<exists>x. fst (sample_tool_call (\<lambda>_. raise ProviderRateLimitError ''retry'')) = Inl x)"
proof -
  obtain r st1 where p: "prepare_write_call sample_real_config True sample_world ''cancel_order'' sample_cancel (Some sample_service, None) = (r, st1)"
    using prod.exhaust by blast
  then obtain plan args where "r = Inr (plan, args)" using sample_plan_made by (cases r) auto
  then have p: "prepare_write_call sample_real_config True sample_world ''cancel_order'' sample_cancel (Some sample_service, None)
      = (Inr (plan, args), st1)" using p by simp
  have rate: "instance_of (Exn ProviderRateLimitError ''retry'') ProviderRateLimitError" by (simp add: instance_of_def)
  obtain y st2 where y: "sample_tool_call (\<lambda>_. raise ProviderRateLimitError ''retry'') = (y, st2)" using prod.exhaust by blast
  from refused_capacity_sends_nothing [OF p _ rate y [unfolded sample_tool_call_def real_tool_call_def]] sample_unrecorded(1) y
  show ?thesis by auto
qed

definition sample_silent :: gateway_world where
  "sample_silent = sample_gateway\<lparr>instruments := None, order_rows := Inr None\<rparr>"

lemma sample_silent_alike:
  assumes "prepare_write_call sample_real_config True sample_world ''cancel_order'' sample_cancel (Some sample_service, None)
     = (Inr (plan, args), st)"
  shows "answers_alike plan sample_gateway sample_silent"
proof -
  have "exposing_call ''cancel_order'' sample_cancel = Inr False" by (simp add: exposing_call_def)
  then have "plan_requests plan = [] \<or> (\<exists>acc. plan_requests plan = real_requests sample_real_config True ''cancel_order'' False acc
      @ [one_request (mutation_operation ''cancel_order'') (Some acc)])"
    by (cases rule: prepare_real_cases [OF assms sample_unrecorded(2)]) (auto split: if_split_asm)
  then show ?thesis
    by (auto simp: answers_alike_def requested_def real_requests_def one_request_def mutation_operation_def sample_silent_def)
qed

theorem plan_covers_the_write_witness:
  "\<exists>t plan. fst (snd (sample_tool_call (\<lambda>_. ok))) = Some t \<and> map fst (calls (real t)) = [''op1'']
     \<and> int (length (filter is_write (gateway t))) \<le> requested ''modify_order'' plan
     \<and> int (length (filter (\<lambda>e. \<not> is_write e) (gateway t))) \<le> requested ''unlock_trade'' plan
     \<and> real_tool_call sample_real_config True sample_world sample_world sample_silent (\<lambda>_. ok) ''cancel_order'' sample_cancel None
         (Some sample_real_active) (Some sample_service, None) = sample_tool_call (\<lambda>_. ok)"
proof -
  obtain r so po where x: "sample_tool_call (\<lambda>_. ok) = (r, so, po)" using prod.exhaust by metis
  then obtain t where t: "so = Some t" "map fst (calls (real t)) = [''op1'']"
    using sample_tool_called by (cases so) auto
  have "gateway sample_service = []" "calls (real sample_service) = []" "mutation_operation ''cancel_order'' = ''modify_order''"
    by (simp_all add: sample_service_def sample_paper_def mutation_operation_def)
  note covered = plan_covers_the_write [OF sample_unrecorded(2) x [unfolded t(1) sample_tool_call_def]]
  have "real_tool_call sample_real_config True sample_world sample_world sample_silent (\<lambda>_. ok) ''cancel_order'' sample_cancel None
      (Some sample_real_active) (Some sample_service, None) = sample_tool_call (\<lambda>_. ok)"
    using covered [THEN conjunct2, rule_format, OF sample_silent_alike] x t(1) by simp
  with covered [THEN conjunct1] t x \<open>gateway sample_service = []\<close> \<open>calls (real sample_service) = []\<close>
    \<open>mutation_operation ''cancel_order'' = ''modify_order''\<close>
  show ?thesis by fastforce
qed

end
