(* ===== verification/Preparation.thy ===== *)
theory Preparation
  imports Admission
begin

text \<open>
  The preparation of a request for an operator's review (\<open>services/trade_preparation.py\<close>): the request is bound to
  the parameters of its method, checked against the controls, the policy, the journal and the rules of its
  environment, resolved to one account, assessed, and stored as a pending request with what the operator is
  shown. It reads the broker and writes the controls only. The tables the broker answers with are arguments.
\<close>

subsection \<open>Binding\<close>

definition MUTATIONS :: "string set" where
  "MUTATIONS = {''place_order'', ''place_combo_order'', ''modify_order'', ''cancel_order''}"

text \<open>The parameters of the four methods of the service, with their defaults.\<close>

definition identity_parameters :: "(string \<times> pyval option) list" where
  "identity_parameters = [(''operation_id'', Some PNone), (''admission_epoch'', Some PNone), (''approval_id'', Some PNone)]"

definition place_parameters :: "sdk_session \<Rightarrow> (string \<times> pyval option) list" where
  "place_parameters S = [(''code'', None), (''price'', None), (''qty'', None), (''trd_side'', None),
     (''order_type'', Some (PStr ''NORMAL'')), (''time_in_force'', Some (PStr ''DAY'')), (''adjust_limit'', Some (PInt 0)),
     (''aux_price'', Some PNone), (''trail_type'', Some PNone), (''trail_value'', Some PNone), (''trail_spread'', Some PNone),
     (''trd_env'', None), (''acc_id'', Some (PStr ''0'')), (''remark'', Some (PStr []))]
     @ identity_parameters @ [(''session'', Some (PStr (session_none S)))]"

definition combo_parameters :: "(string \<times> pyval option) list" where
  "combo_parameters = [(''combo_legs'', None), (''price'', None), (''qty'', None), (''order_type'', Some (PStr ''NORMAL'')),
     (''time_in_force'', Some (PStr ''DAY'')), (''trd_env'', None), (''acc_id'', Some (PStr ''0'')), (''remark'', Some (PStr []))]
     @ identity_parameters"

definition modify_parameters :: "(string \<times> pyval option) list" where
  "modify_parameters = [(''order_id'', None), (''modify_order_op'', None), (''qty'', Some PNone), (''price'', Some PNone),
     (''adjust_limit'', Some (PInt 0)), (''trd_env'', None), (''acc_id'', Some (PStr ''0''))] @ identity_parameters"

definition cancel_parameters :: "(string \<times> pyval option) list" where
  "cancel_parameters = [(''order_id'', None), (''trd_env'', None), (''acc_id'', Some (PStr ''0''))] @ identity_parameters"

definition method_parameters :: "sdk_session \<Rightarrow> string \<Rightarrow> (string \<times> pyval option) list" where
  "method_parameters S meth =
     (if meth = ''place_order'' then place_parameters S
      else if meth = ''place_combo_order'' then combo_parameters
      else if meth = ''modify_order'' then modify_parameters else cancel_parameters)"

text \<open>\<open>signature(f).bind(**parameters)\<close> and \<open>apply_defaults\<close>.\<close>

definition bind_one :: "pydict \<Rightarrow> string \<times> pyval option \<Rightarrow> (string \<times> pyval) res" where
  "bind_one ps = (\<lambda>(k, default). case map_of ps k of
     Some v \<Rightarrow> Inr (k, v)
   | None \<Rightarrow> (case default of None \<Rightarrow> raise TypeError k | Some v \<Rightarrow> Inr (k, v)))"

definition bind_arguments :: "(string \<times> pyval option) list \<Rightarrow> pydict \<Rightarrow> pydict res" where
  "bind_arguments sig ps =
     (if \<exists>k \<in> fst ` set ps. k \<notin> fst ` set sig then raise TypeError ''unexpected keyword'' else mapR (bind_one ps) sig)"

definition norm_member :: "string \<Rightarrow> pydict \<Rightarrow> pydict" where
  "norm_member k d = put_member k (PStr (norm_text (py_str (dict_get d k PNone)))) d"

definition bound_parameters :: "sdk_session \<Rightarrow> string \<Rightarrow> pydict \<Rightarrow> pydict res" where
  "bound_parameters S meth ps =
     (if meth \<notin> MUTATIONS then raise ValueError ''individual trading mutations only''
      else if ''approval_id'' \<in> fst ` set ps then raise ValueError ''cannot supply approval_id''
      else bindR (bind_arguments (method_parameters S meth) ps) (\<lambda>bound.
        let d = norm_member ''trd_env'' (dict_pop ''approval_id'' bound);
            d = (if meth = ''modify_order'' then norm_member ''modify_order_op'' d else d);
            env = py_str (arg d ''trd_env'') in
        if meth = ''place_order'' then
          bindR (normalize_order_session S (arg d ''session'') env) (\<lambda>selected.
            Inr (put_member ''session'' (PStr (if env = ''REAL'' then selected else session_none S)) d))
        else Inr d))"

subsection \<open>Accounts of reads\<close>

text \<open>\<open>TradeService.resolve_read_account\<close>.\<close>

fun readable_ids :: "string \<Rightarrow> broker_account list \<Rightarrow> int list res" where
  "readable_ids env [] = Inr []"
| "readable_ids env (a # as) =
     (if acct_env a \<noteq> env then readable_ids env as
      else bindR (exact_account_id False (PInt (acct_id a))) (\<lambda>n. bindR (readable_ids env as) (\<lambda>ns. Inr (n # ns))))"

definition resolve_read_account :: "world \<Rightarrow> pyval \<Rightarrow> pyval \<Rightarrow> (string \<times> int) res" where
  "resolve_read_account w trd_env acc =
     bindR (validate_choice trd_env [''REAL'', ''SIMULATE'']) (\<lambda>env.
     bindR (exact_account_id True acc) (\<lambda>n.
     bindR (if n \<noteq> 0 then check_account_access (grants w) env (PInt n) False else ok) (\<lambda>_.
     bindR (broker_accounts w) (\<lambda>accounts.
     bindR (readable_ids env accounts) (\<lambda>ids.
       if n \<noteq> 0 then (if n \<notin> set ids then raise ValueError ''not available'' else Inr (env, n))
       else (case ids of [only] \<Rightarrow> Inr (env, only) | _ \<Rightarrow> raise ValueError ''does not identify one''))))))"

subsection \<open>The order under review\<close>

text \<open>\<open>float(price)\<close>, of a number or a text.\<close>

fun float_argument :: "pyval \<Rightarrow> pyfloat res" where
  "float_argument (PStr s) = (case float_of_text s of None \<Rightarrow> raise ValueError ''float'' | Some f \<Rightarrow> Inr f)"
| "float_argument (PBool b) = float_of_int (if b then 1 else 0)"
| "float_argument v = float_of_number v"

definition member_or :: "pyval \<Rightarrow> string \<Rightarrow> pydict \<Rightarrow> pyval" where
  "member_or v k d = dict_get d k v"

text \<open>\<open>_single_facts\<close>; the price is looked at as it was given and assessed as the float it spells.\<close>

definition reviewed_facts :: "config \<Rightarrow> gateway_world \<Rightarrow> pydict \<Rightarrow> order_facts res" where
  "reviewed_facts cfg g ps =
     bindR (dict_item ps ''price'') (\<lambda>p.
     bindR (float_argument p) (\<lambda>numeric.
     bindR (bindR (dict_item ps ''qty'') whole_quantity) (\<lambda>n.
     bindR (validate_single_order_request
       (put_member ''price'' (PFloat numeric (float_repr cfg numeric)) (put_member ''qty'' (PInt n) ps))) (\<lambda>_.
     bindR (single_leg_facts (sessions cfg) g (py_str (arg ps ''code'')) (py_str (arg ps ''order_type''))
       (py_str (arg ps ''trd_side'')) (PInt n) p (arg ps ''aux_price'')
       (py_str (member_or (PStr (session_none (sessions cfg))) ''session'' ps))) (\<lambda>f.
     bindR (in_text_set (arg ps ''trd_side'') {''BUY'', ''SELL''}) (\<lambda>side.
     if \<not> side then raise ValueError ''BUY or SELL''
     else bindR (in_text_set (member_or (PStr ''DAY'') ''time_in_force'' ps) {''DAY'', ''GTC''}) (\<lambda>tif.
     if \<not> tif then raise ValueError ''Only DAY and GTC''
     else bindR (assess_order (policy cfg) f) (\<lambda>_. Inr f))))))))"

text \<open>The broker's answers that a review shows: the rows of the maximum quantities and of a combination's impact,
  with the time of the latter.\<close>

record review_world =
  maximum_rows :: "pydict list res"
  impact_rows :: "pydict list res"
  impact_time :: string

definition first_row :: "pydict list \<Rightarrow> pydict" where
  "first_row rows = (case rows of [] \<Rightarrow> [] | d # _ \<Rightarrow> d)"

definition maximum_quantities :: "config \<Rightarrow> world \<Rightarrow> review_world \<Rightarrow> string \<Rightarrow> int \<Rightarrow> string \<Rightarrow> pydict res" where
  "maximum_quantities cfg w rw env acc session =
     bindR (resolve_read_account w (PStr env) (PStr (int_text acc))) (\<lambda>_.
     bindR (normalize_order_session (sessions cfg) (PStr session) ''REAL'') (\<lambda>_.
     if \<not> connected w then raise RuntimeError ''Trade context not connected''
     else bindR (maximum_rows rw) (\<lambda>rows. Inr (first_row rows))))"

definition rules_view :: "config \<Rightarrow> instrument_rules \<Rightarrow> pyval" where
  "rules_view cfg r = as_dict
     [(''code'', PStr (rules_code r)), (''classification'', PStr (rules_classification r)),
      (''quantity_unit'', PStr (quantity_unit r)), (''whole_quantity_required'', PBool (whole_quantity_required r)),
      (''lot_size'', optional_float (float_repr cfg) (rules_lot_size r)), (''lot_size_meaning'', PStr (lot_size_meaning r)),
      (''price_decimal_places'', case price_decimal_places r of None \<Rightarrow> PNone | Some n \<Rightarrow> PInt n),
      (''price_tick'', case price_tick r of None \<Rightarrow> PNone | Some t \<Rightarrow> PStr t),
      (''tick_validation'', PStr (tick_validation r))]"

text \<open>The valuation, or the text of the refusal; other exceptions are raised.\<close>

definition valuation_view :: "config \<Rightarrow> order_facts \<Rightarrow> (pyval \<times> pyval) res" where
  "valuation_view cfg f = (case estimate_order (float_decimal cfg) f of
     Inr (amount, cur, label) \<Rightarrow>
       Inr (as_dict [(''amount'', PStr (format_f amount)), (''currency'', PStr cur), (''label'', PStr label)], PNone)
   | Inl e \<Rightarrow> if instance_of e ValueError \<or> instance_of e RuntimeError then Inr (PNone, PStr (exn_tag e)) else Inl e)"

definition writes_allowed :: "trading_policy \<Rightarrow> string \<Rightarrow> bool" where
  "writes_allowed p env \<longleftrightarrow> mode p \<noteq> READ_ONLY \<and> (env = ''SIMULATE'' \<or> mode p = REAL)"

definition LIMITATIONS :: "string list" where
  "LIMITATIONS = [''Read-only observations do not guarantee acceptance or fills.'',
     ''Derivative margin fields are not a universal stock account-impact simulation.'',
     ''Actual order fees are available after submission for supported REAL accounts.'']"

definition single_preview :: "config \<Rightarrow> world \<Rightarrow> gateway_world \<Rightarrow> review_world \<Rightarrow> pydict \<Rightarrow> pydict res" where
  "single_preview cfg w g rw ps =
     bindR (resolve_read_account w (arg ps ''trd_env'') (member_or (PStr ''0'') ''acc_id'' ps)) (\<lambda>(env, acc).
     bindR (normalize_order_session (sessions cfg) (member_or (PStr (session_none (sessions cfg))) ''session'' ps) env) (\<lambda>session.
     let ps = put_member ''session'' (PStr session) (put_member ''acc_id'' (PStr (int_text acc)) (put_member ''trd_env'' (PStr env) ps)) in
     bindR (reviewed_facts cfg g ps) (\<lambda>f.
     bindR (valuation_view cfg f) (\<lambda>(value, refusal).
     bindR (float_argument (arg ps ''price'')) (\<lambda>_.
     bindR (maximum_quantities cfg w rw env acc session) (\<lambda>maximum.
     bindR (contract_view (float_repr cfg) f) (\<lambda>contract.
     bindR (instrument_rule_summary (instrument (hd (legs f))) (Some (number_argument (arg ps ''price'')))) (\<lambda>rules.
       Inr [(''acc_id'', PStr (int_text acc)), (''trd_env'', PStr env), (''intent'', as_dict ps), (''contract'', contract),
         (''instrument_rules'', rules_view cfg rules), (''valuation'', value), (''valuation_error'', refusal),
         (''maximum_quantities'', as_dict maximum), (''writes_allowed_by_mode'', PBool (writes_allowed (policy cfg) env)),
         (''limitations'', PList (map PStr LIMITATIONS) [])]))))))))"

subsection \<open>Checks before the broker is read\<close>

text \<open>\<open>validate_preparation\<close>: \<open>c\<close> are the controls and \<open>po\<close> the execution of the environment of the request.\<close>

definition preparation_rules :: "config \<Rightarrow> string \<Rightarrow> string \<Rightarrow> pydict \<Rightarrow> unit res" where
  "preparation_rules cfg env meth ps =
     (if env = ''REAL'' then validate_real_request meth ps
      else bindR (paper_parameters (sessions cfg) meth ps) (\<lambda>(k, q). schema k q))"

definition validate_preparation ::
    "config \<Rightarrow> world \<Rightarrow> string \<Rightarrow> pydict \<Rightarrow> controls option \<Rightarrow> paper option \<Rightarrow> unit res \<times> paper option" where
  "validate_preparation cfg w meth ps co po =
     (let env = py_str (arg ps ''trd_env'') in
      case bindR (guardR (case co of None \<Rightarrow> True | Some c \<Rightarrow> control_health c \<noteq> ''READY'') (Exn TradingControlError ''controls are unavailable'')) (\<lambda>_.
           bindR (check_write (policy cfg) env) (\<lambda>_.
             validate_token (arg ps ''operation_id'') (arg ps ''admission_epoch''))) of
        Inl e \<Rightarrow> (Inl e, po)
      | Inr _ \<Rightarrow> (case po of
          None \<Rightarrow> (raise TradingControlError ''current environment journal epoch'', po)
        | Some p \<Rightarrow>
           (case bindS (guardR (token_text (arg ps ''admission_epoch'') \<noteq> epoch (journal p))
                    (Exn TradingControlError ''current environment journal epoch''), p) (\<lambda>_ p.
                 bindS (on_journal (\<lambda>j. lookup (io w ''prepare'') j (token_text (arg ps ''operation_id''))) p) (\<lambda>found p.
                   (bindR (guardR (found \<noteq> None) (Exn TradingControlError ''already admitted'')) (\<lambda>_.
                      preparation_rules cfg env meth ps), p))) of
              (r, p) \<Rightarrow> (r, Some p))))"

subsection \<open>The review\<close>

text \<open>\<open>_fetch_order\<close> outside an admission: exactly one row of the broker shows the order.\<close>

definition reviewed_target :: "gateway_world \<Rightarrow> pyval \<Rightarrow> pydict res" where
  "reviewed_target g oid = bindR (order_rows g) (\<lambda>answer. case answer of
     None \<Rightarrow> raise ValueError ''could not retrieve order''
   | Some rows \<Rightarrow> (case filter (\<lambda>d. py_str (dict_get d ''order_id'' PNone) = py_str oid) rows of
       [order] \<Rightarrow> Inr order | _ \<Rightarrow> raise ValueError ''not found or ambiguous''))"

text \<open>\<open>preview_combo_order\<close> and \<open>_null_if_missing\<close>.\<close>

definition COMBO_PREVIEW_FIELDS :: "string list" where
  "COMBO_PREVIEW_FIELDS = [''nlv_change'', ''initial_margin_change'', ''maintenance_margin_change'', ''option_bp'',
     ''max_withdraw_change'', ''bp_decrease'']"

definition null_if_missing :: "pyval \<Rightarrow> pyval" where
  "null_if_missing v = (case v of
     PStr s \<Rightarrow> if strip s = ''N/A'' then PNone else v
   | PFloat f _ \<Rightarrow> if f = NaN then PNone else v
   | _ \<Rightarrow> v)"

definition preview_combo_order :: "config \<Rightarrow> world \<Rightarrow> review_world \<Rightarrow> pydict \<Rightarrow> pydict res" where
  "preview_combo_order cfg w rw ps =
     (if \<not> connected w then raise RuntimeError ''Trade context not connected''
      else bindR (build_combo_legs (arg ps ''combo_legs'')) (\<lambda>ls.
      bindR (market_from_code (PStr (leg_code (hd ls)))) (\<lambda>market.
      bindR (int_value (arg ps ''acc_id'')) (\<lambda>n.
      bindR (resolve_trade_account cfg w (py_str (arg ps ''trd_env'')) market n False) (\<lambda>acc.
      bindR (impact_rows rw) (\<lambda>rows.
        Inr ([(''checked_at'', PStr (impact_time rw)), (''acc_id'', PInt acc), (''trd_env'', arg ps ''trd_env'')]
          @ map (\<lambda>k. (k, null_if_missing (arg (first_row rows) k))) COMBO_PREVIEW_FIELDS)))))))"

definition review_combo :: "config \<Rightarrow> world \<Rightarrow> gateway_world \<Rightarrow> review_world \<Rightarrow> pydict \<Rightarrow> pydict res" where
  "review_combo cfg w g rw ps =
     (if py_str (arg ps ''trd_env'') \<noteq> ''REAL'' then raise TradingControlError ''Paper combo execution is unsupported''
      else bindR (in_text_set (arg ps ''order_type'') {''NORMAL'', ''MARKET''}) (\<lambda>b.
      if \<not> b then raise ValueError ''NORMAL and MARKET only''
      else bindR (in_text_set (arg ps ''time_in_force'') {''DAY'', ''GTC''}) (\<lambda>b.
      if \<not> b then raise ValueError ''DAY and GTC only''
      else bindR (build_combo_legs (arg ps ''combo_legs'')) (\<lambda>ls.
      bindR (package_count (arg ps ''qty'')) (\<lambda>n.
      bindR (combo_facts (policy cfg) g ls (arg ps ''price'') n (py_str (arg ps ''order_type''))) (\<lambda>f.
      bindR (assess_order (policy cfg) f) (\<lambda>_.
      bindR (contract_view (float_repr cfg) f) (\<lambda>contract.
      bindR (preview_combo_order cfg w rw ps) (\<lambda>impact.
        Inr [(''contract'', contract), (''preview'', as_dict impact)])))))))))"

text \<open>A modification that adds exposure is reviewed as the order that results.\<close>

definition effective_order :: "config \<Rightarrow> pydict \<Rightarrow> pydict \<Rightarrow> pydict res" where
  "effective_order cfg ps target =
     bindR (dict_item target ''code'') (\<lambda>c.
     bindR (dict_item target ''trd_side'') (\<lambda>side.
     bindR (dict_item target ''order_type'') (\<lambda>ot.
     bindR (if arg ps ''qty'' \<noteq> PNone then Inr (arg ps ''qty'') else dict_item target ''qty'') (\<lambda>q.
     bindR (if arg ps ''price'' \<noteq> PNone then Inr (arg ps ''price'') else dict_item target ''price'') (\<lambda>p.
     bindR (broker_float (float_repr cfg) (arg target ''aux_price'')) (\<lambda>aux.
       Inr (foldl (\<lambda>d (k, v). put_member k v d) ps
         [(''code'', c), (''trd_side'', side), (''order_type'', ot), (''qty'', q), (''price'', p), (''aux_price'', aux)])))))))"

definition review_target :: "config \<Rightarrow> gateway_world \<Rightarrow> string \<Rightarrow> pydict \<Rightarrow> pydict res" where
  "review_target cfg g meth ps =
     bindR (reviewed_target g (arg ps ''order_id'')) (\<lambda>target.
     let shown = (''target'', as_dict (pick [''order_id'', ''code'', ''trd_side'', ''order_type'', ''qty'', ''price'', ''order_status''] target)) in
     if meth = ''modify_order'' \<and> arg ps ''modify_order_op'' \<in> {PStr ''NORMAL'', PStr ''ENABLE''} then
       bindR (effective_order cfg ps target) (\<lambda>effective.
       bindR (reviewed_facts cfg g effective) (\<lambda>f.
       bindR (contract_view (float_repr cfg) f) (\<lambda>contract. Inr [shown, (''contract'', contract)])))
     else Inr [shown])"

definition review_of :: "config \<Rightarrow> world \<Rightarrow> gateway_world \<Rightarrow> review_world \<Rightarrow> string \<Rightarrow> pydict \<Rightarrow> pydict res" where
  "review_of cfg w g rw meth ps =
     (if meth = ''place_order'' then single_preview cfg w g rw ps
      else if meth = ''place_combo_order'' then review_combo cfg w g rw ps
      else review_target cfg g meth ps)"

subsection \<open>Preparing\<close>

definition preparation_account :: "config \<Rightarrow> world \<Rightarrow> string \<Rightarrow> pydict \<Rightarrow> int res" where
  "preparation_account cfg w meth ps =
     (let env = py_str (arg ps ''trd_env'') in
      bindR (call_market meth ps) (\<lambda>market.
      bindR (int_value (arg ps ''acc_id'')) (\<lambda>n.
      bindR (resolve_trade_account cfg w env market n True) (\<lambda>acc.
      bindR (check_account_access (grants w) env (PInt acc) False) (\<lambda>_. Inr acc)))))"

definition prepare_request ::
    "config \<Rightarrow> world \<Rightarrow> gateway_world \<Rightarrow> review_world \<Rightarrow> string \<Rightarrow> pydict \<Rightarrow> int \<Rightarrow> controls option \<Rightarrow> paper option \<Rightarrow>
     approval_view res \<times> controls option \<times> paper option" where
  "prepare_request cfg w g rw meth supplied ttl co po =
     (case co of
        None \<Rightarrow> (raise TradingControlError ''controls are not configured'', co, po)
      | Some c \<Rightarrow> (case bound_parameters (sessions cfg) meth supplied of
          Inl e \<Rightarrow> (Inl e, co, po)
        | Inr ps \<Rightarrow> (case validate_preparation cfg w meth ps co po of
            (Inl e, po) \<Rightarrow> (Inl e, co, po)
          | (Inr _, po) \<Rightarrow>
             (case bindR (preparation_account cfg w meth ps) (\<lambda>acc.
                  let bound = put_member ''acc_id'' (PStr (int_text acc)) ps in
                  bindR (review_of cfg w g rw meth bound) (\<lambda>shown. Inr (bound, shown))) of
                Inl e \<Rightarrow> (Inl e, co, po)
              | Inr (bound, shown) \<Rightarrow>
                 (case prepare (digest cfg) (sessions cfg) (io w ''prepare controls'') c meth bound (as_dict shown) ttl (uuid w)
                         (clock w ''prepare'') of (r, c) \<Rightarrow> (r, Some c, po))))))"

end
