(* ===== verification/Approved_Orders.thy ===== *)
theory Approved_Orders
  imports Preparation Admission_Runs
begin

text \<open>
  What an operator's approval is worth: the confirmation of a charge compares the request and its contract once
  more with the prepared request that was approved, so that a REAL order sent under an approval is the order
  that was reviewed.
\<close>

subsection \<open>Preparing\<close>

lemma validate_preparation_ok:
  assumes "validate_preparation cfg w meth ps (Some c) po = (ok, po')"
  obtains p p' where "po = Some p" "po' = Some p'" "frozen p p'" "control_health c = ''READY''"
    "check_write (policy cfg) (py_str (arg ps ''trd_env'')) = ok"
    "token_text (arg ps ''admission_epoch'') = epoch (journal p)"
    "row_of (db (journal p)) (token_text (arg ps ''operation_id'')) = None"
proof -
  obtain p p' where p: "po = Some p" "po' = Some p'"
    using assms by (auto simp: validate_preparation_def Let_def split: sum.splits option.splits prod.splits)
  show thesis
    using that [OF p] assms p
    by (auto simp: validate_preparation_def Let_def bindS_Inr res_simps guardR_def on_journal_iff frozen_def dest!: lookup_found
        split: sum.splits prod.splits if_split_asm)
qed

lemma assessed_facts: "reviewed_facts cfg g ps = Inr f \<Longrightarrow> assess_order (policy cfg) f = ok"
  by (auto simp: reviewed_facts_def res_simps split: if_split_asm)

text \<open>A contract that a review shows is that of facts the policy has accepted, and every review of a request that adds
  exposure shows one.\<close>

definition shows_assessed :: "config \<Rightarrow> pydict \<Rightarrow> bool" where
  "shows_assessed cfg shown \<longleftrightarrow> (\<exists>x f. map_of shown ''contract'' = Some x \<and> assess_order (policy cfg) f = ok
     \<and> contract_view (float_repr cfg) f = Inr x)"

lemma single_preview_shows: "single_preview cfg w g rw ps = Inr shown \<Longrightarrow> shows_assessed cfg shown"
  unfolding single_preview_def shows_assessed_def by (auto simp: Let_def res_simps dest!: assessed_facts)

lemma review_combo_shows: "review_combo cfg w g rw ps = Inr shown \<Longrightarrow> shows_assessed cfg shown"
  unfolding review_combo_def shows_assessed_def by (auto simp: res_simps split: if_split_asm)

lemma review_target_shows:
  assumes "review_target cfg g meth ps = Inr shown"
  shows "if meth = ''modify_order'' \<and> arg ps ''modify_order_op'' \<in> {PStr ''NORMAL'', PStr ''ENABLE''}
    then shows_assessed cfg shown else map_of shown ''contract'' = None"
  using assms unfolding review_target_def shows_assessed_def
  by (auto simp: Let_def res_simps split: if_split_asm dest!: assessed_facts)

definition exposing_intent :: "string \<Rightarrow> pydict \<Rightarrow> bool" where
  "exposing_intent meth ps \<longleftrightarrow> meth \<in> {''place_order'', ''place_combo_order''}
     \<or> meth = ''modify_order'' \<and> arg ps ''modify_order_op'' \<in> {PStr ''NORMAL'', PStr ''ENABLE''}"

lemma review_shows_assessed:
  assumes "review_of cfg w g rw meth ps = Inr shown" "exposing_intent meth ps"
  shows "shows_assessed cfg shown"
  using assms single_preview_shows review_combo_shows review_target_shows
  by (fastforce simp: review_of_def exposing_intent_def split: if_split_asm)

lemma prepare_row:
  assumes "prepare sha256 S b c meth ps rv ttl rid t = (Inr view, c')"
  obtains q where "tables c' = (tables c)\<lparr>prepared := prepared (tables c) @ [q]\<rparr>" "request_id q = rid" "status q = PENDING"
    "canonical_intent S meth ps = Inr (prepared_row.canonical q)" "json_text default_style rv = Inr (prepared_row.review q)"
    "expires_at q = fadd (Fin t) (Fin (of_int ttl))" "1 \<le> ttl" "ttl \<le> 900"
proof -
  obtain args where args: "prepare_arguments S meth ps rv ttl = Inr args"
    and tr: "control_transaction b c (prepare_body sha256 (new_prepared rid args ttl t)) = (Inr view, c')"
    using assms by (auto simp: prepare_def split: sum.splits)
  let ?q = "new_prepared rid args ttl t"
  have "tables c' = (tables c)\<lparr>prepared := prepared (tables c) @ [?q]\<rparr>"
    using control_transaction_Inr(1) [OF tr] by (auto simp: prepare_body_def insert_prepared_def split: if_split_asm option.splits)
  moreover have "canonical_intent S meth ps = Inr (prepared_row.canonical ?q)" "json_text default_style rv = Inr (prepared_row.review ?q)"
      "1 \<le> ttl" "ttl \<le> 900"
    using args by (auto simp: prepare_arguments_def new_prepared_def res_simps guardR_def split: if_split_asm prod.splits)
  ultimately show thesis using that by (simp add: new_prepared_def split: prod.splits)
qed

text \<open>What an operator gets to review was checked first. A prepared request is the bound request on one explicit account
  that was resolved for it, in an environment the policy lets it write to and, for REAL, on the allowlist; it is of the
  current epoch and not on record in the journal; it is stored as pending with its canonical text and for at most 15
  minutes; if it adds exposure, the contract it shows is that of facts the policy has accepted. Nothing else changes in
  the controls, and nothing in the journal.\<close>

theorem prepared_request_was_checked:
  assumes "prepare_request cfg w g rw meth supplied ttl (Some c) po = (Inr view, co', po')"
  shows "\<exists>ps acc shown q c' p p'. bound_parameters (sessions cfg) meth supplied = Inr ps
    \<and> co' = Some c' \<and> po = Some p \<and> po' = Some p' \<and> frozen p p'
    \<and> check_write (policy cfg) (py_str (arg ps ''trd_env'')) = ok
    \<and> token_text (arg ps ''admission_epoch'') = epoch (journal p)
    \<and> row_of (db (journal p)) (token_text (arg ps ''operation_id'')) = None
    \<and> (\<exists>market n. resolve_trade_account cfg w (py_str (arg ps ''trd_env'')) market n True = Inr acc)
    \<and> tables c' = (tables c)\<lparr>prepared := prepared (tables c) @ [q]\<rparr> \<and> request_id q = uuid w \<and> status q = PENDING
    \<and> canonical_intent (sessions cfg) meth (put_member ''acc_id'' (PStr (int_text acc)) ps) = Inr (prepared_row.canonical q)
    \<and> json_text default_style (as_dict shown) = Inr (prepared_row.review q) \<and> ttl \<le> 900
    \<and> (exposing_intent meth ps \<longrightarrow> shows_assessed cfg shown)"
proof -
  obtain ps where ps: "bound_parameters (sessions cfg) meth supplied = Inr ps"
    using assms by (auto simp: prepare_request_def split: sum.splits)
  obtain po1 where v: "validate_preparation cfg w meth ps (Some c) po = (ok, po1)"
    using assms by (auto simp: prepare_request_def ps split: sum.splits prod.splits)
  obtain acc shown where acc: "preparation_account cfg w meth ps = Inr acc"
    and shown: "review_of cfg w g rw meth (put_member ''acc_id'' (PStr (int_text acc)) ps) = Inr shown"
    and rest: "prepare (digest cfg) (sessions cfg) (io w ''prepare controls'') c meth (put_member ''acc_id'' (PStr (int_text acc)) ps)
        (as_dict shown) ttl (uuid w) (clock w ''prepare'') = (Inr view, the co')" "co' \<noteq> None" "po' = po1"
    using assms by (auto simp: prepare_request_def ps v Let_def res_simps split: sum.splits prod.splits)
  obtain q where q: "tables (the co') = (tables c)\<lparr>prepared := prepared (tables c) @ [q]\<rparr>" "request_id q = uuid w" "status q = PENDING"
    "canonical_intent (sessions cfg) meth (put_member ''acc_id'' (PStr (int_text acc)) ps) = Inr (prepared_row.canonical q)"
    "json_text default_style (as_dict shown) = Inr (prepared_row.review q)" "ttl \<le> 900"
    using rest(1) by (rule prepare_row)
  obtain p p' where p: "po = Some p" "po1 = Some p'" "frozen p p'" "check_write (policy cfg) (py_str (arg ps ''trd_env'')) = ok"
    "token_text (arg ps ''admission_epoch'') = epoch (journal p)"
    "row_of (db (journal p)) (token_text (arg ps ''operation_id'')) = None"
    using v by (rule validate_preparation_ok)
  obtain market n where "resolve_trade_account cfg w (py_str (arg ps ''trd_env'')) market n True = Inr acc"
    using acc by (auto simp: preparation_account_def Let_def res_simps)
  moreover have "exposing_intent meth ps \<longrightarrow> shows_assessed cfg shown"
  proof
    assume "exposing_intent meth ps"
    then show "shows_assessed cfg shown"
      by (intro review_shows_assessed [OF shown]) (simp add: exposing_intent_def dict_get_put)
  qed
  moreover have "co' = Some (the co')" "po' = Some p'" using rest(2,3) p(2) by simp_all
  ultimately show ?thesis using ps p(1,3-6) q by (intro exI conjI) assumption+
qed

lemma confirmed_under_approval:
  assumes "confirm_dispatch_controls S p b (Some c) (Some a) t1 t2 = (ok, cs')" "require_approval p"
  obtains ps rid q expected where "reserved_parameters a = Some ps" "canonical_intent S (active_method a) ps = Inr (prepared_row.canonical q)"
    "active_approval a = Some rid" "find_prepared rid (tables c) = Some q" "status q = CONSUMED"
    "reviewed_contract q = Inr expected" "py_eq expected (active_contract a)"
proof -
  obtain ps where ps: "reserved_parameters a = Some ps"
    using assms by (auto simp: confirm_dispatch_controls_def controlled_def split: option.splits)
  obtain c' where "confirm_reservation S b c (active_method a) ps (active_approval a) True (active_contract a) t1 t2 = (ok, c')"
    using assms by (auto simp: confirm_dispatch_controls_def controlled_def ps split: prod.splits)
  then obtain canon where canon: "canonical_intent S (active_method a) ps = Inr canon"
    and tr: "control_transaction b c (confirm_body S (active_method a) ps (active_approval a) True (active_contract a) t1 t2 canon) = (ok, c')"
    by (auto simp: confirm_reservation_def split: sum.splits)
  obtain x where "confirm_approval (tables c) x canon (active_approval a) (active_contract a) t2 = ok"
    using control_transaction_Inr(1) [OF tr]
    by (auto simp: confirm_body_def in_body_Commit_iff split: if_split_asm option.splits)
  then show thesis
    using that [OF ps] canon
    by (auto simp: confirm_approval_def res_simps guardR_def split: option.splits if_split_asm)
qed

text \<open>The guard charges the parameters of the active operation, with the explicit account, and keeps its contract.\<close>

lemma check_dispatch_reserved:
  assumes "check_dispatch_controls S D p b cs (Some a) acc env t1 t2 = (Inr (Some a'), cs')" "controlled p"
  obtains ps where "reserved_parameters a' = Some ps" "active_method a' = active_method a" "active_contract a' = active_contract a"
    "active_approval a' = active_approval a"
    "map_of ps = (map_of (active_parameters a))(''acc_id'' \<mapsto> PStr (int_text acc), ''trd_env'' \<mapsto> PStr env)"
proof -
  obtain ps where "charge_arguments p a acc env = Inr ps" "a' = a\<lparr>reserved_parameters := Some ps\<rparr>"
    using assms by (auto simp: check_dispatch_controls_def split: option.splits sum.splits prod.splits)
  then show thesis using that charged_parametersD by simp
qed

lemma assess_control_contract:
  assumes "assess_control_facts R D p (Some a) f = Inr (Some b)"
  shows "contract_view R f = Inr (active_contract b)" "active_method b = active_method a"
    "active_parameters b = active_parameters a" "active_approval b = active_approval a"
  using assms by (auto simp: assess_control_facts_def res_simps split: if_split_asm)

text \<open>The REAL order that is sent under an approval is the order that was reviewed. When approvals are required and
  \<open>place_order\<close> sends, the controls hold the prepared request that its approval names: it was approved and is consumed,
  its canonical text is that of the parameters of this very operation on the resolved account, and the contract the
  operator was shown is the contract of the facts that the sent request carries.\<close>

theorem approved_order_is_the_reviewed_one:
  assumes "real_dispatch_phase cfg jit w g ''place_order'' ps v k acc active s = (r, t)" "calls (real t) \<noteq> calls (real s)"
    and "require_approval (policy cfg)"
  shows "\<exists>merged facts session a c rid q qs n expected contract. calls (real t) = calls (real s) @ [(operation_id (row v), merged)]
    \<and> single_leg_facts (sessions cfg) g (py_str (arg merged ''code'')) (py_str (arg merged ''order_type''))
        (py_str (arg merged ''trd_side'')) (arg merged ''qty'') (arg merged ''price'') (arg merged ''aux_price'') session = Inr facts
    \<and> active = Some a \<and> active_approval a = Some rid \<and> controls_of (real t) = Some c
    \<and> find_prepared rid (tables c) = Some q \<and> status q = CONSUMED
    \<and> canonical_intent (sessions cfg) (active_method a) qs = Inr (prepared_row.canonical q)
    \<and> map_of qs = (map_of (active_parameters a))(''acc_id'' \<mapsto> PStr (int_text n), ''trd_env'' \<mapsto> PStr ''REAL'')
    \<and> reviewed_contract q = Inr expected \<and> contract_view (float_repr cfg) facts = Inr contract \<and> py_eq expected contract"
  using assms(1)
proof (cases rule: real_dispatch_phase_cases)
  case (refused e)
  then show ?thesis using assms(2) by (simp add: quiet_def)
next
  case (sent q0 x s0 u' m t0)
  let ?ps = "fixed_request k v acc ps"
  have controlled: "controlled (policy cfg)" using assms(3) by (simp add: controlled_def)
  obtain s0' a1 s1 a2 s2 u0 u1 where steps: "prepare_write cfg w g ''place_order'' ?ps acc active s0' = (Inr (q0, a1), s1)"
      "admit_write cfg w ''place_order'' q0 a1 s1 = (Inr a2, s2)" "controls_of (real u0) = controls_of (real s2)"
      "real_confirm cfg w a2 u0 = (ok, u1)" "controls_of (real t0) = controls_of (real u1)"
    using sent(2) by (rule passed_checksD)
  obtain sA where "real_charge cfg w (write_account q0) a1 sA = (Inr a2, s2)"
    using steps(2) by (auto simp: admit_write_def classified_Inr bindS_Inr)
  then have guard: "check_dispatch_controls (sessions cfg) (float_decimal cfg) (policy cfg) (io w ''charge'') (controls_of (real sA)) a1
      (write_account q0) ''REAL'' (clock w ''charge'') (clock w ''approval'') = (Inr a2, controls_of (real s2))"
    by (auto simp: real_charge_def split: prod.splits)
  then obtain b c y where b: "a1 = Some b" "controls_of (real s2) = Some c"
    using check_dispatch_controls_charged controlled by metis
  have confirm: "confirm_dispatch_controls (sessions cfg) (policy cfg) (io w ''confirm'') (Some c) a2 (clock w ''confirm'')
      (clock w ''confirm approval'') = (ok, controls_of (real u1))"
    using steps(3,4) b(2) by (auto simp: real_confirm_def split: prod.splits)
  then obtain d where d: "a2 = Some d"
    using controlled by (auto simp: confirm_dispatch_controls_def split: option.splits)
  obtain qs where qs: "reserved_parameters d = Some qs" "active_method d = active_method b" "active_contract d = active_contract b"
      "active_approval d = active_approval b"
      "map_of qs = (map_of (active_parameters b))(''acc_id'' \<mapsto> PStr (int_text (write_account q0)), ''trd_env'' \<mapsto> PStr ''REAL'')"
    using guard [unfolded b(1) d] controlled by (rule check_dispatch_reserved)
  obtain qs' rid q expected where approved: "reserved_parameters d = Some qs'" "canonical_intent (sessions cfg) (active_method d) qs' = Inr (prepared_row.canonical q)"
      "active_approval d = Some rid" "find_prepared rid (tables c) = Some q" "status q = CONSUMED"
      "reviewed_contract q = Inr expected" "py_eq expected (active_contract d)"
    using confirm [unfolded d] assms(3) by (rule confirmed_under_approval)
  obtain c' where c': "controls_of (real u1) = Some c'" "tables c' = tables c"
    using confirm by (rule confirm_dispatch_controls_tables)
  have "prepare_place cfg w g ?ps acc active s0' = Inr (q0, a1)" using steps(1) by (auto simp: prepare_write_def classified_Inr)
  then obtain tif session facts where p: "write_merged q0 = place_merged cfg ?ps tif session (write_account q0)"
      "single_leg_facts (sessions cfg) g (py_str (arg ?ps ''code'')) (py_str (arg ?ps ''order_type'')) (py_str (arg ?ps ''trd_side''))
         (arg ?ps ''qty'') (arg ?ps ''price'') (arg ?ps ''aux_price'') session = Inr facts"
      "assess_control_facts (float_repr cfg) (float_decimal cfg) (policy cfg) active facts = Inr a1"
    by (rule prepare_place_Inr)
  obtain a where a: "active = Some a" using p(3) b(1) by (cases active) (auto simp: assess_control_facts_def res_simps)
  note contract = assess_control_contract [OF p(3) [unfolded a b(1)]]
  have "calls (real t) = calls (real s) @ [(operation_id (row v), write_merged q0)]"
    using sent(8,9) by (simp add: kept_def quiet_def logged_def)
  moreover have "single_leg_facts (sessions cfg) g (py_str (arg (write_merged q0) ''code'')) (py_str (arg (write_merged q0) ''order_type''))
      (py_str (arg (write_merged q0) ''trd_side'')) (arg (write_merged q0) ''qty'') (arg (write_merged q0) ''price'')
      (arg (write_merged q0) ''aux_price'') session = Inr facts"
    unfolding p(1) using p(2) by (simp add: place_merged_args)
  moreover have "controls_of (real t) = Some c'" using c'(1) steps(5) sent(5) by simp
  ultimately show ?thesis
    using a approved qs contract c'(2) by (intro exI conjI) (assumption | simp)+
qed

subsection \<open>An approved placement\<close>

text \<open>A REAL placement of one share under a policy that requires approvals, on the approval of the request that an
  operator was shown; it is evaluated step by step: the guard consumes the approval and writes the charge, the
  confirmation reads it, the marker is committed and the broker acknowledges.\<close>

definition approval_config :: config where
  "approval_config = sample_place_config\<lparr>policy := (policy sample_place_config)\<lparr>require_approval := True\<rparr>,
     float_repr := (\<lambda>_. ''10.0'')\<rparr>"

definition approved_text :: string where
  "approved_text = projr (canonical_intent (sessions approval_config) ''place_order'' sample_place)"

definition number_shown :: "string \<Rightarrow> pyval" where
  "number_shown t = as_dict [(''number'', PStr t)]"

definition approved_contract :: pyval where
  "approved_contract = as_dict [(''order_type'', PStr ''NORMAL''), (''trd_side'', PStr ''BUY''), (''qty'', number_shown ''1''),
     (''price'', number_shown ''10''), (''aux_price'', PNone), (''is_combo'', PBool False),
     (''legs'', PList [as_dict [(''code'', PStr ''US.AAPL''), (''qty_ratio'', number_shown ''1''),
        (''monetary_multiplier'', number_shown ''10'')]] [])]"

definition approved_review :: string where
  "approved_review = ''{\"contract\": {\"order_type\": \"NORMAL\", \"trd_side\": \"BUY\", \"qty\": {\"number\": \"1\"}, \"price\": {\"number\": \"10\"}, \"aux_price\": null, \"is_combo\": false, \"legs\": [{\"code\": \"US.AAPL\", \"qty_ratio\": {\"number\": \"1\"}, \"monetary_multiplier\": {\"number\": \"10\"}}]}}''"

definition approved_request :: prepared_row where
  "approved_request = \<lparr>request_id = ''r1'', canonical = approved_text, parameters = ''{}'', review = approved_review,
     created_at = 900, expires_at = Fin 1200, status = APPROVED, operator_id = Some ''op'', reason = Some ''fine'',
     decided_at = Some 950, consumed_at = None\<rparr>"

definition approved_operation :: active_operation where
  "approved_operation = \<lparr>active_method = ''place_order'', active_parameters = sample_place, active_approval = Some ''r1'',
     active_contract = PNone, active_valuation = None, reserved_parameters = None\<rparr>"

definition approved_service :: service where
  "approved_service = sample_placing\<lparr>real := (real sample_placing)\<lparr>controls_of := Some (sample_state [approved_request] [])\<rparr>\<rparr>"

definition approved_placement :: "real_answer outcome \<times> service" where
  "approved_placement = real_dispatch_phase approval_config True sample_world sample_gateway ''place_order'' sample_place
     sample_placed_row PLACE 7 (Some approved_operation) approved_service"

definition approved_charge :: charge_row where
  "approved_charge = \<lparr>charge_env = ''REAL'', charge_account = ''7'', charge_operation = ''op1'',
     charge_canonical = approved_text, charge_day = ''1970-01-01'', charge_currency = None,
     charge_amount = Dec False 0 0, charge_approval = Some ''r1'', charge_created = 1000\<rparr>"

lemma approved_canonical: "canonical_intent (sessions approval_config) ''place_order'' sample_place = Inr approved_text"
proof -
  have "\<not> isl (canonical_intent (sessions approval_config) ''place_order'' sample_place)" by code_simp
  then show ?thesis by (simp add: approved_text_def)
qed

lemma approved_shown: "reviewed_contract approved_request = Inr approved_contract"
proof -
  have "json_loads approved_review = Inr (as_dict [(''contract'', approved_contract)])" by code_simp
  then show ?thesis by (simp add: reviewed_contract_def approved_request_def dict_get_def)
qed

lemma approved_facts:
  "bindR (single_leg_facts (sessions approval_config) sample_gateway ''US.AAPL'' ''NORMAL'' ''BUY'' (PInt 1) (PFloat (Fin 10) ''10.0'') PNone ''N/A'') (contract_view (float_repr approval_config)) = Inr approved_contract"
  by code_simp

lemma approved_equal: "py_eq approved_contract approved_contract"
  by code_simp
lemma approved_key: "charge_key_of sample_place = Inr \<lparr>key_env = PStr ''REAL'', key_account = ''7'', key_operation = PStr ''op1''\<rparr>"
  "utc_day 1000 = Inr ''1970-01-01''"
  "dict_get sample_place ''admission_epoch'' PNone = PStr ''e1''"
  by code_simp+

lemma approved_request_fields:
  "request_id approved_request = ''r1''" "status approved_request = APPROVED" "prepared_row.canonical approved_request = approved_text"
  "\<not> expires_at approved_request \<le> Fin 1000"
  by (simp_all add: approved_request_def)

lemma consumed_row_fields:
  "request_id (consumed_row t r) = request_id r" "status (consumed_row t r) = CONSUMED"
  "prepared_row.canonical (consumed_row t r) = prepared_row.canonical r" "expires_at (consumed_row t r) = expires_at r"
  "reviewed_contract (consumed_row t r) = reviewed_contract r"
  by (simp_all add: consumed_row_def reviewed_contract_def)

lemma approved_consume:
  "consume (sessions approval_config) True (sample_state [approved_request] []) ''place_order'' sample_place (Some ''r1'') True None
     (Dec False 0 0) [] approved_contract 1000 1000 = (ok, sample_state [consumed_row 1000 approved_request] [approved_charge])"
proof -
  have args: "consume_arguments (sessions approval_config) ''place_order'' sample_place (Dec False 0 0) =
      Inr (approved_text, \<lparr>key_env = PStr ''REAL'', key_account = ''7'', key_operation = PStr ''op1''\<rparr>)"
    using approved_key(3) by (simp add: consume_arguments_def approved_canonical approved_key guardR_def)
  show ?thesis
    by (simp add: consume_def args control_transaction_def consume_body_def approved_key find_charge_def approved_def find_prepared_def
        sample_state_def approved_shown approved_equal approval_expired_def check_budget_def insert_charge_def mark_consumed_def
        approved_charge_def approved_request_fields update_rows_def)
qed

lemma approved_confirm:
  "confirm_reservation (sessions approval_config) True (sample_state [consumed_row 1000 approved_request] [approved_charge]) ''place_order''
     sample_place (Some ''r1'') True approved_contract 1000 1000
   = (ok, sample_state [consumed_row 1000 approved_request] [approved_charge])"
  by (simp add: confirm_reservation_def approved_canonical control_transaction_def confirm_body_def approved_key find_charge_def
        confirm_approval_def find_prepared_def sample_state_def approved_equal approval_expired_def approved_charge_def
        consumed_row_fields approved_request_fields approved_shown guardR_def)

abbreviation approved_fixed :: pydict where
  "approved_fixed \<equiv> fixed_request PLACE sample_placed_row 7 sample_place"

abbreviation approved_merged :: pydict where
  "approved_merged \<equiv> place_merged approval_config approved_fixed ''DAY'' ''N/A'' 7"

lemma approved_prepared:
  assumes "execution s = armed"
  shows "prepare_place approval_config sample_world sample_gateway approved_fixed 7 (Some approved_operation) s =
     Inr (\<lparr>write_account = 7, write_exposing = True, write_merged = approved_merged\<rparr>,
       Some (approved_operation\<lparr>active_contract := approved_contract\<rparr>))"
proof -
  have "prepare_place approval_config sample_world sample_gateway approved_fixed 7 (Some approved_operation) sample_service =
     Inr (\<lparr>write_account = 7, write_exposing = True, write_merged = approved_merged\<rparr>,
       Some (approved_operation\<lparr>active_contract := approved_contract\<rparr>))"
    by code_simp
  moreover have "check_execution_halt s = check_execution_halt sample_service"
    using assms by (simp add: check_execution_halt_def sample_service_def)
  ultimately show ?thesis by (simp only: prepare_place_def place_checks_def)
qed

lemma approved_marked:
  "require_ready True True (journal (real sample_placing)) = (ok, journal (real sample_placing))"
  "fst (mark_dispatch True (journal (real sample_placing)) ''op1'' approved_merged) = ok"
  "dict_get approved_merged ''trd_env'' PNone = PStr ''REAL''" "py_str (dict_get approved_merged ''acc_id'' PNone) = ''7''"
  "account (row sample_placed_row) = ''7''" "operation_id (row sample_placed_row) = ''op1''"
  by code_simp+
lemma approved_guard:
  "real_charge approval_config sample_world 7 (Some (approved_operation\<lparr>active_contract := approved_contract\<rparr>)) s =
     (Inr (Some (approved_operation\<lparr>active_contract := approved_contract, reserved_parameters := Some sample_place\<rparr>)),
      s\<lparr>real := (real s)\<lparr>controls_of := Some (sample_state [consumed_row 1000 approved_request] [approved_charge])\<rparr>\<rparr>)"
  if "controls_of (real s) = Some (sample_state [approved_request] [])"
proof -
  have "charge_arguments (policy approval_config) (approved_operation\<lparr>active_contract := approved_contract\<rparr>) 7 ''REAL'' = Inr sample_place"
    by code_simp
  moreover have "controlled (policy approval_config)" "require_approval (policy approval_config)" "daily_caps (float_decimal approval_config) (policy approval_config) = []"
    "clock sample_world = (\<lambda>_. 1000)" "io sample_world = (\<lambda>_. True)"
    by (simp_all add: approval_config_def controlled_def sample_place_config_def daily_caps_def sample_world_def)
  ultimately show ?thesis using that approved_consume
    by (simp add: real_charge_def check_dispatch_controls_def approved_operation_def)
qed

definition dispatched_journal :: store where
  "dispatched_journal = snd (mark_dispatch True (journal (real sample_placing)) ''op1'' approved_merged)"

lemma approved_service_fields:
  "journal (real approved_service) = journal (real sample_placing)" "execution approved_service = armed" "gateway approved_service = []"
  "controls_of (real approved_service) = Some (sample_state [approved_request] [])" "calls (real approved_service) = []"
  "late_failure (real approved_service) = []"
  by (simp_all add: approved_service_def sample_placing_def sample_service_def sample_paper_def)

lemma approved_world:
  "io sample_world = (\<lambda>_. True)" "writable sample_world = (\<lambda>_. True)" "clock sample_world = (\<lambda>_. 1000)" "connected sample_world"
  "reserve_permit sample_world = ok" "protect_permit sample_world = ok"
  "reply sample_world = Acknowledged (Some ''55'') (Inr [(''order_id'', PStr ''55'')])"
  "unlock_reply sample_gateway = ok" "lock_reply sample_gateway = ok" "\<not> halted armed"
  by (simp_all add: sample_world_def sample_gateway_def armed_def halted_def)

lemma approved_risk: "check_new_risk True (sample_state q cs) ''REAL'' (PInt 7) = (ok, sample_state q cs)"
  by (simp add: check_new_risk_def pause_state_def sample_state_def) code_simp

lemma approved_confirmed:
  "real_confirm approval_config sample_world (Some (approved_operation\<lparr>active_contract := approved_contract, reserved_parameters := Some sample_place\<rparr>)) s =
     (ok, s)"
  if "controls_of (real s) = Some (sample_state [consumed_row 1000 approved_request] [approved_charge])"
proof -
  have "controlled (policy approval_config)" "require_approval (policy approval_config)"
    by (simp_all add: approval_config_def controlled_def)
  then show ?thesis using that approved_confirm
    by (simp add: real_confirm_def confirm_dispatch_controls_def approved_operation_def approved_world)
qed

lemma approved_admitted:
  assumes "active_real s \<noteq> None" "execution s = armed" "controls_of (real s) = Some (sample_state [approved_request] [])"
  shows "admit_write approval_config sample_world ''place_order'' \<lparr>write_account = 7, write_exposing = True, write_merged = approved_merged\<rparr>
     (Some (approved_operation\<lparr>active_contract := approved_contract\<rparr>)) s =
     (Inr (Some (approved_operation\<lparr>active_contract := approved_contract, reserved_parameters := Some sample_place\<rparr>)),
      s\<lparr>real := (real s)\<lparr>controls_of := Some (sample_state [consumed_row 1000 approved_request] [approved_charge])\<rparr>\<rparr>)"
  using assms by (simp add: admit_write_def classified_Inr bindS_Inr require_active_def check_execution_halt_def guardR_def real_risk_def
      approved_world approved_risk approved_guard)

lemma approved_sent:
  assumes "execution s = armed" "controls_of (real s) = Some (sample_state [approved_request] [])" "late_failure (real s) = []"
    "calls (real s) = []" "journal (real s) = journal (real sample_placing)"
    "active_real s = Some \<lparr>active_row = sample_placed_row, marked = False, ack_evidence = [], seen_modifications = []\<rparr>"
  obtains rc relock t a where "dispatch_write approval_config True sample_world sample_gateway ''place_order''
      \<lparr>write_account = 7, write_exposing = True, write_merged = approved_merged\<rparr>
      (Some (approved_operation\<lparr>active_contract := approved_contract\<rparr>)) s = (Inr (rc, relock), t)"
    "calls (real t) = [(''op1'', approved_merged)]" "late_failure (real t) = []" "active_real t = Some a" "marked a"
proof -
  have ready: "on_real (ready sample_world site) u = (ok, u)"
    if "late_failure (real u) = []" "journal (real u) = journal (real sample_placing)" for u site
    using that approved_marked(1) by (simp add: on_real_def ready_def on_journal_def approved_world)
  obtain j where mark: "mark_dispatch True (journal (real sample_placing)) ''op1'' approved_merged = (ok, j)"
    using approved_marked(2) by (cases "mark_dispatch True (journal (real sample_placing)) ''op1'' approved_merged") auto
  have "commit_marker sample_world b approved_merged u = (ok, u\<lparr>real := (real u)\<lparr>journal := j\<rparr>\<rparr>)"
    if "active_row b = sample_placed_row" "journal (real u) = journal (real sample_placing)" for b u
    using that mark approved_marked(6) by (simp add: commit_marker_def on_real_def on_journal_def approved_world)
  moreover have "positive_decimal_id (PStr ''55'') = Inr True" by code_simp
  ultimately show thesis
    using that approved_admitted [OF _ assms(1,2)] assms approved_marked(3-) ready
    by (auto simp: dispatch_write_def bindS_def jit_unlock_def unlock_gateway_def write_window_def before_dispatch_def approved_world
      guardR_def classified_def not_sent_def approved_confirmed
      send_write_def Let_def observe_acknowledgement_def relock_after_write_def lock_gateway_def)
qed

lemma approved_placement_made: "map fst (calls (real (snd approved_placement))) = [''op1'']"
proof -
  let ?o = "open_active sample_placed_row approved_service"
  let ?a = "approved_operation\<lparr>active_contract := approved_contract\<rparr>"
  let ?q = "\<lparr>write_account = 7, write_exposing = True, write_merged = approved_merged\<rparr>"
  have opn: "execution ?o = armed" "controls_of (real ?o) = Some (sample_state [approved_request] [])"
    "late_failure (real ?o) = []" "calls (real ?o) = []" "journal (real ?o) = journal (real sample_placing)"
    "active_real ?o = Some \<lparr>active_row = sample_placed_row, marked = False, ack_evidence = [], seen_modifications = []\<rparr>"
    by (simp_all add: open_active_def approved_service_fields)
  have ready: "on_real (ready sample_world ''ready2'') ?o = (ok, ?o)"
    using opn(3,5) approved_marked(1) by (simp add: on_real_def ready_def on_journal_def approved_world)
  obtain rc relock t a where sent: "dispatch_write approval_config True sample_world sample_gateway ''place_order'' ?q (Some ?a) ?o =
      (Inr (rc, relock), t)"
    "calls (real t) = [(''op1'', approved_merged)]" "late_failure (real t) = []" "active_real t = Some a" "marked a"
    using opn by (rule approved_sent)
  have "prepare_write approval_config sample_world sample_gateway ''place_order'' approved_fixed 7 (Some approved_operation) ?o = (Inr (?q, Some ?a), ?o)"
    using approved_prepared [OF opn(1)] by (simp add: prepare_write_def classified_Inr)
  then have "real_method approval_config True sample_world sample_gateway ''place_order'' approved_fixed 7 (Some approved_operation) ?o =
      (Inr (with_routing rc 7 relock), t)"
    using sent(1) by (simp add: real_method_def bindS_Inr)
  then have phase: "approved_placement = (case conclude sample_world sample_placed_row a (Inr (with_routing rc 7 relock)) t of
      (x, s) \<Rightarrow> (x, s\<lparr>active_real := None\<rparr>))"
    using ready sent(4) by (simp add: approved_placement_def real_dispatch_phase_def bindS_def classified_def not_sent_def)
  obtain x u where c: "conclude sample_world sample_placed_row a (Inr (with_routing rc 7 relock)) t = (x, u)" by fastforce
  have "method_reports (reply sample_world) (Inr (with_routing rc 7 relock))" by (simp add: method_reports_def approved_world)
  with c sent(5) have "kept (real t) (real u)" using sent(3) by (rule conclude_marked)
  then have "map fst (calls (real (u\<lparr>active_real := None\<rparr>))) = [''op1'']" using sent(2) by (simp add: kept_def quiet_def)
  then show ?thesis unfolding phase c prod.case snd_conv .
qed

theorem approved_order_is_the_reviewed_one_witness:
  "\<exists>merged c q expected contract. calls (real (snd approved_placement)) = [(''op1'', merged)]
    \<and> controls_of (real (snd approved_placement)) = Some c \<and> find_prepared ''r1'' (tables c) = Some q \<and> status q = CONSUMED
    \<and> reviewed_contract q = Inr expected \<and> py_eq expected contract"
proof -
  let ?t = "snd approved_placement"
  have "calls (real ?t) \<noteq> calls (real approved_service)" using approved_placement_made approved_service_fields(5) by auto
  moreover have "require_approval (policy approval_config)" by (simp add: approval_config_def)
  moreover have "operation_id (row sample_placed_row) = ''op1''" "active_approval approved_operation = Some ''r1''"
    using approved_marked(6) by (simp_all add: approved_operation_def)
  ultimately show ?thesis
    using approved_order_is_the_reviewed_one [OF prod.collapse [symmetric], of approval_config True sample_world sample_gateway
        sample_place sample_placed_row PLACE 7 "Some approved_operation" approved_service, folded approved_placement_def]
      approved_service_fields(5) by fastforce
qed

end
