(* ===== verification/Spec2Isabelle.thy ===== *)
theory Spec2Isabelle
  imports Client_Authorization Validation Trading_Policy Journal_Runs Order_Errors Rate_Limit
    Query_Snapshots Execution_Identity Instrument_Rules Control_Runs Serialization Recovery_Runs
    Journal_Ledger Real_Safety Real_Recovery_Runs Dispatch_Runs Settings
    Trade_Events Supervisor Admission_Runs Approved_Orders
begin

text \<open>
  A verification library of the moomoo MCP server (\<open>src/src/moomoo_mcp\<close>): a process that lets agents read
  market and account data and place orders through a broker's gateway. What it must get right is on the way of
  an order: who may ask for it, whether the policy, the budget and an operator allow it, that it is journalled
  before it is sent, that it is sent at most once, and that whatever happens the caller is told the truth. The
  library models that path and the data structures around it, and proves the properties of each part and of
  their composition.

  \<^bold>\<open>Parts of the program and their theories.\<close>

  \<^item> \<open>Prelude\<close>, \<open>Py_Float\<close>, \<open>Py_Values\<close>, \<open>Py_Json\<close>, \<open>Py_Date\<close>: what the code uses of Python. Exceptions are the
    values \<open>Exn class text\<close> of a sum type (the texts of messages are not modelled); strings are lists of
    characters with code points below 256 and Python's predicates on them; \<open>binary64\<close> floats are rationals
    rounded to 53 bits, with infinities and NaN; decimals are sign, coefficient and exponent; JSON is written
    and read as text; tables are lists of records. The locale \<open>guarded_system\<close> (invariant of a step relation)
    is interpreted by the journal, the controls, the paper process, the REAL service, the rate limiter and the
    broker dispatcher, its extension
    \<open>refined_system\<close> (simulation by an abstract step relation) by the journal.
  \<^item> \<open>Client_Authorization\<close>: \<open>client_authorization.py\<close>. Grants of a client, its permission and account checks, and
    the filters on what it sees.
  \<^item> \<open>Validation\<close>: \<open>services/validation.py\<close>. Dates, choices, order values and required fields.
  \<^item> \<open>Trading_Policy\<close>: \<open>services/trading_policy.py\<close>. The limits read from the environment and the assessment of an
    order against them, in the code's floating point.
  \<^item> \<open>Instrument_Rules\<close>: \<open>services/instrument_rules.py\<close>. Whole quantities, price grids, sessions.
  \<^item> \<open>Execution_Identity\<close>: \<open>services/execution_identity.py\<close>. Identity tokens, the canonical text of a request and
    the comparison of two of them.
  \<^item> \<open>Execution_Store\<close>, \<open>Journal_Runs\<close>: \<open>services/execution_store.py\<close>. The journal's tables and every method of
    \<open>ExecutionStore\<close> as a function of the store, its arguments and a flag that says whether the disk works;
    then the runs of a journal, restarts included, and its properties. \<open>Journal_Ledger\<close> states what the journal
    promises as an abstract ledger of phases, and that the journal refines it.
  \<^item> \<open>Trading_Controls\<close>, \<open>Control_Runs\<close>: \<open>services/trading_controls.py\<close>. Prepared requests, decisions, reservations
    and pauses, in the same style; then the runs of the controls.
  \<^item> \<open>Dispatch_Controls\<close>: the guard of \<open>services/trade_preparation.py\<close> (\<open>mutation_context\<close> to
    \<open>confirm_dispatch_controls\<close>) that ties an order to its charge.
  \<^item> \<open>Preparation\<close>, \<open>Approved_Orders\<close>: the rest of that file. How a request is prepared for an operator: its bound
    parameters, the checks before the broker is read, the review of a placement, of a combination or of the target
    of a modification, and the stored request; then that a prepared request shows the contract of an order the
    policy accepted, and that a REAL placement sent under an approval is the order that was reviewed.
  \<^item> \<open>Order_Errors\<close>: \<open>services/order_errors.py\<close>. How an exception is classified as sent or not sent.
  \<^item> \<open>Serialization\<close>: \<open>tools/serialization.py\<close>. Identifiers as decimal text.
  \<^item> \<open>Paper_Execution\<close>, \<open>Paper_Runs\<close>: \<open>services/paper_execution.py\<close>, with \<open>pending_outcome_health\<close> of
    \<open>services/recovery.py\<close>. \<open>execute\<close> composes the phases of a simulated order from the components above; its
    runs interleave the phases of concurrent calls with recovery, operators and restarts.
  \<^item> \<open>Paper_Recovery\<close>, \<open>Recovery_Runs\<close>: \<open>services/paper_recovery.py\<close>. The worker that asks the broker what became of
    an operation: the observations, their correlation and accounting, a check and its record in the journal.
  \<^item> \<open>Trade_Orders\<close>, \<open>Real_Execution\<close>: \<open>services/real_execution.py\<close> and the order methods of \<open>services/trade_service.py\<close>.
    Accounts, legs and facts of an order; then the lifecycle of a REAL order, from the journal wrapper through
    \<open>place_order\<close>, \<open>place_combo_order\<close>, \<open>modify_order\<close> and \<open>cancel_order\<close> to \<open>_dispatch_write\<close>, which unlocks the gateway for
    one write and locks it again, and the halt that follows a failed lock.
  \<^item> \<open>Real_Runs\<close>, \<open>Real_Safety\<close>: what each part of a REAL call does to the service, the case analysis of a call, and
    the properties of its runs, with operators, locks, reconnects and restarts between the calls.
  \<^item> \<open>Real_Recovery\<close>, \<open>Real_Recovery_Runs\<close>: \<open>services/real_recovery.py\<close>. What the broker's answers say of a REAL
    operation: observations and correlation as for paper, the accounting of single and combined orders and of
    positions, the check, and the first check at the start of the process.
  \<^item> \<open>Broker_Dispatch\<close>, \<open>Dispatch_Runs\<close>: \<open>services/broker_dispatch.py\<close>. The budget of every SDK operation: pools with the
    limiters of \<open>Rate_Limit\<close>, bundles, leases that protect a mutation from the cancellation of its caller, deadlines
    and slots of reads; then the runs of the dispatcher under any interleaving of callers.
  \<^item> \<open>Admission\<close>, \<open>Admission_Runs\<close>: the writes of \<open>services/admission.py\<close> and \<open>tools/offload.py\<close>. The plan of a write,
    which names the capacity and the account it will use, the call that follows the wait, and the recovery when the
    wait is refused; then that a write sends no more than its plan, and nothing after a refusal. The gateway log
    holds writes, unlocks and locks; the snapshot and order list queries leave no event in it, and that a call needs
    no query its plan leaves out is stated as independence from the answer (\<open>answers_alike\<close>).
  \<^item> \<open>Settings\<close>: \<open>settings.py\<close>. The configuration of the process and the rules between its values.
  \<^item> \<open>Trade_Events\<close>: \<open>services/trade_events.py\<close>. The bounded buffer of pushed order and deal events, what a callback stores
    in it, expiry, and the pages a client reads on with.
  \<^item> \<open>Supervisor\<close>: \<open>supervisor.py\<close>. The parent of the gateway and the server: their command lines, the restarts of the
    gateway within their budget, the exits it collects, and shutting both down; a loop that the given clock readings
    and answers of \<open>waitpid\<close> do not end is the value \<open>None\<close>.
  \<^item> \<open>Rate_Limit\<close>: \<open>services/rate_limit.py\<close>. Reservations, pacing and the waiting queue, as rounds of the waiting loop.
  \<^item> \<open>Query_Snapshots\<close>: \<open>services/query_snapshots.py\<close>. The bounded cache of paged results.

  \<^bold>\<open>How to read the models.\<close> A definition bears the name of the code it models, or of the part of it that its
  text block names; a method takes the state and returns a result and the new state, a result being \<open>Inl\<close> of an
  exception or \<open>Inr\<close> of a value. What comes from outside is an argument: the disk (\<open>io\<close>, \<open>writable\<close>), the clock, fresh
  identifiers, SHA-256, the text and decimal of a float (\<open>float_repr\<close>, \<open>float_decimal\<close>), the constants of the SDK's
  \<open>Session\<close> and \<open>SecurityFirm\<close>, the resolution of paths, the rolling log of \<open>pyrate_limiter\<close>, and the answers of the
  gateway. The laws assumed of the rolling
  log are the predicate \<open>bucket_laws\<close>, a hypothesis of the properties of \<open>Rate_Limit\<close> and \<open>Dispatch_Runs\<close> that its witnesses discharge on
  a concrete log; nothing else is assumed.
  A lock becomes the granularity of the steps: what runs under one lock is one step, and the phases of a paper
  call under different locks are different steps of \<open>paper_step\<close>.

  \<^bold>\<open>Recursion and fuel.\<close> The recursive functions are structural, or terminate by a measure; none takes fuel. The
  waiting loop of the rate limiter is a step per round, so that a wait without end is a run of rounds.

  \<^bold>\<open>Groups of lemmas.\<close> For each stateful component: what one operation does to the tables (\<open>transaction_cases\<close>,
  \<open>admit_bodyE\<close>, \<open>consume_bodyE\<close>), the invariant and that every operation keeps it (\<open>store_ok\<close>, \<open>tables_ok\<close>,
  \<open>paper_ok\<close>), how rows move (\<open>moves_on\<close>, \<open>advances\<close>), and the properties over runs. For the paper lifecycle: the
  steps that start no broker call (\<open>quiet\<close>, \<open>steady\<close>, \<open>kept\<close>) and the case analysis of a dispatch and of a call; for
  the REAL lifecycle likewise (\<open>silent\<close>, \<open>calm\<close>, \<open>opened\<close>, \<open>real_execute_cases\<close>, \<open>real_execute_sent\<close>), and what a
  request to the broker stands for (\<open>facts_of_request\<close>). For arithmetic: exactness of decimal sums, monotonicity and relative error of rounding, grids.

  \<^bold>\<open>Not modelled.\<close> The MCP surface (\<open>server.py\<close>, \<open>agent_server.py\<close>, \<open>tools\<close>), the health probe
  (\<open>health.py\<close>), the build identity, the market data service and the account, deal and history queries of the trade
  service, which pass their arguments to the SDK and its tables back, and the scripts and deployment files are
  adapters around the SDK, HTTP and pandas. Of the trade service, the connection threads and probes
  are not modelled, of its previews what a review for an operator shows is. Of the admission plans (\<open>admission.py\<close>) those of reads,
  market data and previews are not modelled: they name the budgets of calls that change nothing.
\<close>

end
